(* ===== verification/Prelude.thy ===== *)
theory Prelude
  imports Main "HOL-Library.Char_ord" "HOL-Library.List_Lexorder"
begin

text \<open>
  Shared vocabulary of the development.

  \<^item> Results: a Python call that may raise is a value of \<open>'e + 'a\<close>, \<open>Inl\<close> for the exception and
    \<open>Inr\<close> for the returned value; \<open>bindE\<close> sequences two of them and \<open>traverseE\<close> is the \<open>for\<close>
    loop that stops at the first exception.
  \<^item> Dictionaries: a Python \<open>dict\<close> keeps insertion order and has one entry per key, so it is an
    association list with the operations \<open>dget\<close>, \<open>dset\<close>, \<open>ddel\<close>; \<open>dwf\<close> says that the keys are
    distinct.
  \<^item> Tables: an SQL table is the list of its rows; \<open>update_where\<close> and \<open>delete_where\<close> are the
    statements the sources run, \<open>upsert_by\<close> is \<open>insert ... on conflict do update\<close>.
  \<^item> The interface locale \<open>keyed_store\<close> states what a lookup returns after an insert or a delete.
    It is interpreted on the dictionary operations here and on the login bucket table in the
    theory of the authentication store.
\<close>

named_theorems store_laws \<open>what a lookup returns after an insert, an update or a delete\<close>
named_theorems result_simps \<open>computation rules of the exception monad\<close>

section \<open>Results\<close>

fun bindE :: "'e + 'a \<Rightarrow> ('a \<Rightarrow> 'e + 'b) \<Rightarrow> 'e + 'b" where
  "bindE (Inl e) f = Inl e"
| "bindE (Inr x) f = f x"

definition mapE :: "('a \<Rightarrow> 'b) \<Rightarrow> 'e + 'a \<Rightarrow> 'e + 'b" where
  "mapE f r = bindE r (\<lambda>x. Inr (f x))"

fun traverseE :: "('a \<Rightarrow> 'e + 'b) \<Rightarrow> 'a list \<Rightarrow> 'e + 'b list" where
  "traverseE f [] = Inr []"
| "traverseE f (x # xs) = bindE (f x) (\<lambda>y. bindE (traverseE f xs) (\<lambda>ys. Inr (y # ys)))"

definition isInr :: "'e + 'a \<Rightarrow> bool" where
  "isInr r = (case r of Inl _ \<Rightarrow> False | Inr _ \<Rightarrow> True)"

lemma bindE_Inr_iff [result_simps]: "bindE r f = Inr y \<longleftrightarrow> (\<exists>x. r = Inr x \<and> f x = Inr y)"
  by (cases r) auto

lemma bindE_Inl_iff [result_simps]:
  "bindE r f = Inl e \<longleftrightarrow> r = Inl e \<or> (\<exists>x. r = Inr x \<and> f x = Inl e)"
  by (cases r) auto

lemma bindE_assoc: "bindE (bindE r f) g = bindE r (\<lambda>x. bindE (f x) g)"
  by (cases r) auto

lemma isInr_simps [simp]: "isInr (Inr x)" "\<not> isInr (Inl e)"
  by (simp_all add: isInr_def)

lemma isInr_iff: "isInr r \<longleftrightarrow> (\<exists>x. r = Inr x)"
  by (cases r) auto

lemma mapE_simps [simp]: "mapE f (Inr x) = Inr (f x)" "mapE f (Inl e) = Inl e"
  by (simp_all add: mapE_def)

lemma traverseE_length: "traverseE f xs = Inr ys \<Longrightarrow> length ys = length xs"
  by (induction xs arbitrary: ys) (auto simp: result_simps)

section \<open>Dictionaries\<close>

fun dget :: "('k \<times> 'v) list \<Rightarrow> 'k \<Rightarrow> 'v option" where
  "dget [] k = None"
| "dget ((k', v) # m) k = (if k' = k then Some v else dget m k)"

fun dset :: "'k \<Rightarrow> 'v \<Rightarrow> ('k \<times> 'v) list \<Rightarrow> ('k \<times> 'v) list" where
  "dset k v [] = [(k, v)]"
| "dset k v ((k', v') # m) = (if k' = k then (k, v) # m else (k', v') # dset k v m)"

fun ddel :: "'k \<Rightarrow> ('k \<times> 'v) list \<Rightarrow> ('k \<times> 'v) list" where
  "ddel k [] = []"
| "ddel k ((k', v') # m) = (if k' = k then ddel k m else (k', v') # ddel k m)"

definition dkeys :: "('k \<times> 'v) list \<Rightarrow> 'k list" where
  "dkeys m = map fst m"

definition dhas :: "('k \<times> 'v) list \<Rightarrow> 'k \<Rightarrow> bool" where
  "dhas m k = (k \<in> set (dkeys m))"

definition dwf :: "('k \<times> 'v) list \<Rightarrow> bool" where
  "dwf m = distinct (dkeys m)"

definition dupdate :: "('k \<times> 'v) list \<Rightarrow> ('k \<times> 'v) list \<Rightarrow> ('k \<times> 'v) list" where
  "dupdate m n = fold (\<lambda>(k, v) acc. dset k v acc) n m"

lemma dkeys_simps [simp]: "dkeys [] = []" "dkeys ((k, v) # m) = k # dkeys m"
  by (simp_all add: dkeys_def)

lemma dget_dset [simp, store_laws]: "dget (dset k v m) k' = (if k' = k then Some v else dget m k')"
  by (induction m) auto

lemma dget_ddel [simp, store_laws]: "dget (ddel k m) k' = (if k' = k then None else dget m k')"
  by (induction m) auto

lemma dget_None_iff: "dget m k = None \<longleftrightarrow> \<not> dhas m k"
  by (induction m) (auto simp: dhas_def split: if_splits)

lemma dget_Some_in: "dget m k = Some v \<Longrightarrow> (k, v) \<in> set m"
  by (induction m) (auto split: if_splits)

lemma set_dkeys_dset [simp]: "set (dkeys (dset k v m)) = insert k (set (dkeys m))"
  by (induction m) (auto split: if_splits)

lemma dkeys_ddel: "dkeys (ddel k m) = filter (\<lambda>k'. k' \<noteq> k) (dkeys m)"
proof (induction m)
  case Nil
  then show ?case by simp
next
  case (Cons p m)
  then show ?case by (cases p) simp
qed

lemma set_dkeys_ddel [simp]: "set (dkeys (ddel k m)) = set (dkeys m) - {k}"
  by (auto simp: dkeys_ddel)

lemma dhas_dset [simp]: "dhas (dset k v m) k' \<longleftrightarrow> k' = k \<or> dhas m k'"
  by (auto simp: dhas_def)

lemma dhas_ddel [simp]: "dhas (ddel k m) k' \<longleftrightarrow> k' \<noteq> k \<and> dhas m k'"
  by (auto simp: dhas_def)

lemma dwf_Nil [simp]: "dwf []"
  by (simp add: dwf_def)

lemma dkeys_dset: "dkeys (dset k v m) = (if dhas m k then dkeys m else dkeys m @ [k])"
  by (induction m) (auto simp: dhas_def split: if_splits)

lemma dwf_dset [simp, intro]: "dwf m \<Longrightarrow> dwf (dset k v m)"
  by (simp add: dwf_def dkeys_dset dhas_def)

lemma dwf_ddel [simp, intro]: "dwf m \<Longrightarrow> dwf (ddel k m)"
  by (simp add: dwf_def dkeys_ddel)

lemma dset_fresh: "\<not> dhas m k \<Longrightarrow> dset k v m = m @ [(k, v)]"
  by (induction m) (auto simp: dhas_def)

lemma dkeys_append [simp]: "dkeys (m @ n) = dkeys m @ dkeys n"
  by (simp add: dkeys_def)

lemma dget_mem: "dwf m \<Longrightarrow> (k, v) \<in> set m \<Longrightarrow> dget m k = Some v"
  by (induction m) (auto simp: dwf_def dkeys_def rev_image_eqI)

lemma dict_ext:
  assumes "dwf m" "dkeys m = dkeys n" "\<And>k. k \<in> set (dkeys m) \<Longrightarrow> dget m k = dget n k"
  shows "m = n"
proof -
  have "map (dget m) (dkeys m) = map Some (map snd m)" if "dwf m" for m :: "('a \<times> 'b) list"
    using that by (auto simp: dkeys_def intro: dget_mem)
  from this [of m] this [of n] have "map Some (map snd m) = map Some (map snd n)"
    using assms by (metis (no_types, lifting) dwf_def map_eq_conv)
  then have "map snd m = map snd n"
    by (metis inj_Some map_injective)
  with assms(2) show ?thesis
    unfolding dkeys_def by (metis zip_map_fst_snd)
qed

section \<open>The interface of a keyed store\<close>

text \<open>
  What a client may rely on when it keeps one record per key: a lookup after an insert or a
  delete, and the invariant the operations keep.
\<close>

locale keyed_store =
  fixes find :: "'m \<Rightarrow> 'k \<Rightarrow> 'v option"
    and put :: "'k \<Rightarrow> 'v \<Rightarrow> 'm \<Rightarrow> 'm"
    and drop_key :: "'k \<Rightarrow> 'm \<Rightarrow> 'm"
    and inv :: "'m \<Rightarrow> bool"
  assumes find_put: "inv m \<Longrightarrow> find (put k v m) k' = (if k' = k then Some v else find m k')"
    and find_drop: "inv m \<Longrightarrow> find (drop_key k m) k' = (if k' = k then None else find m k')"
    and inv_put: "inv m \<Longrightarrow> inv (put k v m)"
    and inv_drop: "inv m \<Longrightarrow> inv (drop_key k m)"
begin

definition modify :: "'k \<Rightarrow> ('v option \<Rightarrow> 'v) \<Rightarrow> 'm \<Rightarrow> 'm" where
  "modify k f m = put k (f (find m k)) m"

lemma modify_hit: "inv m \<Longrightarrow> find (modify k f m) k = Some (f (find m k))"
  by (simp add: modify_def find_put)

lemma modify_frame: "inv m \<Longrightarrow> k' \<noteq> k \<Longrightarrow> find (modify k f m) k' = find m k'"
  by (simp add: modify_def find_put)

lemma put_put: "inv m \<Longrightarrow> find (put k w (put k v m)) k' = find (put k w m) k'"
  by (simp add: find_put inv_put)

lemma drop_put: "inv m \<Longrightarrow> find m k = None \<Longrightarrow> find (drop_key k (put k v m)) k' = find m k'"
  by (simp add: find_put find_drop inv_put)

lemma put_many_find:
  "inv m \<Longrightarrow> k \<notin> fst ` set kvs \<Longrightarrow> find (fold (\<lambda>(k, v). put k v) kvs m) k = find m k"
  by (induction kvs arbitrary: m) (auto simp: find_put inv_put)

end

interpretation pydict: keyed_store dget dset ddel "\<lambda>_. True"
  by unfold_locales auto

lemma dupdate_frame: "k \<notin> set (dkeys n) \<Longrightarrow> dget (dupdate m n) k = dget m k"
  using pydict.put_many_find [of k n m] by (simp add: dupdate_def dkeys_def)

lemma dwf_dupdate [intro]: "dwf m \<Longrightarrow> dwf (dupdate m n)"
  unfolding dupdate_def by (induction n arbitrary: m) auto

section \<open>Tables\<close>

definition update_where :: "('r \<Rightarrow> bool) \<Rightarrow> ('r \<Rightarrow> 'r) \<Rightarrow> 'r list \<Rightarrow> 'r list" where
  "update_where p f rows = map (\<lambda>r. if p r then f r else r) rows"

definition delete_where :: "('r \<Rightarrow> bool) \<Rightarrow> 'r list \<Rightarrow> 'r list" where
  "delete_where p rows = filter (\<lambda>r. \<not> p r) rows"

definition count_where :: "('r \<Rightarrow> bool) \<Rightarrow> 'r list \<Rightarrow> nat" where
  "count_where p rows = length (filter p rows)"

fun upsert_by :: "('r \<Rightarrow> 'k) \<Rightarrow> 'r \<Rightarrow> 'r list \<Rightarrow> 'r list" where
  "upsert_by key r [] = [r]"
| "upsert_by key r (s # rows) =
     (if key s = key r then r # rows else s # upsert_by key r rows)"

definition key_unique :: "('r \<Rightarrow> 'k) \<Rightarrow> 'r list \<Rightarrow> bool" where
  "key_unique key rows = distinct (map key rows)"

lemma length_update_where [simp]: "length (update_where p f rows) = length rows"
  by (simp add: update_where_def)

lemma set_update_where:
  "set (update_where p f rows) = {f r | r. r \<in> set rows \<and> p r} \<union> {r \<in> set rows. \<not> p r}"
  by (auto simp: update_where_def)

lemma set_delete_where [simp]: "set (delete_where p rows) = {r \<in> set rows. \<not> p r}"
  by (auto simp: delete_where_def)

lemma count_where_Nil [simp]: "count_where p [] = 0"
  by (simp add: count_where_def)

lemma count_where_Cons [simp]:
  "count_where p (r # rows) = (if p r then 1 else 0) + count_where p rows"
  by (simp add: count_where_def)

lemma count_where_append [simp]:
  "count_where p (xs @ ys) = count_where p xs + count_where p ys"
  by (simp add: count_where_def)

lemma count_where_delete_le: "count_where p (delete_where q rows) \<le> count_where p rows"
  by (induction rows) (auto simp: delete_where_def)

lemma count_where_le_length: "count_where p rows \<le> length rows"
  by (simp add: count_where_def)

lemma count_where_mono: "(\<And>r. r \<in> set rows \<Longrightarrow> p r \<Longrightarrow> q r) \<Longrightarrow> count_where p rows \<le> count_where q rows"
  by (induction rows) auto

lemma count_where_cong: "(\<And>r. r \<in> set rows \<Longrightarrow> p r = q r) \<Longrightarrow> count_where p rows = count_where q rows"
  by (induction rows) auto

lemma count_where_0: "(\<And>r. r \<in> set rows \<Longrightarrow> \<not> p r) \<Longrightarrow> count_where p rows = 0"
  by (induction rows) auto

lemma count_where_zero: "count_where p rows = 0 \<longleftrightarrow> (\<forall>r \<in> set rows. \<not> p r)"
  by (simp add: count_where_def filter_empty_conv)

lemma map_key_update_where:
  "(\<And>r. key (f r) = key r) \<Longrightarrow> map key (update_where p f rows) = map key rows"
  by (simp add: update_where_def)

lemma key_unique_update_where [intro]:
  "key_unique key rows \<Longrightarrow> (\<And>r. key (f r) = key r) \<Longrightarrow> key_unique key (update_where p f rows)"
  unfolding key_unique_def by (subst map_key_update_where) auto

lemma key_unique_delete_where [intro]: "key_unique key rows \<Longrightarrow> key_unique key (delete_where p rows)"
  by (simp add: key_unique_def delete_where_def distinct_map_filter)

lemma key_unique_inj: "key_unique key rows \<Longrightarrow> r \<in> set rows \<Longrightarrow> s \<in> set rows \<Longrightarrow> key r = key s \<Longrightarrow> r = s"
  by (auto simp: key_unique_def distinct_map inj_on_def)

lemma map_key_upsert:
  "map key (upsert_by key r rows) =
     (if key r \<in> key ` set rows then map key rows else map key rows @ [key r])"
  by (induction rows) auto

lemma key_unique_upsert [intro]: "key_unique key rows \<Longrightarrow> key_unique key (upsert_by key r rows)"
  by (auto simp: key_unique_def map_key_upsert)

lemma find_upsert [simp, store_laws]:
  "List.find (\<lambda>s. key s = k) (upsert_by key r rows) =
     (if k = key r then Some r else List.find (\<lambda>s. key s = k) rows)"
  by (induction rows) auto

lemma find_delete_where:
  "(\<And>r. key r = k \<Longrightarrow> \<not> p r) \<Longrightarrow>
   List.find (\<lambda>s. key s = k) (delete_where p rows) = List.find (\<lambda>s. key s = k) rows"
  by (induction rows) (auto simp: delete_where_def)

lemma find_None_delete:
  "List.find (\<lambda>s. key s = k) (delete_where (\<lambda>s. key s = k) rows) = None"
  by (auto simp: find_None_iff)

lemma find_eq_first_filter: "List.find p xs = (case filter p xs of [] \<Rightarrow> None | x # _ \<Rightarrow> Some x)"
  by (induction xs) auto

section \<open>Lists\<close>

lemma length_filter_take_le: "length (filter p (take n xs)) \<le> length (filter p xs)"
  by (metis append_take_drop_id filter_append le_add1 length_append)

lemma distinct_map_take: "distinct (map f xs) \<Longrightarrow> distinct (map f (take n xs))"
  by (metis distinct_take take_map)

definition tally :: "'a \<Rightarrow> ('a \<times> nat) list \<Rightarrow> ('a \<times> nat) list" where
  "tally k m = dset k (case dget m k of None \<Rightarrow> 1 | Some n \<Rightarrow> n + 1) m"

definition tallies :: "'a list \<Rightarrow> ('a \<times> nat) list" where
  "tallies ks = fold tally ks []"

lemma dget_tally:
  "dget (tally a m) k =
     (if k = a then Some ((case dget m a of None \<Rightarrow> 0 | Some n \<Rightarrow> n) + 1) else dget m k)"
  by (simp add: tally_def split: option.splits)

lemma dget_fold_tally:
  "dget (fold tally ks m) k =
     (if k \<in> set ks then Some (count_list ks k + (case dget m k of None \<Rightarrow> 0 | Some n \<Rightarrow> n))
      else dget m k)"
  by (induction ks arbitrary: m) (auto simp: dget_tally count_list_0_iff split: option.splits)

lemma dget_tallies: "dget (tallies ks) k = (if k \<in> set ks then Some (count_list ks k) else None)"
  by (simp add: tallies_def dget_fold_tally)

end
