(* ===== verification/Py.thy ===== *)
theory Py
  imports Prelude Complex_Main
begin

text \<open>
  The part of Python and its standard library that the modelled code uses.

  \<^item> Strings are \<open>char list\<close>: one \<open>char\<close> stands for one code point below 256, and the case and
    white-space functions are Python's on that range.
  \<^item> \<open>flt\<close> is a Python float: the exact rational number it denotes, an infinity, or NaN, with
    Python's comparisons (every comparison with NaN is false). Rounding of arithmetic results to 53
    bits is not modelled.
  \<^item> \<open>pyval\<close> is a JSON-shaped Python object, the type of the payload dictionaries that cross module
    boundaries in the sources.
  \<^item> \<open>int_of\<close> and \<open>float_of\<close> are the constructors \<open>int(x)\<close> and \<open>float(x)\<close> with their exceptions.
\<close>

named_theorems py_defs \<open>definitions of the Python primitives\<close>

datatype py_exn =
    ValueError
  | TypeError
  | OverflowError
  | KeyError
  | AttributeError
  | IndexError

section \<open>Characters and strings\<close>

definition code :: "char \<Rightarrow> nat" where
  "code c = of_char c"

definition is_space :: "char \<Rightarrow> bool" where
  "is_space c = (let n = code c in
     (9 \<le> n \<and> n \<le> 13) \<or> (28 \<le> n \<and> n \<le> 32) \<or> n = 133 \<or> n = 160)"

definition is_digit :: "char \<Rightarrow> bool" where
  "is_digit c = (48 \<le> code c \<and> code c \<le> 57)"

definition digit_value :: "char \<Rightarrow> nat" where
  "digit_value c = code c - 48"

definition digit_char :: "nat \<Rightarrow> char" where
  "digit_char d = char_of (48 + d)"

definition is_upper :: "char \<Rightarrow> bool" where
  "is_upper c = (let n = code c in (65 \<le> n \<and> n \<le> 90) \<or> (192 \<le> n \<and> n \<le> 222 \<and> n \<noteq> 215))"

definition lower_char :: "char \<Rightarrow> char" where
  "lower_char c = (if is_upper c then char_of (code c + 32) else c)"

definition lower :: "string \<Rightarrow> string" where
  "lower s = map lower_char s"

definition lstrip :: "(char \<Rightarrow> bool) \<Rightarrow> string \<Rightarrow> string" where
  "lstrip p s = dropWhile p s"

definition strip_of :: "(char \<Rightarrow> bool) \<Rightarrow> string \<Rightarrow> string" where
  "strip_of p s = rev (dropWhile p (rev (dropWhile p s)))"

definition strip :: "string \<Rightarrow> string" where
  "strip s = strip_of is_space s"

fun starts_with :: "string \<Rightarrow> string \<Rightarrow> bool" where
  "starts_with s [] = True"
| "starts_with [] (c # cs) = False"
| "starts_with (a # s) (c # cs) = (a = c \<and> starts_with s cs)"

definition ends_with :: "string \<Rightarrow> string \<Rightarrow> bool" where
  "ends_with s t = starts_with (rev s) (rev t)"

fun contains :: "string \<Rightarrow> string \<Rightarrow> bool" where
  "contains [] t = (t = [])"
| "contains (c # s) t = (starts_with (c # s) t \<or> contains s t)"

definition contains_any :: "string \<Rightarrow> string list \<Rightarrow> bool" where
  "contains_any s ts = list_ex (contains s) ts"

definition replace_char :: "char \<Rightarrow> char list \<Rightarrow> string \<Rightarrow> string" where
  "replace_char a new s = concat (map (\<lambda>c. if c = a then new else [c]) s)"

fun split_on :: "char \<Rightarrow> string \<Rightarrow> string list" where
  "split_on a [] = [[]]"
| "split_on a (c # s) =
     (if c = a then [] # split_on a s
      else (case split_on a s of [] \<Rightarrow> [[c]] | w # ws \<Rightarrow> (c # w) # ws))"

fun join :: "string \<Rightarrow> string list \<Rightarrow> string" where
  "join sep [] = []"
| "join sep [w] = w"
| "join sep (w # ws) = w @ sep @ join sep ws"

definition is_alnum :: "char \<Rightarrow> bool" where
  "is_alnum c = (is_digit c \<or> (let n = code c in
     (65 \<le> n \<and> n \<le> 90) \<or> (97 \<le> n \<and> n \<le> 122) \<or> n = 170 \<or> n = 178 \<or> n = 179 \<or> n = 181
     \<or> n = 185 \<or> n = 186 \<or> (188 \<le> n \<and> n \<le> 190)
     \<or> (192 \<le> n \<and> n \<noteq> 215 \<and> n \<noteq> 247)))"

lemma lower_Nil_iff [simp]: "lower s = [] \<longleftrightarrow> s = []"
  by (simp add: lower_def)

lemma lower_Nil [simp]: "lower [] = []"
  by (simp add: lower_def)

lemma length_lower [simp]: "length (lower s) = length s"
  by (simp add: lower_def)

lemma code_char_of: "n < 256 \<Longrightarrow> code (char_of n) = n"
  by (simp add: code_def)

lemma lower_char_idem [simp]: "lower_char (lower_char c) = lower_char c"
proof -
  have "is_upper c \<Longrightarrow> \<not> is_upper (char_of (code c + 32))"
    by (auto simp: is_upper_def Let_def code_char_of)
  then show ?thesis by (simp add: lower_char_def)
qed

lemma lower_idem [simp]: "lower (lower s) = lower s"
  by (simp add: lower_def)

lemma is_space_lower [simp]: "is_space (lower_char c) = is_space c"
proof (cases "is_upper c")
  case True
  then have "65 \<le> code c" "code c \<le> 222" "code c < 91 \<or> 192 \<le> code c"
    by (auto simp: is_upper_def Let_def)
  then show ?thesis
    using True by (auto simp: lower_char_def is_space_def Let_def code_char_of)
next
  case False
  then show ?thesis by (simp add: lower_char_def)
qed

lemma dropWhile_map_inv: "(\<And>x. p (f x) = p x) \<Longrightarrow> dropWhile p (map f xs) = map f (dropWhile p xs)"
  by (induction xs) auto

lemma strip_lower: "strip (lower s) = lower (strip s)"
  by (simp add: strip_def strip_of_def lower_def rev_map dropWhile_map_inv)

lemma hd_dropWhile_not: "dropWhile p xs \<noteq> [] \<Longrightarrow> \<not> p (hd (dropWhile p xs))"
  by (rule hd_dropWhile)

lemma dropWhile_keep: "xs = [] \<or> \<not> p (hd xs) \<Longrightarrow> dropWhile p xs = xs"
  by (cases xs) auto

lemma hd_rev_dropWhile_rev:
  assumes "rev (dropWhile p (rev ys)) \<noteq> []"
  shows "hd (rev (dropWhile p (rev ys))) = hd ys"
proof -
  let ?zs = "rev (dropWhile p (rev ys))"
  have "ys = ?zs @ rev (takeWhile p (rev ys))"
    by (metis rev_append rev_rev_ident takeWhile_dropWhile_id)
  then show ?thesis
    using assms by (metis hd_append2)
qed

lemma strip_of_idem [simp]: "strip_of p (strip_of p s) = strip_of p s"
proof -
  let ?a = "dropWhile p s"
  let ?b = "rev (dropWhile p (rev ?a))"
  have "?b = [] \<or> \<not> p (hd ?b)"
  proof (cases "?b = []")
    case False
    then have "hd ?b = hd ?a"
      by (rule hd_rev_dropWhile_rev)
    moreover have "?a \<noteq> []"
      using False by (metis dropWhile.simps(1) rev.simps(1))
    ultimately show ?thesis by (metis hd_dropWhile)
  qed simp
  then have "dropWhile p ?b = ?b" by (rule dropWhile_keep)
  moreover have "dropWhile p (dropWhile p (rev ?a)) = dropWhile p (rev ?a)"
    by (rule dropWhile_keep) (metis hd_dropWhile)
  ultimately show ?thesis by (simp add: strip_of_def)
qed

lemma strip_idem [simp]: "strip (strip s) = strip s"
  by (simp add: strip_def)

lemma strip_Nil [simp]: "strip [] = []"
  by (simp add: strip_def strip_of_def)

lemma set_strip: "set (strip s) \<subseteq> set s"
  unfolding strip_def strip_of_def
  by (metis set_dropWhileD set_rev subsetI)

lemma starts_with_append: "starts_with s t \<longleftrightarrow> (\<exists>u. s = t @ u)"
  by (induction s t rule: starts_with.induct) auto

lemma contains_sublist: "contains (u @ t @ v) t"
proof (induction u)
  case Nil
  have "starts_with (t @ v) t" by (auto simp: starts_with_append)
  then show ?case by (cases "t @ v") auto
next
  case (Cons c u)
  then show ?case by simp
qed

lemma sublist_contains: "contains s t \<Longrightarrow> \<exists>u v. s = u @ t @ v"
proof (induction s)
  case Nil
  then show ?case by simp
next
  case (Cons c s)
  show ?case
  proof (cases "starts_with (c # s) t")
    case True
    then obtain v where "c # s = [] @ t @ v" by (auto simp: starts_with_append)
    then show ?thesis by blast
  next
    case False
    with Cons obtain u v where "c # s = (c # u) @ t @ v" by auto
    then show ?thesis by blast
  qed
qed

lemma contains_iff: "contains s t \<longleftrightarrow> (\<exists>u v. s = u @ t @ v)"
  using contains_sublist sublist_contains by blast

section \<open>Numbers in text\<close>

fun nat_str :: "nat \<Rightarrow> string" where
  "nat_str n = (if n < 10 then [digit_char n] else nat_str (n div 10) @ [digit_char (n mod 10)])"

declare nat_str.simps [simp del]

definition int_str :: "int \<Rightarrow> string" where
  "int_str i = (if i < 0 then CHR ''-'' # nat_str (nat (- i)) else nat_str (nat i))"

text \<open>\<open>int(text)\<close>: digits with single underscores between them.\<close>

fun int_digits :: "bool \<Rightarrow> nat \<Rightarrow> string \<Rightarrow> nat option" where
  "int_digits seen acc [] = (if seen then Some acc else None)"
| "int_digits seen acc (c # cs) =
     (if is_digit c then int_digits True (acc * 10 + digit_value c) cs
      else if c = CHR ''_'' \<and> seen then int_digits False acc cs
      else None)"

definition signed :: "(string \<Rightarrow> 'a option) \<Rightarrow> ('a \<Rightarrow> 'a) \<Rightarrow> string \<Rightarrow> 'a option" where
  "signed f neg s =
     (case s of
        [] \<Rightarrow> f []
      | c # cs \<Rightarrow> if c = CHR ''-'' then map_option neg (f cs)
                  else if c = CHR ''+'' then f cs else f (c # cs))"

definition parse_int :: "string \<Rightarrow> int option" where
  "parse_int s = signed (\<lambda>t. map_option int (int_digits False 0 t)) uminus (strip s)"

lemma digit_char_digit: "d < 10 \<Longrightarrow> is_digit (digit_char d) \<and> digit_value (digit_char d) = d"
  by (simp add: is_digit_def digit_value_def digit_char_def code_char_of)

lemma nat_str_digits: "set (nat_str n) \<subseteq> {c. is_digit c}"
proof (induction n rule: nat_str.induct)
  case (1 n)
  have m: "n mod 10 < 10" by simp
  show ?case
    using 1 by (subst nat_str.simps) (auto simp: digit_char_digit digit_char_digit [OF m])
qed

lemma nat_str_nonempty [simp]: "nat_str n \<noteq> []"
  by (subst nat_str.simps) simp

lemma int_digits_append_digit:
  "set xs \<subseteq> {c. is_digit c} \<Longrightarrow> is_digit c \<Longrightarrow>
   int_digits b a (xs @ [c]) = (case int_digits True a xs of None \<Rightarrow> None
      | Some n \<Rightarrow> Some (n * 10 + digit_value c))"
  by (induction xs arbitrary: a b) auto

lemma int_digits_nat_str: "int_digits b 0 (nat_str n) = Some n"
proof (induction n arbitrary: b rule: nat_str.induct)
  case (1 n)
  have m: "n mod 10 < 10" by simp
  show ?case
  proof (cases "n < 10")
    case True
    then show ?thesis by (subst nat_str.simps) (simp add: digit_char_digit)
  next
    case False
    then have "int_digits b 0 (nat_str n) =
        int_digits b 0 (nat_str (n div 10) @ [digit_char (n mod 10)])"
      by (subst nat_str.simps) simp
    also have "\<dots> = Some (n div 10 * 10 + n mod 10)"
      using 1 [OF False, of True] int_digits_append_digit [OF nat_str_digits] digit_char_digit [OF m]
      by simp
    finally show ?thesis by simp
  qed
qed

lemma not_space_digit: "is_digit c \<Longrightarrow> \<not> is_space c"
  by (auto simp: is_digit_def is_space_def Let_def)

lemma strip_of_nop:
  assumes "\<And>c. c \<in> set s \<Longrightarrow> \<not> p c"
  shows "strip_of p s = s"
proof -
  have "dropWhile p s = s"
    by (rule dropWhile_keep) (metis assms hd_in_set)
  moreover have "dropWhile p (rev s) = rev s"
    by (rule dropWhile_keep) (metis assms hd_in_set set_rev)
  ultimately show ?thesis by (simp add: strip_of_def)
qed

lemma set_int_str: "set (int_str i) \<subseteq> insert CHR ''-'' {c. is_digit c}"
  using nat_str_digits by (auto simp: int_str_def split: if_splits)

lemma int_str_nonempty [simp]: "int_str i \<noteq> []"
  by (simp add: int_str_def)

lemma int_str_char: "c \<in> set (int_str i) \<Longrightarrow> c = CHR ''-'' \<or> is_digit c"
  using set_int_str by blast

lemma strip_int_str: "strip (int_str i) = int_str i"
  unfolding strip_def
  by (rule strip_of_nop)
     (use int_str_char not_space_digit in \<open>force simp: is_space_def Let_def code_def\<close>)

lemma signed_nat_str: "signed f neg (nat_str n) = f (nat_str n)"
proof -
  obtain c cs where s: "nat_str n = c # cs"
    using nat_str_nonempty [of n] by (cases "nat_str n") auto
  then have "is_digit c" using nat_str_digits [of n] by auto
  then have "c \<noteq> CHR ''-''" "c \<noteq> CHR ''+''"
    by (auto simp: is_digit_def code_def)
  then show ?thesis by (simp add: s signed_def)
qed

lemma signed_int_str:
  "signed (\<lambda>t. map_option int (int_digits False 0 t)) uminus (int_str i) = Some i"
proof (cases "i < 0")
  case True
  then show ?thesis
    by (simp add: int_str_def signed_def int_digits_nat_str)
next
  case False
  then show ?thesis
    by (simp add: int_str_def signed_nat_str int_digits_nat_str)
qed

lemma parse_int_str [simp]: "parse_int (int_str i) = Some i"
  by (simp add: parse_int_def strip_int_str signed_int_str)

section \<open>Floats\<close>

datatype flt = Fin rat | PosInf | NegInf | NaN

fun flt_lt :: "flt \<Rightarrow> flt \<Rightarrow> bool" where
  "flt_lt (Fin a) (Fin b) = (a < b)"
| "flt_lt NaN _ = False"
| "flt_lt _ NaN = False"
| "flt_lt NegInf y = (y \<noteq> NegInf)"
| "flt_lt x PosInf = (x \<noteq> PosInf)"
| "flt_lt _ _ = False"

fun flt_le :: "flt \<Rightarrow> flt \<Rightarrow> bool" where
  "flt_le (Fin a) (Fin b) = (a \<le> b)"
| "flt_le NaN _ = False"
| "flt_le _ NaN = False"
| "flt_le NegInf _ = True"
| "flt_le _ PosInf = True"
| "flt_le _ _ = False"

text \<open>\<open>min(a, b)\<close> and \<open>max(a, b)\<close> keep the first argument unless the second is strictly better.\<close>

definition flt_min :: "flt \<Rightarrow> flt \<Rightarrow> flt" where
  "flt_min a b = (if flt_lt b a then b else a)"

definition flt_max :: "flt \<Rightarrow> flt \<Rightarrow> flt" where
  "flt_max a b = (if flt_lt a b then b else a)"

fun flt_scale :: "rat \<Rightarrow> flt \<Rightarrow> flt" where
  "flt_scale c (Fin a) = Fin (c * a)"
| "flt_scale c PosInf = PosInf"
| "flt_scale c NegInf = NegInf"
| "flt_scale c NaN = NaN"

definition trunc :: "rat \<Rightarrow> int" where
  "trunc q = (if q < 0 then - \<lfloor>- q\<rfloor> else \<lfloor>q\<rfloor>)"

definition round_half_even :: "rat \<Rightarrow> int" where
  "round_half_even q = (let f = \<lfloor>q\<rfloor>; d = q - of_int f in
     if d < 1/2 then f else if d > 1/2 then f + 1 else if even f then f else f + 1)"

definition round_digits :: "nat \<Rightarrow> rat \<Rightarrow> rat" where
  "round_digits n q = of_int (round_half_even (q * 10 ^ n)) / 10 ^ n"

fun flt_round :: "nat \<Rightarrow> flt \<Rightarrow> flt" where
  "flt_round n (Fin q) = Fin (round_digits n q)"
| "flt_round n x = x"

fun flt_int :: "flt \<Rightarrow> py_exn + int" where
  "flt_int (Fin q) = Inr (trunc q)"
| "flt_int NaN = Inl ValueError"
| "flt_int _ = Inl OverflowError"

lemma trunc_of_int [simp]: "trunc (of_int i) = i"
  by (simp add: trunc_def)

lemma trunc_nonneg: "0 \<le> q \<Longrightarrow> 0 \<le> trunc q"
  by (simp add: trunc_def)

lemma trunc_le: "0 \<le> q \<Longrightarrow> of_int (trunc q) \<le> q"
  by (simp add: trunc_def)

lemma trunc_mono:
  assumes "p \<le> q"
  shows "trunc p \<le> trunc q"
proof (cases "p < 0 \<and> \<not> q < 0")
  case True
  then have "trunc p = - \<lfloor>- p\<rfloor>" "trunc q = \<lfloor>q\<rfloor>" "0 \<le> \<lfloor>- p\<rfloor>" "0 \<le> \<lfloor>q\<rfloor>"
    by (simp_all add: trunc_def)
  then show ?thesis by linarith
next
  case False
  with assms show ?thesis by (auto simp: trunc_def floor_mono)
qed

lemma round_half_even_of_int [simp]: "round_half_even (of_int i) = i"
  by (simp add: round_half_even_def Let_def)

lemma round_half_even_bounds: "\<lfloor>q\<rfloor> \<le> round_half_even q \<and> round_half_even q \<le> \<lfloor>q\<rfloor> + 1"
  by (simp add: round_half_even_def Let_def)

lemma round_half_even_lower: "of_int i \<le> q \<Longrightarrow> i \<le> round_half_even q"
  using round_half_even_bounds [of q] by (meson le_floor_iff order_trans)

lemma round_half_even_upper: "q \<le> of_int i \<Longrightarrow> round_half_even q \<le> i"
proof -
  assume a: "q \<le> of_int i"
  show ?thesis
  proof (cases "q = of_int i")
    case False
    with a have "q < of_int i" by simp
    then have "\<lfloor>q\<rfloor> < i" by (simp add: floor_less_iff)
    then show ?thesis using round_half_even_bounds [of q] by simp
  qed simp
qed

lemma round_digits_bounds:
  assumes "of_int a \<le> q" "q \<le> of_int b"
  shows "of_int a \<le> round_digits n q \<and> round_digits n q \<le> of_int b"
proof -
  have p: "(0::rat) < 10 ^ n" by simp
  have "of_int (a * 10 ^ n) \<le> q * 10 ^ n" "q * 10 ^ n \<le> of_int (b * 10 ^ n)"
    using assms by (simp_all add: mult_right_mono)
  then have "a * 10 ^ n \<le> round_half_even (q * 10 ^ n)" "round_half_even (q * 10 ^ n) \<le> b * 10 ^ n"
    by (auto intro: round_half_even_lower round_half_even_upper)
  then have "(of_int (a * 10 ^ n) :: rat) \<le> of_int (round_half_even (q * 10 ^ n))"
    "(of_int (round_half_even (q * 10 ^ n)) :: rat) \<le> of_int (b * 10 ^ n)"
    by linarith+
  then show ?thesis
    using p by (simp add: round_digits_def pos_le_divide_eq pos_divide_le_eq)
qed

text \<open>\<open>float(text)\<close>: a decimal literal, an infinity or NaN, case-insensitively.\<close>

definition parse_decimal :: "string \<Rightarrow> rat option" where
  "parse_decimal s =
     (let mant = takeWhile (\<lambda>c. c \<noteq> CHR ''e'') s;
          rest = dropWhile (\<lambda>c. c \<noteq> CHR ''e'') s;
          ip = takeWhile (\<lambda>c. c \<noteq> CHR ''.'') mant;
          fp = drop (length ip + 1) mant;
          fdigits = filter is_digit fp;
          whole = (if ip = [] \<and> fp \<noteq> [] then Some 0 else int_digits False 0 ip);
          frac = (if fp = [] then Some 0 else int_digits False 0 fp);
          expo = (if rest = [] then Some 0
                  else signed (\<lambda>t. map_option int (int_digits False 0 t)) uminus (tl rest))
      in case (whole, frac, expo) of
           (Some w, Some f, Some e) \<Rightarrow>
             (let m = of_nat w + of_nat f / 10 ^ length fdigits in
              Some (if 0 \<le> e then m * 10 ^ nat e else m / 10 ^ nat (- e)))
         | _ \<Rightarrow> None)"

fun flt_neg :: "flt \<Rightarrow> flt" where
  "flt_neg (Fin q) = Fin (- q)"
| "flt_neg PosInf = NegInf"
| "flt_neg NegInf = PosInf"
| "flt_neg NaN = NaN"

definition parse_float :: "string \<Rightarrow> flt option" where
  "parse_float s =
     signed (\<lambda>t. if t = ''inf'' \<or> t = ''infinity'' then Some PosInf
                 else if t = ''nan'' then Some NaN
                 else map_option Fin (parse_decimal t))
       flt_neg (lower (strip s))"

section \<open>Values\<close>

datatype pyval =
    PNone
  | PBool bool
  | PInt int
  | PFloat flt
  | PStr string
  | PList "pyval list"
  | PDict "(string \<times> pyval) list"

type_synonym pydict = "(string \<times> pyval) list"

fun truthy :: "pyval \<Rightarrow> bool" where
  "truthy PNone = False"
| "truthy (PBool b) = b"
| "truthy (PInt i) = (i \<noteq> 0)"
| "truthy (PFloat x) = (x \<noteq> Fin 0)"
| "truthy (PStr s) = (s \<noteq> [])"
| "truthy (PList xs) = (xs \<noteq> [])"
| "truthy (PDict m) = (m \<noteq> [])"

text \<open>\<open>a or b\<close> and the chain \<open>a or b or ...\<close>, which returns its last operand if none is true.\<close>

definition por :: "pyval \<Rightarrow> pyval \<Rightarrow> pyval" where
  "por a b = (if truthy a then a else b)"

fun first_truthy :: "pyval list \<Rightarrow> pyval" where
  "first_truthy [] = PNone"
| "first_truthy [v] = v"
| "first_truthy (v # vs) = (if truthy v then v else first_truthy vs)"

text \<open>\<open>d.get(k)\<close>, \<open>x if isinstance(x, dict) else {}\<close> and the same for lists.\<close>

definition get :: "pydict \<Rightarrow> string \<Rightarrow> pyval" where
  "get m k = (case dget m k of None \<Rightarrow> PNone | Some v \<Rightarrow> v)"

fun is_dict :: "pyval \<Rightarrow> bool" where
  "is_dict (PDict m) = True"
| "is_dict _ = False"

fun as_dict :: "pyval \<Rightarrow> pydict" where
  "as_dict (PDict m) = m"
| "as_dict _ = []"

fun as_list :: "pyval \<Rightarrow> pyval list" where
  "as_list (PList xs) = xs"
| "as_list _ = []"

definition none_or_empty :: "pyval \<Rightarrow> bool" where
  "none_or_empty v = (v = PNone \<or> v = PStr [])"

text \<open>\<open>str(x)\<close> and \<open>repr(x)\<close>. A finite float is printed as its decimal expansion, up to sixteen
  digits after the point.\<close>

fun frac_digits :: "nat \<Rightarrow> rat \<Rightarrow> string" where
  "frac_digits 0 q = []"
| "frac_digits (Suc n) q =
     (if q = 0 then [] else digit_char (nat \<lfloor>q * 10\<rfloor>) # frac_digits n (q * 10 - of_int \<lfloor>q * 10\<rfloor>))"

fun flt_str :: "flt \<Rightarrow> string" where
  "flt_str (Fin q) =
     (let a = \<bar>q\<bar>; i = \<lfloor>a\<rfloor>; ds = frac_digits 16 (a - of_int i) in
      (if q < 0 then ''-'' else []) @ int_str i @ ''.'' @ (if ds = [] then ''0'' else ds))"
| "flt_str PosInf = ''inf''"
| "flt_str NegInf = ''-inf''"
| "flt_str NaN = ''nan''"

definition str_repr :: "string \<Rightarrow> string" where
  "str_repr s =
     (let q = (if CHR 0x27 \<in> set s \<and> CHR 0x22 \<notin> set s then CHR 0x22 else CHR 0x27) in
      [q] @ concat (map (\<lambda>c. if c = q \<or> c = CHR 0x5C then [CHR 0x5C, c]
                             else if c = CHR 0x0A then [CHR 0x5C, CHR ''n''] else [c]) s) @ [q])"

fun py_repr :: "pyval \<Rightarrow> string"
  and py_repr_list :: "pyval list \<Rightarrow> string"
  and py_repr_items :: "(string \<times> pyval) list \<Rightarrow> string" where
  "py_repr PNone = ''None''"
| "py_repr (PBool b) = (if b then ''True'' else ''False'')"
| "py_repr (PInt i) = int_str i"
| "py_repr (PFloat x) = flt_str x"
| "py_repr (PStr s) = str_repr s"
| "py_repr (PList xs) = ''['' @ py_repr_list xs @ '']''"
| "py_repr (PDict m) = ''{'' @ py_repr_items m @ ''}''"
| "py_repr_list [] = []"
| "py_repr_list (x # xs) = py_repr x @ (if xs = [] then [] else '', '' @ py_repr_list xs)"
| "py_repr_items [] = []"
| "py_repr_items ((k, v) # m) =
     str_repr k @ '': '' @ py_repr v @ (if m = [] then [] else '', '' @ py_repr_items m)"

fun py_str :: "pyval \<Rightarrow> string" where
  "py_str (PStr s) = s"
| "py_str v = py_repr v"

text \<open>\<open>str(value or "")\<close>, the coercion most of the sources apply first.\<close>

definition str_or_empty :: "pyval \<Rightarrow> string" where
  "str_or_empty v = (if truthy v then py_str v else [])"

definition lower_text :: "pyval \<Rightarrow> string" where
  "lower_text v = lower (strip (str_or_empty v))"

fun int_of :: "pyval \<Rightarrow> py_exn + int" where
  "int_of (PInt i) = Inr i"
| "int_of (PBool b) = Inr (if b then 1 else 0)"
| "int_of (PFloat x) = flt_int x"
| "int_of (PStr s) = (case parse_int s of Some i \<Rightarrow> Inr i | None \<Rightarrow> Inl ValueError)"
| "int_of _ = Inl TypeError"

fun float_of :: "pyval \<Rightarrow> py_exn + flt" where
  "float_of (PInt i) = Inr (Fin (of_int i))"
| "float_of (PBool b) = Inr (Fin (if b then 1 else 0))"
| "float_of (PFloat x) = Inr x"
| "float_of (PStr s) = (case parse_float s of Some x \<Rightarrow> Inr x | None \<Rightarrow> Inl ValueError)"
| "float_of _ = Inl TypeError"

lemma truthy_por: "truthy (por a b) \<longleftrightarrow> truthy a \<or> truthy b"
  by (simp add: por_def)

lemma str_or_empty_simps [simp]:
  "str_or_empty PNone = []" "str_or_empty (PStr s) = s" "str_or_empty (PBool False) = []"
  by (simp_all add: str_or_empty_def)

lemma lower_text_PStr [simp]: "lower_text (PStr s) = lower (strip s)"
  by (simp add: lower_text_def)

lemma lower_text_PNone [simp]: "lower_text PNone = []"
  by (simp add: lower_text_def)

lemma lower_text_idem [simp]: "lower_text (PStr (lower_text v)) = lower_text v"
  by (simp add: lower_text_def strip_lower)

lemma get_Nil [simp]: "get [] k = PNone"
  by (simp add: get_def)

lemma get_Cons [simp]: "get ((k', v) # m) k = (if k' = k then v else get m k)"
  by (simp add: get_def)

lemma get_dset [simp, store_laws]: "get (dset k v m) k' = (if k' = k then v else get m k')"
  by (simp add: get_def)

lemma get_ddel [simp, store_laws]: "get (ddel k m) k' = (if k' = k then PNone else get m k')"
  by (simp add: get_def)

lemma int_of_total_on_strings: "int_of (PStr (int_str i)) = Inr i"
  by (simp add: parse_int_str)

lemma flt_int_error: "flt_int x = Inl e \<Longrightarrow> e = ValueError \<or> e = OverflowError"
  by (cases x) auto

lemma int_of_error: "int_of v = Inl e \<Longrightarrow> e = TypeError \<or> e = ValueError \<or> e = OverflowError"
  by (cases v) (auto dest: flt_int_error split: option.splits)

lemma float_of_error: "float_of v = Inl e \<Longrightarrow> e = TypeError \<or> e = ValueError"
  by (cases v) (auto split: option.splits)

section \<open>More float and text operations\<close>

fun flt_add :: "flt \<Rightarrow> flt \<Rightarrow> flt" where
  "flt_add NaN _ = NaN"
| "flt_add _ NaN = NaN"
| "flt_add (Fin a) (Fin b) = Fin (a + b)"
| "flt_add PosInf NegInf = NaN"
| "flt_add NegInf PosInf = NaN"
| "flt_add (Fin a) y = y"
| "flt_add x _ = x"

definition flt_sub :: "flt \<Rightarrow> flt \<Rightarrow> flt" where
  "flt_sub a b = flt_add a (flt_neg b)"

text \<open>\<open>format(x, ".0f")\<close>.\<close>

fun format_0f :: "flt \<Rightarrow> string" where
  "format_0f (Fin q) = (let i = round_half_even q in if q < 0 \<and> i = 0 then ''-0'' else int_str i)"
| "format_0f x = flt_str x"

text \<open>Rounding to the nearest double of 53 significant bits, ties to even, for the places where the
  rounding of a product is visible in the result. \<open>binary_exponent\<close> scans at most its fuel.\<close>

fun binary_exponent :: "nat \<Rightarrow> rat \<Rightarrow> int" where
  "binary_exponent 0 q = 0"
| "binary_exponent (Suc n) q =
     (if 2 \<le> q then binary_exponent n (q / 2) + 1
      else if q < 1 then binary_exponent n (q * 2) - 1 else 0)"

definition round_double :: "rat \<Rightarrow> rat" where
  "round_double q =
     (if q = 0 then 0
      else let e = binary_exponent 2200 \<bar>q\<bar> - 52;
               p = (if 0 \<le> e then 2 ^ nat e else 1 / 2 ^ nat (- e))
           in of_int (round_half_even (q / p)) * p)"

text \<open>\<open>str.upper\<close> on the code points below 256 whose upper case is made of code points below 256.\<close>

definition upper_char :: "char \<Rightarrow> string" where
  "upper_char c = (let n = code c in
     if n = 223 then ''SS''
     else if (97 \<le> n \<and> n \<le> 122) \<or> (224 \<le> n \<and> n \<le> 254 \<and> n \<noteq> 247) then [char_of (n - 32)]
     else [c])"

definition upper :: "string \<Rightarrow> string" where
  "upper s = concat (map upper_char s)"

text \<open>
  \<open>float(value)\<close> where the range of a double matters: text is rounded to 53 bits and becomes an
  infinity beyond the largest double, and an integer beyond it raises \<open>OverflowError\<close>.
\<close>

definition double_limit :: rat where
  "double_limit = 2 ^ 1024 - 2 ^ 970"

fun to_double :: "flt \<Rightarrow> flt" where
  "to_double (Fin q) =
     (if double_limit \<le> q then PosInf else if q \<le> - double_limit then NegInf
      else Fin (round_double q))"
| "to_double x = x"

fun float_arg :: "pyval \<Rightarrow> py_exn + flt" where
  "float_arg (PInt i) =
     (if double_limit \<le> \<bar>of_int i\<bar> then Inl OverflowError else Inr (Fin (of_int i)))"
| "float_arg (PStr s) = mapE to_double (float_of (PStr s))"
| "float_arg v = float_of v"

text \<open>The \<open>lower\<close> function of SQLite, which knows ASCII only.\<close>

definition ascii_lower :: "char \<Rightarrow> char" where
  "ascii_lower c = (if 65 \<le> code c \<and> code c \<le> 90 then char_of (code c + 32) else c)"

definition sql_lower :: "string \<Rightarrow> string" where
  "sql_lower s = map ascii_lower s"

text \<open>\<open>[row for row in (value or []) if isinstance(row, dict)]\<close>; a number cannot be iterated.\<close>

definition dict_rows :: "pyval \<Rightarrow> py_exn + pydict list" where
  "dict_rows v =
     (if \<not> truthy v then Inr []
      else case v of
        PList xs \<Rightarrow> Inr (map as_dict (filter is_dict xs))
      | PStr _ \<Rightarrow> Inr []
      | PDict _ \<Rightarrow> Inr []
      | _ \<Rightarrow> Inl TypeError)"

end
