(* ===== verification/Bencode.thy ===== *)
theory Bencode
  imports Py
begin

text \<open>
  The bencode decoder of \<^verbatim>\<open>core/inkdrop_bencode.py\<close>, which reads torrent files. A byte is a \<open>char\<close>,
  the payload a \<open>string\<close>, and positions are indices into it, as in the source. The recursion carries
  fuel because its arguments grow: \<open>None\<close> is "out of fuel", and \<open>parse_total\<close> shows that
  \<open>bdecode_value\<close> supplies enough for every payload. Python's recursion limit is not modelled.
  \<open>encode\<close> is the reference encoder of the format, the specification the decoder is checked against.
\<close>

datatype bval =
    BInt int
  | BBytes string
  | BList "bval list"
  | BDict "(bval \<times> bval) list"

definition bytes_space :: "char \<Rightarrow> bool" where
  "bytes_space c = (let n = code c in (9 \<le> n \<and> n \<le> 13) \<or> n = 32)"

definition bytes_int :: "string \<Rightarrow> py_exn + int" where
  "bytes_int s =
     (case signed (\<lambda>t. map_option int (int_digits False 0 t)) uminus (strip_of bytes_space s) of
        Some i \<Rightarrow> Inr i
      | None \<Rightarrow> Inl ValueError)"

text \<open>\<open>data.index(b"e", i)\<close> and \<open>data[a:b]\<close>.\<close>

definition index_from :: "string \<Rightarrow> char \<Rightarrow> nat \<Rightarrow> py_exn + nat" where
  "index_from s c i =
     (let t = takeWhile (\<lambda>x. x \<noteq> c) (drop i s)
      in if length t < length (drop i s) then Inr (i + length t) else Inl ValueError)"

definition slice :: "'a list \<Rightarrow> nat \<Rightarrow> nat \<Rightarrow> 'a list" where
  "slice s a b = take (b - a) (drop a s)"

fun hashable :: "bval \<Rightarrow> bool" where
  "hashable (BInt k) = True"
| "hashable (BBytes s) = True"
| "hashable _ = False"

definition parse_int_token :: "string \<Rightarrow> nat \<Rightarrow> py_exn + (bval \<times> nat)" where
  "parse_int_token data i =
     bindE (index_from data CHR ''e'' i) (\<lambda>e.
     bindE (bytes_int (slice data (i + 1) e)) (\<lambda>k. Inr (BInt k, e + 1)))"

definition parse_bytes_token :: "string \<Rightarrow> nat \<Rightarrow> py_exn + (bval \<times> nat)" where
  "parse_bytes_token data i =
     bindE (index_from data CHR '':'' i) (\<lambda>colon.
     bindE (bytes_int (slice data i colon)) (\<lambda>len.
       let start = colon + 1; stop = int start + len
       in if stop > int (length data) then Inl ValueError
          else Inr (BBytes (slice data start (nat stop)), nat stop)))"

fun parse :: "nat \<Rightarrow> string \<Rightarrow> nat \<Rightarrow> (py_exn + (bval \<times> nat)) option"
  and parse_list :: "nat \<Rightarrow> string \<Rightarrow> nat \<Rightarrow> bval list \<Rightarrow> (py_exn + (bval \<times> nat)) option"
  and parse_dict :: "nat \<Rightarrow> string \<Rightarrow> nat \<Rightarrow> (bval \<times> bval) list \<Rightarrow> (py_exn + (bval \<times> nat)) option" where
  "parse 0 data i = None"
| "parse (Suc n) data i =
     (if length data \<le> i then Some (Inl ValueError)
      else if data ! i = CHR ''i'' then Some (parse_int_token data i)
      else if data ! i = CHR ''l'' then parse_list n data (i + 1) []
      else if data ! i = CHR ''d'' then parse_dict n data (i + 1) []
      else if is_digit (data ! i) then Some (parse_bytes_token data i)
      else Some (Inl ValueError))"
| "parse_list 0 data i items = None"
| "parse_list (Suc n) data i items =
     (if i < length data \<and> data ! i \<noteq> CHR ''e''
      then (case parse n data i of
              None \<Rightarrow> None
            | Some (Inl e) \<Rightarrow> Some (Inl e)
            | Some (Inr (v, j)) \<Rightarrow> parse_list n data j (items @ [v]))
      else if length data \<le> i then Some (Inl ValueError)
      else Some (Inr (BList items, i + 1)))"
| "parse_dict 0 data i items = None"
| "parse_dict (Suc n) data i items =
     (if i < length data \<and> data ! i \<noteq> CHR ''e''
      then (case parse n data i of
              None \<Rightarrow> None
            | Some (Inl e) \<Rightarrow> Some (Inl e)
            | Some (Inr (key, j)) \<Rightarrow>
                (case parse n data j of
                   None \<Rightarrow> None
                 | Some (Inl e) \<Rightarrow> Some (Inl e)
                 | Some (Inr (v, k)) \<Rightarrow>
                     if hashable key then parse_dict n data k (dset key v items)
                     else Some (Inl TypeError)))
      else if length data \<le> i then Some (Inl ValueError)
      else Some (Inr (BDict items, i + 1)))"

definition bdecode_value :: "string \<Rightarrow> (py_exn + bval) option" where
  "bdecode_value data =
     map_option (\<lambda>r. bindE r (\<lambda>(v, offset).
         if length data < offset then Inl ValueError else Inr v))
       (parse (2 * length data + 2) data 0)"

section \<open>Progress and termination\<close>

lemma index_from_Inr:
  "index_from s c i = Inr e \<Longrightarrow> i \<le> e \<and> e < length s \<and> s ! e = c"
proof -
  assume a: "index_from s c i = Inr e"
  let ?t = "takeWhile (\<lambda>x. x \<noteq> c) (drop i s)"
  have lt: "length ?t < length (drop i s)" and e: "e = i + length ?t"
    using a by (auto simp: index_from_def Let_def split: if_splits)
  have "\<not> (drop i s ! length ?t \<noteq> c)"
    using nth_length_takeWhile [OF lt] .
  then show ?thesis using lt e by auto
qed

lemma parse_int_token_progress:
  "parse_int_token data i = Inr (v, j) \<Longrightarrow> i < j \<and> j \<le> length data"
  by (auto simp: parse_int_token_def result_simps dest!: index_from_Inr)

lemma bytes_int_nonneg_digit:
  assumes "bytes_int s = Inr k" "s \<noteq> []" "is_digit (hd s)"
  shows "0 \<le> k"
proof -
  obtain c cs where s: "s = c # cs" using assms(2) by (cases s) auto
  have c: "is_digit c" using assms(3) s by simp
  have nsp: "\<not> bytes_space c"
    using c by (auto simp: is_digit_def bytes_space_def Let_def)
  have sgn: "c \<noteq> CHR ''-''" "c \<noteq> CHR ''+''" using c by (auto simp: is_digit_def code_def)
  have "dropWhile bytes_space (rev cs @ [c]) \<noteq> []"
    using nsp by auto
  moreover have "hd (strip_of bytes_space s) = c"
    using hd_rev_dropWhile_rev [of bytes_space s] nsp s \<open>dropWhile bytes_space (rev cs @ [c]) \<noteq> []\<close>
    by (simp add: strip_of_def)
  ultimately obtain ds where "strip_of bytes_space s = c # ds"
    using nsp by (cases "strip_of bytes_space s") (auto simp: strip_of_def s)
  then show ?thesis
    using assms(1) sgn by (auto simp: bytes_int_def signed_def split: option.splits)
qed

lemma parse_bytes_token_progress:
  assumes "parse_bytes_token data i = Inr (v, j)" "is_digit (data ! i)"
  shows "i < j \<and> j \<le> length data"
proof -
  obtain colon len where c: "index_from data CHR '':'' i = Inr colon"
    and l: "bytes_int (slice data i colon) = Inr len"
    and j: "j = nat (int (colon + 1) + len)" and le: "int (colon + 1) + len \<le> int (length data)"
    using assms(1) by (auto simp: parse_bytes_token_def result_simps Let_def split: if_splits)
  have cb: "i \<le> colon" "colon < length data" "data ! colon = CHR '':''"
    using index_from_Inr [OF c] by auto
  have "colon \<noteq> i"
    using cb assms(2) by (auto simp: is_digit_def code_def)
  then have "slice data i colon \<noteq> []" "hd (slice data i colon) = data ! i"
    using cb by (auto simp: slice_def hd_drop_conv_nth)
  then have "0 \<le> len"
    using bytes_int_nonneg_digit [OF l] assms(2) by simp
  then show ?thesis using j le cb by auto
qed

lemma list_step:
  assumes "parse_list (Suc n) data i items = Some (Inr (v, j))"
  shows "(\<exists>w k. i < length data \<and> data ! i \<noteq> CHR ''e'' \<and> parse n data i = Some (Inr (w, k))
           \<and> parse_list n data k (items @ [w]) = Some (Inr (v, j)))
       \<or> (i < length data \<and> v = BList items \<and> j = i + 1)"
  using assms by (auto split: if_splits option.splits sum.splits)

lemma dict_step:
  assumes "parse_dict (Suc n) data i items = Some (Inr (v, j))"
  shows "(\<exists>key k w m. i < length data \<and> data ! i \<noteq> CHR ''e''
           \<and> parse n data i = Some (Inr (key, k)) \<and> parse n data k = Some (Inr (w, m))
           \<and> hashable key \<and> parse_dict n data m (dset key w items) = Some (Inr (v, j)))
       \<or> (i < length data \<and> v = BDict items \<and> j = i + 1)"
  using assms by (auto split: if_splits option.splits sum.splits)

lemma parse_progress:
  "parse n data i = Some (Inr (v, j)) \<Longrightarrow> i < j \<and> j \<le> length data"
  "parse_list n data i vs = Some (Inr (v, j)) \<Longrightarrow> i < j \<and> j \<le> length data"
  "parse_dict n data i ps = Some (Inr (v, j)) \<Longrightarrow> i < j \<and> j \<le> length data"
proof (induction n data i and n data i vs and n data i ps
    arbitrary: v j and v j and v j rule: parse_parse_list_parse_dict.induct)
  case (2 n data i)
  then show ?case
    by (auto split: if_splits
        dest: parse_int_token_progress parse_bytes_token_progress Suc_lessD)
next
  case (4 n data i items)
  from list_step [OF "4.prems"] show ?case
  proof (elim disjE exE conjE)
    fix w k
    assume c: "i < length data" "data ! i \<noteq> CHR ''e''"
      and p: "parse n data i = Some (Inr (w, k))"
      and l: "parse_list n data k (items @ [w]) = Some (Inr (v, j))"
    have "i < k" using "4.IH"(1) p c by simp
    moreover have "k < j \<and> j \<le> length data"
      using "4.IH"(2) [OF _ p refl refl] c l by simp
    ultimately show ?thesis by simp
  qed simp
next
  case (6 n data i items)
  from dict_step [OF "6.prems"] show ?case
  proof (elim disjE exE conjE)
    fix key k w m
    assume c: "i < length data" "data ! i \<noteq> CHR ''e''"
      and p: "parse n data i = Some (Inr (key, k))" "parse n data k = Some (Inr (w, m))"
      and h: "hashable key"
      and l: "parse_dict n data m (dset key w items) = Some (Inr (v, j))"
    have "i < k" using "6.IH"(1) p c by simp
    moreover have "k < m" using "6.IH"(2) [OF _ p(1) refl refl] c p by simp
    moreover have "m < j \<and> j \<le> length data"
      using "6.IH"(3) [OF _ p(1) refl refl p(2) refl refl h] c l by simp
    ultimately show ?thesis by simp
  qed simp
qed simp_all

lemma parse_total:
  "2 * (length data - i) + 1 \<le> n \<Longrightarrow> parse n data i \<noteq> None"
  "2 * (length data - i) + 2 \<le> n \<Longrightarrow> parse_list n data i vs \<noteq> None"
  "2 * (length data - i) + 2 \<le> n \<Longrightarrow> parse_dict n data i ps \<noteq> None"
proof (induction n data i and n data i vs and n data i ps rule: parse_parse_list_parse_dict.induct)
  case (2 n data i)
  show ?case
  proof (cases "length data \<le> i")
    case False
    then have "2 * (length data - (i + 1)) + 2 \<le> n" using "2.prems" by auto
    then show ?thesis using "2.IH" False by auto
  qed simp
next
  case (4 n data i items)
  show ?case
  proof (cases "i < length data \<and> data ! i \<noteq> CHR ''e''")
    case True
    then have "2 * (length data - i) + 1 \<le> n" using "4.prems" by simp
    then obtain r where r: "parse n data i = Some r" using "4.IH"(1) [OF True] by blast
    show ?thesis
    proof (cases r)
      case (Inl e)
      then show ?thesis using r True by simp
    next
      case (Inr p)
      obtain v j where p: "p = (v, j)" by (cases p)
      have "i < j" using parse_progress(1) r Inr p by blast
      then have "2 * (length data - j) + 2 \<le> n" using True "4.prems" by auto
      then show ?thesis using "4.IH"(2) [OF True r Inr p [symmetric]] r Inr p True by simp
    qed
  qed simp
next
  case (6 n data i items)
  show ?case
  proof (cases "i < length data \<and> data ! i \<noteq> CHR ''e''")
    case True
    then have "2 * (length data - i) + 1 \<le> n" using "6.prems" by simp
    then obtain r where r: "parse n data i = Some r" using "6.IH"(1) [OF True] by blast
    show ?thesis
    proof (cases r)
      case (Inl e)
      then show ?thesis using r True by simp
    next
      case (Inr p)
      obtain key j where p: "p = (key, j)" by (cases p)
      have j: "i < j" using parse_progress(1) r Inr p by blast
      then have "2 * (length data - j) + 1 \<le> n" using True "6.prems" by auto
      then obtain r2 where r2: "parse n data j = Some r2"
        using "6.IH"(2) [OF True r Inr p [symmetric]] by blast
      show ?thesis
      proof (cases r2)
        case (Inl e)
        then show ?thesis using r r2 Inr p True by simp
      next
        case (Inr q)
        obtain v k where q: "q = (v, k)" by (cases q)
        have "j < k" using parse_progress(1) r2 Inr q by blast
        then have "2 * (length data - k) + 2 \<le> n" using j True "6.prems" by auto
        then show ?thesis
          using "6.IH"(3) [OF True r \<open>r = Inr p\<close> p [symmetric] r2 Inr q [symmetric]]
            r r2 \<open>r = Inr p\<close> p Inr q True by simp
      qed
    qed
  qed simp
qed simp_all

section \<open>The reference encoder and the round trip\<close>

function encode :: "bval \<Rightarrow> string"
  and encode_list :: "bval list \<Rightarrow> string"
  and encode_items :: "(bval \<times> bval) list \<Rightarrow> string" where
  "encode (BInt k) = CHR ''i'' # int_str k @ [CHR ''e'']"
| "encode (BBytes s) = nat_str (length s) @ CHR '':'' # s"
| "encode (BList vs) = CHR ''l'' # encode_list vs @ [CHR ''e'']"
| "encode (BDict ps) = CHR ''d'' # encode_items ps @ [CHR ''e'']"
| "encode_list [] = []"
| "encode_list (v # vs) = encode v @ encode_list vs"
| "encode_items [] = []"
| "encode_items ((k, v) # ps) = encode k @ encode v @ encode_items ps"
  by pat_completeness auto
termination
  by (relation "measure (case_sum size (case_sum (size_list size) (size_list (size_prod size size))))")
     auto

function bwf :: "bval \<Rightarrow> bool"
  and bwf_list :: "bval list \<Rightarrow> bool"
  and bwf_items :: "(bval \<times> bval) list \<Rightarrow> bool" where
  "bwf (BInt k) = True"
| "bwf (BBytes s) = True"
| "bwf (BList vs) = bwf_list vs"
| "bwf (BDict ps) = (dwf ps \<and> bwf_items ps)"
| "bwf_list [] = True"
| "bwf_list (v # vs) = (bwf v \<and> bwf_list vs)"
| "bwf_items [] = True"
| "bwf_items ((k, v) # ps) = (hashable k \<and> bwf k \<and> bwf v \<and> bwf_items ps)"
  by pat_completeness auto
termination
  by (relation "measure (case_sum size (case_sum (size_list size) (size_list (size_prod size size))))")
     auto

lemma takeWhile_until: "(\<And>x. x \<in> set s \<Longrightarrow> x \<noteq> c) \<Longrightarrow> takeWhile (\<lambda>x. x \<noteq> c) (s @ c # r) = s"
  by (induction s) auto

lemma index_from_at:
  "(\<And>x. x \<in> set s \<Longrightarrow> x \<noteq> c) \<Longrightarrow> index_from (pre @ s @ c # r) c (length pre) = Inr (length pre + length s)"
  by (simp add: index_from_def takeWhile_until Let_def)

lemma slice_mid: "slice (pre @ s @ r) (length pre) (length pre + length s) = s"
  by (simp add: slice_def)

lemma bytes_int_str: "bytes_int (int_str i) = Inr i"
proof -
  have "strip_of bytes_space (int_str i) = int_str i"
    by (rule strip_of_nop) (use int_str_char in \<open>force simp: is_digit_def bytes_space_def Let_def code_def\<close>)
  then show ?thesis by (simp add: bytes_int_def signed_int_str)
qed

lemma bytes_int_nat_str: "bytes_int (nat_str n) = Inr (int n)"
  using bytes_int_str [of "int n"] by (simp add: int_str_def)

lemma parse_int_token_encode:
  "parse_int_token (pre @ encode (BInt k) @ post) (length pre) =
     Inr (BInt k, length pre + length (encode (BInt k)))"
proof -
  have no_e: "x \<noteq> CHR ''e''" if "x \<in> set (CHR ''i'' # int_str k)" for x
    using that int_str_char [of x k] by (auto simp: is_digit_def code_def)
  have i: "index_from (pre @ (CHR ''i'' # int_str k) @ CHR ''e'' # post) CHR ''e'' (length pre)
      = Inr (length pre + length (CHR ''i'' # int_str k))"
    by (rule index_from_at) (rule no_e)
  have s: "slice ((pre @ [CHR ''i'']) @ int_str k @ CHR ''e'' # post)
      (length (pre @ [CHR ''i''])) (length (pre @ [CHR ''i'']) + length (int_str k)) = int_str k"
    by (rule slice_mid)
  show ?thesis
    using i s by (simp add: parse_int_token_def bytes_int_str)
qed

lemma parse_bytes_token_encode:
  "parse_bytes_token (pre @ encode (BBytes s) @ post) (length pre) =
     Inr (BBytes s, length pre + length (encode (BBytes s)))"
proof -
  let ?d = "nat_str (length s)"
  have no_colon: "x \<noteq> CHR '':''" if "x \<in> set ?d" for x
    using that nat_str_digits [of "length s"] by (auto simp: is_digit_def code_def)
  have i: "index_from (pre @ ?d @ CHR '':'' # s @ post) CHR '':'' (length pre)
      = Inr (length pre + length ?d)"
    by (rule index_from_at) (rule no_colon)
  have sl: "slice (pre @ ?d @ CHR '':'' # s @ post) (length pre) (length pre + length ?d) = ?d"
    by (rule slice_mid)
  have body: "slice ((pre @ ?d @ [CHR '':'']) @ s @ post) (length (pre @ ?d @ [CHR '':'']))
      (length (pre @ ?d @ [CHR '':'']) + length s) = s"
    by (rule slice_mid)
  show ?thesis
    using i sl body
    by (simp add: parse_bytes_token_def bytes_int_nat_str Let_def nat_add_distrib add.assoc)
qed

lemma encode_first: "\<exists>c cs. encode v = c # cs \<and> c \<noteq> CHR ''e''"
proof (cases v)
  case (BBytes s)
  obtain c cs where "nat_str (length s) = c # cs"
    using nat_str_nonempty by (cases "nat_str (length s)") auto
  then show ?thesis
    using BBytes nat_str_digits [of "length s"] by (auto simp: is_digit_def code_def)
qed auto

lemma parse_list_encode_step:
  assumes "parse_list n (pre @ encode v @ rest) (length pre) items = Some r"
    and v: "\<And>n r. parse n (pre @ encode v @ rest) (length pre) = Some r
             \<Longrightarrow> r = Inr (v, length pre + length (encode v))"
  shows "\<exists>m. parse_list m (pre @ encode v @ rest) (length pre + length (encode v)) (items @ [v]) = Some r"
proof -
  obtain m where n: "n = Suc m" using assms(1) by (cases n) auto
  obtain c cs where c: "encode v = c # cs" "c \<noteq> CHR ''e''" using encode_first by blast
  have at: "length pre < length (pre @ encode v @ rest)" "(pre @ encode v @ rest) ! length pre = c"
    by (simp_all add: c)
  then have "parse m (pre @ encode v @ rest) (length pre) \<noteq> None"
    using assms(1) at c(2) by (auto simp: n split: option.splits)
  then have "parse m (pre @ encode v @ rest) (length pre) = Some (Inr (v, length pre + length (encode v)))"
    using v by blast
  then have "parse_list m (pre @ encode v @ rest) (length pre + length (encode v)) (items @ [v]) = Some r"
    using assms(1) at c(2) by (simp add: n)
  then show ?thesis by blast
qed

lemma parse_dict_encode_step:
  assumes "parse_dict n (pre @ encode k @ encode v @ rest) (length pre) items = Some r"
    and "hashable k"
    and k: "\<And>n r. parse n (pre @ encode k @ encode v @ rest) (length pre) = Some r
             \<Longrightarrow> r = Inr (k, length pre + length (encode k))"
    and v: "\<And>n r. parse n (pre @ encode k @ encode v @ rest) (length pre + length (encode k)) = Some r
             \<Longrightarrow> r = Inr (v, length pre + length (encode k) + length (encode v))"
  shows "\<exists>m. parse_dict m (pre @ encode k @ encode v @ rest)
           (length pre + length (encode k) + length (encode v)) (dset k v items) = Some r"
proof -
  let ?data = "pre @ encode k @ encode v @ rest"
  obtain m where n: "n = Suc m" using assms(1) by (cases n) auto
  obtain c cs where c: "encode k = c # cs" "c \<noteq> CHR ''e''" using encode_first by blast
  have at: "length pre < length ?data" "?data ! length pre = c"
    by (simp_all add: c)
  have "parse m ?data (length pre) \<noteq> None"
    using assms(1) at c(2) by (auto simp: n split: option.splits)
  then have pk: "parse m ?data (length pre) = Some (Inr (k, length pre + length (encode k)))"
    using k by blast
  have "parse m ?data (length pre + length (encode k)) \<noteq> None"
    using assms(1) at c(2) pk by (auto simp: n split: option.splits)
  then have "parse m ?data (length pre + length (encode k))
      = Some (Inr (v, length pre + length (encode k) + length (encode v)))"
    using v by blast
  then have "parse_dict m ?data (length pre + length (encode k) + length (encode v)) (dset k v items) = Some r"
    using assms(1,2) at c(2) pk by (simp add: n)
  then show ?thesis by blast
qed

lemma parse_encode:
  "bwf v \<Longrightarrow> parse n (pre @ encode v @ post) (length pre) = Some r
     \<Longrightarrow> r = Inr (v, length pre + length (encode v))"
  "bwf_list vs \<Longrightarrow> parse_list n (pre @ encode_list vs @ CHR ''e'' # post) (length pre) items = Some r
     \<Longrightarrow> r = Inr (BList (items @ vs), length pre + length (encode_list vs) + 1)"
  "bwf_items ps \<Longrightarrow> dwf (acc @ ps)
     \<Longrightarrow> parse_dict n (pre @ encode_items ps @ CHR ''e'' # post) (length pre) acc = Some r
     \<Longrightarrow> r = Inr (BDict (acc @ ps), length pre + length (encode_items ps) + 1)"
proof (induction v and vs and ps
    arbitrary: n pre post r and n pre post r items and n pre post r acc
    rule: encode_encode_list_encode_items.induct)
  case (1 k)
  then obtain m where n: "n = Suc m" by (cases n) auto
  then show ?case
    using 1 parse_int_token_encode [of pre k post] by simp
next
  case (2 s)
  then obtain m where n: "n = Suc m" by (cases n) auto
  obtain c cs where c: "nat_str (length s) = c # cs" "is_digit c"
    using nat_str_nonempty [of "length s"] nat_str_digits [of "length s"]
    by (cases "nat_str (length s)") auto
  then have "c \<noteq> CHR ''i''" "c \<noteq> CHR ''l''" "c \<noteq> CHR ''d''"
    by (auto simp: is_digit_def code_def)
  then show ?case
    using 2 c parse_bytes_token_encode [of pre s post] by (simp add: n)
next
  case (3 vs)
  then obtain m where "n = Suc m" by (cases n) auto
  then have "parse_list m ((pre @ [CHR ''l'']) @ encode_list vs @ CHR ''e'' # post)
      (length (pre @ [CHR ''l''])) [] = Some r"
    using "3.prems"(2) by simp
  then show ?case using "3.IH" [of m "pre @ [CHR ''l'']" post "[]" r] "3.prems"(1) by simp
next
  case (4 ps)
  then obtain m where "n = Suc m" by (cases n) auto
  then have "parse_dict m ((pre @ [CHR ''d'']) @ encode_items ps @ CHR ''e'' # post)
      (length (pre @ [CHR ''d''])) [] = Some r"
    using "4.prems"(2) by simp
  then show ?case using "4.IH" [of "[]" m "pre @ [CHR ''d'']" post r] "4.prems"(1) by simp
next
  case 5
  then show ?case by (cases n) auto
next
  case (6 v vs)
  let ?rest = "encode_list vs @ CHR ''e'' # post"
  have "\<exists>m. parse_list m (pre @ encode v @ ?rest) (length pre + length (encode v)) (items @ [v]) = Some r"
    by (rule parse_list_encode_step [where n = n])
       (use "6.prems" "6.IH"(1) in \<open>auto simp del: parse.simps parse_list.simps\<close>)
  then obtain m where "parse_list m ((pre @ encode v) @ ?rest) (length (pre @ encode v)) (items @ [v]) = Some r"
    by auto
  then show ?case using "6.IH"(2) "6.prems"(1) by fastforce
next
  case 7
  then show ?case by (cases n) auto
next
  case (8 k v ps)
  let ?rest = "encode_items ps @ CHR ''e'' # post"
  have fresh: "\<not> dhas acc k" and wf: "dwf ((acc @ [(k, v)]) @ ps)"
    using "8.prems"(2) by (auto simp: dwf_def dhas_def)
  have "\<exists>m. parse_dict m (pre @ encode k @ encode v @ ?rest)
      (length pre + length (encode k) + length (encode v)) (dset k v acc) = Some r"
  proof (rule parse_dict_encode_step [where n = n])
    fix m q
    assume "parse m (pre @ encode k @ encode v @ ?rest) (length pre + length (encode k)) = Some q"
    then show "q = Inr (v, length pre + length (encode k) + length (encode v))"
      using "8.IH"(2) [of m "pre @ encode k" ?rest q] "8.prems"(1) by simp
  qed (use "8.prems" "8.IH"(1) in \<open>auto simp del: parse.simps parse_dict.simps\<close>)
  then obtain m where "parse_dict m ((pre @ encode k @ encode v) @ ?rest)
      (length (pre @ encode k @ encode v)) (acc @ [(k, v)]) = Some r"
    using fresh by (auto simp: dset_fresh add.assoc)
  then show ?case using "8.IH"(3) [OF _ wf] "8.prems"(1) by fastforce
qed

section \<open>What the decoder promises\<close>

text \<open>
  C26: The decoder returns on every payload: the fuel the model supplies is always enough, so
  \<open>bdecode_value\<close> yields a value or an exception, never "out of fuel".
\<close>

theorem bdecode_total: "\<exists>r. bdecode_value data = Some r"
proof -
  have "parse (2 * length data + 2) data 0 \<noteq> None"
    by (rule parse_total(1)) simp
  then show ?thesis by (auto simp: bdecode_value_def)
qed

text \<open>
  C25: Round trip: the decoder recovers every well-formed value (dictionary keys distinct and
  hashable) from its bencoding, and whatever bytes follow the encoding are ignored.
\<close>

theorem bdecode_roundtrip:
  assumes "bwf v"
  shows "bdecode_value (encode v @ junk) = Some (Inr v)"
proof -
  let ?data = "encode v @ junk"
  obtain r where r: "parse (2 * length ?data + 2) ?data 0 = Some r"
    using parse_total(1) [of ?data 0 "2 * length ?data + 2"] by auto
  then have "r = Inr (v, length (encode v))"
    using parse_encode(1) [OF assms, of "2 * length ?data + 2" "[]" junk r]
    by (simp del: parse.simps)
  then show ?thesis using r by (simp add: bdecode_value_def)
qed

theorem bdecode_roundtrip_witness:
  "bdecode_value (encode (BDict [(BBytes ''name'', BList [BInt (- 3), BBytes []])]) @ ''zz'')
     = Some (Inr (BDict [(BBytes ''name'', BList [BInt (- 3), BBytes []])]))"
  by (rule bdecode_roundtrip) (simp add: dwf_def)

end
