(* ===== verification/Records.thy ===== *)
theory Records
  imports Py
begin

text \<open>
  The typed records of \<^verbatim>\<open>core/inkdrop_records.py\<close>: client names and transfer states with their
  alias tables, the download and candidate identities, transfer progress and the transfer status
  with its wire form. The frozen dataclasses are \<open>record\<close>s; a \<open>mk_\<close> function is a constructor
  call, that is \<open>__post_init__\<close> on the given field values, and yields \<open>ShapeError\<close> where the
  source raises \<open>RecordShapeError\<close>. The SHA-256 digest is the parameter \<open>sha256_hex\<close>.
\<close>

datatype record_error = ShapeError | Raised py_exn

section \<open>Scalars\<close>

definition text_of :: "pyval \<Rightarrow> string" where
  "text_of v = (if v = PNone then [] else strip (py_str v))"

definition number_of :: "pyval \<Rightarrow> flt option" where
  "number_of v =
     (if none_or_empty v then None
      else case float_of v of Inr x \<Rightarrow> Some x | Inl _ \<Rightarrow> None)"

definition non_negative_int :: "pyval \<Rightarrow> py_exn + int option" where
  "non_negative_int v =
     (case number_of v of
        None \<Rightarrow> Inr None
      | Some x \<Rightarrow> if flt_lt x (Fin 0) then Inr None else mapE Some (flt_int x))"

definition schema_id :: "string \<Rightarrow> int \<Rightarrow> string" where
  "schema_id concept version = ''inkdrop.'' @ concept @ ''.v'' @ int_str version"

section \<open>Client identity\<close>

definition client_aliases :: "(string \<times> string) list" where
  "client_aliases =
    [(''qbit'', ''qbittorrent''), (''qb'', ''qbittorrent''), (''qbittorrent'', ''qbittorrent''),
     (''sab'', ''sabnzbd''), (''sabnzbd'', ''sabnzbd''),
     (''soulseek'', ''slskd''), (''slskd'', ''slskd''),
     (''transmission'', ''transmission''), (''transmissionbt'', ''transmission''),
     (''deluge'', ''deluge''), (''delugeweb'', ''deluge''),
     (''nzb'', ''nzbget''), (''nzbget'', ''nzbget''),
     (''utorrent'', ''utorrent''), (''utorrentweb'', ''utorrent''), (''utorrentwebui'', ''utorrent''),
     (''rtorrent'', ''rtorrent''), (''rtorrentxmlrpc'', ''rtorrent'')]"

definition client_display_names :: "(string \<times> string) list" where
  "client_display_names =
    [(''qbittorrent'', ''qBittorrent''), (''sabnzbd'', ''SABnzbd''), (''slskd'', ''SLSKD''),
     (''transmission'', ''Transmission''), (''deluge'', ''Deluge''), (''nzbget'', ''NZBGet''),
     (''utorrent'', ''uTorrent''), (''rtorrent'', ''rTorrent'')]"

definition client_key :: "string \<Rightarrow> string" where
  "client_key raw =
     replace_char CHR '' '' [] (replace_char CHR ''_'' [] (replace_char CHR ''-'' [] raw))"

definition coerce_client_id :: "pyval \<Rightarrow> string" where
  "coerce_client_id v =
     (let raw = lower (text_of v)
      in case dget client_aliases (client_key raw) of Some c \<Rightarrow> c | None \<Rightarrow> raw)"

definition client_display_name :: "pyval \<Rightarrow> string" where
  "client_display_name v =
     (let client = coerce_client_id v
      in case dget client_display_names client of
           Some n \<Rightarrow> n
         | None \<Rightarrow> if client \<noteq> [] then client else ''Download client'')"

section \<open>Transfer states\<close>

definition TRANSFER_STATES :: "string list" where
  "TRANSFER_STATES =
    [''queued'', ''downloading'', ''stalled'', ''paused'', ''completed'', ''seeding'', ''failed'',
     ''removed'', ''unknown'']"

definition TRANSFER_STATES_ACTIVE :: "string list" where
  "TRANSFER_STATES_ACTIVE = [''downloading'', ''stalled'']"

definition TRANSFER_STATES_TERMINAL :: "string list" where
  "TRANSFER_STATES_TERMINAL = [''completed'', ''seeding'', ''failed'', ''removed'']"

definition transfer_state_aliases :: "(string \<times> string) list" where
  "transfer_state_aliases =
    [(''active'', ''downloading''), (''downloading'', ''downloading''), (''download'', ''downloading''),
     (''importing'', ''downloading''), (''queued'', ''queued''), (''queueing'', ''queued''),
     (''waiting'', ''queued''), (''pending'', ''queued''), (''paused'', ''paused''),
     (''stopped'', ''paused''), (''stalled'', ''stalled''), (''stale'', ''stalled''),
     (''completed'', ''completed''), (''complete'', ''completed''),
     (''completed_in_client'', ''completed''), (''finished'', ''completed''),
     (''seeding'', ''seeding''), (''uploading'', ''seeding''), (''failed'', ''failed''),
     (''error'', ''failed''), (''failed_download'', ''failed''), (''removed'', ''removed''),
     (''deleted'', ''removed''), (''unknown'', ''unknown''), ([], ''unknown'')]"

definition coerce_transfer_state :: "string \<Rightarrow> pyval \<Rightarrow> string" where
  "coerce_transfer_state fallback v =
     (let token = replace_char CHR '' '' ''_'' (replace_char CHR ''-'' ''_'' (lower (text_of v)))
      in if token \<in> set TRANSFER_STATES then token
         else case dget transfer_state_aliases token of Some s \<Rightarrow> s | None \<Rightarrow> fallback)"

definition require_transfer_state :: "pyval \<Rightarrow> record_error + string" where
  "require_transfer_state v =
     (let token = lower (text_of v)
      in if token \<notin> set TRANSFER_STATES then Inl ShapeError else Inr token)"

section \<open>Download identity\<close>

definition IDENTITY_KEYS :: "string list" where
  "IDENTITY_KEYS =
    [''client_item_id'', ''external_id'', ''client_external_id'', ''client_id'', ''torrent_hash'',
     ''info_hash'', ''hash'', ''hashString'', ''nzo_id'', ''nzoId'', ''nzb_id'', ''NZBID'', ''transfer_id'']"

definition protocol_by_client :: "(string \<times> string) list" where
  "protocol_by_client =
    [(''qbittorrent'', ''torrent''), (''transmission'', ''torrent''), (''deluge'', ''torrent''),
     (''utorrent'', ''torrent''), (''rtorrent'', ''torrent''), (''sabnzbd'', ''usenet''),
     (''nzbget'', ''usenet''), (''slskd'', ''soulseek'')]"

record download_identity =
  di_client :: string
  di_item_id :: string
  di_protocol :: string
  di_handoff_key :: string

definition mk_identity :: "pyval \<Rightarrow> pyval \<Rightarrow> pyval \<Rightarrow> pyval \<Rightarrow> download_identity" where
  "mk_identity client item_id protocol handoff_key =
     (let c = coerce_client_id client; p = lower (text_of protocol)
      in \<lparr>di_client = c, di_item_id = text_of item_id,
          di_protocol = (if p \<noteq> [] then p
                         else case dget protocol_by_client c of Some q \<Rightarrow> q | None \<Rightarrow> []),
          di_handoff_key = text_of handoff_key\<rparr>)"

definition identity_resolved :: "download_identity \<Rightarrow> bool" where
  "identity_resolved d = (di_item_id d \<noteq> [])"

fun first_item_id :: "pydict \<Rightarrow> string list \<Rightarrow> string" where
  "first_item_id m [] = []"
| "first_item_id m (k # ks) =
     (if none_or_empty (get m k) then first_item_id m ks
      else if text_of (get m k) \<noteq> [] then text_of (get m k)
      else first_item_id m ks)"

definition identity_from_mapping ::
    "pyval option \<Rightarrow> pyval option \<Rightarrow> pyval option \<Rightarrow> pyval \<Rightarrow> download_identity" where
  "identity_from_mapping client protocol handoff_key payload =
     (let m = as_dict payload;
          item_id = first_item_id m IDENTITY_KEYS;
          resolved_client = (case client of
              Some c \<Rightarrow> c
            | None \<Rightarrow> first_truthy [get m ''client'', get m ''download_client'', get m ''source'']);
          resolved_handoff = (case handoff_key of
              Some h \<Rightarrow> h
            | None \<Rightarrow> first_truthy [get m ''handoff_key'', get m ''handoff_tag'', get m ''unique_tag''])
      in mk_identity resolved_client (PStr item_id)
           (case protocol of Some p \<Rightarrow> p | None \<Rightarrow> get m ''protocol'') resolved_handoff)"

definition identity_aliases :: "download_identity \<Rightarrow> (string \<times> string) list" where
  "identity_aliases d =
     (let i = di_item_id d in
      if i = [] then []
      else [(''client_item_id'', i), (''external_id'', i), (''client_external_id'', i), (''client_id'', i)]
        @ (if di_protocol d = ''torrent'' then [(''torrent_hash'', i)]
           else if di_client d = ''nzbget'' then [(''nzb_id'', i), (''nzo_id'', i)]
           else if di_client d = ''sabnzbd'' then [(''nzo_id'', i)]
           else []))"

definition or_none :: "string \<Rightarrow> pyval" where
  "or_none s = (if s = [] then PNone else PStr s)"

definition identity_to_dict :: "download_identity \<Rightarrow> pydict" where
  "identity_to_dict d =
    [(''schema'', PStr (schema_id ''download_identity'' 1)),
     (''client'', PStr (di_client d)),
     (''item_id'', or_none (di_item_id d)),
     (''protocol'', or_none (di_protocol d)),
     (''handoff_key'', or_none (di_handoff_key d))]"

section \<open>Candidate identity\<close>

definition DIGEST_LENGTH :: nat where
  "DIGEST_LENGTH = 24"

definition is_hex :: "char \<Rightarrow> bool" where
  "is_hex c = (is_digit c \<or> (97 \<le> code c \<and> code c \<le> 102))"

text \<open>\<open>candidate_identity_digest(label, *parts)\<close>; the digest function is a parameter.\<close>

definition candidate_identity_digest :: "(string \<Rightarrow> string) \<Rightarrow> pyval \<Rightarrow> pyval list \<Rightarrow> string" where
  "candidate_identity_digest sha256_hex label parts =
     take DIGEST_LENGTH (sha256_hex (join ''|'' (map str_or_empty (label # parts))))"

definition is_candidate_identity :: "pyval \<Rightarrow> bool" where
  "is_candidate_identity v =
     (let t = lower (text_of v) in length t = DIGEST_LENGTH \<and> list_all is_hex t)"

definition require_candidate_identity :: "pyval \<Rightarrow> record_error + string" where
  "require_candidate_identity v =
     (let t = lower (text_of v)
      in if \<not> is_candidate_identity (PStr t) then Inl ShapeError else Inr t)"

definition CANDIDATE_IDENTITY_KEYS :: "string list" where
  "CANDIDATE_IDENTITY_KEYS =
    [''candidate_identity'', ''provider_candidate_identity'', ''indexer_candidate_key'',
     ''mangadex_candidate_key'', ''suwayomi_candidate_key'', ''direct_artifact_key'']"

definition CANDIDATE_FAMILY_IDENTITY_KEYS :: "string list" where
  "CANDIDATE_FAMILY_IDENTITY_KEYS =
    [''candidate_family_identity'', ''indexer_suppression_key'', ''mangadex_suppression_key'',
     ''suwayomi_suppression_key'', ''direct_suppression_key'']"

fun first_conforming :: "pydict \<Rightarrow> string list \<Rightarrow> string" where
  "first_conforming m [] = []"
| "first_conforming m (k # ks) =
     (if none_or_empty (get m k) then first_conforming m ks
      else let t = lower (text_of (get m k))
           in if is_candidate_identity (PStr t) then t else first_conforming m ks)"

record candidate_identity =
  ci_artifact :: string
  ci_family :: string
  ci_provider :: string

definition check_level :: "pyval \<Rightarrow> record_error + string" where
  "check_level v =
     (let t = lower (text_of v)
      in if t \<noteq> [] then bindE (require_candidate_identity (PStr t)) (\<lambda>_. Inr t) else Inr t)"

definition mk_candidate :: "pyval \<Rightarrow> pyval \<Rightarrow> pyval \<Rightarrow> record_error + candidate_identity" where
  "mk_candidate artifact family provider =
     bindE (check_level artifact) (\<lambda>a.
     bindE (check_level family) (\<lambda>f.
       Inr \<lparr>ci_artifact = a, ci_family = f, ci_provider = lower (text_of provider)\<rparr>))"

definition candidate_resolved :: "candidate_identity \<Rightarrow> bool" where
  "candidate_resolved c = (ci_artifact c \<noteq> [] \<or> ci_family c \<noteq> [])"

definition candidate_from_mapping :: "pyval option \<Rightarrow> pyval \<Rightarrow> record_error + candidate_identity" where
  "candidate_from_mapping provider payload =
     (let m = as_dict payload
      in mk_candidate (PStr (first_conforming m CANDIDATE_IDENTITY_KEYS))
           (PStr (first_conforming m CANDIDATE_FAMILY_IDENTITY_KEYS))
           (case provider of
              Some p \<Rightarrow> p
            | None \<Rightarrow> first_truthy [get m ''provider_id'', get m ''provider'', get m ''source'']))"

definition candidate_matches :: "candidate_identity \<Rightarrow> candidate_identity \<Rightarrow> bool" where
  "candidate_matches a b =
     (if ci_artifact a \<noteq> [] \<and> ci_artifact b \<noteq> [] then ci_artifact a = ci_artifact b
      else if ci_family a \<noteq> [] \<and> ci_family b \<noteq> [] then ci_family a = ci_family b
      else False)"

definition candidate_aliases :: "candidate_identity \<Rightarrow> pydict" where
  "candidate_aliases c =
     (if ci_artifact c \<noteq> [] then [(''candidate_identity'', PStr (ci_artifact c))] else [])
   @ (if ci_family c \<noteq> [] then [(''candidate_family_identity'', PStr (ci_family c))] else [])"

definition candidate_to_dict :: "candidate_identity \<Rightarrow> pydict" where
  "candidate_to_dict c =
    [(''schema'', PStr (schema_id ''candidate_identity'' 1)),
     (''artifact_identity'', or_none (ci_artifact c)),
     (''family_identity'', or_none (ci_family c)),
     (''provider'', or_none (ci_provider c))]"

section \<open>Transfer progress\<close>

record transfer_progress =
  tp_percent :: "flt option"
  tp_completed :: "int option"
  tp_total :: "int option"

fun opt_min :: "int option \<Rightarrow> int option \<Rightarrow> int option" where
  "opt_min (Some a) (Some b) = Some (min a b)"
| "opt_min c t = c"

definition mk_progress :: "pyval \<Rightarrow> pyval \<Rightarrow> pyval \<Rightarrow> record_error + transfer_progress" where
  "mk_progress percent_complete bytes_completed bytes_total =
     (let percent = number_of percent_complete in
      if (case percent of None \<Rightarrow> False | Some x \<Rightarrow> \<not> (flt_le (Fin 0) x \<and> flt_le x (Fin 100)))
      then Inl ShapeError
      else case non_negative_int bytes_total of
             Inl e \<Rightarrow> Inl (Raised e)
           | Inr bytes_all \<Rightarrow>
               (case non_negative_int bytes_completed of
                  Inl e \<Rightarrow> Inl (Raised e)
                | Inr completed \<Rightarrow>
                    Inr \<lparr>tp_percent = map_option (flt_round 2) percent,
                         tp_completed = opt_min completed bytes_all, tp_total = bytes_all\<rparr>))"

definition progress_determinate :: "transfer_progress \<Rightarrow> bool" where
  "progress_determinate p = (tp_percent p \<noteq> None)"

definition progress_kind :: "transfer_progress \<Rightarrow> string" where
  "progress_kind p = (if progress_determinate p then ''determinate'' else ''indeterminate'')"

definition progress_complete :: "transfer_progress \<Rightarrow> bool" where
  "progress_complete p = (case tp_percent p of None \<Rightarrow> False | Some x \<Rightarrow> flt_le (Fin 100) x)"

fun of_flt :: "flt option \<Rightarrow> pyval" where
  "of_flt None = PNone"
| "of_flt (Some x) = PFloat x"

fun of_int_opt :: "int option \<Rightarrow> pyval" where
  "of_int_opt None = PNone"
| "of_int_opt (Some i) = PInt i"

definition clamp_percent :: "flt \<Rightarrow> flt" where
  "clamp_percent x = flt_max (Fin 0) (flt_min (Fin 100) x)"

definition progress_from_percent :: "pyval \<Rightarrow> pyval \<Rightarrow> pyval \<Rightarrow> record_error + transfer_progress" where
  "progress_from_percent v bytes_completed bytes_total =
     mk_progress (of_flt (map_option clamp_percent (number_of v))) bytes_completed bytes_total"

definition progress_from_fraction :: "pyval \<Rightarrow> pyval \<Rightarrow> pyval \<Rightarrow> record_error + transfer_progress" where
  "progress_from_fraction v bytes_completed bytes_total =
     (case number_of v of
        None \<Rightarrow> mk_progress PNone bytes_completed bytes_total
      | Some x \<Rightarrow>
          if \<not> (flt_le (Fin 0) x \<and> flt_le x (Fin 1)) then Inl ShapeError
          else mk_progress (PFloat (flt_scale 100 x)) bytes_completed bytes_total)"

definition progress_from_bytes :: "pyval \<Rightarrow> pyval \<Rightarrow> record_error + transfer_progress" where
  "progress_from_bytes bytes_completed bytes_total =
     (case non_negative_int bytes_total of
        Inl e \<Rightarrow> Inl (Raised e)
      | Inr bytes_all \<Rightarrow>
          (case non_negative_int bytes_completed of
             Inl e \<Rightarrow> Inl (Raised e)
           | Inr completed \<Rightarrow>
               (case (bytes_all, completed) of
                  (Some t, Some c) \<Rightarrow>
                    if t = 0 then mk_progress PNone (PInt c) (PInt t)
                    else mk_progress (PFloat (clamp_percent (Fin (of_int c * 100 / of_int t)))) (PInt c) (PInt t)
                | _ \<Rightarrow> mk_progress PNone (of_int_opt completed) (of_int_opt bytes_all))))"

section \<open>Transfer status\<close>

definition HEALTH_VERDICTS :: "string list" where
  "HEALTH_VERDICTS = [''clean'', ''damaged'', ''unknown'']"

definition next_step_by_state :: "(string \<times> string) list" where
  "next_step_by_state =
    [(''queued'', ''Waiting for the download client to start''),
     (''downloading'', ''Downloader transfer is active''),
     (''stalled'', ''Waiting for downloader progress or automatic retry''),
     (''completed'', ''Transfer complete; import or verification is next''),
     (''paused'', ''Downloader transfer is paused''),
     (''removed'', ''Downloader item was removed''),
     (''seeding'', ''Torrent transfer is complete and seeding''),
     (''failed'', ''Automatic source retry is next when eligible''),
     (''unknown'', ''Waiting for the next downloader status refresh'')]"

record transfer_status =
  ts_identity :: download_identity
  ts_state :: string
  ts_native_state :: string
  ts_progress :: transfer_progress
  ts_download_rate :: "int option"
  ts_upload_rate :: "int option"
  ts_eta_seconds :: "int option"
  ts_elapsed_seconds :: "int option"
  ts_started_at :: "flt option"
  ts_last_updated_at :: "flt option"
  ts_completed_at :: "flt option"
  ts_stalled_reason :: string
  ts_client_error :: string
  ts_import_stage :: string
  ts_health_verdict :: string
  ts_health_reason :: string
  ts_output_path :: string
  ts_display_title :: string
  ts_source :: string
  ts_provider :: string

text \<open>\<open>TransferStatus.__post_init__\<close> on the fields as given.\<close>

definition status_post_init :: "transfer_status \<Rightarrow> record_error + transfer_status" where
  "status_post_init s =
     bindE (require_transfer_state (PStr (ts_state s))) (\<lambda>state.
       let verdict = lower (strip (ts_health_verdict s)) in
       if verdict \<noteq> [] \<and> verdict \<notin> set HEALTH_VERDICTS then Inl ShapeError
       else Inr (s\<lparr>ts_state := state,
                   ts_health_verdict := verdict,
                   ts_native_state := strip (ts_native_state s),
                   ts_stalled_reason := strip (ts_stalled_reason s),
                   ts_client_error := take 500 (strip (ts_client_error s)),
                   ts_import_stage := strip (ts_import_stage s),
                   ts_health_reason := strip (ts_health_reason s),
                   ts_output_path := strip (ts_output_path s),
                   ts_display_title := strip (ts_display_title s),
                   ts_source := strip (ts_source s),
                   ts_provider := strip (ts_provider s)\<rparr>))"

definition status_stalled :: "transfer_status \<Rightarrow> bool" where
  "status_stalled s = (ts_state s = ''stalled'')"

definition status_seeding :: "transfer_status \<Rightarrow> bool" where
  "status_seeding s = (ts_state s = ''seeding'')"

definition status_active :: "transfer_status \<Rightarrow> bool" where
  "status_active s = (ts_state s \<in> set TRANSFER_STATES_ACTIVE)"

definition status_terminal :: "transfer_status \<Rightarrow> bool" where
  "status_terminal s = (ts_state s \<in> set TRANSFER_STATES_TERMINAL)"

definition status_needs_review :: "transfer_status \<Rightarrow> bool" where
  "status_needs_review s = (ts_health_verdict s \<noteq> [] \<and> ts_health_verdict s \<noteq> ''clean'')"

text \<open>\<open>_NEXT_STEP_BY_STATE[self.state]\<close> raises \<open>KeyError\<close> on a state outside the table.\<close>

definition status_next_step :: "transfer_status \<Rightarrow> record_error + string" where
  "status_next_step s =
     (if ts_import_stage s \<noteq> [] then Inr ''Import and verification are in progress''
      else case dget next_step_by_state (ts_state s) of
             Some t \<Rightarrow> Inr t
           | None \<Rightarrow> Inl (Raised KeyError))"

definition status_to_dict :: "transfer_status \<Rightarrow> record_error + pydict" where
  "status_to_dict s =
     bindE (status_next_step s) (\<lambda>next_step. Inr
      [(''schema'', PStr (schema_id ''transfer_status'' 1)),
       (''client'', PStr (di_client (ts_identity s))),
       (''client_item_id'', or_none (di_item_id (ts_identity s))),
       (''handoff_key'', or_none (di_handoff_key (ts_identity s))),
       (''protocol'', or_none (di_protocol (ts_identity s))),
       (''transfer_state'', PStr (ts_state s)),
       (''native_state'', or_none (ts_native_state s)),
       (''progress_kind'', PStr (progress_kind (ts_progress s))),
       (''percent_complete'', of_flt (tp_percent (ts_progress s))),
       (''bytes_completed'', of_int_opt (tp_completed (ts_progress s))),
       (''bytes_total'', of_int_opt (tp_total (ts_progress s))),
       (''download_rate_bytes_per_second'', of_int_opt (ts_download_rate s)),
       (''upload_rate_bytes_per_second'', of_int_opt (ts_upload_rate s)),
       (''eta_seconds'', of_int_opt (ts_eta_seconds s)),
       (''elapsed_seconds'', of_int_opt (ts_elapsed_seconds s)),
       (''started_at'', of_flt (ts_started_at s)),
       (''last_updated_at'', of_flt (ts_last_updated_at s)),
       (''completed_at'', of_flt (ts_completed_at s)),
       (''stalled'', PBool (status_stalled s)),
       (''seeding'', PBool (status_seeding s)),
       (''stalled_reason'', or_none (ts_stalled_reason s)),
       (''client_error'', or_none (ts_client_error s)),
       (''import_stage'', or_none (ts_import_stage s)),
       (''health_verdict'', or_none (ts_health_verdict s)),
       (''health_reason'', or_none (ts_health_reason s)),
       (''needs_review'', PBool (status_needs_review s)),
       (''completed_output_path'', or_none (ts_output_path s)),
       (''next_step'', PStr next_step),
       (''source'', or_none (ts_source s)),
       (''provider'', or_none (ts_provider s)),
       (''display_title'', or_none (ts_display_title s))])"

section \<open>Normal forms\<close>

lemma text_of_PStr [simp]: "text_of (PStr s) = strip s"
  by (simp add: text_of_def)

lemma text_of_strip [simp]: "strip (text_of v) = text_of v"
  by (simp add: text_of_def)

lemma lower_text_of [simp]: "strip (lower (text_of v)) = lower (text_of v)"
  by (simp add: strip_lower)

lemma dget_in_range: "dget m k = Some v \<Longrightarrow> v \<in> snd ` set m"
  by (drule dget_Some_in) force

lemma client_alias_canonical:
  "c \<in> snd ` set client_aliases \<Longrightarrow> coerce_client_id (PStr c) = c"
proof -
  have "list_all (\<lambda>c. coerce_client_id (PStr c) = c) (map snd client_aliases)"
    by code_simp
  then show "c \<in> snd ` set client_aliases \<Longrightarrow> coerce_client_id (PStr c) = c"
    by (auto simp: list_all_iff)
qed

lemma coerce_client_id_fixed:
  "coerce_client_id (PStr (coerce_client_id v)) = coerce_client_id v"
proof (cases "dget client_aliases (client_key (lower (text_of v)))")
  case None
  then have "coerce_client_id v = lower (text_of v)"
    by (simp add: coerce_client_id_def)
  then show ?thesis using None by (simp add: coerce_client_id_def)
next
  case (Some c)
  then have "coerce_client_id v = c"
    by (simp add: coerce_client_id_def)
  then show ?thesis
    using client_alias_canonical dget_in_range [OF Some] by simp
qed

text \<open>
  Client names are normalised once and for all: coercing a coerced client id changes nothing,
  for every value a client name can arrive as, and the coerced id is what every identity carries.
\<close>

theorem coerce_client_id_idem:
  "coerce_client_id (PStr (coerce_client_id v)) = coerce_client_id v
   \<and> coerce_client_id (PStr (di_client (mk_identity c i p h))) = di_client (mk_identity c i p h)"
  by (simp add: coerce_client_id_fixed mk_identity_def Let_def)

lemma coerced_client_protocol [simp]:
  "coerce_client_id (PStr (di_client (mk_identity c i p h))) = di_client (mk_identity c i p h)"
  by (simp add: mk_identity_def Let_def coerce_client_id_fixed)

lemma transfer_state_alias_range: "snd ` set transfer_state_aliases \<subseteq> set TRANSFER_STATES"
  by code_simp

lemma transfer_state_canonical:
  "\<forall>s \<in> set TRANSFER_STATES. coerce_transfer_state f (PStr s) = s \<and> require_transfer_state (PStr s) = Inr s"
proof -
  have "list_all (\<lambda>s. replace_char CHR '' '' ''_'' (replace_char CHR ''-'' ''_'' (lower (strip s))) = s
      \<and> lower (strip s) = s) TRANSFER_STATES"
    by code_simp
  then show ?thesis
    by (auto simp: list_all_iff coerce_transfer_state_def require_transfer_state_def Let_def)
qed

lemma coerce_transfer_state_mem:
  assumes "f \<in> set TRANSFER_STATES"
  shows "coerce_transfer_state f v \<in> set TRANSFER_STATES"
proof -
  let ?t = "replace_char CHR '' '' ''_'' (replace_char CHR ''-'' ''_'' (lower (text_of v)))"
  show ?thesis
  proof (cases "dget transfer_state_aliases ?t")
    case None
    then show ?thesis using assms by (simp add: coerce_transfer_state_def Let_def)
  next
    case (Some s)
    have "s \<in> set TRANSFER_STATES"
      by (rule subsetD [OF transfer_state_alias_range dget_in_range [OF Some]])
    then show ?thesis using Some by (simp add: coerce_transfer_state_def Let_def)
  qed
qed

text \<open>
  Whatever spelling a client sends, the coerced transfer state is one of the nine canonical
  states (given a canonical fallback), the strict check accepts it, and coercing it again changes
  nothing.
\<close>

theorem coerce_transfer_state_canonical:
  assumes "fallback \<in> set TRANSFER_STATES"
  shows "coerce_transfer_state fallback v \<in> set TRANSFER_STATES
    \<and> require_transfer_state (PStr (coerce_transfer_state fallback v)) = Inr (coerce_transfer_state fallback v)
    \<and> coerce_transfer_state g (PStr (coerce_transfer_state fallback v)) = coerce_transfer_state fallback v"
  using coerce_transfer_state_mem [OF assms] transfer_state_canonical by blast

theorem coerce_transfer_state_canonical_witness:
  "coerce_transfer_state ''unknown'' (PStr '' Completed-in Client'') \<in> set TRANSFER_STATES"
  using coerce_transfer_state_canonical [of "''unknown''" "PStr '' Completed-in Client''"]
  by (simp add: TRANSFER_STATES_def)

section \<open>Progress\<close>

definition progress_ok :: "transfer_progress \<Rightarrow> bool" where
  "progress_ok p =
     ((case tp_percent p of None \<Rightarrow> True | Some (Fin q) \<Rightarrow> 0 \<le> q \<and> q \<le> 100 | Some _ \<Rightarrow> False)
      \<and> (case tp_completed p of None \<Rightarrow> True | Some c \<Rightarrow> 0 \<le> c)
      \<and> (case tp_total p of None \<Rightarrow> True | Some t \<Rightarrow> 0 \<le> t)
      \<and> (case (tp_completed p, tp_total p) of (Some c, Some t) \<Rightarrow> c \<le> t | _ \<Rightarrow> True))"

lemma flt_in_range: "flt_le (Fin 0) x \<Longrightarrow> flt_le x (Fin b) \<Longrightarrow> \<exists>q. x = Fin q \<and> 0 \<le> q \<and> q \<le> b"
  by (cases x) auto

lemma non_negative_int_range: "non_negative_int v = Inr (Some i) \<Longrightarrow> 0 \<le> i"
proof -
  assume a: "non_negative_int v = Inr (Some i)"
  then obtain x where x: "number_of v = Some x" by (auto simp: non_negative_int_def split: option.splits)
  show ?thesis
    using a x by (cases x) (auto simp: non_negative_int_def trunc_nonneg split: if_splits)
qed

lemma round_percent_range: "0 \<le> q \<Longrightarrow> q \<le> 100 \<Longrightarrow> 0 \<le> round_digits n q \<and> round_digits n q \<le> 100"
  using round_digits_bounds [of 0 q 100 n] by simp

lemma mk_progress_ok:
  assumes "mk_progress v c t = Inr p"
  shows "progress_ok p"
proof -
  obtain a b where a: "non_negative_int t = Inr a" and b: "non_negative_int c = Inr b"
    and range: "\<And>x. number_of v = Some x \<Longrightarrow> flt_le (Fin 0) x \<and> flt_le x (Fin 100)"
    and p: "p = \<lparr>tp_percent = map_option (flt_round 2) (number_of v), tp_completed = opt_min b a, tp_total = a\<rparr>"
    using assms by (auto simp: mk_progress_def Let_def split: if_splits sum.splits option.splits)
  have pos: "\<And>i. a = Some i \<Longrightarrow> 0 \<le> i" "\<And>i. b = Some i \<Longrightarrow> 0 \<le> i"
    using a b non_negative_int_range by blast+
  have bytes: "case opt_min b a of None \<Rightarrow> True | Some c \<Rightarrow> 0 \<le> c"
    "case a of None \<Rightarrow> True | Some t \<Rightarrow> 0 \<le> t"
    "case (opt_min b a, a) of (Some c, Some t) \<Rightarrow> c \<le> t | _ \<Rightarrow> True"
    using pos by (cases a; cases b; simp)+
  have percent: "case map_option (flt_round 2) (number_of v) of
      None \<Rightarrow> True | Some (Fin q) \<Rightarrow> 0 \<le> q \<and> q \<le> 100 | Some _ \<Rightarrow> False"
  proof (cases "number_of v")
    case (Some x)
    then obtain q where "x = Fin q" "0 \<le> q" "q \<le> 100"
      using range flt_in_range by blast
    then show ?thesis using Some round_percent_range by simp
  qed simp
  show ?thesis
    using bytes percent by (simp add: progress_ok_def p)
qed

text \<open>
  Every way of building a \<open>TransferProgress\<close> yields a record within its declared units: the
  percentage is a finite number between 0 and 100, byte counts are non-negative, and the completed
  count never exceeds the size.
\<close>

theorem progress_invariant:
  assumes "mk_progress v c t = Inr p \<or> progress_from_percent v c t = Inr p
    \<or> progress_from_fraction v c t = Inr p \<or> progress_from_bytes c t = Inr p"
  shows "progress_ok p"
proof -
  have "progress_from_fraction v c t = Inr p \<Longrightarrow> \<exists>v'. mk_progress v' c t = Inr p"
    by (auto simp: progress_from_fraction_def split: option.splits if_splits)
  moreover have "progress_from_bytes c t = Inr p \<Longrightarrow> \<exists>v' c' t'. mk_progress v' c' t' = Inr p"
    by (auto simp: progress_from_bytes_def split: option.splits if_splits sum.splits prod.splits)
  ultimately show ?thesis
    using assms mk_progress_ok by (auto simp: progress_from_percent_def)
qed

theorem progress_invariant_witness:
  "progress_ok \<lparr>tp_percent = Some (Fin 50), tp_completed = Some 3, tp_total = Some 6\<rparr>"
  by (rule progress_invariant [of PNone "PInt 3" "PInt 6"]) code_simp

lemma round_half_even_ge_even:
  assumes "even i"
  shows "i \<le> round_half_even q \<longleftrightarrow> of_int i - 1/2 \<le> q"
proof
  assume a: "i \<le> round_half_even q"
  show "of_int i - 1/2 \<le> q"
  proof (rule ccontr)
    assume "\<not> of_int i - 1/2 \<le> q"
    then have lt: "q < of_int i - 1/2" by simp
    then have "q < of_int i" by simp
    then have "\<lfloor>q\<rfloor> < i" by (simp only: floor_less_iff)
    then have f: "\<lfloor>q\<rfloor> \<le> i - 1" by simp
    have "\<lfloor>q\<rfloor> = i - 1" using f a round_half_even_bounds [of q] by linarith
    then have "q - of_int \<lfloor>q\<rfloor> < 1/2" using lt by simp
    then have "round_half_even q = \<lfloor>q\<rfloor>" by (simp add: round_half_even_def Let_def)
    then show False using a f by simp
  qed
next
  assume a: "of_int i - 1/2 \<le> q"
  show "i \<le> round_half_even q"
  proof (cases "of_int i \<le> q")
    case True
    then show ?thesis by (rule round_half_even_lower)
  next
    case False
    then have "\<lfloor>q\<rfloor> = i - 1" using a by (simp add: floor_eq_iff)
    moreover have "odd (i - 1)" using assms by simp
    moreover have "\<not> q - of_int (i - 1) < 1/2" using a by simp
    ultimately show ?thesis by (simp add: round_half_even_def Let_def)
  qed
qed

lemma clamp_percent_Fin [simp]: "clamp_percent (Fin q) = Fin (max 0 (min 100 q))"
  by (auto simp: clamp_percent_def flt_max_def flt_min_def max_def min_def)

lemma clamp_percent_other [simp]:
  "clamp_percent NaN = Fin 100" "clamp_percent PosInf = Fin 100" "clamp_percent NegInf = Fin 0"
  by (simp_all add: clamp_percent_def flt_max_def flt_min_def)

lemma clamp_percent_cases:
  "\<exists>r. clamp_percent x = Fin r \<and> 0 \<le> r \<and> r \<le> 100
     \<and> (99995 / 1000 \<le> r \<longleftrightarrow> x = NaN \<or> flt_le (Fin (99995 / 1000)) x)"
  by (cases x) auto

lemma complete_after_rounding:
  "q \<le> 100 \<Longrightarrow> 100 \<le> round_digits 2 q \<longleftrightarrow> 99995 / 1000 \<le> q"
proof -
  have "100 \<le> round_digits 2 q \<longleftrightarrow> (10000 :: rat) \<le> of_int (round_half_even (q * 100))"
    by (simp add: round_digits_def pos_le_divide_eq)
  also have "\<dots> \<longleftrightarrow> 10000 \<le> round_half_even (q * 100)"
    by (metis of_int_le_iff of_int_numeral)
  also have "\<dots> \<longleftrightarrow> 99995 / 1000 \<le> q"
    using round_half_even_ge_even [of 10000 "q * 100"] by (simp add: field_simps)
  finally show ?thesis .
qed

text \<open>
  A percentage reads as complete exactly when it is NaN or at least 99.995: the rounding to
  two digits happens before the comparison with 100, and NaN is clamped to 100. Every other
  number builds an incomplete record; none is rejected.
\<close>

theorem from_percent_complete_iff:
  assumes "number_of v = Some x"
  shows "\<exists>p. progress_from_percent v PNone PNone = Inr p
    \<and> (progress_complete p \<longleftrightarrow> x = NaN \<or> flt_le (Fin (99995 / 1000)) x)"
proof -
  obtain r where r: "clamp_percent x = Fin r" "0 \<le> r" "r \<le> 100"
    and thr: "99995 / 1000 \<le> r \<longleftrightarrow> x = NaN \<or> flt_le (Fin (99995 / 1000)) x"
    using clamp_percent_cases by blast
  have n: "number_of (of_flt (Some (Fin r))) = Some (Fin r)"
    by (simp add: number_of_def none_or_empty_def)
  have z: "non_negative_int PNone = Inr None"
    by (simp add: non_negative_int_def number_of_def none_or_empty_def)
  have "progress_from_percent v PNone PNone =
      Inr \<lparr>tp_percent = Some (Fin (round_digits 2 r)), tp_completed = None, tp_total = None\<rparr>"
    using assms r n z by (simp add: progress_from_percent_def mk_progress_def)
  then show ?thesis
    using complete_after_rounding [OF r(3)] thr by (simp add: progress_complete_def)
qed

theorem from_percent_complete_iff_witness:
  "\<exists>p. progress_from_percent (PFloat NaN) PNone PNone = Inr p
    \<and> (progress_complete p \<longleftrightarrow> NaN = NaN \<or> flt_le (Fin (99995 / 1000)) NaN)"
  by (rule from_percent_complete_iff) (simp add: number_of_def none_or_empty_def)

section \<open>Status and identity\<close>

lemma next_step_table: "\<forall>s \<in> set TRANSFER_STATES. dget next_step_by_state s \<noteq> None"
  by code_simp

lemma status_post_init_state:
  "status_post_init s = Inr t \<Longrightarrow> ts_state t \<in> set TRANSFER_STATES"
  by (auto simp: status_post_init_def require_transfer_state_def result_simps Let_def split: if_splits)

lemma status_next_step_total:
  assumes "ts_state t \<in> set TRANSFER_STATES"
  shows "\<exists>n. status_next_step t = Inr n"
  using next_step_table assms by (fastforce simp: status_next_step_def split: option.splits)

text \<open>
  A constructed \<open>TransferStatus\<close> is well formed: its state is canonical, its error text is at
  most 500 characters, it asks for review exactly when its verdict is damaged or unknown, and its
  wire form always exists (the table lookup of the next step cannot fail).
\<close>

theorem status_well_formed:
  assumes "status_post_init s = Inr t"
  shows "ts_state t \<in> set TRANSFER_STATES \<and> length (ts_client_error t) \<le> 500
    \<and> (status_needs_review t \<longleftrightarrow> ts_health_verdict t \<in> {''damaged'', ''unknown''})
    \<and> \<not> (status_active t \<and> status_terminal t)
    \<and> (\<exists>d. status_to_dict t = Inr d)"
proof -
  have st: "ts_state t \<in> set TRANSFER_STATES"
    using assms by (rule status_post_init_state)
  have v: "ts_health_verdict t = [] \<or> ts_health_verdict t \<in> set HEALTH_VERDICTS"
    and e: "length (ts_client_error t) \<le> 500"
    using assms by (auto simp: status_post_init_def result_simps Let_def split: if_splits)
  have "\<exists>d. status_to_dict t = Inr d"
    using status_next_step_total [OF st] by (auto simp: status_to_dict_def)
  moreover have "status_needs_review t \<longleftrightarrow> ts_health_verdict t \<in> {''damaged'', ''unknown''}"
    using v by (auto simp: status_needs_review_def HEALTH_VERDICTS_def)
  moreover have "\<not> (status_active t \<and> status_terminal t)"
    by (auto simp: status_active_def status_terminal_def TRANSFER_STATES_ACTIVE_def
        TRANSFER_STATES_TERMINAL_def)
  ultimately show ?thesis using st e by blast
qed

definition sample_status :: transfer_status where
  "sample_status =
    \<lparr>ts_identity = mk_identity (PStr ''qB'') (PStr ''abc'') PNone PNone, ts_state = '' Seeding '',
     ts_native_state = [], ts_progress = \<lparr>tp_percent = None, tp_completed = None, tp_total = None\<rparr>,
     ts_download_rate = None, ts_upload_rate = None, ts_eta_seconds = None, ts_elapsed_seconds = None,
     ts_started_at = None, ts_last_updated_at = None, ts_completed_at = None, ts_stalled_reason = [],
     ts_client_error = [], ts_import_stage = [], ts_health_verdict = ''Damaged'',
     ts_health_reason = [], ts_output_path = [], ts_display_title = [], ts_source = [], ts_provider = []\<rparr>"

definition sample_built :: transfer_status where
  "sample_built = sample_status\<lparr>ts_state := ''seeding'', ts_health_verdict := ''damaged''\<rparr>"

lemma sample_status_built: "status_post_init sample_status = Inr sample_built"
proof -
  have "lower (strip '' Seeding '') = ''seeding''" "lower (strip ''Damaged'') = ''damaged''"
    by code_simp+
  then show ?thesis
    by (simp add: status_post_init_def sample_status_def sample_built_def require_transfer_state_def
        TRANSFER_STATES_def HEALTH_VERDICTS_def)
qed

theorem status_well_formed_witness:
  "status_needs_review sample_built \<and> (\<exists>d. status_to_dict sample_built = Inr d)"
  using status_well_formed [OF sample_status_built] by (simp add: sample_built_def)

lemma strip_lower_strip [simp]: "strip (lower (strip s)) = lower (strip s)"
  by (simp add: strip_lower)

lemma text_of_or_none [simp]: "text_of (or_none s) = strip s"
  by (simp add: or_none_def text_of_def)

lemma truthy_or_none [simp]: "truthy (or_none s) \<longleftrightarrow> s \<noteq> []"
  by (simp add: or_none_def)

lemma first_item_id_none: "\<forall>k \<in> set ks. get m k = PNone \<Longrightarrow> first_item_id m ks = []"
  by (induction ks) (auto simp: none_or_empty_def)

lemma protocol_table_normal: "q \<in> snd ` set protocol_by_client \<Longrightarrow> lower (strip q) = q"
proof -
  have "list_all (\<lambda>q. lower (strip q) = q) (map snd protocol_by_client)" by code_simp
  then show "q \<in> snd ` set protocol_by_client \<Longrightarrow> lower (strip q) = q"
    by (auto simp: list_all_iff)
qed

lemma mk_identity_protocol_normal:
  "lower (strip (di_protocol (mk_identity c i p h))) = di_protocol (mk_identity c i p h)"
  using protocol_table_normal [OF dget_in_range]
  by (auto simp: mk_identity_def Let_def split: option.splits)

lemma mk_identity_again:
  fixes c i p h
  defines "d \<equiv> mk_identity c i p h"
  shows "mk_identity (PStr (di_client d)) (PStr (di_item_id d)) (or_none (di_protocol d))
           (or_none (di_handoff_key d)) = d"
proof -
  have "lower (strip (di_protocol d)) = di_protocol d" "coerce_client_id (PStr (di_client d)) = di_client d"
    by (simp_all add: d_def mk_identity_protocol_normal)
  moreover have "strip (di_item_id d) = di_item_id d" "strip (di_handoff_key d) = di_handoff_key d"
    by (simp_all add: d_def mk_identity_def Let_def)
  moreover have "di_protocol d = [] \<Longrightarrow>
      (case dget protocol_by_client (di_client d) of Some q \<Rightarrow> q | None \<Rightarrow> []) = []"
    by (auto simp: d_def mk_identity_def Let_def split: if_splits option.splits)
  ultimately show ?thesis
    by (cases "di_protocol d = []") (auto simp: mk_identity_def Let_def)
qed

text \<open>
  Identity round trip: reading the identity back from the wire form of a status gives the
  identity it was built with, provided the client is named (an unnamed client would be replaced by
  the status's source).
\<close>

theorem identity_roundtrip:
  assumes "ts_identity t = mk_identity c i p h" and "status_to_dict t = Inr d"
    and "di_client (ts_identity t) \<noteq> [] \<or> ts_source t = []"
  shows "identity_from_mapping None None None (PDict d) = ts_identity t"
proof -
  let ?d = "ts_identity t"
  have g: "get d ''client'' = PStr (di_client ?d)" "get d ''client_item_id'' = or_none (di_item_id ?d)"
    "get d ''handoff_key'' = or_none (di_handoff_key ?d)" "get d ''protocol'' = or_none (di_protocol ?d)"
    "get d ''source'' = or_none (ts_source t)" "get d ''download_client'' = PNone"
    "get d ''handoff_tag'' = PNone" "get d ''unique_tag'' = PNone"
    and none: "\<forall>k \<in> set (tl IDENTITY_KEYS). get d k = PNone"
    using assms(2) by (auto simp: status_to_dict_def result_simps IDENTITY_KEYS_def)
  have again: "mk_identity (PStr (di_client ?d)) (PStr (di_item_id ?d)) (or_none (di_protocol ?d))
      (or_none (di_handoff_key ?d)) = ?d"
    unfolding assms(1) by (rule mk_identity_again)
  have item: "first_item_id d IDENTITY_KEYS = di_item_id ?d"
  proof -
    have keys: "IDENTITY_KEYS = ''client_item_id'' # tl IDENTITY_KEYS"
      by (simp add: IDENTITY_KEYS_def)
    have "strip (di_item_id ?d) = di_item_id ?d"
      unfolding assms(1) by (simp add: mk_identity_def Let_def)
    then show ?thesis
      using g(2) first_item_id_none [OF none]
      by (subst keys) (auto simp: none_or_empty_def or_none_def)
  qed
  have handoff: "text_of (first_truthy [get d ''handoff_key'', get d ''handoff_tag'', get d ''unique_tag''])
      = text_of (or_none (di_handoff_key ?d))"
    by (simp add: g or_none_def)
  have client: "coerce_client_id (first_truthy [get d ''client'', get d ''download_client'', get d ''source''])
      = coerce_client_id (PStr (di_client ?d))"
    using assms(3) by (auto simp: g or_none_def coerce_client_id_def text_of_def)
  have "identity_from_mapping None None None (PDict d)
      = mk_identity (PStr (di_client ?d)) (PStr (di_item_id ?d)) (or_none (di_protocol ?d))
          (or_none (di_handoff_key ?d))"
    unfolding identity_from_mapping_def
    by (simp only: as_dict.simps Let_def option.simps item g(4) mk_identity_def handoff client)
  then show ?thesis using again by simp
qed

theorem identity_roundtrip_witness:
  "identity_from_mapping None None None (PDict (projr (status_to_dict sample_built)))
     = ts_identity sample_built"
proof -
  obtain d where d: "status_to_dict sample_built = Inr d"
    using status_next_step_total [of sample_built]
    by (auto simp: status_to_dict_def sample_built_def TRANSFER_STATES_def)
  have "ts_identity sample_built = mk_identity (PStr ''qB'') (PStr ''abc'') PNone PNone"
    "ts_source sample_built = []"
    by (simp_all add: sample_built_def sample_status_def)
  then show ?thesis
    using identity_roundtrip [OF _ d, of "PStr ''qB''" "PStr ''abc''" PNone PNone] d by simp
qed

section \<open>Candidate identity\<close>

lemma hex_strip: "list_all is_hex t \<Longrightarrow> strip t = t"
  unfolding strip_def
  by (rule strip_of_nop) (auto simp: list_all_iff is_hex_def is_digit_def is_space_def Let_def)

lemma hex_normal: "list_all is_hex t \<Longrightarrow> lower (strip t) = t"
proof -
  assume a: "list_all is_hex t"
  have "strip t = t" using a by (rule hex_strip)
  moreover have "map lower_char t = t"
    by (rule map_idI) (use a in \<open>auto simp: list_all_iff is_hex_def is_digit_def lower_char_def is_upper_def Let_def\<close>)
  ultimately show ?thesis by (simp add: lower_def)
qed

lemma is_candidate_identity_PStr:
  "is_candidate_identity (PStr t) \<Longrightarrow> is_candidate_identity (PStr (lower (strip t)))"
  by (simp add: is_candidate_identity_def Let_def)

text \<open>
  A minted digest is a candidate identity: for any digest function that returns 64 lowercase
  hexadecimal characters, as SHA-256's hexdigest does, \<open>candidate_identity_digest\<close> passes both the
  shape test and the strict check unchanged.
\<close>

theorem digest_is_identity:
  assumes "\<And>s. length (sha256_hex s) = 64 \<and> list_all is_hex (sha256_hex s)"
  shows "require_candidate_identity (PStr (candidate_identity_digest sha256_hex label parts))
    = Inr (candidate_identity_digest sha256_hex label parts)"
proof -
  let ?t = "candidate_identity_digest sha256_hex label parts"
  have "length ?t = DIGEST_LENGTH" "list_all is_hex ?t"
    using assms by (auto simp: candidate_identity_digest_def DIGEST_LENGTH_def list_all_iff dest: in_set_takeD)
  moreover from this have "lower (strip ?t) = ?t" "strip ?t = ?t"
    using hex_normal [of ?t] by (simp_all add: hex_strip)
  ultimately show ?thesis
    by (simp add: require_candidate_identity_def is_candidate_identity_def Let_def)
qed

theorem digest_is_identity_witness:
  "require_candidate_identity
     (PStr (candidate_identity_digest (\<lambda>s. replicate 64 (CHR ''a'')) (PStr ''direct'') [PNone, PInt 7]))
   = Inr (candidate_identity_digest (\<lambda>s. replicate 64 (CHR ''a'')) (PStr ''direct'') [PNone, PInt 7])"
  by (rule digest_is_identity) (simp add: list_all_iff is_hex_def code_def)

lemma check_level_conforming:
  "t = [] \<or> is_candidate_identity (PStr t) \<and> lower (strip t) = t \<Longrightarrow> check_level (PStr t) = Inr t"
  by (auto simp: check_level_def require_candidate_identity_def Let_def)

lemma first_conforming_shape:
  "first_conforming m ks = [] \<or>
   is_candidate_identity (PStr (first_conforming m ks)) \<and> lower (strip (first_conforming m ks)) = first_conforming m ks"
  by (induction ks) (auto simp: Let_def)

lemma check_level_shape:
  "check_level v = Inr t \<Longrightarrow> t = [] \<or> is_candidate_identity (PStr t) \<and> lower (strip t) = t"
  by (auto simp: check_level_def require_candidate_identity_def result_simps Let_def split: if_splits)

text \<open>
  Reading a candidate identity from a payload never raises, and it inverts \<open>aliases\<close>: the
  identity read from the aliases of a constructed identity is that identity.
\<close>

theorem candidate_roundtrip:
  "(\<exists>c. candidate_from_mapping provider payload = Inr c)
   \<and> (mk_candidate a f p = Inr c \<longrightarrow>
        candidate_from_mapping (Some (PStr (ci_provider c))) (PDict (candidate_aliases c)) = Inr c)"
proof (intro conjI impI)
  show "\<exists>c. candidate_from_mapping provider payload = Inr c"
    by (simp add: candidate_from_mapping_def mk_candidate_def Let_def
        check_level_conforming [OF first_conforming_shape])
next
  assume "mk_candidate a f p = Inr c"
  then obtain x y where x: "check_level a = Inr x" and y: "check_level f = Inr y"
    and c: "c = \<lparr>ci_artifact = x, ci_family = y, ci_provider = lower (text_of p)\<rparr>"
    by (auto simp: mk_candidate_def result_simps)
  note nx = check_level_shape [OF x] and ny = check_level_shape [OF y]
  have art: "first_conforming (candidate_aliases c) CANDIDATE_IDENTITY_KEYS = x"
    using nx by (auto simp: CANDIDATE_IDENTITY_KEYS_def candidate_aliases_def c none_or_empty_def Let_def)
  have fam: "first_conforming (candidate_aliases c) CANDIDATE_FAMILY_IDENTITY_KEYS = y"
    using ny by (auto simp: CANDIDATE_FAMILY_IDENTITY_KEYS_def candidate_aliases_def c none_or_empty_def Let_def)
  show "candidate_from_mapping (Some (PStr (ci_provider c))) (PDict (candidate_aliases c)) = Inr c"
    using check_level_conforming nx ny
    by (simp add: candidate_from_mapping_def mk_candidate_def Let_def art fam) (simp add: c)
qed

theorem candidate_roundtrip_witness:
  "candidate_from_mapping (Some (PStr ''rss''))
     (PDict (candidate_aliases \<lparr>ci_artifact = replicate 24 (CHR ''b''), ci_family = [], ci_provider = ''rss''\<rparr>))
   = Inr \<lparr>ci_artifact = replicate 24 (CHR ''b''), ci_family = [], ci_provider = ''rss''\<rparr>"
proof -
  have "mk_candidate (PStr (replicate 24 (CHR ''b''))) PNone (PStr ''rss'')
      = Inr \<lparr>ci_artifact = replicate 24 (CHR ''b''), ci_family = [], ci_provider = ''rss''\<rparr>"
    by code_simp
  then show ?thesis
    using candidate_roundtrip by fastforce
qed

end
