(* ===== verification/Fairness.thy ===== *)
theory Fairness
  imports Py
begin

text \<open>
  Queue fairness: the bounded ageing score and the lane quotas of \<^verbatim>\<open>core/inkdrop_queue_fairness.py\<close>,
  and \<open>_enforce_lane_quotas\<close> of \<^verbatim>\<open>core/inkdrop_source_worker_batch.py\<close>, which applies the quotas to
  the window of plans that leaves the planner. The module constants are read from the environment
  once; they are the fields of \<open>fairness_config\<close>, built by \<open>read_fairness_config\<close>. A plan is its
  dictionary together with its object identity, since \<open>plan_key\<close> falls back on \<open>id(plan)\<close>.
\<close>

section \<open>Configuration\<close>

definition env_float :: "(string \<times> string) list \<Rightarrow> string \<Rightarrow> flt \<Rightarrow> flt" where
  "env_float env name fallback =
     (case dget env name of
        None \<Rightarrow> fallback
      | Some s \<Rightarrow> (case parse_float s of Some x \<Rightarrow> x | None \<Rightarrow> fallback))"

text \<open>\<open>int(float(text))\<close>: NaN raises the \<open>ValueError\<close> that is caught, an infinity raises
  \<open>OverflowError\<close>, which is not.\<close>

definition env_int :: "(string \<times> string) list \<Rightarrow> string \<Rightarrow> int \<Rightarrow> py_exn + int" where
  "env_int env name fallback =
     (case dget env name of
        None \<Rightarrow> Inr fallback
      | Some s \<Rightarrow>
          (case parse_float s of
             None \<Rightarrow> Inr fallback
           | Some x \<Rightarrow> (case flt_int x of
                Inr i \<Rightarrow> Inr i
              | Inl e \<Rightarrow> if e = ValueError then Inr fallback else Inl e)))"

definition DAY_SECONDS :: rat where
  "DAY_SECONDS = 86400"

record fairness_config =
  age_saturation_days :: flt
  age_decay_start_attempts :: int
  aged_lane_min_stall_days :: flt
  fast_lane_share :: flt
  aged_lane_share :: flt
  steady_lane_min_share :: flt

definition read_fairness_config :: "(string \<times> string) list \<Rightarrow> py_exn + fairness_config" where
  "read_fairness_config env =
     mapE (\<lambda>start.
       \<lparr>age_saturation_days = env_float env ''INKDROP_QUEUE_AGE_SATURATION_DAYS'' (Fin 21),
        age_decay_start_attempts = start,
        aged_lane_min_stall_days = env_float env ''INKDROP_QUEUE_AGED_LANE_MIN_STALL_DAYS'' (Fin 7),
        fast_lane_share = env_float env ''INKDROP_QUEUE_FAST_LANE_SHARE'' (Fin (1/4)),
        aged_lane_share = env_float env ''INKDROP_QUEUE_AGED_LANE_SHARE'' (Fin (1/4)),
        steady_lane_min_share = env_float env ''INKDROP_QUEUE_STEADY_LANE_MIN_SHARE'' (Fin (1/2))\<rparr>)
     (env_int env ''INKDROP_QUEUE_AGE_DECAY_START_ATTEMPTS'' 52)"

definition default_config :: fairness_config where
  "default_config = \<lparr>age_saturation_days = Fin 21, age_decay_start_attempts = 52,
     aged_lane_min_stall_days = Fin 7, fast_lane_share = Fin (1/4), aged_lane_share = Fin (1/4),
     steady_lane_min_share = Fin (1/2)\<rparr>"

section \<open>Ageing\<close>

text \<open>Division of a float by a positive float, and multiplication.\<close>

fun flt_div :: "flt \<Rightarrow> flt \<Rightarrow> flt" where
  "flt_div NaN _ = NaN"
| "flt_div _ NaN = NaN"
| "flt_div (Fin a) (Fin b) = Fin (a / b)"
| "flt_div (Fin a) _ = Fin 0"
| "flt_div x (Fin b) = x"
| "flt_div _ _ = NaN"

fun flt_mult :: "flt \<Rightarrow> flt \<Rightarrow> flt" where
  "flt_mult NaN _ = NaN"
| "flt_mult _ NaN = NaN"
| "flt_mult (Fin a) (Fin b) = Fin (a * b)"
| "flt_mult (Fin a) y = (if a = 0 then NaN else if 0 < a then y else flt_neg y)"
| "flt_mult x (Fin b) = (if b = 0 then NaN else if 0 < b then x else flt_neg x)"
| "flt_mult PosInf y = y"
| "flt_mult NegInf y = flt_neg y"

text \<open>\<open>float(stall_seconds or 0.0)\<close> with \<open>TypeError\<close> and \<open>ValueError\<close> caught.\<close>

definition stall_of :: "pyval \<Rightarrow> flt option" where
  "stall_of v =
     (if truthy v then (case float_of v of Inr x \<Rightarrow> Some x | Inl _ \<Rightarrow> None) else Some (Fin 0))"

definition age_pressure :: "fairness_config \<Rightarrow> pyval \<Rightarrow> flt" where
  "age_pressure cfg stall_seconds =
     (case stall_of stall_seconds of
        None \<Rightarrow> Fin 0
      | Some stall \<Rightarrow>
          if flt_le stall (Fin 0) then Fin 0
          else let window = flt_max (Fin 1) (flt_scale DAY_SECONDS (age_saturation_days cfg))
               in flt_min (Fin 1) (flt_div stall window))"

text \<open>\<open>retry_ceiling_real_attempts\<close>: the configured ceiling, or 150 if it is not positive.\<close>

definition retry_ceiling_real_attempts :: "int \<Rightarrow> int" where
  "retry_ceiling_real_attempts configured = (if configured > 0 then configured else 150)"

definition attempts_of :: "pyval \<Rightarrow> py_exn + int" where
  "attempts_of v =
     (if truthy v then (case int_of v of
          Inr i \<Rightarrow> Inr i
        | Inl e \<Rightarrow> if e = TypeError \<or> e = ValueError then Inr 0 else Inl e)
      else Inr 0)"

definition attempt_decay :: "fairness_config \<Rightarrow> int \<Rightarrow> pyval \<Rightarrow> pyval \<Rightarrow> py_exn + rat" where
  "attempt_decay cfg configured real_attempts ceiling_arg =
     bindE (attempts_of real_attempts) (\<lambda>attempts.
     bindE (if truthy ceiling_arg then int_of ceiling_arg
            else Inr (retry_ceiling_real_attempts configured)) (\<lambda>ceiling.
       let start = age_decay_start_attempts cfg in
       if attempts \<le> start then Inr 1
       else if ceiling \<le> start \<or> attempts \<ge> ceiling then Inr 0
       else Inr (max 0 (min 1 (of_int (ceiling - attempts) / of_int (ceiling - start))))))"

definition ageing_score :: "fairness_config \<Rightarrow> int \<Rightarrow> pyval \<Rightarrow> pyval \<Rightarrow> pyval \<Rightarrow> py_exn + flt" where
  "ageing_score cfg configured stall_seconds real_attempts ceiling_arg =
     (case stall_of stall_seconds of
        None \<Rightarrow> Inr (Fin 0)
      | Some stall \<Rightarrow>
          if flt_lt stall (flt_scale DAY_SECONDS (aged_lane_min_stall_days cfg)) then Inr (Fin 0)
          else mapE (\<lambda>d. flt_mult (age_pressure cfg (PFloat stall)) (Fin d))
                 (attempt_decay cfg configured real_attempts ceiling_arg))"

section \<open>Lane quotas\<close>

record quotas =
  q_fast :: int
  q_steady :: int
  q_aged :: int

definition flt_round_int :: "flt \<Rightarrow> py_exn + int" where
  "flt_round_int x = (case x of Fin q \<Rightarrow> Inr (round_half_even q) | _ \<Rightarrow> flt_int x)"

definition lane_quotas :: "fairness_config \<Rightarrow> int \<Rightarrow> py_exn + quotas" where
  "lane_quotas cfg seats =
     (if seats \<le> 0 then Inr \<lparr>q_fast = 0, q_steady = 0, q_aged = 0\<rparr>
      else if seats = 1 then Inr \<lparr>q_fast = 1, q_steady = 1, q_aged = 0\<rparr>
      else
        bindE (flt_int (flt_scale (of_int seats) (steady_lane_min_share cfg))) (\<lambda>share.
        bindE (flt_round_int (flt_scale (of_int seats) (fast_lane_share cfg))) (\<lambda>fast_share.
        bindE (flt_round_int (flt_scale (of_int seats) (aged_lane_share cfg))) (\<lambda>aged_share.
          let steady_min = max 1 share;
              spare = max 0 (seats - steady_min);
              fast = min spare (max 1 fast_share);
              aged = min (max 0 (spare - fast)) (max 1 aged_share)
          in Inr \<lparr>q_fast = fast, q_steady = seats - fast - aged, q_aged = aged\<rparr>))))"

section \<open>Enforcing the quotas on a window\<close>

record plan =
  pl_id :: nat
  pl_data :: pydict

definition LANE_FIELD :: string where
  "LANE_FIELD = ''source_worker_queue_lane''"

definition plan_lane :: "plan \<Rightarrow> string" where
  "plan_lane p = str_or_empty (get (pl_data p) LANE_FIELD)"

definition plan_key :: "plan \<Rightarrow> string" where
  "plan_key p =
     (let q = strip (str_or_empty (get (pl_data p) ''queue_id''))
      in if q \<noteq> [] then ''queue:'' @ q else ''object:'' @ nat_str (pl_id p))"

text \<open>The loop that keeps every plan of the window except the aged ones beyond the cap.\<close>

fun keep_loop :: "int \<Rightarrow> int \<Rightarrow> plan list \<Rightarrow> plan list" where
  "keep_loop aged_cap aged_kept [] = []"
| "keep_loop aged_cap aged_kept (p # ps) =
     (if plan_lane p = ''aged''
      then (if aged_kept \<ge> aged_cap then keep_loop aged_cap aged_kept ps
            else p # keep_loop aged_cap (aged_kept + 1) ps)
      else p # keep_loop aged_cap aged_kept ps)"

text \<open>\<open>backfill\<close>: the plans of the pool in the wanted lane whose key is not used yet, up to the room;
  each one taken is added to the used keys.\<close>

fun backfill :: "string \<Rightarrow> int \<Rightarrow> string list \<Rightarrow> plan list \<Rightarrow> plan list" where
  "backfill lane room used [] = []"
| "backfill lane room used (p # ps) =
     (if room \<le> 0 then []
      else if plan_key p \<in> set used \<or> plan_lane p \<noteq> lane then backfill lane room used ps
      else p # backfill lane (room - 1) (plan_key p # used) ps)"

definition lane_count :: "string \<Rightarrow> plan list \<Rightarrow> int" where
  "lane_count lane ps = int (length (filter (\<lambda>p. plan_lane p = lane) ps))"

definition fill_lane :: "string \<Rightarrow> int \<Rightarrow> int \<Rightarrow> plan list \<Rightarrow> plan list \<Rightarrow> plan list" where
  "fill_lane lane quota limit plans kept =
     (if lane_count lane kept < quota \<and> int (length kept) < limit
      then kept @ backfill lane (min (quota - lane_count lane kept) (limit - int (length kept)))
             (map plan_key kept) plans
      else kept)"

definition enforce_lane_quotas ::
    "fairness_config \<Rightarrow> plan list \<Rightarrow> plan list \<Rightarrow> pyval \<Rightarrow> py_exn + plan list" where
  "enforce_lane_quotas cfg plans window limit_arg =
     (case int_of limit_arg of
        Inl _ \<Rightarrow> Inr window
      | Inr l \<Rightarrow>
          let limit = max 1 (min l 500) in
          mapE (\<lambda>q.
            let kept = keep_loop (q_aged q) 0 window;
                with_fast = fill_lane ''fast'' (q_fast q) limit plans kept;
                with_steady = fill_lane ''steady'' (q_steady q) limit plans with_fast
            in take (nat limit) with_steady)
          (lane_quotas cfg limit))"

section \<open>The ageing score\<close>

definition unit_range :: "rat \<Rightarrow> bool" where
  "unit_range q = (0 \<le> q \<and> q \<le> 1)"

lemma unit_range_simps [simp]: "unit_range 0" "unit_range 1"
  by (simp_all add: unit_range_def)

lemma flt_max_one: "flt_max (Fin 1) x = PosInf \<or> (\<exists>w\<ge>1. flt_max (Fin 1) x = Fin w)"
  by (cases x) (auto simp: flt_max_def)

text \<open>The pressure is the capped ratio of the stall to the window; a NaN stall counts as saturated.\<close>

lemma capped_ratio:
  assumes "w = PosInf \<or> (\<exists>q\<ge>1. w = Fin q)" "\<not> flt_le s (Fin 0)"
  shows "\<exists>q. flt_min (Fin 1) (flt_div s w) = Fin q \<and> unit_range q"
  using assms by (cases s) (auto simp: flt_min_def unit_range_def)

lemma age_pressure_range: "\<exists>q. age_pressure cfg v = Fin q \<and> unit_range q"
  using capped_ratio [OF flt_max_one]
  by (auto simp: age_pressure_def Let_def split: option.splits)

lemma attempt_decay_range: "attempt_decay cfg c a l = Inr d \<Longrightarrow> unit_range d"
  by (auto simp: attempt_decay_def Let_def result_simps unit_range_def min_def max_def
      split: if_splits)

lemma unit_range_mult: "unit_range p \<Longrightarrow> unit_range d \<Longrightarrow> unit_range (p * d)"
  by (simp add: unit_range_def mult_le_one)

lemma ageing_score_Inr:
  assumes "ageing_score cfg c s a l = Inr x"
  shows "\<exists>q. x = Fin q \<and> unit_range q"
proof (cases "stall_of s")
  case None
  with assms show ?thesis by (auto simp: ageing_score_def)
next
  case (Some st)
  obtain p where p: "age_pressure cfg (PFloat st) = Fin p" "unit_range p"
    using age_pressure_range by blast
  from Some assms show ?thesis
    by (auto simp: ageing_score_def p mapE_def result_simps split: if_splits
        intro: unit_range_mult [OF p(2)] dest: attempt_decay_range)
qed

lemma attempts_of_error: "attempts_of v = Inl e \<Longrightarrow> e = OverflowError"
  using int_of_error by (auto simp: attempts_of_def split: if_splits sum.splits)

text \<open>
  For every configuration, stall, attempt count and ceiling, the ageing score is a float
  between 0 and 1, and with no explicit ceiling the only exception is the \<open>OverflowError\<close> of an
  infinite attempt count.
\<close>

theorem ageing_score_range:
  "(case ageing_score cfg configured stall attempts PNone of
      Inl e \<Rightarrow> e = OverflowError
    | Inr x \<Rightarrow> \<exists>q. x = Fin q \<and> 0 \<le> q \<and> q \<le> 1)"
proof (cases "ageing_score cfg configured stall attempts PNone")
  case (Inr x)
  then show ?thesis using ageing_score_Inr unit_range_def by auto
next
  case (Inl e)
  then have "\<exists>c. attempt_decay cfg configured attempts PNone = Inl e"
    by (auto simp: ageing_score_def mapE_def result_simps split: option.splits if_splits)
  then have "attempts_of attempts = Inl e"
    by (auto simp: attempt_decay_def Let_def result_simps split: if_splits)
  then show ?thesis using Inl attempts_of_error by simp
qed

lemma age_pressure_Fin:
  "\<exists>w. (w = 0 \<or> 1 \<le> w) \<and> (\<forall>s. age_pressure cfg (PFloat (Fin s)) =
     Fin (if s \<le> 0 \<or> w = 0 then 0 else min 1 (s / w)))"
proof -
  let ?w = "flt_max (Fin 1) (flt_scale DAY_SECONDS (age_saturation_days cfg))"
  have st: "stall_of (PFloat (Fin s)) = Some (Fin s)" for s
    by (simp add: stall_of_def)
  consider "?w = PosInf" | w where "1 \<le> w" "?w = Fin w"
    using flt_max_one by blast
  then show ?thesis
  proof cases
    case 1
    then have "\<forall>s. age_pressure cfg (PFloat (Fin s)) = Fin 0"
      by (simp add: age_pressure_def st Let_def flt_min_def)
    then show ?thesis by auto
  next
    case 2
    then have "\<forall>s. age_pressure cfg (PFloat (Fin s)) = Fin (if s \<le> 0 then 0 else min 1 (s / w))"
      by (simp add: age_pressure_def st Let_def flt_min_def min_def)
    with 2 show ?thesis by (intro exI [of _ w]) auto
  qed
qed

lemma attempts_of_PInt [simp]: "attempts_of (PInt n) = Inr n"
  by (simp add: attempts_of_def)

lemma attempt_decay_antitone:
  assumes "m \<le> n"
  shows "\<exists>d e. attempt_decay cfg c (PInt m) PNone = Inr d \<and> attempt_decay cfg c (PInt n) PNone = Inr e
     \<and> e \<le> d \<and> 0 \<le> e"
proof -
  let ?s = "age_decay_start_attempts cfg"
  let ?c = "retry_ceiling_real_attempts c"
  have "?s < ?c \<Longrightarrow> (of_int (?c - n) :: rat) / of_int (?c - ?s) \<le> of_int (?c - m) / of_int (?c - ?s)"
    using assms by (intro divide_right_mono) auto
  then show ?thesis
    using assms by (auto simp: attempt_decay_def Let_def)
qed

text \<open>
  The score never rewards retrying and never forgets waiting. With finite stalls, waiting
  longer never lowers the score and more real attempts never raise it.
\<close>

theorem ageing_score_monotone:
  assumes "s \<le> t" "m \<le> n"
  shows "\<exists>p q. ageing_score cfg configured (PFloat (Fin s)) (PInt n) PNone = Inr (Fin p)
    \<and> ageing_score cfg configured (PFloat (Fin t)) (PInt m) PNone = Inr (Fin q) \<and> p \<le> q"
proof -
  obtain d e where de: "attempt_decay cfg configured (PInt m) PNone = Inr d"
      "attempt_decay cfg configured (PInt n) PNone = Inr e" "e \<le> d" "0 \<le> e"
    using attempt_decay_antitone [OF assms(2)] by blast
  obtain w where w: "w = 0 \<or> 1 \<le> w"
      "\<And>s. age_pressure cfg (PFloat (Fin s)) = Fin (if s \<le> 0 \<or> w = 0 then 0 else min 1 (s / w))"
    using age_pressure_Fin by blast
  let ?p = "\<lambda>s. if s \<le> 0 \<or> w = 0 then 0 else min 1 (s / w)"
  have st: "stall_of (PFloat (Fin s)) = Some (Fin s)" for s
    by (simp add: stall_of_def)
  have "0 \<le> ?p s" using w(1) by auto
  moreover have "?p s \<le> ?p t"
  proof (cases "w = 0")
    case False
    then have "s / w \<le> t / w" "0 < w" using w(1) assms(1) by (auto intro: divide_right_mono)
    then show ?thesis using assms(1) by (auto simp: min_def)
  qed simp
  ultimately have "0 \<le> ?p t" by (rule order_trans)
  then have "0 \<le> ?p t * d" using de by (intro mult_nonneg_nonneg) auto
  have "?p s * e \<le> ?p t * d"
    using \<open>?p s \<le> ?p t\<close> \<open>0 \<le> ?p t\<close> de by (intro mult_mono) auto
  with \<open>0 \<le> ?p t * d\<close>
  show ?thesis
    using assms(1) de
    by (cases "flt_scale DAY_SECONDS (aged_lane_min_stall_days cfg)")
       (auto simp: ageing_score_def st w(2))
qed

theorem ageing_score_monotone_witness:
  "\<exists>p q. ageing_score default_config 0 (PFloat (Fin 700000)) (PInt 100) PNone = Inr (Fin p)
    \<and> ageing_score default_config 0 (PFloat (Fin 1000000)) (PInt 60) PNone = Inr (Fin q) \<and> p \<le> q"
  by (rule ageing_score_monotone) simp_all

section \<open>The lane quotas\<close>

lemma default_quotas:
  "2 \<le> seats \<Longrightarrow> \<exists>q. lane_quotas default_config seats = Inr q"
  by (simp add: lane_quotas_def default_config_def flt_round_int_def Let_def)

lemma steady_floor:
  fixes n st f a :: int
  shows "min n st \<le> n - min (max 0 (n - st)) f - min (max 0 (n - st) - min (max 0 (n - st)) f) a"
  by (simp add: min_def max_def)

text \<open>
  The three lanes partition the seats of a window of at least two plans, no lane is
  negative, and the steady lane keeps its guaranteed share whatever the other two are configured to.
\<close>

theorem lane_quotas_partition:
  assumes "lane_quotas cfg seats = Inr q" "2 \<le> seats" "steady_lane_min_share cfg = Fin share"
  shows "q_fast q + q_steady q + q_aged q = seats \<and> 0 \<le> q_fast q \<and> 0 \<le> q_aged q
    \<and> min seats (max 1 (trunc (of_int seats * share))) \<le> q_steady q"
  using assms by (auto simp: lane_quotas_def result_simps Let_def intro: steady_floor)

theorem lane_quotas_partition_witness:
  "\<exists>q. lane_quotas default_config 24 = Inr q
    \<and> q_fast q + q_steady q + q_aged q = 24 \<and> 0 \<le> q_fast q \<and> 0 \<le> q_aged q
    \<and> min 24 (max 1 (trunc (of_int 24 * (1/2)))) \<le> q_steady q"
proof -
  obtain q where "lane_quotas default_config 24 = Inr q"
    using default_quotas [of 24] by auto
  then show ?thesis
    using lane_quotas_partition [of default_config 24 q "1/2"] by (auto simp: default_config_def)
qed

section \<open>The enforced window\<close>

lemma keep_loop_other:
  "filter (\<lambda>p. plan_lane p \<noteq> ''aged'') (keep_loop c k w) = filter (\<lambda>p. plan_lane p \<noteq> ''aged'') w"
  by (induction c k w rule: keep_loop.induct) auto

lemma keep_loop_aged:
  "filter (\<lambda>p. plan_lane p = ''aged'') (keep_loop c k w) =
     take (nat (c - k)) (filter (\<lambda>p. plan_lane p = ''aged'') w)"
proof (induction c k w rule: keep_loop.induct)
  case (2 c k p ps)
  show ?case
  proof (cases "plan_lane p = ''aged'' \<and> k < c")
    case True
    then have "nat (c - k) = Suc (nat (c - (k + 1)))" by linarith
    with True 2 show ?thesis by simp
  next
    case False
    with 2 show ?thesis by auto
  qed
qed simp

lemma set_keep_loop: "set (keep_loop c k w) \<subseteq> set w"
  by (induction c k w rule: keep_loop.induct) auto

lemma length_keep_loop: "length (keep_loop c k w) \<le> length w"
  by (induction c k w rule: keep_loop.induct) auto

lemma keep_loop_keeps: "p \<in> set w \<Longrightarrow> plan_lane p \<noteq> ''aged'' \<Longrightarrow> p \<in> set (keep_loop c k w)"
  by (induction c k w rule: keep_loop.induct) (auto split: if_splits)

lemma distinct_keep_loop: "distinct (map f w) \<Longrightarrow> distinct (map f (keep_loop c k w))"
proof (induction c k w rule: keep_loop.induct)
  case (2 c k p ps)
  have "f p \<notin> f ` set (keep_loop c k' ps)" for k'
    using 2(4) set_keep_loop [of c k' ps] by auto
  with 2 show ?case by simp
qed simp

lemma backfill_lane: "p \<in> set (backfill lane room used ps) \<Longrightarrow> p \<in> set ps \<and> plan_lane p = lane"
  by (induction lane room used ps rule: backfill.induct) (auto split: if_splits)

lemma backfill_length: "int (length (backfill lane room used ps)) \<le> max 0 room"
  by (induction lane room used ps rule: backfill.induct) auto

lemma backfill_fresh:
  "distinct (map plan_key (backfill lane room used ps))
   \<and> plan_key ` set (backfill lane room used ps) \<inter> set used = {}"
  by (induction lane room used ps rule: backfill.induct) auto

lemma fill_lane_split:
  "\<exists>extra. fill_lane lane quota limit plans kept = kept @ extra
     \<and> (\<forall>p\<in>set extra. p \<in> set plans \<and> plan_lane p = lane)
     \<and> int (length extra) \<le> max 0 (limit - int (length kept))
     \<and> distinct (map plan_key extra) \<and> plan_key ` set extra \<inter> plan_key ` set kept = {}"
proof (cases "lane_count lane kept < quota \<and> int (length kept) < limit")
  case True
  let ?b = "backfill lane (min (quota - lane_count lane kept) (limit - int (length kept)))
             (map plan_key kept) plans"
  have "int (length ?b) \<le> max 0 (limit - int (length kept))"
    using backfill_length by (rule order_trans) simp
  moreover have "plan_key ` set ?b \<inter> plan_key ` set kept = {}"
    using backfill_fresh by (metis list.set_map)
  ultimately show ?thesis
    using True by (auto simp: fill_lane_def backfill_fresh dest: backfill_lane)
next
  case False
  then show ?thesis by (intro exI [of _ "[]"]) (auto simp: fill_lane_def)
qed

text \<open>The plans an enforced window consists of: those kept, then fast and steady plans of the pool.\<close>

lemma enforce_split:
  assumes "enforce_lane_quotas cfg plans window lm = Inr out" "int_of lm = Inr l"
    and "limit = max 1 (min l 500)"
  shows "\<exists>q extra. lane_quotas cfg limit = Inr q
    \<and> out = take (nat limit) (keep_loop (q_aged q) 0 window @ extra)
    \<and> (\<forall>p\<in>set extra. p \<in> set plans \<and> (plan_lane p = ''fast'' \<or> plan_lane p = ''steady''))
    \<and> distinct (map plan_key extra)
    \<and> plan_key ` set extra \<inter> plan_key ` set (keep_loop (q_aged q) 0 window) = {}"
proof -
  obtain q where q: "lane_quotas cfg limit = Inr q"
    and out: "out = take (nat limit) (fill_lane ''steady'' (q_steady q) limit plans
        (fill_lane ''fast'' (q_fast q) limit plans (keep_loop (q_aged q) 0 window)))"
    using assms by (auto simp: enforce_lane_quotas_def mapE_def result_simps Let_def)
  let ?k = "keep_loop (q_aged q) 0 window"
  obtain e where e: "fill_lane ''fast'' (q_fast q) limit plans ?k = ?k @ e"
    "\<forall>p\<in>set e. p \<in> set plans \<and> plan_lane p = ''fast''" "distinct (map plan_key e)"
    "plan_key ` set e \<inter> plan_key ` set ?k = {}"
    using fill_lane_split by blast
  obtain s where s: "fill_lane ''steady'' (q_steady q) limit plans (?k @ e) = (?k @ e) @ s"
    "\<forall>p\<in>set s. p \<in> set plans \<and> plan_lane p = ''steady''" "distinct (map plan_key s)"
    "plan_key ` set s \<inter> plan_key ` set (?k @ e) = {}"
    using fill_lane_split by blast
  have "distinct (map plan_key (e @ s))"
    using e s by auto
  moreover have "plan_key ` set (e @ s) \<inter> plan_key ` set ?k = {}"
    using e s by auto
  ultimately show ?thesis
    using q e s by (intro exI [of _ q] exI [of _ "e @ s"]) (auto simp: out)
qed

lemma lane_filter_take:
  "length (filter p (take n (xs @ ys))) \<le> length (filter p xs) + length (filter p ys)"
  using length_filter_take_le [of p n "xs @ ys"] by simp

text \<open>
  C27: an enforced window never exceeds its limit, holds at most the aged quota of aged plans,
  names no queue item twice, and starts with every plan of the planned window that is not aged:
  the cap on the aged lane never costs another lane a seat.
\<close>

theorem enforced_window:
  assumes "enforce_lane_quotas cfg plans window lm = Inr out" "int_of lm = Inr l"
    and "distinct (map plan_key window)" "length window \<le> nat (max 1 (min l 500))"
  shows "\<exists>q. lane_quotas cfg (max 1 (min l 500)) = Inr q
    \<and> length out \<le> nat (max 1 (min l 500))
    \<and> length (filter (\<lambda>p. plan_lane p = ''aged'') out) \<le> nat (q_aged q)
    \<and> distinct (map plan_key out)
    \<and> (\<forall>p\<in>set window. plan_lane p \<noteq> ''aged'' \<longrightarrow> p \<in> set out)"
proof -
  let ?n = "nat (max 1 (min l 500))"
  obtain q extra where q: "lane_quotas cfg (max 1 (min l 500)) = Inr q"
    and out: "out = take ?n (keep_loop (q_aged q) 0 window @ extra)"
    and ex: "\<forall>p\<in>set extra. p \<in> set plans \<and> (plan_lane p = ''fast'' \<or> plan_lane p = ''steady'')"
      "distinct (map plan_key extra)"
      "plan_key ` set extra \<inter> plan_key ` set (keep_loop (q_aged q) 0 window) = {}"
    using enforce_split [OF assms(1,2) refl] by blast
  let ?k = "keep_loop (q_aged q) 0 window"
  have "filter (\<lambda>p. plan_lane p = ''aged'') extra = []"
    using ex(1) by (auto simp: filter_empty_conv)
  then have "length (filter (\<lambda>p. plan_lane p = ''aged'') out) \<le> nat (q_aged q)"
    using lane_filter_take [of "\<lambda>p. plan_lane p = ''aged''" ?n ?k extra]
    by (simp add: out keep_loop_aged)
  moreover have "distinct (map plan_key out)"
    using distinct_keep_loop [OF assms(3)] ex(2,3)
    unfolding out by (intro distinct_map_take) auto
  moreover have "length ?k \<le> length window"
    by (rule length_keep_loop)
  then have "take ?n ?k = ?k" using assms(4) by simp
  then have "\<forall>p\<in>set window. plan_lane p \<noteq> ''aged'' \<longrightarrow> p \<in> set out"
    using keep_loop_keeps by (simp add: out)
  moreover have "length out \<le> ?n" unfolding out by (simp only: length_take min.cobounded2)
  ultimately show ?thesis using q by blast
qed

definition sample_plan :: "nat \<Rightarrow> string \<Rightarrow> string \<Rightarrow> plan" where
  "sample_plan n q lane = \<lparr>pl_id = n, pl_data = [(''queue_id'', PStr q), (LANE_FIELD, PStr lane)]\<rparr>"

definition sample_window :: "plan list" where
  "sample_window =
     [sample_plan 1 ''a'' ''aged'', sample_plan 2 ''b'' ''steady'', sample_plan 3 ''c'' ''aged'']"

lemma sample_enforced: "\<exists>out. enforce_lane_quotas default_config [] sample_window (PInt 4) = Inr out"
  using default_quotas [of 4] by (auto simp: enforce_lane_quotas_def mapE_def result_simps Let_def)

lemma sample_keys: "distinct (map plan_key sample_window)"
  by (simp add: sample_window_def sample_plan_def plan_key_def Let_def strip_def strip_of_def
      is_space_def code_def)

theorem enforced_window_witness:
  "\<exists>out q. enforce_lane_quotas default_config [] sample_window (PInt 4) = Inr out
    \<and> lane_quotas default_config (max 1 (min 4 500)) = Inr q \<and> length out \<le> 4
    \<and> length (filter (\<lambda>p. plan_lane p = ''aged'') out) \<le> nat (q_aged q)
    \<and> (\<forall>p\<in>set sample_window. plan_lane p \<noteq> ''aged'' \<longrightarrow> p \<in> set out)"
proof -
  obtain out where out: "enforce_lane_quotas default_config [] sample_window (PInt 4) = Inr out"
    using sample_enforced by blast
  moreover have "length sample_window \<le> nat (max 1 (min 4 500))"
    by (simp add: sample_window_def)
  ultimately show ?thesis
    using enforced_window [OF out _ sample_keys, of 4] by auto
qed

end
