(* ===== verification/Policy.thy ===== *)
theory Policy
  imports Py
begin

text \<open>
  The acquisition policy of \<^verbatim>\<open>core/inkdrop_acquisition_policy.py\<close>: \<open>resolve\<close> builds the complete
  policy of one acquisition decision from the wanted row, its series and the instance settings,
  \<open>require_complete\<close> refuses a policy with a key missing, \<open>stricter\<close> composes severities. A policy
  is a Python dictionary (\<open>pydict\<close>), as in the source; an argument that may be anything is a
  \<open>pyval\<close>.
\<close>

datatype policy_error =
    IncompleteAcquisitionPolicy string
  | PolicyPy py_exn

section \<open>Vocabulary\<close>

definition SEVERITIES :: "string list" where
  "SEVERITIES = [''admit'', ''review'', ''refuse'']"

definition UNIT_PREFERENCES :: "string list" where
  "UNIT_PREFERENCES = [''both'', ''issues'', ''volumes'', ''chapters'']"

definition POLICY_KEYS :: "string list" where
  "POLICY_KEYS = [''unit_preference'', ''collected_edition'', ''pack_containment'', ''unidentified_unit'']"

definition SEVERITY_KEYS :: "string list" where
  "SEVERITY_KEYS = [''collected_edition'', ''pack_containment'', ''unidentified_unit'']"

definition UNIT_KEYS :: "string list" where
  "UNIT_KEYS = [''unit_preference'', ''media_management.unit_preference'', ''manga_unit_preference'']"

definition COLLECTED_KEYS :: "string list" where
  "COLLECTED_KEYS = [''collected_edition'', ''media_management.collected_edition_policy'',
     ''collected_edition_policy'', ''allow_collected_edition'', ''collected_editions_allowed'']"

definition PACK_KEYS :: "string list" where
  "PACK_KEYS = [''pack_containment'', ''allow_multi_unit_pack'']"

definition SETTINGS_SNAPSHOT_KEY :: string where
  "SETTINGS_SNAPSHOT_KEY = ''acquisition_settings_snapshot''"

fun policy_default :: "string \<Rightarrow> string" where
  "policy_default key =
     (if key = ''unit_preference'' then ''both''
      else if key = ''unidentified_unit'' then ''review''
      else ''admit'')"

section \<open>Reading one setting\<close>

text \<open>\<open>_text\<close>: \<open>str(value if value is not None else "").strip().lower()\<close>.\<close>

definition policy_text :: "pyval \<Rightarrow> string" where
  "policy_text v = lower (strip (if v = PNone then [] else py_str v))"

definition severity_of :: "pyval \<Rightarrow> string \<Rightarrow> string" where
  "severity_of v fallback =
     (let t = policy_text v in
      if t \<in> set SEVERITIES then t
      else if v = PBool True then ''admit''
      else if v = PBool False then ''refuse''
      else fallback)"

definition unit_singulars :: "(string \<times> string) list" where
  "unit_singulars = [(''volume'', ''volumes''), (''chapter'', ''chapters''), (''issue'', ''issues''),
     (''issues_and_volumes'', ''both'')]"

definition unit_preference_of :: "pyval \<Rightarrow> string \<Rightarrow> string" where
  "unit_preference_of v fallback =
     (let t = policy_text v in
      if t \<in> set UNIT_PREFERENCES then t
      else case dget unit_singulars t of Some p \<Rightarrow> p | None \<Rightarrow> fallback)"

fun present_in :: "pydict \<Rightarrow> string list \<Rightarrow> pyval option" where
  "present_in source [] = None"
| "present_in source (key # keys) =
     (case dget source key of
        Some v \<Rightarrow> if v \<noteq> PNone then Some v else present_in source keys
      | None \<Rightarrow> present_in source keys)"

fun first_present :: "pyval list \<Rightarrow> string list \<Rightarrow> pyval" where
  "first_present [] keys = PNone"
| "first_present (source # sources) keys =
     (if \<not> is_dict source then first_present sources keys
      else case present_in (as_dict source) keys of
             Some v \<Rightarrow> v
           | None \<Rightarrow> first_present sources keys)"

section \<open>Completeness\<close>

fun type_name :: "pyval \<Rightarrow> string" where
  "type_name PNone = ''NoneType''"
| "type_name (PBool _) = ''bool''"
| "type_name (PInt _) = ''int''"
| "type_name (PFloat _) = ''float''"
| "type_name (PStr _) = ''str''"
| "type_name (PList _) = ''list''"
| "type_name (PDict _) = ''dict''"

definition is_complete :: "pyval \<Rightarrow> bool" where
  "is_complete policy =
     (is_dict policy \<and> list_all (\<lambda>k. \<not> none_or_empty (get (as_dict policy) k)) POLICY_KEYS)"

definition one_of :: "string list \<Rightarrow> pyval \<Rightarrow> bool" where
  "one_of words v = (case v of PStr s \<Rightarrow> s \<in> set words | _ \<Rightarrow> False)"

definition tuple_repr :: "string list \<Rightarrow> string" where
  "tuple_repr words = ''('' @ join '', '' (map str_repr words) @ '')''"

definition wrong_word :: "string \<Rightarrow> string list \<Rightarrow> pyval \<Rightarrow> policy_error" where
  "wrong_word key words v = IncompleteAcquisitionPolicy
     (key @ '' must be one of '' @ tuple_repr words @ '', got '' @ py_repr v)"

fun check_words :: "string list \<Rightarrow> string list \<Rightarrow> pydict \<Rightarrow> policy_error option" where
  "check_words words [] p = None"
| "check_words words (key # keys) p =
     (if one_of words (get p key) then check_words words keys p
      else Some (wrong_word key words (get p key)))"

definition require_complete :: "pyval \<Rightarrow> policy_error + pydict" where
  "require_complete policy =
     (if \<not> is_dict policy
      then Inl (IncompleteAcquisitionPolicy (''acquisition policy must be a dict, got '' @ type_name policy))
      else
        let p = as_dict policy;
            missing = filter (\<lambda>k. none_or_empty (get p k)) POLICY_KEYS
        in if missing \<noteq> []
           then Inl (IncompleteAcquisitionPolicy
                  (''acquisition policy is missing: '' @ join '', '' (sort missing)))
           else case check_words SEVERITIES SEVERITY_KEYS p of
                  Some e \<Rightarrow> Inl e
                | None \<Rightarrow> (case check_words UNIT_PREFERENCES [''unit_preference''] p of
                      Some e \<Rightarrow> Inl e
                    | None \<Rightarrow> Inr p))"

section \<open>Resolving a policy\<close>

text \<open>The instance settings a decision reads and where they come from: the argument, or the
  snapshot the wanted row carries when there is no argument.\<close>

definition settings_and_source :: "pyval \<Rightarrow> pyval \<Rightarrow> pyval \<times> string" where
  "settings_and_source wanted settings =
     (let source = (if is_dict settings \<and> truthy settings then ''explicit'' else ''default'')
      in if settings = PNone \<and> is_dict wanted
         then let carried = get (as_dict wanted) SETTINGS_SNAPSHOT_KEY
              in if is_dict carried \<and> truthy carried then (carried, ''snapshot'')
                 else (settings, source)
         else (settings, source))"

definition resolve :: "pyval \<Rightarrow> pyval \<Rightarrow> pyval \<Rightarrow> policy_error + pydict" where
  "resolve wanted settings series =
     (let (used, source) = settings_and_source wanted settings;
          sources = [wanted, series, used];
          policy = [
            (''acquisition_policy_version'', PInt 1),
            (''settings_source'', PStr source),
            (''unit_preference'', PStr (unit_preference_of (first_present sources UNIT_KEYS)
               (policy_default ''unit_preference''))),
            (''collected_edition'', PStr (severity_of (first_present sources COLLECTED_KEYS)
               (policy_default ''collected_edition''))),
            (''pack_containment'', PStr (severity_of (first_present sources PACK_KEYS)
               (policy_default ''pack_containment''))),
            (''unidentified_unit'', PStr (severity_of (first_present sources [''unidentified_unit''])
               (policy_default ''unidentified_unit'')))];
          policy' = (if first_present sources [''edition_indifferent''] = PBool True
                     then dset ''collected_edition'' (PStr ''admit'') policy else policy)
      in require_complete (PDict policy'))"

section \<open>Using a policy\<close>

definition severity_rank :: "string \<Rightarrow> nat option" where
  "severity_rank s = dget [(''admit'', 0), (''review'', 1), (''refuse'', 2)] s"

text \<open>The loop of \<open>stricter\<close>. An unhashable value raises \<open>TypeError\<close> at the membership test.\<close>

fun stricter_loop :: "string \<Rightarrow> pyval list \<Rightarrow> policy_error + string" where
  "stricter_loop best [] = Inr best"
| "stricter_loop best (v # vs) =
     (case v of
        PStr s \<Rightarrow> (case severity_rank s of
            None \<Rightarrow> Inl (IncompleteAcquisitionPolicy (''not a severity: '' @ py_repr v))
          | Some r \<Rightarrow> stricter_loop (if the (severity_rank best) < r then s else best) vs)
      | PList _ \<Rightarrow> Inl (PolicyPy TypeError)
      | PDict _ \<Rightarrow> Inl (PolicyPy TypeError)
      | _ \<Rightarrow> Inl (IncompleteAcquisitionPolicy (''not a severity: '' @ py_repr v)))"

definition stricter :: "pyval list \<Rightarrow> policy_error + string" where
  "stricter vs = stricter_loop ''admit'' vs"

definition severity_for :: "pyval \<Rightarrow> string \<Rightarrow> policy_error + pyval" where
  "severity_for policy aspect =
     bindE (require_complete policy) (\<lambda>p.
       if aspect \<notin> set SEVERITY_KEYS
       then Inl (IncompleteAcquisitionPolicy (''unknown policy aspect '' @ str_repr aspect))
       else Inr (get p aspect))"

definition preferred_units :: "(string \<times> string list) list" where
  "preferred_units = [(''issues'', [''issue'', ''comic_issue'']),
     (''volumes'', [''volume'', ''vol'', ''book_volume'', ''manga_volume'']),
     (''chapters'', [''chapter'', ''manga_chapter''])]"

definition accepts_unit_type :: "pyval \<Rightarrow> pyval \<Rightarrow> policy_error + bool \<times> string" where
  "accepts_unit_type policy unit_type =
     bindE (require_complete policy) (\<lambda>p.
       let u = policy_text unit_type; preference = py_str (get p ''unit_preference'') in
       if preference = ''both'' \<or> u = [] then Inr (True, ''both units accepted'')
       else case dget preferred_units preference of
         None \<Rightarrow> Inl (PolicyPy KeyError)
       | Some preferred \<Rightarrow>
           if u \<in> set preferred then Inr (True, ''matches the '' @ preference @ '' preference'')
           else Inr (True, ''accepted despite the '' @ preference
                  @ '' preference; preference is applied as replacement, never refusal''))"

section \<open>A resolved policy\<close>

definition policy_of :: "string \<Rightarrow> string \<Rightarrow> string \<Rightarrow> string \<Rightarrow> string \<Rightarrow> pydict" where
  "policy_of source u c p n = [(''acquisition_policy_version'', PInt 1), (''settings_source'', PStr source),
     (''unit_preference'', PStr u), (''collected_edition'', PStr c), (''pack_containment'', PStr p),
     (''unidentified_unit'', PStr n)]"

lemma severity_of_range: "fb \<in> set SEVERITIES \<Longrightarrow> severity_of v fb \<in> set SEVERITIES"
  by (auto simp: severity_of_def Let_def SEVERITIES_def)

lemma unit_singulars_range: "list_all (\<lambda>(k, p). p \<in> set UNIT_PREFERENCES) unit_singulars"
  by code_simp

lemma unit_preference_of_range:
  assumes "fb \<in> set UNIT_PREFERENCES"
  shows "unit_preference_of v fb \<in> set UNIT_PREFERENCES"
  using assms unit_singulars_range
  by (auto simp: unit_preference_of_def Let_def list_all_iff split: option.splits dest!: dget_Some_in)

lemma policy_defaults:
  "policy_default ''unit_preference'' \<in> set UNIT_PREFERENCES"
  "policy_default ''collected_edition'' \<in> set SEVERITIES"
  "policy_default ''pack_containment'' \<in> set SEVERITIES"
  "policy_default ''unidentified_unit'' \<in> set SEVERITIES"
  "''admit'' \<in> set SEVERITIES"
  by (simp_all add: UNIT_PREFERENCES_def SEVERITIES_def)

lemma vocabulary_not_empty: "[] \<notin> set UNIT_PREFERENCES" "[] \<notin> set SEVERITIES"
  by (simp_all add: UNIT_PREFERENCES_def SEVERITIES_def)

lemma require_complete_policy_of:
  assumes "u \<in> set UNIT_PREFERENCES" "{c, p, n} \<subseteq> set SEVERITIES"
  shows "require_complete (PDict (policy_of source u c p n)) = Inr (policy_of source u c p n)"
proof -
  have "u \<noteq> []" "c \<noteq> []" "p \<noteq> []" "n \<noteq> []"
    using assms vocabulary_not_empty by auto
  then show ?thesis
    using assms
    by (simp add: require_complete_def policy_of_def POLICY_KEYS_def SEVERITY_KEYS_def
        none_or_empty_def one_of_def)
qed

definition indifferent :: "pyval list \<Rightarrow> bool" where
  "indifferent sources = (first_present sources [''edition_indifferent''] = PBool True)"

definition sources_of :: "pyval \<Rightarrow> pyval \<Rightarrow> pyval \<Rightarrow> pyval list" where
  "sources_of wanted settings series = [wanted, series, fst (settings_and_source wanted settings)]"

definition collected_of :: "pyval list \<Rightarrow> string" where
  "collected_of sources =
     (if indifferent sources then ''admit'' else severity_of (first_present sources COLLECTED_KEYS) ''admit'')"

text \<open>\<open>resolve\<close> never raises: it returns the policy its four answers make.\<close>

lemma resolve_eq:
  "resolve wanted settings series = Inr (policy_of (snd (settings_and_source wanted settings))
     (unit_preference_of (first_present (sources_of wanted settings series) UNIT_KEYS) ''both'')
     (collected_of (sources_of wanted settings series))
     (severity_of (first_present (sources_of wanted settings series) PACK_KEYS) ''admit'')
     (severity_of (first_present (sources_of wanted settings series) [''unidentified_unit'']) ''review''))"
proof -
  obtain used src where us: "settings_and_source wanted settings = (used, src)"
    by force
  let ?s = "[wanted, series, used]"
  let ?u = "unit_preference_of (first_present ?s UNIT_KEYS) ''both''"
  let ?p = "severity_of (first_present ?s PACK_KEYS) ''admit''"
  let ?n = "severity_of (first_present ?s [''unidentified_unit'']) ''review''"
  have r: "?u \<in> set UNIT_PREFERENCES" "?p \<in> set SEVERITIES" "?n \<in> set SEVERITIES"
    "collected_of ?s \<in> set SEVERITIES"
    using policy_defaults
    by (auto simp: collected_of_def intro!: unit_preference_of_range severity_of_range)
  have "resolve wanted settings series = require_complete (PDict (policy_of src ?u (collected_of ?s) ?p ?n))"
    by (simp add: resolve_def us policy_of_def collected_of_def indifferent_def Let_def)
  also have "\<dots> = Inr (policy_of src ?u (collected_of ?s) ?p ?n)"
    by (rule require_complete_policy_of) (use r in auto)
  finally show ?thesis
    by (simp add: sources_of_def us)
qed

lemma get_policy_of [simp]:
  "get (policy_of src u c p n) ''settings_source'' = PStr src"
  "get (policy_of src u c p n) ''unit_preference'' = PStr u"
  "get (policy_of src u c p n) ''collected_edition'' = PStr c"
  "get (policy_of src u c p n) ''pack_containment'' = PStr p"
  "get (policy_of src u c p n) ''unidentified_unit'' = PStr n"
  by (simp_all add: policy_of_def)

text \<open>
  Whatever the wanted row, the settings and the series are, and whatever types their values
  have, \<open>resolve\<close> returns a policy, that policy passes \<open>require_complete\<close>, every severity in it is
  one of the three and its unit preference one of the four.
\<close>

theorem resolve_complete:
  "\<exists>p. resolve wanted settings series = Inr p \<and> require_complete (PDict p) = Inr p
     \<and> is_complete (PDict p)
     \<and> list_all (\<lambda>k. one_of SEVERITIES (get p k)) SEVERITY_KEYS
     \<and> one_of UNIT_PREFERENCES (get p ''unit_preference'')"
proof -
  let ?s = "sources_of wanted settings series"
  have r: "unit_preference_of (first_present ?s UNIT_KEYS) ''both'' \<in> set UNIT_PREFERENCES"
    "severity_of (first_present ?s PACK_KEYS) ''admit'' \<in> set SEVERITIES"
    "severity_of (first_present ?s [''unidentified_unit'']) ''review'' \<in> set SEVERITIES"
    "collected_of ?s \<in> set SEVERITIES"
    using policy_defaults
    by (auto simp: collected_of_def intro!: unit_preference_of_range severity_of_range)
  then show ?thesis
    using vocabulary_not_empty
    by (auto simp: resolve_eq require_complete_policy_of is_complete_def POLICY_KEYS_def
        SEVERITY_KEYS_def none_or_empty_def one_of_def)
qed

text \<open>
  Precedence is narrowest first. A severity the wanted row states for collected editions is
  the answer, whatever the series and the settings say; with nothing on the row the series decides,
  and with nothing on either the settings do. Only the edition-indifferent mark overrides it, with
  \<open>admit\<close>.
\<close>

theorem resolve_precedence:
  assumes "resolve (PDict w) settings series = Inr p"
    and "\<not> indifferent (sources_of (PDict w) settings series)"
  shows "get p ''collected_edition'' = PStr (
    case present_in w COLLECTED_KEYS of
      Some v \<Rightarrow> severity_of v ''admit''
    | None \<Rightarrow> (case present_in (as_dict series) COLLECTED_KEYS of
          Some v \<Rightarrow> severity_of v ''admit''
        | None \<Rightarrow> severity_of (first_present [fst (settings_and_source (PDict w) settings)] COLLECTED_KEYS)
            ''admit''))"
proof -
  have nil: "present_in [] keys = None" for keys
    by (induction keys) auto
  have ser: "\<not> is_dict series \<Longrightarrow> as_dict series = []"
    by (cases series) auto
  have "first_present (sources_of (PDict w) settings series) COLLECTED_KEYS =
      (case present_in w COLLECTED_KEYS of Some v \<Rightarrow> v
       | None \<Rightarrow> (case present_in (as_dict series) COLLECTED_KEYS of Some v \<Rightarrow> v
          | None \<Rightarrow> first_present [fst (settings_and_source (PDict w) settings)] COLLECTED_KEYS))"
    by (auto simp: sources_of_def nil ser split: option.splits)
  then show ?thesis
    using assms by (auto simp: resolve_eq collected_of_def split: option.splits)
qed

theorem resolve_precedence_witness:
  "\<exists>p. resolve (PDict [(''collected_edition'', PStr ''review'')]) (PDict [(''collected_edition_policy'', PStr ''refuse'')])
      PNone = Inr p \<and> get p ''collected_edition'' = PStr ''review''"
proof -
  let ?w = "[(''collected_edition'', PStr ''review'')]"
  let ?s = "PDict [(''collected_edition_policy'', PStr ''refuse'')]"
  obtain p where p: "resolve (PDict ?w) ?s PNone = Inr p"
    using resolve_eq by blast
  have "\<not> indifferent (sources_of (PDict ?w) ?s PNone)"
    by (simp add: indifferent_def sources_of_def settings_and_source_def)
  from resolve_precedence [OF p this] show ?thesis
    using p by (simp add: COLLECTED_KEYS_def severity_of_def policy_text_def strip_def strip_of_def
        is_space_def code_def lower_def lower_char_def is_upper_def SEVERITIES_def Let_def)
qed

text \<open>
  A settings snapshot carried by the wanted row is the settings argument it stands for: the
  two decisions agree on every policy key and differ only in the reported settings source.
\<close>

theorem snapshot_is_settings:
  assumes "dget w SETTINGS_SNAPSHOT_KEY = Some (PDict snap)" "snap \<noteq> []"
    and "resolve (PDict w) PNone series = Inr p" "resolve (PDict w) (PDict snap) series = Inr p'"
  shows "(\<forall>k\<in>set POLICY_KEYS. get p k = get p' k)
    \<and> get p ''settings_source'' = PStr ''snapshot'' \<and> get p' ''settings_source'' = PStr ''explicit''"
proof -
  have s: "settings_and_source (PDict w) PNone = (PDict snap, ''snapshot'')"
    "settings_and_source (PDict w) (PDict snap) = (PDict snap, ''explicit'')"
    using assms(1,2) by (simp_all add: settings_and_source_def get_def)
  then have "sources_of (PDict w) PNone series = sources_of (PDict w) (PDict snap) series"
    by (simp add: sources_of_def)
  then show ?thesis
    using assms(3,4) s by (auto simp: resolve_eq POLICY_KEYS_def)
qed

theorem snapshot_is_settings_witness:
  "\<exists>p p'. resolve (PDict [(SETTINGS_SNAPSHOT_KEY, PDict [(''pack_containment'', PBool False)])]) PNone PNone = Inr p
    \<and> resolve (PDict [(SETTINGS_SNAPSHOT_KEY, PDict [(''pack_containment'', PBool False)])])
        (PDict [(''pack_containment'', PBool False)]) PNone = Inr p'
    \<and> (\<forall>k\<in>set POLICY_KEYS. get p k = get p' k)"
proof -
  let ?snap = "[(''pack_containment'', PBool False)]"
  let ?w = "[(SETTINGS_SNAPSHOT_KEY, PDict ?snap)]"
  obtain p p' where p: "resolve (PDict ?w) PNone PNone = Inr p" "resolve (PDict ?w) (PDict ?snap) PNone = Inr p'"
    using resolve_eq by blast
  from snapshot_is_settings [OF _ _ p] p show ?thesis by simp
qed

section \<open>Composition and use\<close>

definition rank_le :: "pyval \<Rightarrow> string \<Rightarrow> bool" where
  "rank_le v s = (case v of PStr t \<Rightarrow> the (severity_rank t) \<le> the (severity_rank s) | _ \<Rightarrow> False)"

lemma one_of_PStr [simp]: "one_of ws (PStr s) \<longleftrightarrow> s \<in> set ws"
  by (simp add: one_of_def)

lemma rank_le_PStr [simp]: "rank_le (PStr t) s \<longleftrightarrow> the (severity_rank t) \<le> the (severity_rank s)"
  by (simp add: rank_le_def)

lemma severity_rank_iff: "(\<exists>r. severity_rank s = Some r) \<longleftrightarrow> s \<in> set SEVERITIES"
  by (auto simp: severity_rank_def SEVERITIES_def)

lemma stricter_loop_spec:
  "best \<in> set SEVERITIES \<Longrightarrow>
   (case stricter_loop best vs of
      Inr s \<Rightarrow> list_all (one_of SEVERITIES) vs \<and> s \<in> set SEVERITIES \<and> rank_le (PStr best) s
        \<and> list_all (\<lambda>v. rank_le v s) vs \<and> (s = best \<or> PStr s \<in> set vs)
    | Inl e \<Rightarrow> \<not> list_all (one_of SEVERITIES) vs)"
proof (induction vs arbitrary: best)
  case Nil
  then show ?case by (simp add: rank_le_def)
next
  case (Cons v vs)
  show ?case
  proof (cases "one_of SEVERITIES v")
    case False
    then show ?thesis
      using severity_rank_iff by (auto simp: one_of_def split: pyval.splits option.splits)
  next
    case True
    then obtain s where v: "v = PStr s" "s \<in> set SEVERITIES"
      by (auto simp: one_of_def split: pyval.splits)
    then obtain r where r: "severity_rank s = Some r"
      using severity_rank_iff by blast
    let ?b = "if the (severity_rank best) < r then s else best"
    have "?b \<in> set SEVERITIES" using v Cons.prems by simp
    from Cons.IH [OF this] show ?thesis
      using v r by (auto split: sum.splits if_splits)
  qed
qed

text \<open>
  \<open>stricter\<close> is the join of the severities: it answers exactly on lists of severities, its
  answer is at least as restrictive as every one of them, and it is one of them, or \<open>admit\<close> for
  none.
\<close>

theorem stricter_join:
  "(case stricter vs of
      Inr s \<Rightarrow> list_all (one_of SEVERITIES) vs \<and> list_all (\<lambda>v. rank_le v s) vs
        \<and> (s = ''admit'' \<or> PStr s \<in> set vs)
    | Inl e \<Rightarrow> \<not> list_all (one_of SEVERITIES) vs)"
  using stricter_loop_spec [of "''admit''" vs] policy_defaults(5)
  by (simp add: stricter_def split: sum.splits)

lemma require_complete_preference:
  assumes "require_complete policy = Inr p"
  shows "\<exists>u\<in>set UNIT_PREFERENCES. get p ''unit_preference'' = PStr u"
  using assms
  by (auto simp: require_complete_def Let_def one_of_def split: if_splits option.splits pyval.splits)

lemma preferred_units_total:
  "u \<in> set UNIT_PREFERENCES \<Longrightarrow> u \<noteq> ''both'' \<Longrightarrow> \<exists>ws. dget preferred_units u = Some ws"
  by (auto simp: UNIT_PREFERENCES_def preferred_units_def)

text \<open>
  A unit preference never becomes a gate. For every complete policy and every unit type,
  \<open>accepts_unit_type\<close> answers \<open>True\<close>; it raises exactly when the policy is not complete, and never
  the \<open>KeyError\<close> of its preference table.
\<close>

theorem unit_preference_never_refuses:
  "(case accepts_unit_type policy unit_type of
      Inr (accepted, reason) \<Rightarrow> accepted \<and> isInr (require_complete policy)
    | Inl e \<Rightarrow> require_complete policy = Inl e)"
proof (cases "require_complete policy")
  case (Inl e)
  then show ?thesis by (simp add: accepts_unit_type_def)
next
  case (Inr p)
  then obtain u where u: "u \<in> set UNIT_PREFERENCES" "get p ''unit_preference'' = PStr u"
    using require_complete_preference by blast
  then show ?thesis
    using Inr preferred_units_total [OF u(1)]
    by (auto simp: accepts_unit_type_def Let_def)
qed

end
