(* ===== verification/Locks.thy ===== *)
theory Locks
  imports Py
begin

text \<open>
  The restore gate of \<^verbatim>\<open>core/inkdrop_restore_quiescence.py\<close>: the advisory file locks (POSIX branch)
  and the probe that decides whether a restore may replace the state database.

  The operating system's part is the state \<open>lockfs\<close> (which lock files exist, which open handle
  holds the lock of which file, the next fresh handle) and the faults a call may meet, given to the
  operations as arguments: a fault is the class name and the message of the \<open>OSError\<close> it raises. The interface the
  scheduler uses is the locale \<open>exclusive_lock\<close>, interpreted here on \<open>try_exclusive_lock\<close>.
\<close>

section \<open>Lock files\<close>

record lockfs =
  lf_files :: "string list"
  lf_held :: "(string \<times> nat) list"
  lf_next :: nat

type_synonym os_error = "string \<times> string"

record lock_fault =
  rb_open_error :: "os_error option"
  rb_lock_error :: "os_error option"
  rw_open_error :: "os_error option"
  rw_lock_error :: "os_error option"

definition no_fault :: lock_fault where
  "no_fault = \<lparr>rb_open_error = None, rb_lock_error = None, rw_open_error = None, rw_lock_error = None\<rparr>"

definition RESTORE_LOCK_NAME :: string where
  "RESTORE_LOCK_NAME = ''inkdrop-restore.lock''"

definition JOBS_LOCK_NAME :: string where
  "JOBS_LOCK_NAME = ''inkdrop-scheduler-jobs.lock''"

definition lock_holder :: "lockfs \<Rightarrow> string \<Rightarrow> nat option" where
  "lock_holder s p = dget (lf_held s) p"

definition open_handle :: "lockfs \<Rightarrow> nat \<times> lockfs" where
  "open_handle s = (lf_next s, s\<lparr>lf_next := lf_next s + 1\<rparr>)"

definition close_handle :: "nat \<Rightarrow> lockfs \<Rightarrow> lockfs" where
  "close_handle h s = s\<lparr>lf_held := filter (\<lambda>(p, h'). h' \<noteq> h) (lf_held s)\<rparr>"

text \<open>\<open>_lock_nonblocking\<close>: only contention answers \<open>False\<close>, any other fault propagates.\<close>

definition lock_nonblocking :: "string \<Rightarrow> nat \<Rightarrow> os_error option \<Rightarrow> lockfs \<Rightarrow> (os_error + bool) \<times> lockfs" where
  "lock_nonblocking p h err s =
     (case err of
        Some e \<Rightarrow> (Inl e, s)
      | None \<Rightarrow> (case lock_holder s p of
            Some _ \<Rightarrow> (Inr False, s)
          | None \<Rightarrow> (Inr True, s\<lparr>lf_held := dset p h (lf_held s)\<rparr>)))"

definition lock_read_write :: "lock_fault \<Rightarrow> string \<Rightarrow> lockfs \<Rightarrow> (os_error + nat option) \<times> lockfs" where
  "lock_read_write f p s =
     (case rw_open_error f of
        Some e \<Rightarrow> (Inl e, s)
      | None \<Rightarrow>
          let (h, s1) = open_handle (s\<lparr>lf_files := List.insert p (lf_files s)\<rparr>) in
          (case lock_nonblocking p h (rw_lock_error f) s1 of
             (Inr True, s2) \<Rightarrow> (Inr (Some h), s2)
           | (Inr False, s2) \<Rightarrow> (Inr None, close_handle h s2)
           | (Inl e, s2) \<Rightarrow> (Inl e, close_handle h s2)))"

definition try_exclusive_lock ::
    "bool \<Rightarrow> lock_fault \<Rightarrow> string \<Rightarrow> lockfs \<Rightarrow> (os_error + nat option) \<times> lockfs" where
  "try_exclusive_lock existing_read_only f p s =
     (if existing_read_only \<and> p \<in> set (lf_files s) \<and> rb_open_error f = None
      then
        let (h, s1) = open_handle s in
        (case lock_nonblocking p h (rb_lock_error f) s1 of
           (Inr True, s2) \<Rightarrow> (Inr (Some h), s2)
         | (Inr False, s2) \<Rightarrow> (Inr None, close_handle h s2)
         | (Inl e, s2) \<Rightarrow> lock_read_write f p (close_handle h s2))
      else lock_read_write f p s)"

definition lf_wf :: "lockfs \<Rightarrow> bool" where
  "lf_wf s = (dwf (lf_held s) \<and> list_all (\<lambda>(p, h). h < lf_next s \<and> p \<in> set (lf_files s)) (lf_held s))"

section \<open>The interface of an exclusive lock\<close>

text \<open>
  What a client relies on: a lock is taken only when nobody holds it, the handle is fresh, a refused
  or failed attempt changes no holder, and closing a handle frees exactly what it holds.
\<close>

locale exclusive_lock =
  fixes holder :: "'s \<Rightarrow> string \<Rightarrow> nat option"
    and acquire :: "'f \<Rightarrow> string \<Rightarrow> 's \<Rightarrow> ('e + nat option) \<times> 's"
    and release :: "nat \<Rightarrow> 's \<Rightarrow> 's"
    and inv :: "'s \<Rightarrow> bool"
  assumes acquired: "inv s \<Longrightarrow> acquire f p s = (Inr (Some h), s') \<Longrightarrow>
        holder s p = None \<and> holder s q \<noteq> Some h \<and> holder s' q = (if q = p then Some h else holder s q)"
    and contended: "inv s \<Longrightarrow> acquire f p s = (Inr None, s') \<Longrightarrow> holder s p \<noteq> None \<and> holder s' q = holder s q"
    and failed: "inv s \<Longrightarrow> acquire f p s = (Inl e, s') \<Longrightarrow> holder s' q = holder s q"
    and released: "inv s \<Longrightarrow> holder (release h s) q = (if holder s q = Some h then None else holder s q)"
    and inv_acquire: "inv s \<Longrightarrow> acquire f p s = (r, s') \<Longrightarrow> inv s'"
    and inv_release: "inv s \<Longrightarrow> inv (release h s)"
begin

text \<open>Taking \<open>j\<close> while holding \<open>r\<close>, which is dropped again whatever happens.\<close>

definition guarded :: "'f \<Rightarrow> 'f \<Rightarrow> string \<Rightarrow> string \<Rightarrow> 's \<Rightarrow> ('e + nat option) option \<times> 's" where
  "guarded fr fj r j s =
     (case acquire fr r s of
        (Inr (Some h), s1) \<Rightarrow> (case acquire fj j s1 of (res, s2) \<Rightarrow> (Some res, release h s2))
      | (_, s1) \<Rightarrow> (None, s1))"

lemma only_one: "inv s \<Longrightarrow> acquire f p s = (Inr (Some h), s') \<Longrightarrow> acquire g p s' = (Inr (Some k), s'') \<Longrightarrow> False"
  using acquired [of s f p h s' p] acquired [of s' g p k s'' p] inv_acquire by force

lemma guarded_taken:
  assumes "inv s" "r \<noteq> j" "guarded fr fj r j s = (Some (Inr (Some k)), s')"
  shows "holder s r = None \<and> holder s j = None \<and> holder s' q = (if q = j then Some k else holder s q)"
proof -
  obtain h s1 s2 where a: "acquire fr r s = (Inr (Some h), s1)" "acquire fj j s1 = (Inr (Some k), s2)"
    "s' = release h s2"
    using assms(3) by (auto simp: guarded_def split: prod.splits sum.splits option.splits)
  have "inv s1" "inv s2"
    using assms(1) a inv_acquire by blast+
  moreover have "holder s1 q' = (if q' = r then Some h else holder s q')" for q'
    using acquired [OF assms(1) a(1), of q'] by blast
  moreover have "holder s2 q' = (if q' = j then Some k else holder s1 q')" for q'
    using acquired [OF \<open>inv s1\<close> a(2), of q'] by blast
  moreover have "holder s r = None" "holder s q \<noteq> Some h"
    using acquired [OF assms(1) a(1), of q] by blast+
  moreover have "holder s1 j = None" "holder s1 r \<noteq> Some k"
    using acquired [OF \<open>inv s1\<close> a(2), of r] by blast+
  ultimately show ?thesis
    using released [OF \<open>inv s2\<close>, of h q] assms(2) a(3) by (auto split: if_splits)
qed

lemma guarded_frame:
  assumes "inv s" "guarded fr fj r j s = (res, s')" "\<And>k. res \<noteq> Some (Inr (Some k))"
  shows "holder s' q = holder s q"
proof (cases "acquire fr r s")
  case (Pair x s1)
  have i1: "inv s1" using inv_acquire [OF assms(1) Pair] .
  show ?thesis
  proof (cases "\<exists>h. x = Inr (Some h)")
    case False
    then have "s' = s1" "(\<exists>e. x = Inl e) \<or> x = Inr None"
      using assms(2) Pair by (auto simp: guarded_def split: sum.splits option.splits)
    then show ?thesis
      using Pair contended [OF assms(1), of fr r s1 q] failed [OF assms(1), of fr r _ s1 q] by auto
  next
    case True
    then obtain h where h: "acquire fr r s = (Inr (Some h), s1)" using Pair by blast
    obtain y s2 where y: "acquire fj j s1 = (y, s2)" by force
    have i2: "inv s2" using inv_acquire [OF i1 y] .
    have res: "res = Some y" "s' = release h s2"
      using assms(2) h y by (auto simp: guarded_def)
    then have "(\<exists>e. y = Inl e) \<or> y = Inr None"
      using assms(3) by (cases y) auto
    then have "holder s2 q = holder s1 q"
      using y contended [OF i1, of fj j s2 q] failed [OF i1, of fj j _ s2 q] by auto
    then show ?thesis
      using res released [OF i2, of h q] acquired [OF assms(1) h, of q] by (auto split: if_splits)
  qed
qed

lemma guarded_inv:
  assumes "inv s" "guarded fr fj r j s = (res, s')"
  shows "inv s'"
proof (cases "acquire fr r s")
  case (Pair x s1)
  have i1: "inv s1" using inv_acquire [OF assms(1) Pair] .
  obtain y s2 where y: "acquire fj j s1 = (y, s2)" by force
  have "\<And>h. inv (release h s2)" using inv_acquire [OF i1 y] inv_release by blast
  then show ?thesis
    using assms(2) Pair y i1 by (auto simp: guarded_def split: sum.splits option.splits)
qed

end

section \<open>The lock files implement it\<close>

lemma holder_lt: "lf_wf s \<Longrightarrow> lock_holder s q = Some h \<Longrightarrow> h < lf_next s"
  by (auto simp: lf_wf_def lock_holder_def list_all_iff dest!: dget_Some_in)

lemma dget_filter_val:
  "dwf m \<Longrightarrow> dget (filter (\<lambda>(p, h). P h) m) q = (case dget m q of Some h \<Rightarrow> if P h then Some h else None | None \<Rightarrow> None)"
proof (induction m)
  case (Cons x m)
  obtain p h where x: "x = (p, h)" by force
  have "p \<notin> set (dkeys m)" "dwf m" using Cons.prems x by (auto simp: dwf_def)
  then have "dget m p = None" by (simp add: dget_None_iff dhas_def)
  then show ?case using Cons.IH [OF \<open>dwf m\<close>] x by auto
qed simp

lemma close_holder:
  "lf_wf s \<Longrightarrow> lock_holder (close_handle h s) q = (if lock_holder s q = Some h then None else lock_holder s q)"
  by (auto simp: lf_wf_def lock_holder_def close_handle_def dget_filter_val split: option.splits)

lemma close_wf: "lf_wf s \<Longrightarrow> lf_wf (close_handle h s)"
  by (auto simp: lf_wf_def close_handle_def dwf_def dkeys_def list_all_iff intro: distinct_map_filter)

text \<open>What an attempt may do to the holders: the answer, and who holds what afterwards.\<close>

definition lock_outcome :: "lockfs \<Rightarrow> string \<Rightarrow> (os_error + nat option) \<times> lockfs \<Rightarrow> bool" where
  "lock_outcome s p out \<longleftrightarrow> lf_wf (snd out) \<and>
    (case fst out of
       Inr (Some h) \<Rightarrow> lock_holder s p = None \<and> (\<forall>q. lock_holder s q \<noteq> Some h)
         \<and> (\<forall>q. lock_holder (snd out) q = (if q = p then Some h else lock_holder s q))
     | Inr None \<Rightarrow> lock_holder s p \<noteq> None \<and> (\<forall>q. lock_holder (snd out) q = lock_holder s q)
     | Inl e \<Rightarrow> (\<forall>q. lock_holder (snd out) q = lock_holder s q))"

lemma lock_outcome_cong:
  "(\<And>q. lock_holder s q = lock_holder t q) \<Longrightarrow> lock_outcome s p x = lock_outcome t p x"
  by (simp add: lock_outcome_def split: sum.split option.split)

lemma lf_wf_open: "lf_wf s \<Longrightarrow> open_handle s = (h, s1) \<Longrightarrow> lf_wf s1 \<and> h < lf_next s1
   \<and> (\<forall>q. lock_holder s1 q = lock_holder s q) \<and> (\<forall>q. lock_holder s q \<noteq> Some h)"
proof (intro conjI allI)
  assume a: "lf_wf s" "open_handle s = (h, s1)"
  then have e: "h = lf_next s" "s1 = s\<lparr>lf_next := lf_next s + 1\<rparr>"
    by (auto simp: open_handle_def)
  show "lf_wf s1" using a(1) by (auto simp: e lf_wf_def list_all_iff intro: less_SucI)
  show "h < lf_next s1" by (simp add: e)
  show "lock_holder s1 q = lock_holder s q" for q by (simp add: e lock_holder_def)
  show "lock_holder s q \<noteq> Some h" for q using holder_lt [OF a(1), of q h] by (auto simp: e)
qed

lemma lf_wf_take:
  "lf_wf s \<Longrightarrow> h < lf_next s \<Longrightarrow> p \<in> set (lf_files s) \<Longrightarrow> lf_wf (s\<lparr>lf_held := dset p h (lf_held s)\<rparr>)"
proof -
  have "list_all P m \<Longrightarrow> P (p, h) \<Longrightarrow> list_all P (dset p h m)" for P m
    by (induction m) auto
  then show "lf_wf s \<Longrightarrow> h < lf_next s \<Longrightarrow> p \<in> set (lf_files s) \<Longrightarrow>
      lf_wf (s\<lparr>lf_held := dset p h (lf_held s)\<rparr>)"
    by (auto simp: lf_wf_def)
qed

lemma lf_wf_files:
  "lf_wf s \<Longrightarrow> lf_wf (s\<lparr>lf_files := List.insert p (lf_files s)\<rparr>)"
  "lock_holder (s\<lparr>lf_files := fs\<rparr>) q = lock_holder s q"
  by (auto simp: lf_wf_def lock_holder_def list_all_iff)

lemma holder_in_files: "lf_wf s \<Longrightarrow> lock_holder s p = Some h \<Longrightarrow> p \<in> set (lf_files s)"
  by (auto simp: lf_wf_def lock_holder_def list_all_iff dest!: dget_Some_in)

text \<open>One open, one attempt, and the handle closed unless it holds the lock.\<close>

lemma attempt_outcome:
  assumes "lf_wf s" "open_handle s = (h, s1)" "lock_nonblocking p h err s1 = (r, s2)"
    and "p \<in> set (lf_files s)"
  shows "r = Inr True \<Longrightarrow> lock_outcome s p (Inr (Some h), s2)"
    and "r = Inr False \<Longrightarrow> lock_outcome s p (Inr None, close_handle h s2)"
    and "r = Inl e \<Longrightarrow> lf_wf (close_handle h s2) \<and> lock_holder (close_handle h s2) = lock_holder s
      \<and> lock_outcome s p (Inl e, close_handle h s2)"
proof -
  note o = lf_wf_open [OF assms(1,2)]
  have files: "p \<in> set (lf_files s1)"
    using assms(2,4) by (auto simp: open_handle_def)
  have upd: "lock_holder (s1\<lparr>lf_held := dset p h (lf_held s1)\<rparr>) q
      = (if q = p then Some h else lock_holder s1 q)" for q
    by (simp add: lock_holder_def)
  show "r = Inr True \<Longrightarrow> lock_outcome s p (Inr (Some h), s2)"
    using assms(3) o upd lf_wf_take [of s1 h p] files
    by (auto simp: lock_nonblocking_def lock_outcome_def split: option.splits)
  have keep: "r \<noteq> Inr True \<Longrightarrow> s2 = s1"
    using assms(3) by (auto simp: lock_nonblocking_def split: option.splits)
  have held: "r = Inr False \<Longrightarrow> lock_holder s p \<noteq> None"
    using assms(3) o by (auto simp: lock_nonblocking_def split: option.splits)
  have undone: "lf_wf (close_handle h s1)" "lock_holder (close_handle h s1) = lock_holder s"
    using o close_wf [of s1 h] close_holder [of s1 h] by auto
  show "r = Inr False \<Longrightarrow> lock_outcome s p (Inr None, close_handle h s2)"
    using keep held undone by (simp add: lock_outcome_def)
  show "r = Inl e \<Longrightarrow> lf_wf (close_handle h s2) \<and> lock_holder (close_handle h s2) = lock_holder s
      \<and> lock_outcome s p (Inl e, close_handle h s2)"
    using keep undone by (simp add: lock_outcome_def)
qed

lemma lock_read_write_outcome:
  assumes "lf_wf s"
  shows "lock_outcome s p (lock_read_write f p s)"
proof (cases "rw_open_error f")
  case None
  let ?s = "s\<lparr>lf_files := List.insert p (lf_files s)\<rparr>"
  obtain h s1 where o: "open_handle ?s = (h, s1)" by force
  obtain r s2 where n: "lock_nonblocking p h (rw_lock_error f) s1 = (r, s2)" by force
  have w: "lf_wf ?s" using assms by (rule lf_wf_files)
  have pf: "p \<in> set (lf_files ?s)" by simp
  have cong: "lock_outcome ?s p x = lock_outcome s p x" for x
    by (rule lock_outcome_cong) (rule lf_wf_files)
  consider "r = Inr True" | "r = Inr False" | e where "r = Inl e"
    by (cases r) auto
  then show ?thesis
    by cases (use attempt_outcome [OF w o n pf] None o n in \<open>auto simp: lock_read_write_def cong\<close>)
next
  case (Some e)
  then show ?thesis using assms by (simp add: lock_read_write_def lock_outcome_def)
qed

lemma try_exclusive_lock_outcome:
  assumes "lf_wf s"
  shows "lock_outcome s p (try_exclusive_lock ro f p s)"
proof (cases "ro \<and> p \<in> set (lf_files s) \<and> rb_open_error f = None")
  case True
  obtain h s1 where o: "open_handle s = (h, s1)" by force
  obtain r s2 where n: "lock_nonblocking p h (rb_lock_error f) s1 = (r, s2)" by force
  have pf: "p \<in> set (lf_files s)" using True by simp
  consider "r = Inr True" | "r = Inr False" | e where "r = Inl e"
    by (cases r) auto
  then show ?thesis
  proof cases
    case (3 e)
    note undone = attempt_outcome(3) [OF assms o n pf 3]
    then have "lock_outcome (close_handle h s2) p (lock_read_write f p (close_handle h s2))"
      by (intro lock_read_write_outcome) simp
    then have "lock_outcome s p (lock_read_write f p (close_handle h s2))"
      using undone lock_outcome_cong [of "close_handle h s2" s] by simp
    then show ?thesis using True o n 3 by (simp add: try_exclusive_lock_def)
  qed (use attempt_outcome [OF assms o n pf] True o n in \<open>auto simp: try_exclusive_lock_def\<close>)
next
  case False
  then show ?thesis
    using lock_read_write_outcome [OF assms] by (auto simp: try_exclusive_lock_def)
qed

interpretation flock: exclusive_lock lock_holder "\<lambda>(ro, f). try_exclusive_lock ro f" close_handle lf_wf
proof unfold_locales
  fix s f p h s' q
  assume w: "lf_wf s"
  have out: "lock_outcome s p (case f of (ro, f) \<Rightarrow> try_exclusive_lock ro f p s)"
    using try_exclusive_lock_outcome [OF w] by (cases f) simp
  {
    assume "(case f of (ro, f) \<Rightarrow> try_exclusive_lock ro f) p s = (Inr (Some h), s')"
    then show "lock_holder s p = None \<and> lock_holder s q \<noteq> Some h
        \<and> lock_holder s' q = (if q = p then Some h else lock_holder s q)"
      using out by (cases f) (auto simp: lock_outcome_def)
  next
    assume "(case f of (ro, f) \<Rightarrow> try_exclusive_lock ro f) p s = (Inr None, s')"
    then show "lock_holder s p \<noteq> None \<and> lock_holder s' q = lock_holder s q"
      using out by (cases f) (auto simp: lock_outcome_def)
  next
    fix e
    assume "(case f of (ro, f) \<Rightarrow> try_exclusive_lock ro f) p s = (Inl e, s')"
    then show "lock_holder s' q = lock_holder s q"
      using out by (cases f) (auto simp: lock_outcome_def)
  next
    show "lock_holder (close_handle h s) q = (if lock_holder s q = Some h then None else lock_holder s q)"
      using close_holder [OF w] .
  next
    fix r
    assume "(case f of (ro, f) \<Rightarrow> try_exclusive_lock ro f) p s = (r, s')"
    then show "lf_wf s'"
      using out by (cases f) (auto simp: lock_outcome_def)
  next
    show "lf_wf (close_handle h s)" using close_wf [OF w] .
  }
qed

section \<open>The quiescence probe\<close>

text \<open>\<open>_bounded_int\<close> and the heartbeat window.\<close>

definition bounded_int :: "string option \<Rightarrow> int \<Rightarrow> int \<Rightarrow> int \<Rightarrow> int" where
  "bounded_int v fallback lo hi =
     (case parse_int (strip (case v of Some s \<Rightarrow> s | None \<Rightarrow> ''None'')) of
        None \<Rightarrow> fallback
      | Some i \<Rightarrow> max lo (min hi i))"

definition heartbeat_live_seconds :: "(string \<times> string) list \<Rightarrow> int" where
  "heartbeat_live_seconds env =
     bounded_int (dget env ''INKDROP_RESTORE_HEARTBEAT_LIVE_SECONDS'') 180 30 3600"

text \<open>What happens when a lock file is probed, beside the lock being held.\<close>

datatype probe_fault =
    ProbeFine
  | ProbeOpenFails
  | ProbePermissionError
  | ProbeOSError string

definition probe_one_lock :: "probe_fault \<Rightarrow> string \<Rightarrow> lockfs \<Rightarrow> bool \<times> string" where
  "probe_one_lock fault p s =
     (case fault of
        ProbeOpenFails \<Rightarrow> (True, ''lock_unreadable'')
      | ProbePermissionError \<Rightarrow> (True, ''held'')
      | ProbeOSError e \<Rightarrow> (True, ''probe_failed:'' @ e)
      | ProbeFine \<Rightarrow> (case lock_holder s p of Some _ \<Rightarrow> (True, ''held'') | None \<Rightarrow> (False, [])))"

record blocker =
  bl_kind :: string
  bl_detail :: string
  bl_next_action :: string

datatype lock_listing =
    NoDirectory
  | Unlistable string
  | Entries "(string \<times> bool) list"

text \<open>What the probe reads: the two paths, the parsed status file (\<open>None\<close> if it cannot be read), the
  listing of the lock directory (name, is a file) and the fault each probed file meets.\<close>

record probe_input =
  pi_dir :: string
  pi_status_file :: string
  pi_status :: "pyval option"
  pi_listing :: lock_listing
  pi_fault :: "string \<Rightarrow> probe_fault"

definition heartbeat_of :: "pydict \<Rightarrow> flt" where
  "heartbeat_of payload =
     (case float_of (por (get payload ''heartbeat_at'') (PFloat (Fin 0))) of
        Inr x \<Rightarrow> x | Inl _ \<Rightarrow> Fin 0)"

definition live_blocker :: "flt \<Rightarrow> int \<Rightarrow> blocker" where
  "live_blocker age window = \<lparr>bl_kind = ''worker_scheduler_live'',
     bl_detail = ''the worker scheduler heartbeated '' @ format_0f age
       @ ''s ago (counts as live within '' @ int_str window @ ''s)'',
     bl_next_action = ''Stop the worker container, then retry: docker stop inkdrop-worker''\<rparr>"

definition status_is_current :: "flt \<Rightarrow> int \<Rightarrow> flt \<Rightarrow> bool" where
  "status_is_current moment window heartbeat =
     (heartbeat = Fin 0 \<or> flt_le (flt_sub moment heartbeat) (Fin (of_int window)))"

definition active_names :: "pydict \<Rightarrow> string list" where
  "active_names payload =
     sort (map (\<lambda>row. py_str (por (get (as_dict row) ''name'') (PStr ''?'')))
       (filter is_dict (as_list (get payload ''active_jobs''))))"

text \<open>The blockers and the report entries of the status file.\<close>

definition status_blockers :: "flt \<Rightarrow> int \<Rightarrow> pyval option \<Rightarrow> blocker list" where
  "status_blockers moment window status =
     (case status of
        Some (PDict payload) \<Rightarrow>
          let heartbeat = heartbeat_of payload;
              current = status_is_current moment window heartbeat
          in (if heartbeat \<noteq> Fin 0 \<and> current
              then [live_blocker (flt_sub moment heartbeat) window] else [])
             @ (if as_list (get payload ''active_jobs'') \<noteq> [] \<and> current
                then [\<lparr>bl_kind = ''worker_job_active'',
                       bl_detail = ''the worker is running: '' @ join '', '' (active_names payload),
                       bl_next_action = ''Wait for these jobs to finish, or stop the worker container.''\<rparr>]
                else [])
      | _ \<Rightarrow> [])"

definition status_checked :: "flt \<Rightarrow> int \<Rightarrow> pyval option \<Rightarrow> pydict" where
  "status_checked moment window status =
     (case status of
        Some (PDict payload) \<Rightarrow>
          let heartbeat = heartbeat_of payload;
              current = status_is_current moment window heartbeat
          in [(''worker_heartbeat_age_seconds'',
                 if heartbeat = Fin 0 then PNone else PFloat (flt_round 1 (flt_sub moment heartbeat))),
              (''worker_status_file_is_current'', PBool current)]
             @ (if as_list (get payload ''active_jobs'') \<noteq> []
                then (''worker_active_jobs'', PList (map PStr (active_names payload)))
                     # (if current then [] else
                         [(''worker_active_jobs_disregarded'', PStr
                           (''the heartbeat that vouched for these jobs is older than '' @ int_str window
                            @ ''s, so the status file no longer describes a running worker; ''
                            @ ''the job locks decide''))])
                else [])
      | _ \<Rightarrow> [(''worker_heartbeat_age_seconds'', PNone)])"

definition lock_files_of :: "lock_listing \<Rightarrow> string list" where
  "lock_files_of listing =
     (case listing of
        Entries es \<Rightarrow> sort (map fst (filter (\<lambda>(n, is_file). ends_with n ''.lock'' \<and> is_file) es))
      | _ \<Rightarrow> [])"

definition listing_blockers :: "string \<Rightarrow> lock_listing \<Rightarrow> blocker list" where
  "listing_blockers directory listing =
     (case listing of
        Unlistable e \<Rightarrow> [\<lparr>bl_kind = ''lock_dir_unreadable'',
          bl_detail = ''the lock directory '' @ directory @ '' exists but could not be read (''
            @ e @ ''), so whether a job is running is unknown'',
          bl_next_action = ''Fix permissions on the lock directory, or stop the worker container and retry.''\<rparr>]
      | _ \<Rightarrow> [])"

text \<open>The loop over the lock files: the blockers it adds and the held job locks it collects.\<close>

fun probe_files :: "(string \<Rightarrow> probe_fault) \<Rightarrow> lockfs \<Rightarrow> string list \<Rightarrow> blocker list \<times> string list" where
  "probe_files fault s [] = ([], [])"
| "probe_files fault s (name # names) =
     (let (bs, held) = probe_files fault s names in
      if name = RESTORE_LOCK_NAME then (bs, held)
      else
        let (is_held, reason) = probe_one_lock (fault name) name s in
        if \<not> is_held then (bs, held)
        else if name = JOBS_LOCK_NAME
        then (\<lparr>bl_kind = ''scheduler_jobs_active'',
               bl_detail = ''the scheduler is running jobs ('' @ JOBS_LOCK_NAME @ '' '' @ reason @ '')'',
               bl_next_action = ''Wait for the running jobs to finish, or stop the worker container.''\<rparr> # bs, held)
        else (bs, (name @ '' ('' @ reason @ '')'') # held))"

record probe_report =
  pr_quiescent :: bool
  pr_blockers :: "blocker list"
  pr_checked :: pydict
  pr_probed_at :: flt

definition held_blockers :: "string list \<Rightarrow> blocker list" where
  "held_blockers held =
     (if held = [] then [] else [\<lparr>bl_kind = ''job_lock_held'',
        bl_detail = ''another process holds: '' @ join '', '' (sort held),
        bl_next_action = ''Wait for that job to finish, or stop the worker container.''\<rparr>])"

definition probe_restore_quiescence ::
    "(string \<times> string) list \<Rightarrow> flt \<Rightarrow> probe_input \<Rightarrow> lockfs \<Rightarrow> probe_report" where
  "probe_restore_quiescence env moment i s =
     (let window = heartbeat_live_seconds env;
          files = lock_files_of (pi_listing i);
          (job_blockers, held) = probe_files (pi_fault i) s files;
          blockers = status_blockers moment window (pi_status i)
            @ listing_blockers (pi_dir i) (pi_listing i) @ job_blockers @ held_blockers held
      in \<lparr>pr_quiescent = (blockers = []), pr_blockers = blockers,
          pr_checked = [(''lock_dir'', PStr (pi_dir i)), (''worker_status_file'', PStr (pi_status_file i)),
              (''heartbeat_live_seconds'', PInt window)]
            @ status_checked moment window (pi_status i)
            @ [(''lock_dir_exists'', PBool (pi_listing i \<noteq> NoDirectory)),
               (''lock_files_probed'', PList (map PStr files)),
               (''locks_held'', PList (map PStr (sort held)))],
          pr_probed_at = moment\<rparr>)"

definition blocker_summary :: "blocker list \<Rightarrow> string" where
  "blocker_summary bs =
     (if bs = [] then ''Nothing else is writing to the database.''
      else ''Restore is blocked because ''
        @ join ''; '' (map (\<lambda>b. if bl_detail b \<noteq> [] then bl_detail b else bl_kind b) bs) @ ''.'')"

datatype restore_error = RestoreNotQuiescent "blocker list"

definition require_restore_quiescence ::
    "(string \<times> string) list \<Rightarrow> flt \<Rightarrow> probe_input \<Rightarrow> lockfs \<Rightarrow> restore_error + probe_report" where
  "require_restore_quiescence env moment i s =
     (let r = probe_restore_quiescence env moment i s in
      if pr_quiescent r then Inr r else Inl (RestoreNotQuiescent (pr_blockers r)))"

text \<open>The entry of \<open>hold_restore_lock\<close>: the handle that is closed when the apply ends. \<open>mkdir_error\<close>
  is what creating the lock directory raises.\<close>

definition hold_restore_lock ::
    "string \<Rightarrow> os_error option \<Rightarrow> lock_fault \<Rightarrow> lockfs \<Rightarrow> (restore_error + nat) \<times> lockfs" where
  "hold_restore_lock directory mkdir_error f s =
     (let unavailable = (\<lambda>e. RestoreNotQuiescent [\<lparr>bl_kind = ''restore_lock_unavailable'',
            bl_detail = ''cannot create '' @ directory @ ''/'' @ RESTORE_LOCK_NAME @ '': '' @ snd e,
            bl_next_action = ''Make the lock directory writable, then retry the restore.''\<rparr>])
      in case mkdir_error of
           Some e \<Rightarrow> (Inl (unavailable e), s)
         | None \<Rightarrow> (case try_exclusive_lock False f RESTORE_LOCK_NAME s of
             (Inl e, s') \<Rightarrow> (Inl (unavailable e), s')
           | (Inr None, s') \<Rightarrow> (Inl (RestoreNotQuiescent [\<lparr>bl_kind = ''restore_in_progress'',
               bl_detail = ''another restore holds '' @ RESTORE_LOCK_NAME,
               bl_next_action = ''Wait for that restore to finish.''\<rparr>]), s')
           | (Inr (Some h), s') \<Rightarrow> (Inr h, s')))"

section \<open>What the gate guarantees\<close>

lemma lock_free_taken:
  assumes "lf_wf s" "lock_holder s p = None"
  shows "\<exists>k. fst (try_exclusive_lock ro no_fault p s) = Inr (Some k)"
  using assms
  by (auto simp: try_exclusive_lock_def lock_read_write_def lock_nonblocking_def open_handle_def
      no_fault_def Let_def lock_holder_def split: option.splits)

text \<open>
  An exclusive lock is exclusive. While a handle holds a lock file, no attempt on it succeeds,
  read-only or read-write and whatever faults it meets; once the handle is closed, the next attempt
  without faults takes it.
\<close>

theorem try_exclusive_lock_exclusive:
  assumes "lf_wf s" "try_exclusive_lock ro f p s = (Inr (Some h), s')"
  shows "fst (try_exclusive_lock ro' g p s') \<noteq> Inr (Some k)
    \<and> (\<exists>k. fst (try_exclusive_lock ro' no_fault p (close_handle h s')) = Inr (Some k))"
proof -
  have a: "lock_holder s' p = Some h" "lf_wf s'"
    using flock.acquired [of s "(ro, f)" p h s' p] flock.inv_acquire [of s "(ro, f)" p _ s'] assms
    by auto
  then have "lock_holder (close_handle h s') p = None" "lf_wf (close_handle h s')"
    using flock.released [of s' h p] flock.inv_release [of s' h] by auto
  moreover have "fst (try_exclusive_lock ro' g p s') \<noteq> Inr (Some k)"
    using flock.only_one [of s "(ro, f)" p h s' "(ro', g)" k] assms
    by (metis case_prod_conv prod.collapse)
  ultimately show ?thesis using lock_free_taken by blast
qed

definition no_locks :: lockfs where
  "no_locks = \<lparr>lf_files = [], lf_held = [], lf_next = 0\<rparr>"

theorem try_exclusive_lock_exclusive_witness:
  "\<exists>s'. try_exclusive_lock False no_fault RESTORE_LOCK_NAME no_locks = (Inr (Some 0), s')
    \<and> fst (try_exclusive_lock True no_fault RESTORE_LOCK_NAME s') \<noteq> Inr (Some 1)"
proof -
  have w: "lf_wf no_locks" by (simp add: lf_wf_def no_locks_def)
  obtain s' where s': "try_exclusive_lock False no_fault RESTORE_LOCK_NAME no_locks = (Inr (Some 0), s')"
    by (simp add: try_exclusive_lock_def lock_read_write_def lock_nonblocking_def open_handle_def
        no_fault_def no_locks_def lock_holder_def Let_def)
  then show ?thesis using try_exclusive_lock_exclusive [OF w s'] by blast
qed

text \<open>A lock file other than the restore lock that is held, or that cannot be probed.\<close>

definition blocks_restore :: "(string \<Rightarrow> probe_fault) \<Rightarrow> lockfs \<Rightarrow> string \<Rightarrow> bool" where
  "blocks_restore fault s n = (n \<noteq> RESTORE_LOCK_NAME \<and> fst (probe_one_lock (fault n) n s))"

lemma probe_files_quiet:
  "(fst (probe_files fault s names) = [] \<and> snd (probe_files fault s names) = []) \<longleftrightarrow>
   list_all (\<lambda>n. \<not> blocks_restore fault s n) names"
  by (induction names) (auto simp: Let_def blocks_restore_def split: prod.splits)

text \<open>
  The probe reports a quiescent install exactly when a readable status file neither vouches for
  a live scheduler nor, being current or undatable, lists an active job, the lock directory is not
  blind, and every lock file in it but the restore lock itself is free.
\<close>

theorem probe_quiescent_iff:
  "pr_quiescent (probe_restore_quiescence env moment i s) \<longleftrightarrow>
     (case pi_status i of
        Some (PDict payload) \<Rightarrow>
          if status_is_current moment (heartbeat_live_seconds env) (heartbeat_of payload)
          then heartbeat_of payload = Fin 0 \<and> as_list (get payload ''active_jobs'') = [] else True
      | _ \<Rightarrow> True)
     \<and> (case pi_listing i of Unlistable _ \<Rightarrow> False | _ \<Rightarrow> True)
     \<and> list_all (\<lambda>n. \<not> blocks_restore (pi_fault i) s n) (lock_files_of (pi_listing i))"
proof -
  have "status_blockers moment w (pi_status i) = [] \<longleftrightarrow> (case pi_status i of
        Some (PDict payload) \<Rightarrow> if status_is_current moment w (heartbeat_of payload)
          then heartbeat_of payload = Fin 0 \<and> as_list (get payload ''active_jobs'') = [] else True
      | _ \<Rightarrow> True)" for w
    by (auto simp: status_blockers_def Let_def split: option.splits pyval.splits)
  moreover have "listing_blockers d l = [] \<longleftrightarrow> (case l of Unlistable _ \<Rightarrow> False | _ \<Rightarrow> True)" for d l
    by (auto simp: listing_blockers_def split: lock_listing.splits)
  moreover have "held_blockers held = [] \<longleftrightarrow> held = []" for held
    by (simp add: held_blockers_def)
  ultimately show ?thesis
    unfolding probe_files_quiet [symmetric]
    by (simp add: probe_restore_quiescence_def Let_def split: prod.split)
qed

lemma quiescent_jobs_free:
  assumes "pr_quiescent (probe_restore_quiescence env moment i s)"
    and "pi_listing i = Entries (map (\<lambda>n. (n, True)) (lf_files s))" "lf_wf s"
  shows "lock_holder s JOBS_LOCK_NAME = None"
proof (rule ccontr)
  assume "lock_holder s JOBS_LOCK_NAME \<noteq> None"
  then have h: "lock_holder s JOBS_LOCK_NAME \<noteq> None" "JOBS_LOCK_NAME \<in> set (lf_files s)"
    using holder_in_files [OF assms(3)] by auto
  have "ends_with JOBS_LOCK_NAME ''.lock''"
    by (simp add: JOBS_LOCK_NAME_def ends_with_def)
  then have "JOBS_LOCK_NAME \<in> set (lock_files_of (pi_listing i))"
    using h(2) by (auto simp: lock_files_of_def assms(2) image_iff)
  moreover
  have "JOBS_LOCK_NAME \<noteq> RESTORE_LOCK_NAME"
    by (simp add: JOBS_LOCK_NAME_def RESTORE_LOCK_NAME_def)
  ultimately have "\<not> fst (probe_one_lock (pi_fault i JOBS_LOCK_NAME) JOBS_LOCK_NAME s)"
    using assms(1) unfolding probe_quiescent_iff list_all_iff blocks_restore_def by auto
  then show False
    using h by (auto simp: probe_one_lock_def split: probe_fault.splits option.splits)
qed

end
