(* ===== verification/Jobs.thy ===== *)
theory Jobs
  imports Py
begin

text \<open>
  The job table of \<^verbatim>\<open>core/inkdrop_container_scheduler.py\<close>: the environment readers, the jobs with
  their commands, intervals and timeouts, and the per-job enable switch. A process environment is
  an association list; the interpreter, the script root and the state and lock directories, which
  come from the host, are fields of \<open>job_context\<close>.
\<close>

section \<open>Reading the environment\<close>

type_synonym environ = "(string \<times> string) list"

definition env_text :: "environ \<Rightarrow> string \<Rightarrow> string" where
  "env_text env name = strip (case dget env name of Some s \<Rightarrow> s | None \<Rightarrow> [])"

definition bool_env :: "environ \<Rightarrow> string \<Rightarrow> bool \<Rightarrow> bool" where
  "bool_env env name fallback =
     (let v = lower (env_text env name) in
      if v = [] then fallback else v \<in> set [''1'', ''true'', ''yes'', ''on'', ''enabled''])"

definition int_env :: "environ \<Rightarrow> string \<Rightarrow> int \<Rightarrow> int" where
  "int_env env name fallback =
     (let v = env_text env name in
      if v = [] then fallback
      else case parse_int v of
             None \<Rightarrow> fallback
           | Some parsed \<Rightarrow> if parsed > 0 then parsed else fallback)"

definition bounded_int_env :: "environ \<Rightarrow> string \<Rightarrow> int \<Rightarrow> int \<Rightarrow> int \<Rightarrow> int" where
  "bounded_int_env env name fallback lo hi = max lo (min hi (int_env env name fallback))"

lemma int_env_pos: "0 < d \<Longrightarrow> 0 < int_env env name d"
  by (auto simp: int_env_def Let_def split: option.splits)

lemma bounded_int_env_range: "lo \<le> hi \<Longrightarrow> lo \<le> bounded_int_env env n d lo hi \<and> bounded_int_env env n d lo hi \<le> hi"
  by (auto simp: bounded_int_env_def)

lemma bounded_int_env_pos: "0 < lo \<Longrightarrow> 0 < bounded_int_env env n d lo hi"
  by (auto simp: bounded_int_env_def)

section \<open>Jobs\<close>

record scheduled_job =
  job_name :: string
  interval_seconds :: int
  command :: "string list"
  initial_delay_seconds :: int
  timeout_seconds :: int
  job_environment :: environ
  url :: string
  critical :: bool
  enabled_by_default :: bool

record job_context =
  job_env :: environ
  sys_executable :: string
  script_root :: string
  state_dir_of :: string
  lock_dir_of :: string

definition python_of :: "job_context \<Rightarrow> string" where
  "python_of c =
     (case dget (job_env c) ''PYTHON_BIN'' of
        Some s \<Rightarrow> if s \<noteq> [] then s else if sys_executable c \<noteq> [] then sys_executable c else ''python''
      | None \<Rightarrow> if sys_executable c \<noteq> [] then sys_executable c else ''python'')"

definition script :: "job_context \<Rightarrow> string \<Rightarrow> string" where
  "script c name = script_root c @ ''/core/'' @ name"

definition environ_get :: "job_context \<Rightarrow> string \<Rightarrow> string \<Rightarrow> string" where
  "environ_get c name fallback = (case dget (job_env c) name of Some s \<Rightarrow> s | None \<Rightarrow> fallback)"

text \<open>The character loop, the strip of underscores and the upper case of the switch's name.\<close>

definition job_enabled_env_name :: "string \<Rightarrow> string" where
  "job_enabled_env_name name =
     ''INKDROP_SCHEDULER_JOB_'' @ upper (strip_of (\<lambda>c. c = CHR ''_'')
        (map (\<lambda>c. if is_alnum c then c else CHR ''_'') name)) @ ''_ENABLED''"

definition job_enabled :: "environ \<Rightarrow> scheduled_job \<Rightarrow> bool" where
  "job_enabled env job = bool_env env (job_enabled_env_name (job_name job)) (enabled_by_default job)"

section \<open>The table\<close>

definition verified_import_projection_limit :: "environ \<Rightarrow> int" where
  "verified_import_projection_limit env =
     bounded_int_env env ''INKDROP_SCHEDULER_VERIFIED_IMPORT_PROJECTION_LIMIT'' 5 1 100"

definition verified_import_projection_timeout :: "environ \<Rightarrow> int" where
  "verified_import_projection_timeout env =
     bounded_int_env env ''INKDROP_SCHEDULER_VERIFIED_IMPORT_PROJECTION_TIMEOUT_SECONDS'' 45 15 60"

text \<open>\<open>max(2.0, round(timeout * 0.35, 1))\<close>: whether the product lies below or above the tie depends on
  its rounding to a double, which is therefore written out.\<close>

definition projection_db_timeout :: "environ \<Rightarrow> rat" where
  "projection_db_timeout env =
     max 2 (round_digits 1 (round_double
       (of_int (verified_import_projection_timeout env) * round_double (35 / 100))))"

definition state_retention_max_deletes :: "environ \<Rightarrow> int" where
  "state_retention_max_deletes env =
     bounded_int_env env ''INKDROP_SCHEDULER_STATE_RETENTION_MAX_DELETES'' 5000 100 100000"

definition state_retention_batch_size :: "environ \<Rightarrow> int" where
  "state_retention_batch_size env =
     bounded_int_env env ''INKDROP_SCHEDULER_STATE_RETENTION_BATCH_SIZE'' 500 25 5000"

definition state_retention_timeout :: "environ \<Rightarrow> int" where
  "state_retention_timeout env =
     bounded_int_env env ''INKDROP_SCHEDULER_STATE_RETENTION_TIMEOUT_SECONDS'' 300 60 900"

definition db_maintenance_batch_pages :: "environ \<Rightarrow> int" where
  "db_maintenance_batch_pages env = bounded_int_env env ''INKDROP_DB_MAINTENANCE_BATCH_PAGES'' 1000 50 65536"

definition db_maintenance_max_pages :: "environ \<Rightarrow> int" where
  "db_maintenance_max_pages env = bounded_int_env env ''INKDROP_DB_MAINTENANCE_MAX_PAGES'' 262144 1000 4194304"

definition db_maintenance_max_seconds :: "environ \<Rightarrow> int" where
  "db_maintenance_max_seconds env = bounded_int_env env ''INKDROP_DB_MAINTENANCE_MAX_SECONDS'' 120 10 1800"

definition jobs_part1 :: "job_context \<Rightarrow> scheduled_job list" where
  "jobs_part1 c = [
  \<lparr>job_name = ''verified-import-projection'',
     interval_seconds = int_env (job_env c) ''INKDROP_SCHEDULER_VERIFIED_IMPORT_PROJECTION_INTERVAL_SECONDS'' 30,
     command = [python_of c, ''-B'', script c ''inkdrop_state_maintenance.py'', ''--mode'',
        ''projection'', ''--timeout-seconds'',
        flt_str (Fin (projection_db_timeout (job_env c))), ''--busy-timeout-ms'',
        int_str (trunc (round_double (projection_db_timeout (job_env c) * 1000))),
        ''--lock-attempts'', int_str 2, ''--lock-initial-delay'', flt_str (Fin (1/2)),
        ''--projection-limit'', int_str (verified_import_projection_limit (job_env c))],
     initial_delay_seconds = 5,
     timeout_seconds = verified_import_projection_timeout (job_env c),
     job_environment = [], url = [], critical = False, enabled_by_default = True\<rparr>,
  \<lparr>job_name = ''queue-maintenance'',
     interval_seconds = int_env (job_env c) ''INKDROP_SCHEDULER_QUEUE_MAINTENANCE_INTERVAL_SECONDS'' 180,
     command = [python_of c, ''-B'', script c ''inkdrop_state_maintenance.py'', ''--mode'',
        ''maintenance''],
     initial_delay_seconds = 10,
     timeout_seconds = bounded_int_env (job_env c) ''INKDROP_SCHEDULER_QUEUE_MAINTENANCE_TIMEOUT_SECONDS'' 180 60 1800,
     job_environment = [], url = [], critical = True, enabled_by_default = True\<rparr>,
  \<lparr>job_name = ''manual-search-worker'',
     interval_seconds = int_env (job_env c) ''INKDROP_SCHEDULER_MANUAL_SEARCH_INTERVAL_SECONDS'' 30,
     command = [python_of c, ''-B'', script c ''inkdrop_manual_search_worker.py'', ''--state-db'',
        state_dir_of c @ ''/inkdrop-state.sqlite3'', ''--limit'', ''3''],
     initial_delay_seconds = 15,
     timeout_seconds = 180,
     job_environment = [], url = [], critical = False, enabled_by_default = True\<rparr>,
  \<lparr>job_name = ''auth-state-cleanup'',
     interval_seconds = int_env (job_env c) ''INKDROP_SCHEDULER_AUTH_CLEANUP_INTERVAL_SECONDS'' 21600,
     command = [python_of c, ''-B'', script c ''inkdrop_auth_cli.py'', ''--state-db'',
        state_dir_of c @ ''/inkdrop-state.sqlite3'', ''cleanup'', ''--batch-limit'', ''250''],
     initial_delay_seconds = 75,
     timeout_seconds = 60,
     job_environment = [], url = [], critical = False, enabled_by_default = True\<rparr>,
  \<lparr>job_name = ''log-retention'',
     interval_seconds = int_env (job_env c) ''INKDROP_SCHEDULER_LOG_RETENTION_INTERVAL_SECONDS'' 300,
     command = [python_of c, ''-B'', script c ''inkdrop_log_retention.py'', ''--json''],
     initial_delay_seconds = 90,
     timeout_seconds = bounded_int_env (job_env c) ''INKDROP_SCHEDULER_LOG_RETENTION_TIMEOUT_SECONDS'' 120 30 600,
     job_environment = [], url = [], critical = False, enabled_by_default = True\<rparr>,
  \<lparr>job_name = ''series-status-refresh'',
     interval_seconds = int_env (job_env c) ''INKDROP_SCHEDULER_STATUS_REFRESH_INTERVAL_SECONDS'' 120,
     command = [python_of c, ''-B'', script c ''inkdrop_series_autopilot.py'', ''--status-only''],
     initial_delay_seconds = 20,
     timeout_seconds = 180,
     job_environment = [], url = [], critical = True, enabled_by_default = True\<rparr>,
  \<lparr>job_name = ''manual-review-noop-resolve'',
     interval_seconds = int_env (job_env c) ''INKDROP_SCHEDULER_REVIEW_NOOP_INTERVAL_SECONDS'' 900,
     command = [python_of c, ''-B'', script c ''inkdrop_internal_jobs.py'',
        ''manual-review-noop-resolve''],
     initial_delay_seconds = 45,
     timeout_seconds = 60,
     job_environment = [], url = [], critical = False, enabled_by_default = True\<rparr>,
  \<lparr>job_name = ''notification-dispatch'',
     interval_seconds = int_env (job_env c) ''INKDROP_SCHEDULER_NOTIFICATION_DISPATCH_INTERVAL_SECONDS'' 180,
     command = [python_of c, ''-B'', script c ''inkdrop_internal_jobs.py'', ''notification-dispatch''],
     initial_delay_seconds = 30,
     timeout_seconds = bounded_int_env (job_env c) ''INKDROP_SCHEDULER_NOTIFICATION_DISPATCH_TIMEOUT_SECONDS'' 90 30 600,
     job_environment = [], url = [], critical = False, enabled_by_default = True\<rparr>,
  \<lparr>job_name = ''completed-import-comics'',
     interval_seconds = int_env (job_env c) ''INKDROP_SCHEDULER_COMPLETED_IMPORT_COMICS_INTERVAL_SECONDS'' 900,
     command = [''/usr/bin/flock'', ''-n'', ''-E'', ''75'',
        lock_dir_of c @ ''/inkdrop-comics-import.lock'', python_of c, ''-B'',
        script c ''inkdrop_completed_import.py'', ''--kind'', ''comics'', ''--pending-only'',
        ''--all-series''],
     initial_delay_seconds = 60,
     timeout_seconds = 2700,
     job_environment = [], url = [], critical = True, enabled_by_default = True\<rparr>,
  \<lparr>job_name = ''import-ready-worker'',
     interval_seconds = int_env (job_env c) ''INKDROP_SCHEDULER_IMPORT_READY_INTERVAL_SECONDS'' 900,
     command = [''/app/inkdrop-import-ready-worker.sh''],
     initial_delay_seconds = 90,
     timeout_seconds = 3000,
     job_environment = [], url = [], critical = True, enabled_by_default = True\<rparr>]"

definition jobs_part2 :: "job_context \<Rightarrow> scheduled_job list" where
  "jobs_part2 c = [
  \<lparr>job_name = ''slskd-completed-import'',
     interval_seconds = int_env (job_env c) ''INKDROP_SCHEDULER_SLSKD_COMPLETED_IMPORT_INTERVAL_SECONDS'' 900,
     command = [''/usr/bin/flock'', ''-n'', ''-E'', ''75'',
        lock_dir_of c @ ''/inkdrop-slskd-sweep-instance.lock'', python_of c, ''-B'',
        script c ''inkdrop_slskd_staging_sweep.py''],
     initial_delay_seconds = 180,
     timeout_seconds = bounded_int_env (job_env c) ''INKDROP_SCHEDULER_SLSKD_COMPLETED_IMPORT_TIMEOUT_SECONDS'' 2700 300 3600,
     job_environment = [], url = [], critical = False, enabled_by_default = True\<rparr>,
  \<lparr>job_name = ''series-autopilot'',
     interval_seconds = int_env (job_env c) ''INKDROP_SCHEDULER_SERIES_AUTOPILOT_INTERVAL_SECONDS'' 900,
     command = [''/app/inkdrop-series-autopilot-cron.sh''],
     initial_delay_seconds = 120,
     timeout_seconds = 1000,
     job_environment = [], url = [], critical = True, enabled_by_default = True\<rparr>,
  \<lparr>job_name = ''manual-comics-inbox'',
     interval_seconds = int_env (job_env c) ''INKDROP_SCHEDULER_MANUAL_COMICS_INTERVAL_SECONDS'' 600,
     command = [python_of c, ''-B'', script c ''inkdrop_completed_import.py'', ''--kind'', ''comics'',
        ''--manual-inbox'', ''--all-series'', ''--ignore-cutoff'', ''--min-age-seconds'',
        ''30''],
     initial_delay_seconds = 150,
     timeout_seconds = 2700,
     job_environment = [], url = [], critical = False, enabled_by_default = True\<rparr>,
  \<lparr>job_name = ''manual-ebooks-inbox'',
     interval_seconds = int_env (job_env c) ''INKDROP_SCHEDULER_MANUAL_EBOOKS_INTERVAL_SECONDS'' 600,
     command = [python_of c, ''-B'', script c ''inkdrop_completed_import.py'', ''--kind'', ''ebooks'',
        ''--manual-inbox'', ''--ignore-cutoff'', ''--min-age-seconds'', ''30''],
     initial_delay_seconds = 210,
     timeout_seconds = 1200,
     job_environment = [], url = [], critical = False, enabled_by_default = False\<rparr>,
  \<lparr>job_name = ''manual-source-autoresolve'',
     interval_seconds = int_env (job_env c) ''INKDROP_SCHEDULER_MANUAL_SOURCE_INTERVAL_SECONDS'' 600,
     command = [''/usr/bin/flock'', ''-n'', ''-E'', ''75'',
        lock_dir_of c @ ''/inkdrop-manual-source-autoresolve.lock'', ''timeout'', ''30m'',
        python_of c, ''-B'', script c ''inkdrop_manual_source_autoresolve.py'', ''--live'',
        ''--include-ready'', ''--max-imports'', ''2'', ''--min-age-seconds'', ''120''],
     initial_delay_seconds = 300,
     timeout_seconds = 1900,
     job_environment = [], url = [], critical = True, enabled_by_default = True\<rparr>,
  \<lparr>job_name = ''source-worker'',
     interval_seconds = int_env (job_env c) ''INKDROP_SCHEDULER_SOURCE_WORKER_INTERVAL_SECONDS'' 300,
     command = [''/app/inkdrop-source-worker-cron.sh''],
     initial_delay_seconds = 360,
     timeout_seconds = 900,
     job_environment = [], url = [], critical = False, enabled_by_default = True\<rparr>,
  \<lparr>job_name = ''source-worker-suwayomi'',
     interval_seconds = int_env (job_env c) ''INKDROP_SCHEDULER_SUWAYOMI_WORKER_INTERVAL_SECONDS'' 1800,
     command = [''/app/inkdrop-source-worker-suwayomi-cron.sh''],
     initial_delay_seconds = 1260,
     timeout_seconds = 900,
     job_environment = [], url = [], critical = False, enabled_by_default = True\<rparr>]"

definition jobs_part3 :: "job_context \<Rightarrow> scheduled_job list" where
  "jobs_part3 c = [
  \<lparr>job_name = ''manga-metadata-guard'',
     interval_seconds = int_env (job_env c) ''INKDROP_SCHEDULER_MANGA_METADATA_GUARD_INTERVAL_SECONDS'' 1800,
     command = [python_of c, ''-B'', script c ''inkdrop_manga_metadata_guard.py'', ''--status-json'',
        state_dir_of c @ ''/manga-metadata-guard-status.json''],
     initial_delay_seconds = 420,
     timeout_seconds = 1800,
     job_environment = [(''INKDROP_MANGA_METADATA_GUARD_MAX_ARCHIVES'', environ_get c ''INKDROP_MANGA_METADATA_GUARD_MAX_ARCHIVES'' (''250'')),
       (''INKDROP_COMPLETED_IMPORT_SCRIPT'', environ_get c ''INKDROP_COMPLETED_IMPORT_SCRIPT'' (script c ''inkdrop_completed_import.py''))], url = [], critical = False, enabled_by_default = True\<rparr>,
  \<lparr>job_name = ''sab-failed-cleanup'',
     interval_seconds = int_env (job_env c) ''INKDROP_SCHEDULER_SAB_CLEANUP_INTERVAL_SECONDS'' 3600,
     command = [python_of c, ''-B'', script c ''inkdrop_sab_failed_cleanup.py'', ''--min-age-hours'',
        ''2'', ''--history-limit'', ''800'', ''--max-delete'', ''100'', ''--json''],
     initial_delay_seconds = 480,
     timeout_seconds = 1200,
     job_environment = [], url = [], critical = False, enabled_by_default = True\<rparr>,
  \<lparr>job_name = ''slskd-search-cleanup'',
     interval_seconds = int_env (job_env c) ''INKDROP_SCHEDULER_SLSKD_SEARCH_CLEANUP_INTERVAL_SECONDS'' 3600,
     command = [python_of c, ''-B'', script c ''inkdrop_slskd_search_cleanup.py'', ''--json''],
     initial_delay_seconds = 540,
     timeout_seconds = 300,
     job_environment = [], url = [], critical = False, enabled_by_default = True\<rparr>,
  \<lparr>job_name = ''scheduled-backup'',
     interval_seconds = int_env (job_env c) ''INKDROP_SCHEDULER_BACKUP_CHECK_INTERVAL_SECONDS'' 14400,
     command = [python_of c, ''-B'', script c ''inkdrop_backup_restore.py'', ''scheduled-backup''],
     initial_delay_seconds = 900,
     timeout_seconds = bounded_int_env (job_env c) ''INKDROP_SCHEDULER_BACKUP_TIMEOUT_SECONDS'' 3600 300 21600,
     job_environment = [], url = [], critical = False, enabled_by_default = True\<rparr>,
  \<lparr>job_name = ''completed-import-ebooks'',
     interval_seconds = int_env (job_env c) ''INKDROP_SCHEDULER_COMPLETED_IMPORT_EBOOKS_INTERVAL_SECONDS'' 3600,
     command = [python_of c, ''-B'', script c ''inkdrop_completed_import.py'', ''--kind'', ''ebooks''],
     initial_delay_seconds = 1020,
     timeout_seconds = 1800,
     job_environment = [], url = [], critical = False, enabled_by_default = False\<rparr>,
  \<lparr>job_name = ''state-retention'',
     interval_seconds = int_env (job_env c) ''INKDROP_SCHEDULER_STATE_RETENTION_INTERVAL_SECONDS'' 3600,
     command = [python_of c, ''-B'', script c ''inkdrop_state_maintenance.py'', ''--mode'',
        ''retention'', ''--timeout-seconds'', flt_str (Fin 15), ''--busy-timeout-ms'',
        int_str (trunc (15 * 1000)), ''--lock-attempts'', int_str 2, ''--lock-initial-delay'',
        flt_str (Fin (1/2)), ''--retention-batch-size'',
        int_str (state_retention_batch_size (job_env c)), ''--retention-max-deletes'',
        int_str (state_retention_max_deletes (job_env c))],
     initial_delay_seconds = 660,
     timeout_seconds = state_retention_timeout (job_env c),
     job_environment = [], url = [], critical = False, enabled_by_default = True\<rparr>]"

definition jobs_part4 :: "job_context \<Rightarrow> scheduled_job list" where
  "jobs_part4 c = [
  \<lparr>job_name = ''db-maintenance'',
     interval_seconds = int_env (job_env c) ''INKDROP_SCHEDULER_DB_MAINTENANCE_INTERVAL_SECONDS'' 3600,
     command = [python_of c, ''-B'', script c ''inkdrop_db_maintenance.py'', ''run'',
        ''--batch-pages'', int_str (db_maintenance_batch_pages (job_env c)), ''--max-pages'',
        int_str (db_maintenance_max_pages (job_env c)), ''--max-seconds'',
        int_str (db_maintenance_max_seconds (job_env c))],
     initial_delay_seconds = 780,
     timeout_seconds = bounded_int_env (job_env c) ''INKDROP_SCHEDULER_DB_MAINTENANCE_TIMEOUT_SECONDS'' (db_maintenance_max_seconds (job_env c) + 60) 60 3600,
     job_environment = [], url = [], critical = False, enabled_by_default = True\<rparr>,
  \<lparr>job_name = ''comicvine-scan'',
     interval_seconds = int_env (job_env c) ''INKDROP_SCHEDULER_COMICVINE_SCAN_INTERVAL_SECONDS'' 21600,
     command = [python_of c, ''-B'', script c ''inkdrop_internal_jobs.py'', ''comicvine-scan''],
     initial_delay_seconds = 600,
     timeout_seconds = bounded_int_env (job_env c) ''INKDROP_SCHEDULER_COMICVINE_SCAN_TIMEOUT_SECONDS'' 300 120 1800,
     job_environment = [], url = [], critical = False, enabled_by_default = True\<rparr>,
  \<lparr>job_name = ''full-state-sync'',
     interval_seconds = int_env (job_env c) ''INKDROP_SCHEDULER_FULL_STATE_SYNC_INTERVAL_SECONDS'' 3600,
     command = [python_of c, ''-B'', script c ''inkdrop_internal_jobs.py'', ''full-state-sync''],
     initial_delay_seconds = 2400,
     timeout_seconds = bounded_int_env (job_env c) ''INKDROP_SCHEDULER_FULL_STATE_SYNC_TIMEOUT_SECONDS'' 1500 300 3600,
     job_environment = [], url = [], critical = False, enabled_by_default = True\<rparr>,
  \<lparr>job_name = ''incremental-state-reconciliation'',
     interval_seconds = int_env (job_env c) ''INKDROP_SCHEDULER_FULL_RECONCILIATION_INTERVAL_SECONDS'' 21600,
     command = [python_of c, ''-B'', script c ''inkdrop_state_maintenance.py'', ''--mode'', ''queue''],
     initial_delay_seconds = 1800,
     timeout_seconds = bounded_int_env (job_env c) ''INKDROP_SCHEDULER_INCREMENTAL_RECONCILIATION_TIMEOUT_SECONDS'' 240 60 300,
     job_environment = [], url = [], critical = False, enabled_by_default = True\<rparr>,
  \<lparr>job_name = ''deep-state-integrity-audit'',
     interval_seconds = int_env (job_env c) ''INKDROP_SCHEDULER_DEEP_INTEGRITY_INTERVAL_SECONDS'' 86400,
     command = [python_of c, ''-B'', script c ''inkdrop_state_maintenance.py'', ''--mode'',
        ''integrity'', ''--integrity-limit'', ''100''],
     initial_delay_seconds = 3600,
     timeout_seconds = bounded_int_env (job_env c) ''INKDROP_SCHEDULER_DEEP_INTEGRITY_TIMEOUT_SECONDS'' 300 120 300,
     job_environment = [], url = [], critical = False, enabled_by_default = True\<rparr>,
  \<lparr>job_name = ''library-reconciliation-report'',
     interval_seconds = int_env (job_env c) ''INKDROP_SCHEDULER_LIBRARY_RECONCILIATION_INTERVAL_SECONDS'' 86400,
     command = [python_of c, ''-B'', script c ''inkdrop_library_reconcile.py'', ''--mode'',
        ''report'', ''--cache-file'', state_dir_of c @ ''/library-reconciliation-last.json''],
     initial_delay_seconds = 1200,
     timeout_seconds = bounded_int_env (job_env c) ''INKDROP_SCHEDULER_LIBRARY_RECONCILIATION_TIMEOUT_SECONDS'' 600 60 1800,
     job_environment = [], url = [], critical = False, enabled_by_default = True\<rparr>]"

definition all_jobs :: "job_context \<Rightarrow> scheduled_job list" where
  "all_jobs c = jobs_part1 c @ jobs_part2 c @ jobs_part3 c @ jobs_part4 c"

definition build_jobs :: "job_context \<Rightarrow> scheduled_job list" where
  "build_jobs c = filter (job_enabled (job_env c)) (all_jobs c)"

definition shelved_job_names :: "job_context \<Rightarrow> string list" where
  "shelved_job_names c = sort (map job_name (filter (\<lambda>j. \<not> job_enabled (job_env c) j) (all_jobs c)))"

section \<open>The table is well formed\<close>

definition job_ok :: "scheduled_job \<Rightarrow> bool" where
  "job_ok j = (0 < interval_seconds j \<and> 0 \<le> initial_delay_seconds j \<and> 0 < timeout_seconds j
     \<and> command j \<noteq> [] \<and> url j = [])"

lemmas jobs_parts = jobs_part1_def jobs_part2_def jobs_part3_def jobs_part4_def

lemma all_job_names: "map job_name (all_jobs c) = map job_name (all_jobs c')"
  by (simp add: all_jobs_def jobs_parts)

lemmas table_bounds = int_env_pos bounded_int_env_pos

lemma jobs_parts_ok:
  "list_all job_ok (jobs_part1 c)" "list_all job_ok (jobs_part2 c)"
  "list_all job_ok (jobs_part3 c)" "list_all job_ok (jobs_part4 c)"
  by (simp_all add: jobs_parts job_ok_def table_bounds verified_import_projection_timeout_def
      state_retention_timeout_def)

lemma all_job_names_distinct: "distinct (map job_name (all_jobs c))"
  by (simp add: all_jobs_def jobs_parts)

lemma job_enabled_default: "job_enabled [] j = enabled_by_default j"
  by (simp add: job_enabled_def bool_env_def env_text_def)

lemma shelved_by_default:
  "shelved_job_names (c\<lparr>job_env := []\<rparr>) = [''completed-import-ebooks'', ''manual-ebooks-inbox'']"
  by (simp add: shelved_job_names_def job_enabled_default all_jobs_def jobs_parts)

text \<open>
  For every environment the job table is well formed: the names are distinct, so that the
  dictionaries keyed by them lose no job, and every job has a command, a positive interval and
  timeout and a nonnegative first delay, whatever the environment overrides.
\<close>

theorem all_jobs_well_formed:
  "distinct (map job_name (all_jobs c)) \<and> list_all job_ok (all_jobs c)"
  using all_job_names_distinct by (simp add: all_jobs_def jobs_parts_ok)

text \<open>
  The shelved jobs are the two ebook jobs unless the operator says otherwise: with no override
  in the environment exactly they are missing from the scheduled jobs, and every job of the table is
  either scheduled or reported as shelved, never both.
\<close>

theorem shelved_jobs_partition:
  "((n \<in> set (map job_name (build_jobs c))) \<noteq> (n \<in> set (shelved_job_names c))
      \<longleftrightarrow> n \<in> set (map job_name (all_jobs c)))
   \<and> shelved_job_names (c\<lparr>job_env := []\<rparr>) = [''completed-import-ebooks'', ''manual-ebooks-inbox'']"
proof -
  have "j \<in> set (all_jobs c) \<Longrightarrow> k \<in> set (all_jobs c) \<Longrightarrow> job_name j = job_name k \<Longrightarrow> j = k" for j k
    using all_job_names_distinct [of c] by (auto simp: distinct_map inj_on_def)
  then show ?thesis
    using shelved_by_default [of c]
    by (auto simp: build_jobs_def shelved_job_names_def image_iff)
qed

end
