(* ===== verification/Scheduler.thy ===== *)
theory Scheduler
  imports Jobs Locks "HOL-Library.Product_Lexorder"
begin

text \<open>
  The worker scheduler of \<^verbatim>\<open>core/inkdrop_container_scheduler.py\<close>: how a job's exit code becomes its
  next run, what a restart restores, the start of due jobs under the concurrency limit, the jobs
  lock, and the status document. The wall clock is an argument of every function that reads it, the
  outcome of a child process or an HTTP call is an argument of \<open>run_job\<close>.
\<close>

section \<open>Exit codes and delays\<close>

fun safe_nonnegative_int :: "pyval \<Rightarrow> int \<Rightarrow> py_exn + int" where
  "safe_nonnegative_int v fallback =
     (case int_of (por v (PInt 0)) of
        Inr i \<Rightarrow> Inr (max 0 i)
      | Inl e \<Rightarrow> if e = TypeError \<or> e = ValueError then Inr (max 0 fallback) else Inl e)"

definition failure_backoff_seconds :: "environ \<Rightarrow> scheduled_job \<Rightarrow> int \<Rightarrow> int" where
  "failure_backoff_seconds env job consecutive_failures =
     (let base = max 30 (interval_seconds job);
          maximum = bounded_int_env env ''INKDROP_SCHEDULER_FAILURE_BACKOFF_MAX_SECONDS'' 3600 60 86400;
          exponent = max 0 (min 6 (consecutive_failures - 1))
      in min maximum (base * 2 ^ nat exponent))"

definition completion_schedule :: "environ \<Rightarrow> scheduled_job \<Rightarrow> int \<Rightarrow> int \<Rightarrow> int \<times> int \<times> string" where
  "completion_schedule env job returncode consecutive_failures =
     (if returncode = 0 then (0, max 30 (interval_seconds job), ''success'')
      else if returncode = 75
      then (0, bounded_int_env env ''INKDROP_SCHEDULER_DEFERRED_RETRY_SECONDS'' 120 30 1800, ''deferred'')
      else if returncode = 78 then (0, max 30 (interval_seconds job), ''configuration_needed'')
      else let failures = max 0 consecutive_failures + 1
           in (failures, failure_backoff_seconds env job failures, ''failed''))"

section \<open>Running a job\<close>

text \<open>An HTTP call ends with a response (status, and the body parsed as JSON if it parses), an HTTP
  error, another network error, or an exception \<open>post_url\<close> does not catch.\<close>

datatype http_outcome =
    HttpResponse int "pyval option"
  | HttpError
  | NetworkError
  | HttpCrash

datatype process_outcome =
    Exited int
  | TimedOut
  | LaunchFailed
  | ProcessCrash

definition post_url :: "http_outcome \<Rightarrow> unit + int" where
  "post_url out =
     (case out of
        HttpResponse status body \<Rightarrow>
          if \<not> (200 \<le> status \<and> status < 300) then Inr 1
          else
            let payload = (case body of Some v \<Rightarrow> v | None \<Rightarrow> PDict []);
                result = (if is_dict payload then get (as_dict payload) ''result'' else PDict []);
                provider_status = (if is_dict result then lower_text (get (as_dict result) ''status'') else [])
            in Inr (if provider_status \<in> set [''configuration_needed'', ''disabled''] then 78 else 0)
      | HttpError \<Rightarrow> Inr 1
      | NetworkError \<Rightarrow> Inr 75
      | HttpCrash \<Rightarrow> Inl ())"

definition run_job :: "scheduled_job \<Rightarrow> http_outcome \<Rightarrow> process_outcome \<Rightarrow> unit + int" where
  "run_job job http proc =
     (if url job \<noteq> [] then post_url http
      else case proc of
             Exited rc \<Rightarrow> Inr rc
           | TimedOut \<Rightarrow> Inr 124
           | LaunchFailed \<Rightarrow> Inr 127
           | ProcessCrash \<Rightarrow> Inl ())"

record job_result =
  jr_name :: string
  jr_rc :: int
  jr_started_at :: rat
  jr_completed_at :: rat
  jr_elapsed :: rat

text \<open>\<open>_job_runner\<close>: any exception is the return code 125, so that every started job puts a result.\<close>

definition job_runner ::
    "scheduled_job \<Rightarrow> http_outcome \<Rightarrow> process_outcome \<Rightarrow> rat \<Rightarrow> rat \<Rightarrow> rat \<Rightarrow> job_result" where
  "job_runner job http proc started completed monotonic_elapsed =
     \<lparr>jr_name = job_name job,
      jr_rc = (case run_job job http proc of Inr rc \<Rightarrow> rc | Inl _ \<Rightarrow> 125),
      jr_started_at = started, jr_completed_at = completed,
      jr_elapsed = round_digits 3 monotonic_elapsed\<rparr>"

section \<open>The state of the scheduler\<close>

record job_state =
  js_name :: string
  js_critical :: bool
  js_interval :: int
  js_timeout :: int
  js_next_run_at :: flt
  js_last_started_at :: pyval
  js_last_completed_at :: pyval
  js_last_elapsed :: pyval
  js_last_rc :: pyval
  js_last_outcome :: pyval
  js_failures :: int

record active_job =
  aj_name :: string
  aj_critical :: bool
  aj_started_at :: rat
  aj_timeout :: int

record sched =
  sc_jobs :: "scheduled_job list"
  sc_max :: int
  sc_states :: "(string \<times> job_state) list"
  sc_active :: "(string \<times> active_job) list"
  sc_lock :: "nat option"
  sc_deferred :: "string option"

fun find_row :: "string \<Rightarrow> pyval list \<Rightarrow> pydict" where
  "find_row name [] = []"
| "find_row name (row # rows) =
     (if is_dict row \<and> get (as_dict row) ''name'' = PStr name then as_dict row else find_row name rows)"

text \<open>\<open>_restored_job_state\<close>: the row of the previous status file, or a first run after the delay.\<close>

definition restored_next_run :: "scheduled_job \<Rightarrow> pydict \<Rightarrow> rat \<Rightarrow> flt" where
  "restored_next_run job row started_at =
     (let stored = (case float_of (por (get row ''next_run_at'') (PInt 0)) of Inr x \<Rightarrow> x | Inl _ \<Rightarrow> Fin 0)
      in if flt_le stored (Fin 0) then Fin (started_at + of_int (max 0 (initial_delay_seconds job)))
         else stored)"

definition restored_job_state :: "scheduled_job \<Rightarrow> pydict \<Rightarrow> rat \<Rightarrow> py_exn + job_state" where
  "restored_job_state job previous started_at =
     (let row = find_row (job_name job) (as_list (get previous ''jobs''))
      in mapE (\<lambda>failures.
           \<lparr>js_name = job_name job, js_critical = critical job, js_interval = interval_seconds job,
            js_timeout = timeout_seconds job,
            js_next_run_at = restored_next_run job row started_at,
            js_last_started_at = get row ''last_started_at'',
            js_last_completed_at = get row ''last_completed_at'',
            js_last_elapsed = get row ''last_elapsed_seconds'',
            js_last_rc = get row ''last_rc'',
            js_last_outcome = get row ''last_outcome'',
            js_failures = failures\<rparr>)
         (safe_nonnegative_int (get row ''consecutive_failures'') 0))"

definition start_scheduler :: "job_context \<Rightarrow> pydict \<Rightarrow> rat \<Rightarrow> py_exn + sched" where
  "start_scheduler c previous started_at =
     mapE (\<lambda>states. \<lparr>sc_jobs = build_jobs c,
        sc_max = bounded_int_env (job_env c) ''INKDROP_SCHEDULER_MAX_CONCURRENCY'' 3 1 8,
        sc_states = map (\<lambda>s. (js_name s, s)) states,
        sc_active = [], sc_lock = None, sc_deferred = None\<rparr>)
     (traverseE (\<lambda>j. restored_job_state j previous started_at) (build_jobs c))"

section \<open>One pass of the loop\<close>

text \<open>A completed job: its row is updated and it leaves \<open>active\<close>. An unknown name is a \<open>KeyError\<close>.\<close>

definition complete_job :: "environ \<Rightarrow> job_result \<times> rat \<Rightarrow> sched \<Rightarrow> py_exn + sched" where
  "complete_job env rt s =
     (let (result, now) = rt; name = jr_name result in
      case (dget (sc_states s) name, List.find (\<lambda>j. job_name j = name) (sc_jobs s)) of
        (Some row, Some job) \<Rightarrow>
          (let (failures, delay, outcome) = completion_schedule env job (jr_rc result) (js_failures row)
           in Inr (s\<lparr>sc_active := ddel name (sc_active s),
                     sc_states := dset name (row\<lparr>
                       js_last_started_at := PFloat (Fin (jr_started_at result)),
                       js_last_completed_at := PFloat (Fin (jr_completed_at result)),
                       js_last_elapsed := PFloat (Fin (jr_elapsed result)),
                       js_last_rc := PInt (jr_rc result),
                       js_failures := failures, js_last_outcome := PStr outcome,
                       js_next_run_at := Fin (now + of_int delay)\<rparr>) (sc_states s)\<rparr>))
      | _ \<Rightarrow> Inl KeyError)"

fun complete_jobs :: "environ \<Rightarrow> (job_result \<times> rat) list \<Rightarrow> sched \<Rightarrow> py_exn + sched" where
  "complete_jobs env [] s = Inr s"
| "complete_jobs env (r # rs) s = bindE (complete_job env r s) (complete_jobs env rs)"

text \<open>\<open>float(row.get("next_run_at") or now)\<close> and the due test.\<close>

definition next_or_now :: "rat \<Rightarrow> job_state \<Rightarrow> flt" where
  "next_or_now now st = (if js_next_run_at st = Fin 0 then Fin now else js_next_run_at st)"

definition is_due :: "rat \<Rightarrow> sched \<Rightarrow> scheduled_job \<Rightarrow> bool" where
  "is_due now s job =
     (\<not> dhas (sc_active s) (job_name job) \<and>
      (case dget (sc_states s) (job_name job) of
         None \<Rightarrow> False
       | Some st \<Rightarrow> flt_le (next_or_now now st) (Fin now)))"

fun flt_key :: "flt \<Rightarrow> bool \<times> rat" where
  "flt_key (Fin q) = (True, q)"
| "flt_key _ = (False, 0)"

text \<open>The sort key \<open>(not critical, next run, name)\<close>; a due next run is a number or minus infinity.\<close>

definition due_key :: "rat \<Rightarrow> sched \<Rightarrow> scheduled_job \<Rightarrow> bool \<times> (bool \<times> rat) \<times> string" where
  "due_key now s job = (\<not> critical job,
     (case dget (sc_states s) (job_name job) of None \<Rightarrow> (False, 0) | Some st \<Rightarrow> flt_key (next_or_now now st)),
     job_name job)"

definition due_jobs :: "rat \<Rightarrow> sched \<Rightarrow> py_exn + scheduled_job list" where
  "due_jobs now s =
     (if list_all (\<lambda>j. dhas (sc_active s) (job_name j) \<or> dhas (sc_states s) (job_name j)) (sc_jobs s)
      then Inr (sort_key (due_key now s) (filter (is_due now s) (sc_jobs s)))
      else Inl KeyError)"

definition available_slots :: "sched \<Rightarrow> nat" where
  "available_slots s = nat (max 0 (sc_max s - int (length (sc_active s))))"

section \<open>The jobs lock\<close>

datatype claim_entry =
    ClaimRefused string
  | ClaimHolding nat

definition unusable :: "os_error \<Rightarrow> string" where
  "unusable e = ''lock directory unusable error_type='' @ fst e"

text \<open>\<open>claim_jobs_lock\<close> in the order it runs: the restore lock, the jobs lock unless it is held
  already, and the restore lock closed again whatever happened.\<close>

definition claim_enter :: "os_error option \<Rightarrow> lock_fault \<Rightarrow> lockfs \<Rightarrow> claim_entry \<times> lockfs" where
  "claim_enter mkdir_error f l =
     (case mkdir_error of
        Some e \<Rightarrow> (ClaimRefused (unusable e), l)
      | None \<Rightarrow> (case try_exclusive_lock True f RESTORE_LOCK_NAME l of
            (Inl e, l') \<Rightarrow> (ClaimRefused (unusable e), l')
          | (Inr None, l') \<Rightarrow> (ClaimRefused ''a restore holds the restore lock'', l')
          | (Inr (Some r), l') \<Rightarrow> (ClaimHolding r, l')))"

definition claim_take ::
    "lock_fault \<Rightarrow> nat option \<Rightarrow> lockfs \<Rightarrow> (nat option \<times> string option) \<times> lockfs" where
  "claim_take f held l =
     (case held of
        Some h \<Rightarrow> ((Some h, None), l)
      | None \<Rightarrow> (case try_exclusive_lock False f JOBS_LOCK_NAME l of
            (Inl e, l') \<Rightarrow> ((None, Some (unusable e)), l')
          | (Inr None, l') \<Rightarrow> ((None, Some ''the jobs lock is held elsewhere''), l')
          | (Inr (Some h), l') \<Rightarrow> ((Some h, None), l')))"

definition claim_jobs_lock ::
    "os_error option \<Rightarrow> lock_fault \<Rightarrow> lock_fault \<Rightarrow> nat option \<Rightarrow> lockfs
     \<Rightarrow> (nat option \<times> string option) \<times> lockfs" where
  "claim_jobs_lock mkdir_error fr fj held l =
     (case claim_enter mkdir_error fr l of
        (ClaimRefused why, l1) \<Rightarrow> ((held, Some why), l1)
      | (ClaimHolding r, l1) \<Rightarrow>
          (case claim_take fj held l1 of (out, l2) \<Rightarrow> (out, close_handle r l2)))"

section \<open>Starting and settling\<close>

definition start_job :: "rat \<Rightarrow> scheduled_job \<Rightarrow> sched \<Rightarrow> sched" where
  "start_job now job s = s\<lparr>sc_active := dset (job_name job)
     \<lparr>aj_name = job_name job, aj_critical = critical job, aj_started_at = now,
      aj_timeout = timeout_seconds job\<rparr> (sc_active s)\<rparr>"

definition start_jobs :: "rat \<Rightarrow> scheduled_job list \<Rightarrow> sched \<Rightarrow> sched" where
  "start_jobs now jobs s = fold (start_job now) jobs s"

definition settle :: "sched \<Rightarrow> lockfs \<Rightarrow> sched \<times> lockfs" where
  "settle s l =
     (case sc_lock s of
        Some h \<Rightarrow> if sc_active s = [] then (s\<lparr>sc_lock := None\<rparr>, close_handle h l) else (s, l)
      | None \<Rightarrow> (s, l))"

text \<open>The first half of a pass: completed jobs, due jobs, and those there is room for.\<close>

definition plan_pass ::
    "environ \<Rightarrow> (job_result \<times> rat) list \<Rightarrow> rat \<Rightarrow> sched \<Rightarrow> py_exn + sched \<times> scheduled_job list" where
  "plan_pass env results now s =
     bindE (complete_jobs env results s) (\<lambda>s1.
     bindE (due_jobs now s1) (\<lambda>due.
       Inr (if due = [] then s1\<lparr>sc_deferred := None\<rparr> else s1, take (available_slots s1) due)))"

text \<open>A whole pass, with nothing interleaved.\<close>

definition loop_pass ::
    "environ \<Rightarrow> (job_result \<times> rat) list \<Rightarrow> rat \<Rightarrow> os_error option \<Rightarrow> lock_fault \<Rightarrow> lock_fault
     \<Rightarrow> sched \<Rightarrow> lockfs \<Rightarrow> py_exn + sched \<times> lockfs" where
  "loop_pass env results now mkdir_error fr fj s l =
     bindE (plan_pass env results now s) (\<lambda>(s1, to_start).
       if to_start = [] then Inr (settle s1 l)
       else
         let ((lock, deferred), l1) = claim_jobs_lock mkdir_error fr fj (sc_lock s1) l;
             s2 = s1\<lparr>sc_lock := lock, sc_deferred := deferred\<rparr>
         in Inr (settle (start_jobs now (if deferred = None then to_start else []) s2) l1))"

section \<open>The status document\<close>

record status_row =
  sr_state :: job_state
  sr_active :: bool
  sr_late_by :: flt

definition status_row_of :: "rat \<Rightarrow> sched \<Rightarrow> job_state \<Rightarrow> status_row" where
  "status_row_of now s st =
     (let running = dhas (sc_active s) (js_name st) in
      \<lparr>sr_state = st, sr_active = running,
       sr_late_by = (if running then Fin 0
         else flt_round 3 (flt_max (Fin 0) (flt_sub (Fin now) (next_or_now now st))))\<rparr>)"

record status_doc =
  sd_ok :: bool
  sd_state :: string
  sd_pid :: int
  sd_started_at :: rat
  sd_heartbeat_at :: rat
  sd_max_concurrency :: int
  sd_active_jobs :: "active_job list"
  sd_job_start_deferred :: "string option"
  sd_jobs :: "status_row list"
  sd_shelved_jobs :: "string list"
  sd_failure_count :: nat
  sd_late_job_count :: nat

definition scheduler_status_payload ::
    "int \<Rightarrow> rat \<Rightarrow> rat \<Rightarrow> sched \<Rightarrow> bool \<Rightarrow> string list \<Rightarrow> string option \<Rightarrow> status_doc" where
  "scheduler_status_payload pid started_at heartbeat_at s stopping shelved start_deferred =
     (let rows = map (\<lambda>(n, st). status_row_of heartbeat_at s st) (sort_key fst (sc_states s));
          failures = filter (\<lambda>r. js_failures (sr_state r) > 0) rows;
          late = filter (\<lambda>r. flt_lt (Fin 0) (sr_late_by r)) rows
      in \<lparr>sd_ok = (\<not> stopping),
          sd_state = (if stopping then ''stopping''
                      else if failures \<noteq> [] \<or> late \<noteq> [] then ''degraded'' else ''healthy''),
          sd_pid = pid, sd_started_at = started_at, sd_heartbeat_at = heartbeat_at,
          sd_max_concurrency = sc_max s,
          sd_active_jobs = map snd (sort_key fst (sc_active s)),
          sd_job_start_deferred = start_deferred, sd_jobs = rows,
          sd_shelved_jobs = sort shelved,
          sd_failure_count = length failures, sd_late_job_count = length late\<rparr>)"

section \<open>Delays\<close>

lemma backoff_mono:
  assumes "m \<le> n"
  shows "failure_backoff_seconds env job m \<le> failure_backoff_seconds env job n"
proof -
  let ?b = "max 30 (interval_seconds job)"
  have "(2::int) ^ nat (max 0 (min 6 (m - 1))) \<le> 2 ^ nat (max 0 (min 6 (n - 1)))"
    using assms by (intro power_increasing) auto
  then have "?b * 2 ^ nat (max 0 (min 6 (m - 1))) \<le> ?b * 2 ^ nat (max 0 (min 6 (n - 1)))"
    by (intro mult_left_mono) auto
  then show ?thesis
    unfolding failure_backoff_seconds_def Let_def by (intro min.mono order_refl)
qed

lemma backoff_range:
  "30 \<le> failure_backoff_seconds env job n \<and> failure_backoff_seconds env job n \<le> 86400"
proof -
  let ?e = "nat (max 0 (min 6 (n - 1)))"
  have "(30::int) * 1 \<le> max 30 (interval_seconds job) * 2 ^ ?e"
    by (intro mult_mono) auto
  moreover have "60 \<le> bounded_int_env env ''INKDROP_SCHEDULER_FAILURE_BACKOFF_MAX_SECONDS'' 3600 60 86400
      \<and> bounded_int_env env ''INKDROP_SCHEDULER_FAILURE_BACKOFF_MAX_SECONDS'' 3600 60 86400 \<le> 86400"
    by (rule bounded_int_env_range) simp
  ultimately show ?thesis
    unfolding failure_backoff_seconds_def Let_def by linarith
qed

text \<open>
  Every completed job runs again, no sooner than half a minute and no later than its interval
  or a day, whatever its exit code, its failure count and the environment; a failure never resets
  the count, and only success, deferral and missing configuration do.
\<close>

theorem completion_schedule_range:
  "(case completion_schedule env job rc n of
      (failures, delay, outcome) \<Rightarrow>
        30 \<le> delay \<and> delay \<le> max 86400 (interval_seconds job)
        \<and> (failures = 0 \<longleftrightarrow> rc \<in> {0, 75, 78}) \<and> (outcome = ''failed'' \<longleftrightarrow> rc \<notin> {0, 75, 78})
        \<and> (if rc \<in> {0, 75, 78} then True else n < failures))"
  using backoff_range [of env job "max 0 n + 1"]
    bounded_int_env_range [of 30 1800 env "''INKDROP_SCHEDULER_DEFERRED_RETRY_SECONDS''" 120]
  by (auto simp: completion_schedule_def Let_def)

text \<open>
  Repeated failures never shorten the wait: the delay after a failure is monotone in the number
  of failures before it, up to the configured maximum.
\<close>

theorem failure_delay_monotone:
  assumes "rc \<notin> {0, 75, 78}" "m \<le> n"
  shows "fst (snd (completion_schedule env job rc m)) \<le> fst (snd (completion_schedule env job rc n))"
  using assms backoff_mono [of "max 0 m + 1" "max 0 n + 1" env job]
  by (auto simp: completion_schedule_def Let_def)

section \<open>The due queue\<close>

lemma due_jobs_spec:
  assumes "due_jobs now s = Inr due"
  shows "set due = {j \<in> set (sc_jobs s). is_due now s j}" "sorted (map (due_key now s) due)"
    "distinct (map job_name (sc_jobs s)) \<Longrightarrow> distinct (map job_name due)"
  using assms by (auto simp: due_jobs_def distinct_map inj_on_def split: if_splits)

text \<open>
  Critical work first. Of the due jobs a pass starts, none is preferred to a due critical job
  unless it is critical itself: when a non-critical job is started, every due critical job is
  started in the same pass. No job is started twice, and no more than there are free slots.
\<close>

theorem critical_jobs_first:
  assumes "due_jobs now s = Inr due" "distinct (map job_name (sc_jobs s))"
    and "j \<in> set (take (available_slots s) due)" "\<not> critical j"
    and "k \<in> set (sc_jobs s)" "is_due now s k" "critical k"
  shows "k \<in> set (take (available_slots s) due)
    \<and> distinct (map job_name (take (available_slots s) due))
    \<and> length (take (available_slots s) due) + length (sc_active s) \<le> max (nat (sc_max s)) (length (sc_active s))"
proof -
  let ?n = "available_slots s"
  note due = due_jobs_spec [OF assms(1)]
  have "k \<in> set due" using due(1) assms(5,6) by simp
  moreover have "k \<notin> set (drop ?n due)"
  proof
    assume "k \<in> set (drop ?n due)"
    moreover have "sorted (map (due_key now s) (take ?n due @ drop ?n due))"
      using due(2) by simp
    ultimately have "due_key now s j \<le> due_key now s k"
      using assms(3) by (simp only: map_append sorted_append) auto
    then show False
      using assms(4,7) by (simp add: due_key_def less_eq_prod_def)
  qed
  ultimately have "k \<in> set (take ?n due)"
    by (metis Un_iff append_take_drop_id set_append)
  moreover have "distinct (map job_name (take ?n due))"
    using due(3) [OF assms(2)] by (rule distinct_map_take)
  ultimately show ?thesis
    by (auto simp: available_slots_def)
qed

definition sample_job :: "string \<Rightarrow> bool \<Rightarrow> scheduled_job" where
  "sample_job n crit = \<lparr>job_name = n, interval_seconds = 60, command = [''run''],
     initial_delay_seconds = 0, timeout_seconds = 60, job_environment = [], url = [],
     critical = crit, enabled_by_default = True\<rparr>"

theorem failure_delay_monotone_witness:
  "fst (snd (completion_schedule [] (sample_job ''a'' True) 1 0))
     \<le> fst (snd (completion_schedule [] (sample_job ''a'' True) 1 3))"
  by (rule failure_delay_monotone) simp_all

definition sample_state :: "string \<Rightarrow> bool \<Rightarrow> string \<times> job_state" where
  "sample_state n crit = (n, \<lparr>js_name = n, js_critical = crit, js_interval = 60, js_timeout = 60,
     js_next_run_at = Fin 5, js_last_started_at = PNone, js_last_completed_at = PNone,
     js_last_elapsed = PNone, js_last_rc = PNone, js_last_outcome = PNone, js_failures = 0\<rparr>)"

definition sample_sched :: sched where
  "sample_sched = \<lparr>sc_jobs = [sample_job ''b'' False, sample_job ''a'' True], sc_max = 2,
     sc_states = [sample_state ''b'' False, sample_state ''a'' True],
     sc_active = [], sc_lock = None, sc_deferred = None\<rparr>"

theorem critical_jobs_first_witness:
  "\<exists>due. due_jobs 10 sample_sched = Inr due
    \<and> sample_job ''a'' True \<in> set (take (available_slots sample_sched) due)"
proof -
  have due: "due_jobs 10 sample_sched = Inr [sample_job ''a'' True, sample_job ''b'' False]"
    by (simp add: due_jobs_def sample_sched_def sample_job_def sample_state_def is_due_def dhas_def
        next_or_now_def due_key_def sort_key_def less_eq_prod_def)
  moreover have "available_slots sample_sched = 2" by (simp add: available_slots_def sample_sched_def)
  ultimately show ?thesis
    using critical_jobs_first [OF due, of "sample_job ''b'' False" "sample_job ''a'' True"]
    by (simp add: sample_sched_def sample_job_def sample_state_def is_due_def dhas_def next_or_now_def)
qed

section \<open>A pass of the loop\<close>

definition job_names :: "sched \<Rightarrow> string list" where
  "job_names s = map job_name (sc_jobs s)"

text \<open>The invariant of the scheduler's own state.\<close>

definition sched_ok :: "sched \<Rightarrow> bool" where
  "sched_ok s \<longleftrightarrow> distinct (job_names s) \<and> set (job_names s) \<subseteq> set (dkeys (sc_states s))
     \<and> dwf (sc_active s) \<and> set (dkeys (sc_active s)) \<subseteq> set (job_names s)
     \<and> int (length (sc_active s)) \<le> sc_max s \<and> 1 \<le> sc_max s"

lemma length_ddel_le: "length (ddel k m) \<le> length m"
  by (induction m) auto

lemma complete_job_shape:
  assumes "complete_job env (r, now) s = Inr s'"
  shows "\<exists>row. s' = s\<lparr>sc_active := ddel (jr_name r) (sc_active s),
    sc_states := dset (jr_name r) row (sc_states s)\<rparr>"
  using assms by (auto simp: complete_job_def Let_def split: option.splits prod.splits)

lemma complete_job_ok:
  assumes "complete_job env rt s = Inr s'" "sched_ok s"
  shows "sched_ok s' \<and> sc_jobs s' = sc_jobs s \<and> sc_lock s' = sc_lock s
    \<and> sc_active s' = ddel (jr_name (fst rt)) (sc_active s)"
proof -
  obtain r now where rt: "rt = (r, now)" by force
  have "int (length (ddel (jr_name r) (sc_active s))) \<le> sc_max s"
    using assms(2) length_ddel_le [of "jr_name r" "sc_active s"] by (simp add: sched_ok_def)
  then show ?thesis
    using complete_job_shape [OF assms(1) [unfolded rt]] assms(2)
    unfolding sched_ok_def by (auto simp: rt job_names_def image_subset_iff)
qed

lemma complete_jobs_ok:
  "complete_jobs env rs s = Inr s' \<Longrightarrow> sched_ok s \<Longrightarrow>
   sched_ok s' \<and> sc_jobs s' = sc_jobs s \<and> sc_lock s' = sc_lock s
     \<and> (\<forall>n. dhas (sc_active s') n \<longleftrightarrow> dhas (sc_active s) n \<and> n \<notin> (jr_name \<circ> fst) ` set rs)"
proof (induction rs arbitrary: s)
  case (Cons r rs)
  then obtain s1 where s1: "complete_job env r s = Inr s1" "complete_jobs env rs s1 = Inr s'"
    by (auto simp: result_simps)
  note a = complete_job_ok [OF s1(1) Cons.prems(2)]
  with Cons.IH [OF s1(2)] show ?case by auto
qed simp

text \<open>A completed job always has its row: on a well-formed state no result raises.\<close>

lemma complete_jobs_total:
  "sched_ok s \<Longrightarrow> (jr_name \<circ> fst) ` set rs \<subseteq> set (job_names s) \<Longrightarrow> \<exists>s'. complete_jobs env rs s = Inr s'"
proof (induction rs arbitrary: s)
  case (Cons r rs)
  obtain x now where r: "r = (x, now)" by force
  have n: "jr_name x \<in> set (job_names s)" using Cons.prems(2) r by auto
  then have "jr_name x \<in> set (dkeys (sc_states s))" using Cons.prems(1) by (auto simp: sched_ok_def)
  then obtain row where row: "dget (sc_states s) (jr_name x) = Some row"
    using dget_None_iff [of "sc_states s" "jr_name x"] by (auto simp: dhas_def)
  obtain job where "List.find (\<lambda>j. job_name j = jr_name x) (sc_jobs s) = Some job"
    using n by (cases "List.find (\<lambda>j. job_name j = jr_name x) (sc_jobs s)")
      (auto simp: find_None_iff job_names_def)
  then obtain s1 where s1: "complete_job env r s = Inr s1"
    using row by (cases "completion_schedule env job (jr_rc x) (js_failures row)")
      (simp add: r complete_job_def Let_def)
  note a = complete_job_ok [OF s1 Cons.prems(1)]
  then have "(jr_name \<circ> fst) ` set rs \<subseteq> set (job_names s1)"
    using Cons.prems(2) by (auto simp: job_names_def)
  then show ?case using Cons.IH a s1 by auto
qed simp

lemma due_jobs_total: "sched_ok s \<Longrightarrow> \<exists>due. due_jobs now s = Inr due"
  by (auto simp: due_jobs_def sched_ok_def job_names_def list_all_iff dhas_def image_subset_iff)

lemma plan_pass_shape:
  assumes "plan_pass env rs now s = Inr (s', ts)" "sched_ok s"
  shows "sched_ok s'" "sc_jobs s' = sc_jobs s" "sc_lock s' = sc_lock s"
    "dhas (sc_active s') n \<longleftrightarrow> dhas (sc_active s) n \<and> n \<notin> (jr_name \<circ> fst) ` set rs"
    "set ts \<subseteq> set (sc_jobs s')" "distinct (map job_name ts)"
    "\<forall>j\<in>set ts. \<not> dhas (sc_active s') (job_name j)"
    "int (length (sc_active s') + length ts) \<le> sc_max s'"
proof -
  obtain s1 due where s1: "complete_jobs env rs s = Inr s1" "due_jobs now s1 = Inr due"
    and s': "s' = (if due = [] then s1\<lparr>sc_deferred := None\<rparr> else s1)" "ts = take (available_slots s1) due"
    using assms(1) by (auto simp: plan_pass_def result_simps)
  note c = complete_jobs_ok [OF s1(1) assms(2)]
  have same: "sc_jobs s' = sc_jobs s1" "sc_lock s' = sc_lock s1" "sc_active s' = sc_active s1"
    "sc_max s' = sc_max s1" "sc_states s' = sc_states s1"
    by (simp_all add: s'(1))
  show "sched_ok s'" "sc_jobs s' = sc_jobs s" "sc_lock s' = sc_lock s"
    "dhas (sc_active s') n \<longleftrightarrow> dhas (sc_active s) n \<and> n \<notin> (jr_name \<circ> fst) ` set rs"
    using c same by (auto simp: sched_ok_def job_names_def)
  note due = due_jobs_spec [OF s1(2)]
  have "set ts \<subseteq> set due" by (simp add: s'(2) set_take_subset)
  then show "set ts \<subseteq> set (sc_jobs s')" "\<forall>j\<in>set ts. \<not> dhas (sc_active s') (job_name j)"
    using due(1) same by (auto simp: is_due_def)
  show "distinct (map job_name ts)"
    using due(3) c by (auto simp: s'(2) sched_ok_def job_names_def intro: distinct_map_take)
  show "int (length (sc_active s') + length ts) \<le> sc_max s'"
    using c same by (auto simp: s'(2) available_slots_def sched_ok_def)
qed

lemma plan_pass_total:
  assumes "sched_ok s" "(jr_name \<circ> fst) ` set rs \<subseteq> set (job_names s)"
  shows "\<exists>s' ts. plan_pass env rs now s = Inr (s', ts)"
proof -
  obtain s1 where s1: "complete_jobs env rs s = Inr s1"
    using complete_jobs_total [OF assms] by blast
  then obtain due where "due_jobs now s1 = Inr due"
    using due_jobs_total complete_jobs_ok [OF s1 assms(1)] by blast
  then show ?thesis using s1 by (simp add: plan_pass_def)
qed

lemma start_jobs_frame [simp]:
  "sc_jobs (start_jobs now ts s) = sc_jobs s" "sc_max (start_jobs now ts s) = sc_max s"
  "sc_states (start_jobs now ts s) = sc_states s" "sc_lock (start_jobs now ts s) = sc_lock s"
  "sc_deferred (start_jobs now ts s) = sc_deferred s"
  unfolding start_jobs_def by (induction ts arbitrary: s) (simp_all add: start_job_def)

lemma start_jobs_active:
  "distinct (map job_name ts) \<Longrightarrow> \<forall>j\<in>set ts. \<not> dhas (sc_active s) (job_name j) \<Longrightarrow>
   dkeys (sc_active (start_jobs now ts s)) = dkeys (sc_active s) @ map job_name ts"
proof (induction ts arbitrary: s)
  case (Cons j ts)
  have "dkeys (sc_active (start_job now j s)) = dkeys (sc_active s) @ [job_name j]"
    using Cons.prems(2) by (simp add: start_job_def dkeys_dset)
  moreover have "\<forall>k\<in>set ts. \<not> dhas (sc_active (start_job now j s)) (job_name k)"
    using Cons.prems by (auto simp: start_job_def image_iff)
  ultimately show ?case
    using Cons.IH [of "start_job now j s"] Cons.prems(1) by (simp add: start_jobs_def)
qed (simp add: start_jobs_def)

lemma start_jobs_ok:
  assumes "sched_ok s" "set ts \<subseteq> set (sc_jobs s)" "distinct (map job_name ts)"
    "\<forall>j\<in>set ts. \<not> dhas (sc_active s) (job_name j)" "int (length (sc_active s) + length ts) \<le> sc_max s"
  shows "sched_ok (start_jobs now ts s)"
proof -
  note k = start_jobs_active [OF assms(3,4), of now]
  then have "length (sc_active (start_jobs now ts s)) = length (sc_active s) + length ts"
    by (metis dkeys_def length_append length_map)
  moreover have "dwf (sc_active (start_jobs now ts s))"
    using assms(1,3,4) k by (auto simp: dwf_def sched_ok_def dhas_def)
  moreover have "set (dkeys (sc_active (start_jobs now ts s))) \<subseteq> set (job_names s)"
    using assms(1,2) k by (auto simp: sched_ok_def job_names_def)
  ultimately show ?thesis
    using assms(1,5) by (simp add: sched_ok_def job_names_def)
qed

lemma settle_ok: "sched_ok s \<Longrightarrow> sched_ok (fst (settle s l))"
  by (auto simp: settle_def sched_ok_def job_names_def split: option.splits)

text \<open>
  C23: a pass over a well-formed state never raises on results of its own jobs and keeps the state
  well formed: every active job is a scheduled job, none is active twice, and the concurrency limit
  holds, whatever the locks do.
\<close>

theorem loop_pass_preserves:
  assumes "sched_ok s" "(jr_name \<circ> fst) ` set results \<subseteq> set (job_names s)"
  shows "\<exists>s' l'. loop_pass env results now mkdir_error fr fj s l = Inr (s', l')
    \<and> sched_ok s' \<and> int (length (sc_active s')) \<le> sc_max s'"
proof -
  obtain s1 ts where p: "plan_pass env results now s = Inr (s1, ts)"
    using plan_pass_total [OF assms] by blast
  note sh = plan_pass_shape [OF p assms(1)]
  obtain lk d l1 where c: "claim_jobs_lock mkdir_error fr fj (sc_lock s1) l = ((lk, d), l1)"
    by (metis surj_pair)
  let ?s2 = "s1\<lparr>sc_lock := lk, sc_deferred := d\<rparr>"
  let ?ts = "if d = None then ts else []"
  have "sched_ok ?s2" using sh(1) by (simp add: sched_ok_def job_names_def)
  moreover have "set ?ts \<subseteq> set (sc_jobs ?s2)" "distinct (map job_name ?ts)"
    "\<forall>j\<in>set ?ts. \<not> dhas (sc_active ?s2) (job_name j)"
    "int (length (sc_active ?s2) + length ?ts) \<le> sc_max ?s2"
    using sh by auto
  ultimately have "sched_ok (start_jobs now ?ts ?s2)"
    by (rule start_jobs_ok)
  then have s3: "sched_ok (fst (settle (start_jobs now ?ts ?s2) l1))" "sched_ok (fst (settle s1 l))"
    using settle_ok sh(1) by auto
  have "loop_pass env results now mkdir_error fr fj s l =
      Inr (if ts = [] then settle s1 l else settle (start_jobs now ?ts ?s2) l1)"
    by (simp add: loop_pass_def p c Let_def)
  moreover obtain s' l' where res: "(if ts = [] then settle s1 l else settle (start_jobs now ?ts ?s2) l1) = (s', l')"
    by force
  moreover have "sched_ok (fst (if ts = [] then settle s1 l else settle (start_jobs now ?ts ?s2) l1))"
    using s3 by simp
  then have "sched_ok s'" unfolding res by simp
  ultimately show ?thesis
    by (auto simp: sched_ok_def)
qed

lemma sample_sched_ok: "sched_ok sample_sched"
  by (simp add: sched_ok_def sample_sched_def job_names_def sample_job_def sample_state_def)

theorem loop_pass_preserves_witness:
  "\<exists>s' l'. loop_pass [] [] 10 None no_fault no_fault sample_sched no_locks = Inr (s', l') \<and> sched_ok s'"
  using loop_pass_preserves [OF sample_sched_ok, of "[]" "[]" 10 None no_fault no_fault no_locks] by auto

lemma claim_succeeds:
  assumes "lf_wf l" "lock_holder l RESTORE_LOCK_NAME = None"
    and "held = None \<longrightarrow> lock_holder l JOBS_LOCK_NAME = None"
  shows "\<exists>h l'. claim_jobs_lock None no_fault no_fault held l = ((Some h, None), l')"
proof -
  obtain r l1 where e: "try_exclusive_lock True no_fault RESTORE_LOCK_NAME l = (Inr (Some r), l1)"
    using lock_free_taken [OF assms(1,2), of True] by (metis prod.collapse)
  show ?thesis
  proof (cases held)
    case None
    have "lock_holder l1 JOBS_LOCK_NAME = None" "lf_wf l1"
      using flock.acquired [of l "(True, no_fault)" RESTORE_LOCK_NAME r l1 JOBS_LOCK_NAME]
        flock.inv_acquire [of l "(True, no_fault)" RESTORE_LOCK_NAME _ l1] e assms None
      by (auto simp: RESTORE_LOCK_NAME_def JOBS_LOCK_NAME_def)
    then obtain h l2 where "try_exclusive_lock False no_fault JOBS_LOCK_NAME l1 = (Inr (Some h), l2)"
      using lock_free_taken [of l1 JOBS_LOCK_NAME False] by (metis prod.collapse)
    then show ?thesis using e None by (simp add: claim_jobs_lock_def claim_enter_def claim_take_def)
  next
    case (Some h)
    then show ?thesis using e by (simp add: claim_jobs_lock_def claim_enter_def claim_take_def)
  qed
qed

text \<open>
  Nothing due waits for no reason. When no restore holds the restore lock, the jobs lock is held
  by the scheduler or free, and the lock directory works, a pass starts every job its plan selected
  and reports no deferral.
\<close>

theorem due_jobs_start:
  assumes "plan_pass env results now s = Inr (s1, ts)" "ts \<noteq> []" "sched_ok s"
    and "lf_wf l" "lock_holder l RESTORE_LOCK_NAME = None"
    and "sc_lock s = None \<longrightarrow> lock_holder l JOBS_LOCK_NAME = None"
  shows "\<exists>s' l'. loop_pass env results now None no_fault no_fault s l = Inr (s', l')
    \<and> (\<forall>j\<in>set ts. dhas (sc_active s') (job_name j)) \<and> sc_deferred s' = None \<and> sc_lock s' \<noteq> None"
proof -
  note sh = plan_pass_shape [OF assms(1,3)]
  obtain h l1 where c: "claim_jobs_lock None no_fault no_fault (sc_lock s1) l = ((Some h, None), l1)"
    using claim_succeeds [OF assms(4,5), of "sc_lock s1"] assms(6) sh(3) by auto
  let ?s2 = "start_jobs now ts (s1\<lparr>sc_lock := Some h, sc_deferred := None\<rparr>)"
  have k: "dkeys (sc_active ?s2) = dkeys (sc_active s1) @ map job_name ts"
    using start_jobs_active [OF sh(6), of "s1\<lparr>sc_lock := Some h, sc_deferred := None\<rparr>" now] sh(7)
    by simp
  then have "sc_active ?s2 \<noteq> []" using assms(2) by auto
  then have "loop_pass env results now None no_fault no_fault s l = Inr (?s2, l1)"
    using assms(1,2) c by (simp add: loop_pass_def settle_def Let_def split: option.split)
  moreover have "\<forall>j\<in>set ts. dhas (sc_active ?s2) (job_name j)"
    using k by (auto simp: dhas_def)
  ultimately show ?thesis by simp
qed

theorem due_jobs_start_witness:
  "\<exists>s' l'. loop_pass [] [] 10 None no_fault no_fault sample_sched no_locks = Inr (s', l')
    \<and> dhas (sc_active s') ''a'' \<and> sc_deferred s' = None"
proof -
  have "plan_pass [] [] 10 sample_sched = Inr (sample_sched, [sample_job ''a'' True, sample_job ''b'' False])"
    by (simp add: plan_pass_def due_jobs_def sample_sched_def sample_job_def sample_state_def is_due_def
        dhas_def next_or_now_def due_key_def sort_key_def less_eq_prod_def available_slots_def)
  moreover have "lf_wf no_locks" "lock_holder no_locks p = None" for p
    by (simp_all add: lf_wf_def no_locks_def lock_holder_def)
  ultimately obtain s' l' where "loop_pass [] [] 10 None no_fault no_fault sample_sched no_locks = Inr (s', l')"
    "\<forall>j\<in>set [sample_job ''a'' True, sample_job ''b'' False]. dhas (sc_active s') (job_name j)"
    "sc_deferred s' = None"
    using due_jobs_start [of "[]" "[]" 10 sample_sched sample_sched _ no_locks] sample_sched_ok by auto
  then show ?thesis by (auto simp: sample_job_def)
qed

end
