(* ===== verification/RestoreGate.thy ===== *)
theory RestoreGate
  imports Scheduler
begin

text \<open>
  The scheduler and any number of restores running side by side: the protocol between
  \<open>main\<close> and \<open>claim_jobs_lock\<close> of \<^verbatim>\<open>core/inkdrop_container_scheduler.py\<close> and \<open>hold_restore_lock\<close> and
  \<open>require_restore_quiescence\<close> of \<^verbatim>\<open>core/inkdrop_restore_quiescence.py\<close>, as \<open>_holding_restore_lock\<close>
  and \<open>restore_backup_archive\<close> compose them. Every lock operation is a step of its own, so that the
  two sides interleave between any two of them; worker threads finish at any time; the faults of
  each lock operation are arbitrary.
\<close>

section \<open>The system\<close>

datatype phase =
    AtTop
  | Claiming "scheduled_job list"
  | Taking "scheduled_job list" nat
  | Dropping "scheduled_job list" nat "nat option" "string option"
  | Starting "scheduled_job list" "string option"
  | Settling
  | Stopped

datatype restore_phase =
    RestoreIdle
  | RestoreHolding nat
  | RestoreApplying nat

record system =
  y_sched :: sched
  y_locks :: lockfs
  y_phase :: phase
  y_running :: "string list"
  y_done :: "job_result list"
  y_restores :: "nat \<Rightarrow> restore_phase"

text \<open>The probe of a restore lists the lock directory the scheduler uses.\<close>

definition probes_directory :: "probe_input \<Rightarrow> lockfs \<Rightarrow> bool" where
  "probes_directory i l = (pi_listing i = Entries (map (\<lambda>n. (n, True)) (lf_files l)))"

inductive sys_step :: "environ \<Rightarrow> system \<Rightarrow> system \<Rightarrow> bool" for env where
  step_plan:
    "y_phase y = AtTop \<Longrightarrow> map fst results = y_done y \<Longrightarrow>
     plan_pass env results now (y_sched y) = Inr (s', ts) \<Longrightarrow>
     sys_step env y (y\<lparr>y_sched := s', y_done := [], y_phase := (if ts = [] then Settling else Claiming ts)\<rparr>)"
| step_claim_refused:
    "y_phase y = Claiming ts \<Longrightarrow> claim_enter mkdir_error f (y_locks y) = (ClaimRefused why, l') \<Longrightarrow>
     sys_step env y (y\<lparr>y_locks := l', y_phase := Starting ts (Some why)\<rparr>)"
| step_claim_entered:
    "y_phase y = Claiming ts \<Longrightarrow> claim_enter mkdir_error f (y_locks y) = (ClaimHolding r, l') \<Longrightarrow>
     sys_step env y (y\<lparr>y_locks := l', y_phase := Taking ts r\<rparr>)"
| step_claim_take:
    "y_phase y = Taking ts r \<Longrightarrow> claim_take f (sc_lock (y_sched y)) (y_locks y) = ((held, deferred), l') \<Longrightarrow>
     sys_step env y (y\<lparr>y_locks := l', y_phase := Dropping ts r held deferred\<rparr>)"
| step_claim_drop:
    "y_phase y = Dropping ts r held deferred \<Longrightarrow>
     sys_step env y (y\<lparr>y_locks := close_handle r (y_locks y),
       y_sched := (y_sched y)\<lparr>sc_lock := held\<rparr>, y_phase := Starting ts deferred\<rparr>)"
| step_start:
    "y_phase y = Starting ts deferred \<Longrightarrow> started = (if deferred = None then ts else []) \<Longrightarrow>
     sys_step env y (y\<lparr>y_sched := start_jobs now started ((y_sched y)\<lparr>sc_deferred := deferred\<rparr>),
       y_running := y_running y @ map job_name started, y_phase := Settling\<rparr>)"
| step_settle:
    "y_phase y = Settling \<Longrightarrow> settle (y_sched y) (y_locks y) = (s', l') \<Longrightarrow>
     sys_step env y (y\<lparr>y_sched := s', y_locks := l', y_phase := AtTop\<rparr>)"
| step_stop:
    "y_phase y = AtTop \<Longrightarrow> settle (y_sched y) (y_locks y) = (s', l') \<Longrightarrow>
     sys_step env y (y\<lparr>y_sched := s', y_locks := l', y_phase := Stopped\<rparr>)"
| step_finish:
    "n \<in> set (y_running y) \<Longrightarrow> job \<in> set (sc_jobs (y_sched y)) \<Longrightarrow> job_name job = n \<Longrightarrow>
     sys_step env y (y\<lparr>y_running := removeAll n (y_running y),
       y_done := y_done y @ [job_runner job http proc t0 t1 elapsed]\<rparr>)"
| step_restore_hold:
    "y_restores y i = RestoreIdle \<Longrightarrow> hold_restore_lock directory mkdir_error f (y_locks y) = (Inr h, l') \<Longrightarrow>
     sys_step env y (y\<lparr>y_locks := l', y_restores := (y_restores y)(i := RestoreHolding h)\<rparr>)"
| step_restore_refused:
    "y_restores y i = RestoreIdle \<Longrightarrow> hold_restore_lock directory mkdir_error f (y_locks y) = (Inl e, l') \<Longrightarrow>
     sys_step env y (y\<lparr>y_locks := l'\<rparr>)"
| step_restore_apply:
    "y_restores y i = RestoreHolding h \<Longrightarrow> probes_directory inp (y_locks y) \<Longrightarrow>
     require_restore_quiescence env' moment inp (y_locks y) = Inr report \<Longrightarrow>
     sys_step env y (y\<lparr>y_restores := (y_restores y)(i := RestoreApplying h)\<rparr>)"
| step_restore_blocked:
    "y_restores y i = RestoreHolding h \<Longrightarrow> probes_directory inp (y_locks y) \<Longrightarrow>
     require_restore_quiescence env' moment inp (y_locks y) = Inl e \<Longrightarrow>
     sys_step env y (y\<lparr>y_locks := close_handle h (y_locks y),
       y_restores := (y_restores y)(i := RestoreIdle)\<rparr>)"
| step_restore_done:
    "y_restores y i = RestoreApplying h \<Longrightarrow>
     sys_step env y (y\<lparr>y_locks := close_handle h (y_locks y),
       y_restores := (y_restores y)(i := RestoreIdle)\<rparr>)"

inductive reachable :: "environ \<Rightarrow> system \<Rightarrow> system \<Rightarrow> bool" for env y0 where
  reach_start: "reachable env y0 y0"
| reach_step: "reachable env y0 y \<Longrightarrow> sys_step env y y' \<Longrightarrow> reachable env y0 y'"

text \<open>A freshly started scheduler, nothing running, no restore in progress and no lock held.\<close>

definition initial :: "system \<Rightarrow> bool" where
  "initial y \<longleftrightarrow> sched_ok (y_sched y) \<and> sc_active (y_sched y) = [] \<and> sc_lock (y_sched y) = None
     \<and> lf_wf (y_locks y) \<and> lf_held (y_locks y) = [] \<and> y_phase y = AtTop \<and> y_running y = []
     \<and> y_done y = [] \<and> (\<forall>i. y_restores y i = RestoreIdle)"

section \<open>The invariant\<close>

definition held_by :: "restore_phase \<Rightarrow> nat option" where
  "held_by r = (case r of RestoreIdle \<Rightarrow> None | RestoreHolding h \<Rightarrow> Some h | RestoreApplying h \<Rightarrow> Some h)"

definition claim_handle :: "phase \<Rightarrow> nat option" where
  "claim_handle p = (case p of Taking _ r \<Rightarrow> Some r | Dropping _ r _ _ \<Rightarrow> Some r | _ \<Rightarrow> None)"

definition pending :: "phase \<Rightarrow> scheduled_job list" where
  "pending p = (case p of Claiming ts \<Rightarrow> ts | Taking ts _ \<Rightarrow> ts | Dropping ts _ _ _ \<Rightarrow> ts
     | Starting ts _ \<Rightarrow> ts | _ \<Rightarrow> [])"

text \<open>The jobs the scheduler is about to start fit.\<close>

definition startable :: "sched \<Rightarrow> scheduled_job list \<Rightarrow> bool" where
  "startable s ts \<longleftrightarrow> set ts \<subseteq> set (sc_jobs s) \<and> distinct (map job_name ts)
     \<and> (\<forall>j\<in>set ts. \<not> dhas (sc_active s) (job_name j)) \<and> int (length (sc_active s) + length ts) \<le> sc_max s"

text \<open>The handle of the jobs lock the scheduler owns, in its state or on its way there.\<close>

definition jobs_handle :: "system \<Rightarrow> nat option" where
  "jobs_handle y = (case y_phase y of Dropping _ _ held _ \<Rightarrow> held | _ \<Rightarrow> sc_lock (y_sched y))"

definition injective_locks :: "lockfs \<Rightarrow> bool" where
  "injective_locks l \<longleftrightarrow> (\<forall>p q h. lock_holder l p = Some h \<longrightarrow> lock_holder l q = Some h \<longrightarrow> p = q)"

definition jobs_inv :: "system \<Rightarrow> bool" where
  "jobs_inv y \<longleftrightarrow> sched_ok (y_sched y) \<and> startable (y_sched y) (pending (y_phase y))
     \<and> distinct (y_running y @ map jr_name (y_done y))
     \<and> set (y_running y @ map jr_name (y_done y)) = set (dkeys (sc_active (y_sched y)))"

definition locks_inv :: "system \<Rightarrow> bool" where
  "locks_inv y \<longleftrightarrow> lf_wf (y_locks y) \<and> injective_locks (y_locks y)
     \<and> (\<forall>h. jobs_handle y = Some h \<longrightarrow> lock_holder (y_locks y) JOBS_LOCK_NAME = Some h)
     \<and> (\<forall>h. claim_handle (y_phase y) = Some h \<longrightarrow> lock_holder (y_locks y) RESTORE_LOCK_NAME = Some h)
     \<and> (\<forall>i h. held_by (y_restores y i) = Some h \<longrightarrow> lock_holder (y_locks y) RESTORE_LOCK_NAME = Some h)"

text \<open>A claim that reports no deferral has the jobs lock.\<close>

definition claim_consistent :: "nat option \<Rightarrow> phase \<Rightarrow> bool" where
  "claim_consistent lock p = (case p of
      Dropping ts r held deferred \<Rightarrow> deferred = None \<longrightarrow> held \<noteq> None
    | Starting ts deferred \<Rightarrow> deferred = None \<longrightarrow> lock \<noteq> None
    | _ \<Rightarrow> True)"

definition gate_inv :: "system \<Rightarrow> bool" where
  "gate_inv y \<longleftrightarrow>
     (sc_active (y_sched y) \<noteq> [] \<longrightarrow> jobs_handle y \<noteq> None)
     \<and> claim_consistent (sc_lock (y_sched y)) (y_phase y)
     \<and> (\<forall>i. held_by (y_restores y i) \<noteq> None \<longrightarrow> claim_handle (y_phase y) = None)
     \<and> (\<forall>i j. held_by (y_restores y i) \<noteq> None \<longrightarrow> held_by (y_restores y j) \<noteq> None \<longrightarrow> i = j)
     \<and> (\<forall>i h. y_restores y i = RestoreApplying h \<longrightarrow> lock_holder (y_locks y) JOBS_LOCK_NAME = None)"

section \<open>Lock operations and the holders\<close>

lemma try_lock_holders:
  assumes "try_exclusive_lock ro f p l = (r, l')" "lf_wf l"
  shows "lf_wf l'" "injective_locks l \<Longrightarrow> injective_locks l'"
    "r = Inr (Some h) \<Longrightarrow> lock_holder l p = None \<and> lock_holder l' = (lock_holder l)(p := Some h)"
    "(\<And>h. r \<noteq> Inr (Some h)) \<Longrightarrow> lock_holder l' = lock_holder l"
proof -
  show "lf_wf l'" using flock.inv_acquire [of l "(ro, f)" p r l'] assms by simp
  have got: "lock_holder l p = None \<and> lock_holder l q \<noteq> Some h
      \<and> lock_holder l' = (lock_holder l)(p := Some h)" if "r = Inr (Some h)" for h q
    using flock.acquired [of l "(ro, f)" p h l'] assms that by (auto simp: fun_eq_iff)
  then show "r = Inr (Some h) \<Longrightarrow> lock_holder l p = None \<and> lock_holder l' = (lock_holder l)(p := Some h)"
    by blast
  show none: "lock_holder l' = lock_holder l" if "\<And>h. r \<noteq> Inr (Some h)"
  proof -
    from that consider e where "r = Inl e" | "r = Inr None"
      by (metis not_None_eq sum.exhaust)
    then show ?thesis
      by cases (use flock.failed [of l "(ro, f)" p _ l'] flock.contended [of l "(ro, f)" p l'] assms
        in \<open>auto simp: fun_eq_iff\<close>)
  qed
  assume inj: "injective_locks l"
  show "injective_locks l'"
  proof (cases "\<exists>h. r = Inr (Some h)")
    case True
    then obtain h where h: "r = Inr (Some h)" by blast
    show ?thesis
      using got [OF h] inj by (auto simp: injective_locks_def split: if_splits)
  next
    case False
    then show ?thesis using none inj by (simp add: injective_locks_def)
  qed
qed

lemma close_holders:
  assumes "lf_wf l"
  shows "lf_wf (close_handle h l)" "injective_locks l \<Longrightarrow> injective_locks (close_handle h l)"
    "lock_holder (close_handle h l) q = (if lock_holder l q = Some h then None else lock_holder l q)"
  using assms by (auto simp: injective_locks_def close_holder close_wf split: if_splits)

lemma close_named:
  assumes "lf_wf l" "injective_locks l" "lock_holder l p = Some h"
  shows "lock_holder (close_handle h l) = (lock_holder l)(p := None)"
proof
  fix q
  have "lock_holder l q = Some h \<longleftrightarrow> q = p"
    using assms(2,3) by (auto simp: injective_locks_def)
  then show "lock_holder (close_handle h l) q = ((lock_holder l)(p := None)) q"
    using close_holders(3) [OF assms(1)] by simp
qed

text \<open>The three operations either fail before they touch a lock or are one attempt on it.\<close>

lemma claim_enter_cases:
  assumes "claim_enter m f l = (res, l')"
  obtains (failed) why where "res = ClaimRefused why" "l' = l"
    | (tried) r where "try_exclusive_lock True f RESTORE_LOCK_NAME l = (r, l')"
        "(\<exists>why. res = ClaimRefused why \<and> (\<forall>h. r \<noteq> Inr (Some h))) \<or> (\<exists>h. res = ClaimHolding h \<and> r = Inr (Some h))"
  using assms by (cases m) (auto simp: claim_enter_def split: prod.splits sum.splits option.splits)

lemma claim_take_cases:
  assumes "claim_take f held l = ((held', d), l')"
  obtains (kept) h where "held = Some h" "held' = Some h" "d = None" "l' = l"
    | (tried) r where "held = None" "try_exclusive_lock False f JOBS_LOCK_NAME l = (r, l')"
        "(held' = None \<and> d \<noteq> None \<and> (\<forall>h. r \<noteq> Inr (Some h))) \<or> (\<exists>h. held' = Some h \<and> d = None \<and> r = Inr (Some h))"
  using assms by (cases held) (auto simp: claim_take_def split: prod.splits sum.splits option.splits)

lemma hold_restore_cases:
  assumes "hold_restore_lock d m f l = (res, l')"
  obtains (failed) e where "res = Inl e" "l' = l"
    | (tried) r where "try_exclusive_lock False f RESTORE_LOCK_NAME l = (r, l')"
        "(\<exists>e. res = Inl e \<and> (\<forall>h. r \<noteq> Inr (Some h))) \<or> (\<exists>h. res = Inr h \<and> r = Inr (Some h))"
  using assms
  by (cases m) (auto simp: hold_restore_lock_def Let_def split: prod.splits sum.splits option.splits)

lemma claim_enter_holders:
  assumes "claim_enter m f l = (res, l')" "lf_wf l"
  shows "lf_wf l' \<and> (injective_locks l \<longrightarrow> injective_locks l')
    \<and> (case res of ClaimHolding r \<Rightarrow> lock_holder l RESTORE_LOCK_NAME = None
         \<and> lock_holder l' = (lock_holder l)(RESTORE_LOCK_NAME := Some r)
       | ClaimRefused why \<Rightarrow> lock_holder l' = lock_holder l)"
proof (cases rule: claim_enter_cases [OF assms(1)])
  case (2 r)
  show ?thesis using try_lock_holders [OF 2(1) assms(2)] 2(2) by auto
qed (use assms(2) in simp)

lemma claim_take_holders:
  assumes "claim_take f held l = ((held', d), l')" "lf_wf l"
  shows "lf_wf l' \<and> (injective_locks l \<longrightarrow> injective_locks l')
    \<and> (case held of Some h \<Rightarrow> held' = Some h \<and> d = None \<and> l' = l
       | None \<Rightarrow> (case held' of
            Some h \<Rightarrow> d = None \<and> lock_holder l JOBS_LOCK_NAME = None
              \<and> lock_holder l' = (lock_holder l)(JOBS_LOCK_NAME := Some h)
          | None \<Rightarrow> d \<noteq> None \<and> lock_holder l' = lock_holder l))"
proof (cases rule: claim_take_cases [OF assms(1)])
  case (2 r)
  show ?thesis using try_lock_holders [OF 2(2) assms(2)] 2(1,3) by auto
qed (use assms(2) in simp)

lemma hold_restore_holders:
  assumes "hold_restore_lock d m f l = (res, l')" "lf_wf l"
  shows "lf_wf l' \<and> (injective_locks l \<longrightarrow> injective_locks l')
    \<and> (case res of Inr h \<Rightarrow> lock_holder l RESTORE_LOCK_NAME = None
         \<and> lock_holder l' = (lock_holder l)(RESTORE_LOCK_NAME := Some h)
       | Inl e \<Rightarrow> lock_holder l' = lock_holder l)"
proof (cases rule: hold_restore_cases [OF assms(1)])
  case (2 r)
  show ?thesis using try_lock_holders [OF 2(1) assms(2)] 2(2) by auto
qed (use assms(2) in simp)

lemma lock_names [simp]: "RESTORE_LOCK_NAME \<noteq> JOBS_LOCK_NAME" "JOBS_LOCK_NAME \<noteq> RESTORE_LOCK_NAME"
  by (simp_all add: RESTORE_LOCK_NAME_def JOBS_LOCK_NAME_def)

section \<open>The jobs\<close>

lemma removeAll_set: "set (removeAll n xs) = set xs - {n}"
  by simp

lemma jobs_inv_plan:
  assumes "jobs_inv y" "map fst results = y_done y"
    and "plan_pass env results now (y_sched y) = Inr (s', ts)"
  shows "jobs_inv (y\<lparr>y_sched := s', y_done := [], y_phase := (if ts = [] then Settling else Claiming ts)\<rparr>)"
proof -
  have ok: "sched_ok (y_sched y)" using assms(1) by (simp add: jobs_inv_def)
  note sh = plan_pass_shape [OF assms(3) ok]
  have "(jr_name \<circ> fst) ` set results = set (map jr_name (y_done y))"
    unfolding assms(2) [symmetric] by (simp add: image_comp)
  then have "set (dkeys (sc_active s')) = set (dkeys (sc_active (y_sched y))) - set (map jr_name (y_done y))"
    using sh(4) by (auto simp: dhas_def)
  then have "set (dkeys (sc_active s')) = set (y_running y)"
    using assms(1) by (auto simp: jobs_inv_def)
  then show ?thesis
    using assms(1) sh by (auto simp: jobs_inv_def startable_def pending_def)
qed

lemma jobs_inv_start:
  assumes "jobs_inv y" "y_phase y = Starting ts d" "started = (if d = None then ts else [])"
  shows "jobs_inv (y\<lparr>y_sched := start_jobs now started ((y_sched y)\<lparr>sc_deferred := d\<rparr>),
     y_running := y_running y @ map job_name started, y_phase := Settling\<rparr>)"
proof -
  let ?s = "(y_sched y)\<lparr>sc_deferred := d\<rparr>"
  have st: "startable (y_sched y) started"
    using assms by (auto simp: jobs_inv_def startable_def pending_def)
  have ok: "sched_ok ?s" using assms(1) by (auto simp: jobs_inv_def sched_ok_def job_names_def)
  have ok': "sched_ok (start_jobs now started ?s)"
    using st by (intro start_jobs_ok ok) (auto simp: startable_def)
  have k: "dkeys (sc_active (start_jobs now started ?s)) = dkeys (sc_active (y_sched y)) @ map job_name started"
    using st start_jobs_active [of started ?s now] by (simp add: startable_def)
  have dis: "set (map job_name started) \<inter> set (dkeys (sc_active (y_sched y))) = {}"
    using st by (auto simp: startable_def dhas_def)
  have eq: "set (y_running y) \<union> set (map jr_name (y_done y)) = set (dkeys (sc_active (y_sched y)))"
    "distinct (y_running y)" "distinct (map jr_name (y_done y))"
    "set (y_running y) \<inter> set (map jr_name (y_done y)) = {}"
    using assms(1) by (auto simp: jobs_inv_def)
  have "startable (start_jobs now started ?s) []"
    using ok' by (simp add: startable_def sched_ok_def)
  moreover have "distinct (map job_name started)" using st by (simp add: startable_def)
  then have "distinct ((y_running y @ map job_name started) @ map jr_name (y_done y))"
    using eq dis unfolding distinct_append set_append by blast
  moreover have "set ((y_running y @ map job_name started) @ map jr_name (y_done y))
       = set (dkeys (sc_active (start_jobs now started ?s)))"
    unfolding k set_append eq(1) [symmetric] by (simp only: Un_ac)
  ultimately show ?thesis
    using ok' unfolding jobs_inv_def by (simp add: pending_def)
qed

lemma sched_ok_fields [simp]:
  "sched_ok (s\<lparr>sc_lock := x\<rparr>) = sched_ok s" "sched_ok (s\<lparr>sc_deferred := d\<rparr>) = sched_ok s"
  "startable (s\<lparr>sc_lock := x\<rparr>) ts = startable s ts"
  by (auto simp: sched_ok_def job_names_def startable_def)

lemma settle_frame:
  assumes "settle s l = (s', l')"
  shows "s' = s \<and> l' = l \<and> (sc_lock s = None \<or> sc_active s \<noteq> [])
    \<or> (\<exists>h. sc_lock s = Some h \<and> sc_active s = [] \<and> s' = s\<lparr>sc_lock := None\<rparr> \<and> l' = close_handle h l)"
  using assms by (auto simp: settle_def split: option.splits if_splits)

lemma startable_Nil: "sched_ok s \<Longrightarrow> startable s []"
  by (simp add: startable_def sched_ok_def)

lemma jobs_inv_step:
  assumes "sys_step env y y'" "jobs_inv y"
  shows "jobs_inv y'"
  using assms
proof (cases rule: sys_step.cases)
  case (step_plan results now s' ts)
  then show ?thesis using jobs_inv_plan assms(2) by blast
next
  case (step_start ts deferred started now)
  then show ?thesis using jobs_inv_start assms(2) by blast
next
  case (step_settle s' l')
  then show ?thesis
    using assms(2) settle_frame [of "y_sched y" "y_locks y" s' l']
    by (auto simp: jobs_inv_def pending_def)
next
  case (step_stop s' l')
  then show ?thesis
    using assms(2) settle_frame [of "y_sched y" "y_locks y" s' l']
    by (auto simp: jobs_inv_def pending_def)
next
  case (step_finish n job http proc t0 t1 elapsed)
  then show ?thesis
    using assms(2) by (auto simp: jobs_inv_def job_runner_def distinct_removeAll)
qed (use assms(2) in \<open>auto simp: jobs_inv_def pending_def\<close>)

section \<open>The locks\<close>

lemma claim_consistent_simps [simp]:
  "claim_consistent l AtTop" "claim_consistent l (Claiming ts)" "claim_consistent l (Taking ts r)"
  "claim_consistent l Settling" "claim_consistent l Stopped"
  "claim_consistent l (Dropping ts r held d) \<longleftrightarrow> (d = None \<longrightarrow> held \<noteq> None)"
  "claim_consistent l (Starting ts d) \<longleftrightarrow> (d = None \<longrightarrow> l \<noteq> None)"
  by (simp_all add: claim_consistent_def)

lemma locks_invD:
  assumes "locks_inv y"
  shows "lf_wf (y_locks y)" "injective_locks (y_locks y)"
    "jobs_handle y = Some h \<Longrightarrow> lock_holder (y_locks y) JOBS_LOCK_NAME = Some h"
    "claim_handle (y_phase y) = Some h \<Longrightarrow> lock_holder (y_locks y) RESTORE_LOCK_NAME = Some h"
    "held_by (y_restores y i) = Some h \<Longrightarrow> lock_holder (y_locks y) RESTORE_LOCK_NAME = Some h"
  using assms by (auto simp: locks_inv_def)

lemma gate_invD:
  assumes "gate_inv y"
  shows "sc_active (y_sched y) \<noteq> [] \<Longrightarrow> jobs_handle y \<noteq> None"
    "held_by (y_restores y i) \<noteq> None \<Longrightarrow> claim_handle (y_phase y) = None"
    "held_by (y_restores y i) \<noteq> None \<Longrightarrow> held_by (y_restores y j) \<noteq> None \<Longrightarrow> i = j"
    "y_restores y i = RestoreApplying h \<Longrightarrow> lock_holder (y_locks y) JOBS_LOCK_NAME = None"
  using assms by (auto simp: gate_inv_def)

lemmas phase_simps = claim_handle_def held_by_def jobs_handle_def

text \<open>Closing the handle that holds the restore lock frees it and nothing else.\<close>

lemma close_restore_handle:
  assumes "locks_inv y" "lock_holder (y_locks y) RESTORE_LOCK_NAME = Some h"
  shows "lf_wf (close_handle h (y_locks y))" "injective_locks (close_handle h (y_locks y))"
    "lock_holder (close_handle h (y_locks y)) = (lock_holder (y_locks y))(RESTORE_LOCK_NAME := None)"
  using close_holders [OF locks_invD(1) [OF assms(1)], of h]
    close_named [OF locks_invD(1,2) [OF assms(1)] assms(2)] locks_invD(2) [OF assms(1)] by auto

lemma close_jobs_handle:
  assumes "locks_inv y" "lock_holder (y_locks y) JOBS_LOCK_NAME = Some h"
  shows "lf_wf (close_handle h (y_locks y))" "injective_locks (close_handle h (y_locks y))"
    "lock_holder (close_handle h (y_locks y)) = (lock_holder (y_locks y))(JOBS_LOCK_NAME := None)"
  using close_holders [OF locks_invD(1) [OF assms(1)], of h]
    close_named [OF locks_invD(1,2) [OF assms(1)] assms(2)] locks_invD(2) [OF assms(1)] by auto

definition lock_state_inv :: "system \<Rightarrow> bool" where
  "lock_state_inv y \<longleftrightarrow> locks_inv y \<and> gate_inv y"

text \<open>Steps that change no holder, no handle and no restore.\<close>

lemma lock_state_frame:
  assumes "lock_state_inv y" "lf_wf (y_locks y')" "injective_locks (y_locks y')"
    and "lock_holder (y_locks y') = lock_holder (y_locks y)" "jobs_handle y' = jobs_handle y"
    and "claim_handle (y_phase y') = claim_handle (y_phase y)" "y_restores y' = y_restores y"
    and "sc_active (y_sched y') \<noteq> [] \<Longrightarrow> sc_active (y_sched y) \<noteq> [] \<or> jobs_handle y' \<noteq> None"
    and "claim_consistent (sc_lock (y_sched y')) (y_phase y')"
  shows "lock_state_inv y'"
proof -
  have "locks_inv y'"
    using assms(1-7) by (simp add: lock_state_inv_def locks_inv_def)
  moreover have "gate_inv y'"
    using assms(1,4-9) unfolding lock_state_inv_def gate_inv_def by auto
  ultimately show ?thesis by (simp add: lock_state_inv_def)
qed

lemma not_applying: "held_by r = None \<Longrightarrow> r \<noteq> RestoreApplying k"
  by (auto simp: held_by_def)

text \<open>A free restore lock means that nobody is claiming and no restore holds it.\<close>

lemma restore_lock_free:
  assumes "locks_inv y" "lock_holder (y_locks y) RESTORE_LOCK_NAME = None"
  shows "claim_handle (y_phase y) = None" "held_by (y_restores y i) = None"
  using locks_invD(4,5) [OF assms(1)] assms(2) by (metis option.distinct(1) option.exhaust)+

lemma lock_state_restore_free:
  assumes "locks_inv y" "gate_inv y" "held_by (y_restores y i) = Some h"
  shows "lock_state_inv (y\<lparr>y_locks := close_handle h (y_locks y),
       y_restores := (y_restores y)(i := RestoreIdle)\<rparr>)"
proof -
  have h: "lock_holder (y_locks y) RESTORE_LOCK_NAME = Some h"
    using locks_invD(5) [OF assms(1,3)] .
  note c = close_restore_handle [OF assms(1) h]
  have n: "claim_handle (y_phase y) = None" "\<And>j. j \<noteq> i \<Longrightarrow> held_by (y_restores y j) = None"
    using gate_invD(2,3) [OF assms(2)] assms(3) by (metis option.distinct(1))+
  let ?y = "y\<lparr>y_locks := close_handle h (y_locks y), y_restores := (y_restores y)(i := RestoreIdle)\<rparr>"
  have held: "held_by (y_restores ?y j) = None" for j
    using n(2) by (simp add: held_by_def)
  have "jobs_handle ?y = jobs_handle y" by (simp add: jobs_handle_def split: phase.split)
  then have "locks_inv ?y"
    using c n(1) held locks_invD(3) [OF assms(1)] by (simp add: locks_inv_def)
  moreover have "\<And>j k. y_restores ?y j \<noteq> RestoreApplying k"
    using held not_applying by blast
  then have "gate_inv ?y"
    using assms(2) held \<open>jobs_handle ?y = jobs_handle y\<close> unfolding gate_inv_def by simp
  ultimately show ?thesis by (simp add: lock_state_inv_def)
qed

lemma lock_state_settle:
  assumes "settle (y_sched y) (y_locks y) = (s', l')" "lock_state_inv y"
    and "y_phase y = AtTop \<or> y_phase y = Settling" "p = AtTop \<or> p = Stopped"
  shows "lock_state_inv (y\<lparr>y_sched := s', y_locks := l', y_phase := p\<rparr>)"
proof -
  have inv: "locks_inv y" "gate_inv y" using assms(2) by (auto simp: lock_state_inv_def)
  have ph: "jobs_handle y = sc_lock (y_sched y)" "claim_handle (y_phase y) = None" "claim_handle p = None"
    using assms(3,4) by (auto simp: jobs_handle_def claim_handle_def)
  let ?y = "y\<lparr>y_sched := s', y_locks := l', y_phase := p\<rparr>"
  have jh: "jobs_handle ?y = sc_lock s'" using assms(4) by (auto simp: jobs_handle_def)
  have same: "lock_state_inv ?y" if s: "s' = y_sched y" "l' = y_locks y"
    by (rule lock_state_frame [OF assms(2)])
      (use s jh ph inv locks_invD(1,2) [OF inv(1)] assms(4) in auto)
  from settle_frame [OF assms(1)] show ?thesis
  proof (elim disjE exE conjE)
    fix h assume s: "sc_lock (y_sched y) = Some h" "sc_active (y_sched y) = []"
      "s' = y_sched y\<lparr>sc_lock := None\<rparr>" "l' = close_handle h (y_locks y)"
    have j: "lock_holder (y_locks y) JOBS_LOCK_NAME = Some h"
      using locks_invD(3) [OF inv(1)] ph s by simp
    note c = close_jobs_handle [OF inv(1) j]
    have "locks_inv ?y"
      using c s ph jh locks_invD(5) [OF inv(1)] by (simp add: locks_inv_def)
    moreover have "gate_inv ?y"
      using inv(2) s c ph assms(4) unfolding gate_inv_def by (auto simp: jh)
    ultimately show ?thesis by (simp add: lock_state_inv_def)
  qed (rule same; assumption)+
qed

lemma lock_state_hold:
  assumes "hold_restore_lock d m f (y_locks y) = (Inr h, l')" "lock_state_inv y"
  shows "lock_state_inv (y\<lparr>y_locks := l', y_restores := (y_restores y)(i := RestoreHolding h)\<rparr>)"
proof -
  have inv: "locks_inv y" "gate_inv y" using assms(2) by (auto simp: lock_state_inv_def)
  have l: "lf_wf l'" "injective_locks l'" "lock_holder (y_locks y) RESTORE_LOCK_NAME = None"
    "lock_holder l' = (lock_holder (y_locks y))(RESTORE_LOCK_NAME := Some h)"
    using hold_restore_holders [OF assms(1) locks_invD(1) [OF inv(1)]] locks_invD(2) [OF inv(1)] by auto
  note free = restore_lock_free [OF inv(1) l(3)]
  let ?y = "y\<lparr>y_locks := l', y_restores := (y_restores y)(i := RestoreHolding h)\<rparr>"
  have held: "held_by (y_restores ?y j) = (if j = i then Some h else None)" for j
    using free(2) by (simp add: held_by_def)
  have jh: "jobs_handle ?y = jobs_handle y" by (simp add: jobs_handle_def split: phase.split)
  then have "locks_inv ?y"
    using l held free(1) locks_invD(3) [OF inv(1)] by (simp add: locks_inv_def)
  moreover have "\<And>j k. y_restores ?y j \<noteq> RestoreApplying k"
    using free(2) not_applying by simp
  then have "gate_inv ?y"
    using inv(2) held free(1) jh unfolding gate_inv_def by simp
  ultimately show ?thesis by (simp add: lock_state_inv_def)
qed

lemma lock_state_enter:
  assumes "claim_enter m f (y_locks y) = (ClaimHolding r, l')" "lock_state_inv y" "y_phase y = Claiming ts"
  shows "lock_state_inv (y\<lparr>y_locks := l', y_phase := Taking ts r\<rparr>)"
proof -
  have inv: "locks_inv y" "gate_inv y" using assms(2) by (auto simp: lock_state_inv_def)
  have l: "lf_wf l'" "injective_locks l'" "lock_holder (y_locks y) RESTORE_LOCK_NAME = None"
    "lock_holder l' = (lock_holder (y_locks y))(RESTORE_LOCK_NAME := Some r)"
    using claim_enter_holders [OF assms(1) locks_invD(1) [OF inv(1)]] locks_invD(2) [OF inv(1)] by auto
  note free = restore_lock_free(2) [OF inv(1) l(3)]
  let ?y = "y\<lparr>y_locks := l', y_phase := Taking ts r\<rparr>"
  have jh: "jobs_handle ?y = jobs_handle y" using assms(3) by (simp add: jobs_handle_def)
  then have "locks_inv ?y"
    using l free locks_invD(3) [OF inv(1)] by (simp add: locks_inv_def claim_handle_def)
  moreover have "\<And>j k. y_restores y j \<noteq> RestoreApplying k"
    using free not_applying by blast
  then have "gate_inv ?y"
    using inv(2) free jh unfolding gate_inv_def by simp
  ultimately show ?thesis by (simp add: lock_state_inv_def)
qed

lemma lock_state_take:
  assumes "claim_take f (sc_lock (y_sched y)) (y_locks y) = ((held, d), l')" "lock_state_inv y"
    "y_phase y = Taking ts r"
  shows "lock_state_inv (y\<lparr>y_locks := l', y_phase := Dropping ts r held d\<rparr>)"
proof -
  have inv: "locks_inv y" "gate_inv y" using assms(2) by (auto simp: lock_state_inv_def)
  let ?y = "y\<lparr>y_locks := l', y_phase := Dropping ts r held d\<rparr>"
  have ch: "claim_handle (y_phase y) = Some r" "claim_handle (y_phase ?y) = Some r"
    using assms(3) by (simp_all add: claim_handle_def)
  have jy: "jobs_handle y = sc_lock (y_sched y)" and jh: "jobs_handle ?y = held"
    using assms(3) by (simp_all add: jobs_handle_def)
  have idle: "held_by (y_restores y i) = None" for i
    using gate_invD(2) [OF inv(2), of i] ch(1) by (metis option.distinct(1))
  note app = idle [THEN not_applying]
  have r: "lock_holder (y_locks y) RESTORE_LOCK_NAME = Some r"
    using locks_invD(4) [OF inv(1) ch(1)] .
  note t = claim_take_holders [OF assms(1) locks_invD(1) [OF inv(1)]]
  have l: "lf_wf l'" "injective_locks l'" using t locks_invD(2) [OF inv(1)] by auto
  have lh: "lock_holder l' RESTORE_LOCK_NAME = Some r"
    "\<And>h. held = Some h \<Longrightarrow> lock_holder l' JOBS_LOCK_NAME = Some h" "d = None \<Longrightarrow> held \<noteq> None"
    "sc_lock (y_sched y) \<noteq> None \<Longrightarrow> held \<noteq> None"
    using t r jy locks_invD(3) [OF inv(1)] by (auto split: option.splits)
  have "locks_inv ?y"
    using l lh idle ch by (simp add: locks_inv_def jh)
  moreover have "gate_inv ?y"
    using inv(2) lh(3,4) idle app jy unfolding gate_inv_def by (simp add: jh)
  ultimately show ?thesis by (simp add: lock_state_inv_def)
qed

lemma lock_state_drop:
  assumes "lock_state_inv y" "y_phase y = Dropping ts r held d"
  shows "lock_state_inv (y\<lparr>y_locks := close_handle r (y_locks y),
       y_sched := (y_sched y)\<lparr>sc_lock := held\<rparr>, y_phase := Starting ts d\<rparr>)"
proof -
  have inv: "locks_inv y" "gate_inv y" using assms(1) by (auto simp: lock_state_inv_def)
  have ch: "claim_handle (y_phase y) = Some r" using assms(2) by (simp add: claim_handle_def)
  have r: "lock_holder (y_locks y) RESTORE_LOCK_NAME = Some r"
    using locks_invD(4) [OF inv(1) ch] .
  note c = close_restore_handle [OF inv(1) r]
  have idle: "held_by (y_restores y i) = None" for i
    using gate_invD(2) [OF inv(2), of i] ch by (metis option.distinct(1))
  let ?y = "y\<lparr>y_locks := close_handle r (y_locks y), y_sched := (y_sched y)\<lparr>sc_lock := held\<rparr>,
    y_phase := Starting ts d\<rparr>"
  have jy: "jobs_handle y = held" and jh: "jobs_handle ?y = held"
    using assms(2) by (simp_all add: jobs_handle_def)
  have "locks_inv ?y"
    using c idle locks_invD(3) [OF inv(1)] by (simp add: locks_inv_def jh jy claim_handle_def)
  moreover have "gate_inv ?y"
    using inv(2) idle idle [THEN not_applying] assms(2) unfolding gate_inv_def
    by (simp add: jh jy claim_handle_def)
  ultimately show ?thesis by (simp add: lock_state_inv_def)
qed

lemma lock_state_apply:
  assumes "lock_state_inv y" "y_restores y i = RestoreHolding h" "probes_directory inp (y_locks y)"
    "require_restore_quiescence env' moment inp (y_locks y) = Inr report"
  shows "lock_state_inv (y\<lparr>y_restores := (y_restores y)(i := RestoreApplying h)\<rparr>)"
proof -
  have inv: "locks_inv y" "gate_inv y" using assms(1) by (auto simp: lock_state_inv_def)
  let ?y = "y\<lparr>y_restores := (y_restores y)(i := RestoreApplying h)\<rparr>"
  have "pr_quiescent (probe_restore_quiescence env' moment inp (y_locks y))"
    using assms(4) by (auto simp: require_restore_quiescence_def Let_def split: if_splits)
  then have free: "lock_holder (y_locks y) JOBS_LOCK_NAME = None"
    using quiescent_jobs_free assms(3) locks_invD(1) [OF inv(1)] by (simp add: probes_directory_def)
  have held: "held_by (y_restores ?y j) = held_by (y_restores y j)" for j
    using assms(2) by (simp add: held_by_def)
  have jh: "jobs_handle ?y = jobs_handle y" by (simp add: jobs_handle_def split: phase.split)
  have "locks_inv ?y"
    using inv(1) held jh by (simp add: locks_inv_def)
  moreover have "gate_inv ?y"
    using inv(2) held jh free unfolding gate_inv_def by simp
  ultimately show ?thesis by (simp add: lock_state_inv_def)
qed

lemma lock_state_plan:
  assumes "lock_state_inv y" "jobs_inv y" "y_phase y = AtTop"
    "plan_pass env results now (y_sched y) = Inr (s', ts)" "p = Settling \<or> p = Claiming ts"
  shows "lock_state_inv (y\<lparr>y_sched := s', y_done := ds, y_phase := p\<rparr>)"
proof -
  have inv: "locks_inv y" "gate_inv y" using assms(1) by (auto simp: lock_state_inv_def)
  have ok: "sched_ok (y_sched y)" using assms(2) by (simp add: jobs_inv_def)
  note sh = plan_pass_shape [OF assms(4) ok]
  have act: "sc_active s' \<noteq> [] \<Longrightarrow> sc_active (y_sched y) \<noteq> []"
    using sh(4) [of "fst (hd (sc_active s'))"] by (cases "sc_active s'") (auto simp: dhas_def)
  show ?thesis
    by (rule lock_state_frame [OF assms(1)])
      (use assms(3,5) sh(3) act locks_invD(1,2) [OF inv(1)] in \<open>auto simp: phase_simps\<close>)
qed

lemma lock_state_refused:
  assumes "claim_enter m f (y_locks y) = (ClaimRefused why, l')" "lock_state_inv y" "y_phase y = Claiming ts"
  shows "lock_state_inv (y\<lparr>y_locks := l', y_phase := Starting ts (Some why)\<rparr>)"
proof -
  have inv: "locks_inv y" "gate_inv y" using assms(2) by (auto simp: lock_state_inv_def)
  show ?thesis
    using claim_enter_holders [OF assms(1) locks_invD(1) [OF inv(1)]] locks_invD(2) [OF inv(1)] assms(3)
    by (intro lock_state_frame [OF assms(2)]) (auto simp: phase_simps)
qed

lemma lock_state_start:
  assumes "lock_state_inv y" "y_phase y = Starting ts d" "started = (if d = None then ts else [])"
  shows "lock_state_inv (y\<lparr>y_sched := start_jobs now started ((y_sched y)\<lparr>sc_deferred := d\<rparr>),
       y_running := rs, y_phase := Settling\<rparr>)"
proof -
  have inv: "locks_inv y" "gate_inv y" using assms(1) by (auto simp: lock_state_inv_def)
  have con: "d = None \<Longrightarrow> sc_lock (y_sched y) \<noteq> None"
    using inv(2) assms(2) by (simp add: gate_inv_def)
  have keep: "d \<noteq> None \<Longrightarrow> sc_active (start_jobs now started ((y_sched y)\<lparr>sc_deferred := d\<rparr>)) = sc_active (y_sched y)"
    using assms(3) by (cases d) (simp_all add: start_jobs_def)
  have act: "sc_active (start_jobs now started ((y_sched y)\<lparr>sc_deferred := d\<rparr>)) \<noteq> [] \<Longrightarrow>
      sc_active (y_sched y) \<noteq> [] \<or> sc_lock (y_sched y) \<noteq> None"
    using con keep by (cases d) auto
  show ?thesis
    by (rule lock_state_frame [OF assms(1)])
      (use assms(2) con act locks_invD(1,2) [OF inv(1)] in \<open>auto simp: phase_simps\<close>)
qed

lemma lock_state_step:
  assumes "sys_step env y y'" "lock_state_inv y" "jobs_inv y"
  shows "lock_state_inv y'"
proof -
  have inv: "locks_inv y" "gate_inv y" using assms(2) by (auto simp: lock_state_inv_def)
  from assms(1) show ?thesis
  proof (cases rule: sys_step.cases)
    case (step_restore_refused i d m f e l')
    then show ?thesis
      using hold_restore_holders [OF step_restore_refused(3) locks_invD(1) [OF inv(1)]] locks_invD(2) [OF inv(1)]
        inv(2) by (intro lock_state_frame [OF assms(2)]) (auto simp: phase_simps gate_inv_def split: phase.split)
  next
    case (step_finish n job http proc t0 t1 elapsed)
    then show ?thesis
      using locks_invD(1,2) [OF inv(1)] inv(2)
      by (intro lock_state_frame [OF assms(2)]) (auto simp: phase_simps gate_inv_def split: phase.split)
  next
    case (step_restore_blocked i h inp env' moment e)
    then show ?thesis using lock_state_restore_free [OF inv] by (simp add: held_by_def)
  next
    case (step_restore_done i h)
    then show ?thesis using lock_state_restore_free [OF inv] by (simp add: held_by_def)
  next
    case (step_plan results now s' ts)
    show ?thesis unfolding step_plan(1)
      by (rule lock_state_plan [OF assms(2,3) step_plan(2) step_plan(4)]) simp
  next
    case (step_claim_refused ts m f why l')
    show ?thesis unfolding step_claim_refused(1)
      by (rule lock_state_refused [OF step_claim_refused(3) assms(2) step_claim_refused(2)])
  next
    case (step_claim_entered ts m f r l')
    show ?thesis unfolding step_claim_entered(1)
      by (rule lock_state_enter [OF step_claim_entered(3) assms(2) step_claim_entered(2)])
  next
    case (step_claim_take ts r f held d l')
    show ?thesis unfolding step_claim_take(1)
      by (rule lock_state_take [OF step_claim_take(3) assms(2) step_claim_take(2)])
  next
    case (step_claim_drop ts r held d)
    show ?thesis unfolding step_claim_drop(1)
      by (rule lock_state_drop [OF assms(2) step_claim_drop(2)])
  next
    case (step_start ts d started now)
    show ?thesis unfolding step_start(1)
      by (rule lock_state_start [OF assms(2) step_start(2,3)])
  next
    case (step_settle s' l')
    show ?thesis unfolding step_settle(1)
      by (rule lock_state_settle [OF step_settle(3) assms(2)]) (simp_all add: step_settle(2))
  next
    case (step_stop s' l')
    show ?thesis unfolding step_stop(1)
      by (rule lock_state_settle [OF step_stop(3) assms(2)]) (simp_all add: step_stop(2))
  next
    case (step_restore_hold i d m f h l')
    show ?thesis unfolding step_restore_hold(1)
      by (rule lock_state_hold [OF step_restore_hold(3) assms(2)])
  next
    case (step_restore_apply i h inp env' moment report)
    show ?thesis unfolding step_restore_apply(1)
      by (rule lock_state_apply [OF assms(2) step_restore_apply(2-4)])
  qed
qed

section \<open>Reachable systems\<close>

lemma initial_inv:
  assumes "initial y"
  shows "jobs_inv y \<and> lock_state_inv y"
  using assms
  by (auto simp: initial_def jobs_inv_def pending_def startable_Nil lock_state_inv_def locks_inv_def
      gate_inv_def phase_simps injective_locks_def lock_holder_def)

lemma reachable_inv:
  assumes "reachable env y0 y" "initial y0"
  shows "jobs_inv y \<and> lock_state_inv y"
  using assms
proof (induction rule: reachable.induct)
  case reach_start
  then show ?case by (rule initial_inv)
next
  case (reach_step y y')
  then show ?case using jobs_inv_step lock_state_step by blast
qed

text \<open>
  C1: a restore and a job never run at the same time. In every state the scheduler and any number
  of restores can reach, whatever the interleaving of their lock operations, the faults those meet
  and the status file a probe reads, while a restore applies its archive no job thread is running,
  no job is active and the scheduler holds no jobs lock.
\<close>

theorem no_job_during_restore:
  assumes "reachable env y0 y" "initial y0" "y_restores y i = RestoreApplying h"
  shows "y_running y = [] \<and> sc_active (y_sched y) = [] \<and> sc_lock (y_sched y) = None"
proof -
  have inv: "jobs_inv y" "locks_inv y" "gate_inv y"
    using reachable_inv [OF assms(1,2)] by (auto simp: lock_state_inv_def)
  have free: "lock_holder (y_locks y) JOBS_LOCK_NAME = None"
    using gate_invD(4) [OF inv(3) assms(3)] .
  then have none: "jobs_handle y = None"
    using locks_invD(3) [OF inv(2)] by (metis not_None_eq)
  then have act: "sc_active (y_sched y) = []"
    using gate_invD(1) [OF inv(3)] by blast
  have "claim_handle (y_phase y) = None"
    using gate_invD(2) [OF inv(3), of i] assms(3) by (simp add: held_by_def)
  then have "sc_lock (y_sched y) = None"
    using none by (auto simp: phase_simps split: phase.splits)
  moreover have "y_running y = []"
    using inv(1) act by (simp add: jobs_inv_def)
  ultimately show ?thesis using act by simp
qed


text \<open>
  C22: in every reachable state no job runs twice, only scheduled jobs run, at most the configured
  number of them, and while any runs the scheduler holds the jobs lock, so a restore's probe sees it.
\<close>

theorem running_jobs_bounded:
  assumes "reachable env y0 y" "initial y0"
  shows "distinct (y_running y) \<and> set (y_running y) \<subseteq> set (job_names (y_sched y))
    \<and> int (length (y_running y)) \<le> sc_max (y_sched y)
    \<and> (y_running y \<noteq> [] \<longrightarrow> lock_holder (y_locks y) JOBS_LOCK_NAME \<noteq> None)"
proof -
  have inv: "jobs_inv y" "locks_inv y" "gate_inv y"
    using reachable_inv [OF assms] by (auto simp: lock_state_inv_def)
  have sub: "set (y_running y) \<subseteq> set (dkeys (sc_active (y_sched y)))" "distinct (y_running y)"
    and ok: "sched_ok (y_sched y)"
    using inv(1) by (auto simp: jobs_inv_def)
  have "length (y_running y) = card (set (y_running y))"
    using sub(2) by (simp add: distinct_card)
  also have "\<dots> \<le> card (set (dkeys (sc_active (y_sched y))))"
    using sub(1) by (intro card_mono) auto
  also have "\<dots> \<le> length (sc_active (y_sched y))"
    using card_length [of "dkeys (sc_active (y_sched y))"] by (simp add: dkeys_def)
  finally have "int (length (y_running y)) \<le> sc_max (y_sched y)"
    using ok by (simp add: sched_ok_def)
  moreover have "y_running y \<noteq> [] \<Longrightarrow> lock_holder (y_locks y) JOBS_LOCK_NAME \<noteq> None"
  proof -
    assume "y_running y \<noteq> []"
    then have "sc_active (y_sched y) \<noteq> []" using sub(1) by auto
    then obtain h where "jobs_handle y = Some h" using gate_invD(1) [OF inv(3)] by blast
    then show "lock_holder (y_locks y) JOBS_LOCK_NAME \<noteq> None"
      using locks_invD(3) [OF inv(2)] by simp
  qed
  ultimately show ?thesis
    using sub ok by (auto simp: sched_ok_def)
qed

section \<open>A run\<close>

definition sample_system :: system where
  "sample_system = \<lparr>y_sched = sample_sched, y_locks = no_locks, y_phase = AtTop, y_running = [],
     y_done = [], y_restores = (\<lambda>_. RestoreIdle)\<rparr>"

definition sample_probe :: probe_input where
  "sample_probe = \<lparr>pi_dir = ''locks'', pi_status_file = ''status.json'', pi_status = None,
     pi_listing = Entries [(RESTORE_LOCK_NAME, True)], pi_fault = (\<lambda>_. ProbeFine)\<rparr>"

definition held_locks :: lockfs where
  "held_locks = \<lparr>lf_files = [RESTORE_LOCK_NAME], lf_held = [(RESTORE_LOCK_NAME, 0)], lf_next = 1\<rparr>"

lemma sample_initial: "initial sample_system"
  using sample_sched_ok
  by (simp add: initial_def sample_system_def sample_sched_def no_locks_def lf_wf_def)

lemma sample_hold: "hold_restore_lock ''locks'' None no_fault no_locks = (Inr 0, held_locks)"
  by (simp add: hold_restore_lock_def try_exclusive_lock_def lock_read_write_def lock_nonblocking_def
      open_handle_def no_fault_def no_locks_def held_locks_def lock_holder_def Let_def)

lemma sample_quiescent: "\<exists>r. require_restore_quiescence [] (Fin 0) sample_probe held_locks = Inr r"
  by (simp add: require_restore_quiescence_def probe_restore_quiescence_def sample_probe_def
      status_blockers_def listing_blockers_def held_blockers_def lock_files_of_def Let_def)

lemma sample_applying:
  "\<exists>y. reachable [] sample_system y \<and> y_restores y 0 = RestoreApplying 0"
proof -
  let ?y1 = "sample_system\<lparr>y_locks := held_locks, y_restores := (y_restores sample_system)(0 := RestoreHolding 0)\<rparr>"
  let ?y2 = "?y1\<lparr>y_restores := (y_restores ?y1)(0 := RestoreApplying 0)\<rparr>"
  have "sys_step [] sample_system ?y1"
    by (rule step_restore_hold [where directory = "''locks''" and mkdir_error = None and f = no_fault])
      (auto simp: sample_system_def sample_hold)
  moreover obtain r where "require_restore_quiescence [] (Fin 0) sample_probe held_locks = Inr r"
    using sample_quiescent by blast
  then have "sys_step [] ?y1 ?y2"
    by (intro step_restore_apply [where inp = sample_probe])
      (auto simp: probes_directory_def sample_probe_def held_locks_def)
  ultimately have "reachable [] sample_system ?y2"
    by (rule reach_step [OF reach_step [OF reach_start]])
  then show ?thesis by (intro exI [of _ ?y2]) simp
qed

theorem no_job_during_restore_witness:
  "\<exists>y. reachable [] sample_system y \<and> y_restores y 0 = RestoreApplying 0 \<and> y_running y = []
    \<and> sc_active (y_sched y) = []"
  using sample_applying no_job_during_restore [OF _ sample_initial] by blast


theorem running_jobs_bounded_witness:
  "\<exists>y. reachable [] sample_system y \<and> distinct (y_running y) \<and> int (length (y_running y)) \<le> sc_max (y_sched y)"
proof -
  have "reachable [] sample_system sample_system" by (rule reach_start)
  from running_jobs_bounded [OF this sample_initial] this show ?thesis by blast
qed

end
