(* ===== verification/Auth.thy ===== *)
theory Auth
  imports Py
begin

text \<open>
  The authentication store of \<^verbatim>\<open>core/inkdrop_auth.py\<close>: users, sessions, API keys, login attempts,
  recovery tokens and the audit log, each the list of the rows of its table, and the operations
  that read and write them. An operation is one database transaction: it returns its result or
  exception and the state after the commit or rollback.

  SHA-256 and PBKDF2 are the fields of \<open>crypto\<close>; what a call draws from the clock, \<open>secrets\<close> and
  \<open>uuid\<close> is its \<open>draws\<close> argument. A column that may be null is an option; the JSON of \<open>scopes_json\<close>
  and \<open>detail_json\<close> is the value it encodes.
\<close>

section \<open>State\<close>

record crypto =
  cr_digest :: "string \<Rightarrow> string"
  cr_pbkdf2 :: "string \<Rightarrow> string \<Rightarrow> int \<Rightarrow> py_exn + string"

record draws =
  d_now :: rat
  d_audit_now :: rat
  d_audit_id :: string
  d_id :: string
  d_token :: string
  d_csrf :: string
  d_salt :: string

datatype auth_error =
    AuthError string string int "int option"
  | IntegrityError
  | AuthPy py_exn

record auth_user =
  au_id :: string
  au_username :: string
  au_hash :: string
  au_role :: string
  au_enabled :: bool
  au_created_at :: rat
  au_updated_at :: rat
  au_last_login_at :: "rat option"
  au_password_changed_at :: "rat option"

record auth_session =
  as_id :: string
  as_user_id :: string
  as_token_hash :: string
  as_csrf_hash :: string
  as_created_at :: rat
  as_last_seen_at :: "rat option"
  as_expires_at :: rat
  as_revoked_at :: "rat option"
  as_revoked_reason :: string
  as_user_agent :: string
  as_remote_addr :: string

record api_key =
  ak_id :: string
  ak_name :: string
  ak_description :: string
  ak_hash :: string
  ak_fingerprint :: string
  ak_prefix :: string
  ak_scopes :: "string list"
  ak_role :: string
  ak_enabled :: bool
  ak_created_at :: rat
  ak_updated_at :: rat
  ak_last_used_at :: "rat option"
  ak_expires_at :: "rat option"
  ak_revoked_at :: "rat option"

record login_attempt =
  la_username :: string
  la_remote_addr :: string
  la_failures :: int
  la_window_started_at :: rat
  la_last_failed_at :: rat
  la_locked_until :: "rat option"
  la_updated_at :: rat

record recovery_token =
  rt_id :: string
  rt_user_id :: string
  rt_token_hash :: string
  rt_created_at :: rat
  rt_expires_at :: rat
  rt_used_at :: "rat option"
  rt_created_by :: string

record audit_event =
  ev_id :: string
  ev_type :: string
  ev_outcome :: string
  ev_actor_type :: string
  ev_actor_id :: string
  ev_username :: string
  ev_remote_addr :: string
  ev_user_agent :: string
  ev_created_at :: rat
  ev_detail :: pydict

record auth_state =
  st_users :: "auth_user list"
  st_sessions :: "auth_session list"
  st_keys :: "api_key list"
  st_attempts :: "(string \<times> login_attempt) list"
  st_recovery :: "recovery_token list"
  st_audit :: "audit_event list"

type_synonym 'r auth_result = "(auth_error + 'r) \<times> auth_state"

section \<open>Text\<close>

definition hex_digit :: "nat \<Rightarrow> char" where
  "hex_digit n = (if n < 10 then char_of (48 + n) else char_of (87 + n))"

definition hex_of :: "string \<Rightarrow> string" where
  "hex_of s = concat (map (\<lambda>c. [hex_digit (code c div 16), hex_digit (code c mod 16)]) s)"

definition hex_value :: "char \<Rightarrow> nat option" where
  "hex_value c = (let n = code c in
     if 48 \<le> n \<and> n \<le> 57 then Some (n - 48)
     else if 97 \<le> n \<and> n \<le> 102 then Some (n - 87)
     else if 65 \<le> n \<and> n \<le> 70 then Some (n - 55) else None)"

definition ascii_space :: "char \<Rightarrow> bool" where
  "ascii_space c = (let n = code c in (9 \<le> n \<and> n \<le> 13) \<or> n = 32)"

text \<open>\<open>bytes.fromhex\<close>: pairs of digits, white space allowed between them.\<close>

fun from_hex :: "string \<Rightarrow> string option" where
  "from_hex [] = Some []"
| "from_hex [c] = (if ascii_space c then Some [] else None)"
| "from_hex (a # b # s) =
     (if ascii_space a then from_hex (b # s)
      else case (hex_value a, hex_value b) of
             (Some h, Some l) \<Rightarrow> map_option (\<lambda>t. char_of (16 * h + l) # t) (from_hex s)
           | _ \<Rightarrow> None)"

definition is_hex64 :: "string \<Rightarrow> bool" where
  "is_hex64 s = (length s = 64 \<and> list_all (\<lambda>c. is_digit c \<or> (97 \<le> code c \<and> code c \<le> 102)) s)"

definition fingerprint :: "crypto \<Rightarrow> string \<Rightarrow> string" where
  "fingerprint cr v = (let d = cr_digest cr v in take 8 d @ '':'' @ drop (length d - 8) d)"

section \<open>Passwords\<close>

definition PASSWORD_ALGORITHM :: string where
  "PASSWORD_ALGORITHM = ''pbkdf2_sha256''"

definition PASSWORD_ITERATIONS :: int where
  "PASSWORD_ITERATIONS = 600000"

definition PASSWORD_MAX_LENGTH :: int where
  "PASSWORD_MAX_LENGTH = 1024"

record password_rules =
  pw_minimum :: int
  pw_source :: string

definition password_text :: "pyval \<Rightarrow> string" where
  "password_text v = (if v = PNone then [] else py_str v)"

definition bad_policy :: "string \<Rightarrow> auth_error" where
  "bad_policy how = AuthError ''invalid_password_policy''
     (''password minimum length must be '' @ how @ '' 1 through 128'') 400 None"

definition password_minimum :: "pyval \<Rightarrow> auth_error + int" where
  "password_minimum v =
     (case int_of v of
        Inl OverflowError \<Rightarrow> Inl (AuthPy OverflowError)
      | Inl _ \<Rightarrow> Inl (bad_policy ''an integer from'')
      | Inr i \<Rightarrow> if i < 1 \<or> i > 128 then Inl (bad_policy ''from'') else Inr i)"

text \<open>\<open>password_policy\<close>: the saved setting (value and source), the environment, the default.\<close>

definition password_policy ::
    "(pyval \<times> string) \<Rightarrow> (string \<times> string) list \<Rightarrow> auth_error + password_rules" where
  "password_policy saved env =
     (let (v0, s0) = (if snd saved = ''user'' then (fst saved, ''saved'') else (PNone, ''default''));
          e = (case dget env ''INKDROP_PASSWORD_MIN_LENGTH'' of Some t \<Rightarrow> t | None \<Rightarrow> []);
          (v1, s1) = (if none_or_empty v0 \<and> strip e \<noteq> [] then (PStr e, ''environment'') else (v0, s0));
          v2 = (if none_or_empty v1 then PInt 8 else v1)
      in mapE (\<lambda>m. \<lparr>pw_minimum = m, pw_source = s1\<rparr>) (password_minimum v2))"

definition validate_password :: "pyval \<Rightarrow> password_rules \<Rightarrow> auth_error + string" where
  "validate_password password policy =
     (let p = password_text password in
      bindE (password_minimum (PInt (pw_minimum policy))) (\<lambda>minimum.
        if p = [] then Inl (AuthError ''password_empty'' ''password must not be empty'' 400 None)
        else if int (length p) < minimum
        then Inl (AuthError ''password_too_short''
               (''password must be at least '' @ int_str minimum @ '' characters'') 400 None)
        else if int (length p) > PASSWORD_MAX_LENGTH
        then Inl (AuthError ''password_too_long''
               (''password must be no more than '' @ int_str PASSWORD_MAX_LENGTH @ '' characters'') 400 None)
        else Inr p))"

definition stored_form :: "int \<Rightarrow> string \<Rightarrow> string \<Rightarrow> string" where
  "stored_form iterations salt value =
     PASSWORD_ALGORITHM @ ''$'' @ int_str iterations @ ''$'' @ hex_of salt @ ''$'' @ hex_of value"

definition password_hash_verified :: "crypto \<Rightarrow> draws \<Rightarrow> pyval \<Rightarrow> auth_error + string" where
  "password_hash_verified cr d password =
     (case cr_pbkdf2 cr (password_text password) (d_salt d) PASSWORD_ITERATIONS of
        Inl e \<Rightarrow> Inl (AuthPy e)
      | Inr v \<Rightarrow> Inr (stored_form PASSWORD_ITERATIONS (d_salt d) v))"

definition password_hash :: "crypto \<Rightarrow> draws \<Rightarrow> pyval \<Rightarrow> password_rules \<Rightarrow> auth_error + string" where
  "password_hash cr d password policy =
     bindE (validate_password password policy) (\<lambda>p. password_hash_verified cr d (PStr p))"

definition verify_password :: "crypto \<Rightarrow> pyval \<Rightarrow> string \<Rightarrow> py_exn + bool" where
  "verify_password cr password stored =
     (case split_on CHR ''$'' stored of
        [alg, iters, salt, hash] \<Rightarrow>
          if alg \<noteq> PASSWORD_ALGORITHM then Inr False
          else (case (parse_int iters, from_hex salt, from_hex hash) of
              (Some i, Some s, Some expected) \<Rightarrow>
                (case cr_pbkdf2 cr (str_or_empty password) s i of
                   Inr actual \<Rightarrow> Inr (actual = expected)
                 | Inl e \<Rightarrow> if e = TypeError \<or> e = ValueError then Inr False else Inl e)
            | _ \<Rightarrow> Inr False)
      | _ \<Rightarrow> Inr False)"

definition password_needs_rehash :: "string \<Rightarrow> bool" where
  "password_needs_rehash stored =
     (case split_on CHR ''$'' stored of
        [alg, iters, salt, hash] \<Rightarrow>
          alg \<noteq> PASSWORD_ALGORITHM \<or> (case parse_int iters of Some i \<Rightarrow> i < PASSWORD_ITERATIONS | None \<Rightarrow> True)
      | _ \<Rightarrow> True)"

section \<open>The audit log\<close>

definition sensitive_key :: "string \<Rightarrow> bool" where
  "sensitive_key k = contains_any (lower k) [''password'', ''token'', ''secret'', ''key'']"

definition redact :: "pydict \<Rightarrow> pydict" where
  "redact m = map (\<lambda>(k, v). if sensitive_key k then (k, PStr ''<redacted>'') else (k, v)) m"

record audit_args =
  aa_actor_type :: string
  aa_actor_id :: string
  aa_username :: string
  aa_remote_addr :: string
  aa_user_agent :: string
  aa_detail :: pydict

definition no_args :: audit_args where
  "no_args = \<lparr>aa_actor_type = [], aa_actor_id = [], aa_username = [], aa_remote_addr = [],
     aa_user_agent = [], aa_detail = []\<rparr>"

definition audit :: "draws \<Rightarrow> string \<Rightarrow> string \<Rightarrow> audit_args \<Rightarrow> auth_state \<Rightarrow> auth_state" where
  "audit d event_type outcome a st = st\<lparr>st_audit := st_audit st @ [
     \<lparr>ev_id = d_audit_id d, ev_type = event_type, ev_outcome = outcome,
      ev_actor_type = aa_actor_type a, ev_actor_id = aa_actor_id a,
      ev_username = take 128 (aa_username a), ev_remote_addr = take 128 (aa_remote_addr a),
      ev_user_agent = take 256 (aa_user_agent a), ev_created_at = d_audit_now d,
      ev_detail = redact (aa_detail a)\<rparr>]\<rparr>"

text \<open>The network part of a request, as every operation records it.\<close>

record origin =
  or_remote_addr :: string
  or_user_agent :: string

definition from_origin :: "origin \<Rightarrow> audit_args" where
  "from_origin o' = no_args\<lparr>aa_remote_addr := or_remote_addr o', aa_user_agent := or_user_agent o'\<rparr>"

section \<open>The first administrator\<close>

definition safe_username :: "string \<Rightarrow> bool" where
  "safe_username s = (3 \<le> length s \<and> length s \<le> 128 \<and> list_all (\<lambda>c. is_digit c
     \<or> (65 \<le> code c \<and> code c \<le> 90) \<or> (97 \<le> code c \<and> code c \<le> 122) \<or> c \<in> set ''_.@-'') s)"

definition bootstrap_admin ::
    "crypto \<Rightarrow> draws \<Rightarrow> auth_error + password_rules \<Rightarrow> pyval \<Rightarrow> pyval \<Rightarrow> origin \<Rightarrow> auth_state
     \<Rightarrow> auth_user auth_result" where
  "bootstrap_admin cr d policy username password o' st =
     (let name = strip (str_or_empty username) in
      if \<not> safe_username name
      then (Inl (AuthError ''invalid_username'' ''username must be 3-128 safe characters'' 400 None), st)
      else case bindE policy (password_hash cr d password) of
        Inl e \<Rightarrow> (Inl e, st)
      | Inr hashed \<Rightarrow>
          if st_users st \<noteq> []
          then (Inl (AuthError ''bootstrap_closed'' ''the first administrator already exists'' 409 None),
                audit d ''bootstrap'' ''denied'' ((from_origin o')\<lparr>aa_username := name\<rparr>) st)
          else
            let user = \<lparr>au_id = d_id d, au_username = name, au_hash = hashed, au_role = ''admin'',
                  au_enabled = True, au_created_at = d_now d, au_updated_at = d_now d,
                  au_last_login_at = None, au_password_changed_at = Some (d_now d)\<rparr>
            in (Inr user, audit d ''bootstrap'' ''success''
                  ((from_origin o')\<lparr>aa_actor_type := ''user'', aa_actor_id := d_id d, aa_username := name\<rparr>)
                  (st\<lparr>st_users := st_users st @ [user]\<rparr>)))"

section \<open>Login attempts\<close>

text \<open>The bucket table: one row per remote address.\<close>

definition find_attempt :: "(string \<times> login_attempt) list \<Rightarrow> string \<Rightarrow> login_attempt option" where
  "find_attempt rows k = map_option snd (List.find (\<lambda>r. fst r = k) rows)"

definition put_attempt ::
    "string \<Rightarrow> login_attempt \<Rightarrow> (string \<times> login_attempt) list \<Rightarrow> (string \<times> login_attempt) list" where
  "put_attempt k a rows = upsert_by fst (k, a) rows"

definition drop_attempt :: "string \<Rightarrow> (string \<times> login_attempt) list \<Rightarrow> (string \<times> login_attempt) list" where
  "drop_attempt k rows = delete_where (\<lambda>r. fst r = k) rows"

interpretation buckets: keyed_store find_attempt put_attempt drop_attempt "key_unique fst"
proof unfold_locales
  fix m :: "(string \<times> login_attempt) list" and k k' v
  show "find_attempt (put_attempt k v m) k' = (if k' = k then Some v else find_attempt m k')"
    by (simp add: find_attempt_def put_attempt_def)
  show "find_attempt (drop_attempt k m) k' = (if k' = k then None else find_attempt m k')"
    using find_None_delete [of fst k m] find_delete_where [of fst k' "\<lambda>r. fst r = k" m]
    by (auto simp: find_attempt_def drop_attempt_def)
  assume "key_unique fst m"
  then show "key_unique fst (put_attempt k v m)" "key_unique fst (drop_attempt k m)"
    by (auto simp: put_attempt_def drop_attempt_def)
qed

definition login_bucket :: "crypto \<Rightarrow> string \<Rightarrow> string" where
  "login_bucket cr remote_addr =
     cr_digest cr (''remote|'' @ (if remote_addr = [] then ''unknown'' else remote_addr))"

definition locked_at :: "login_attempt option \<Rightarrow> rat \<Rightarrow> rat option" where
  "locked_at row now = (case row of
       None \<Rightarrow> None
     | Some a \<Rightarrow> (case la_locked_until a of
           None \<Rightarrow> None
         | Some t \<Rightarrow> if t > now then Some t else None))"

definition rate_limit_row ::
    "crypto \<Rightarrow> string \<Rightarrow> rat \<Rightarrow> auth_state \<Rightarrow> auth_error + (string \<times> login_attempt option)" where
  "rate_limit_row cr remote_addr now st =
     (let key = login_bucket cr remote_addr; row = find_attempt (st_attempts st) key in
      case locked_at row now of
        Some t \<Rightarrow> Inl (AuthError ''login_rate_limited'' ''too many failed login attempts'' 429
                   (Some (max 1 (trunc (t - now)))))
      | None \<Rightarrow> Inr (key, row))"

definition lock_seconds :: "int \<Rightarrow> int" where
  "lock_seconds failures = min 900 (30 * 2 ^ nat (min 6 (failures - 5)))"

definition failed_attempt :: "login_attempt option \<Rightarrow> string \<Rightarrow> string \<Rightarrow> rat \<Rightarrow> login_attempt" where
  "failed_attempt row username remote_addr now =
     (let started = (case row of Some a \<Rightarrow> la_window_started_at a | None \<Rightarrow> 0);
          count = (case row of Some a \<Rightarrow> la_failures a | None \<Rightarrow> 0);
          (window, before) = (if started = 0 \<or> now - started > 900 then (now, 0) else (started, count));
          failures = before + 1;
          locked = (if failures \<ge> 5 then Some (now + of_int (lock_seconds failures)) else None);
          hints = (case row of Some a \<Rightarrow> (la_username a, la_remote_addr a)
                             | None \<Rightarrow> (take 128 username, take 128 remote_addr))
      in \<lparr>la_username = fst hints, la_remote_addr = snd hints, la_failures = failures,
          la_window_started_at = window, la_last_failed_at = now, la_locked_until = locked,
          la_updated_at = now\<rparr>)"

definition record_login_failure ::
    "string \<Rightarrow> login_attempt option \<Rightarrow> string \<Rightarrow> string \<Rightarrow> rat \<Rightarrow> auth_state \<Rightarrow> rat option \<times> auth_state" where
  "record_login_failure key row username remote_addr now st =
     (let a = failed_attempt row username remote_addr now
      in (la_locked_until a, st\<lparr>st_attempts := put_attempt key a (st_attempts st)\<rparr>))"

section \<open>Sessions\<close>

record login_grant =
  lg_session_id :: string
  lg_token :: string
  lg_csrf :: string
  lg_expires_at :: rat
  lg_user_id :: string
  lg_username :: string
  lg_role :: string

definition session_ttl :: "pyval \<Rightarrow> auth_error + int" where
  "session_ttl v = (case int_of (por v (PInt 43200)) of
      Inr i \<Rightarrow> Inr (max 300 (min 2592000 i)) | Inl e \<Rightarrow> Inl (AuthPy e))"

text \<open>An insert into a table with a unique column.\<close>

definition insert_unique :: "('r \<Rightarrow> 'k) \<Rightarrow> 'r \<Rightarrow> 'r list \<Rightarrow> auth_error + 'r list" where
  "insert_unique key r rows = (if key r \<in> key ` set rows then Inl IntegrityError else Inr (rows @ [r]))"

definition set_hash :: "string \<Rightarrow> string \<Rightarrow> rat \<Rightarrow> auth_user list \<Rightarrow> auth_user list" where
  "set_hash uid hash now users =
     update_where (\<lambda>u. au_id u = uid) (\<lambda>u. u\<lparr>au_hash := hash, au_updated_at := now\<rparr>) users"

definition login_user :: "crypto \<Rightarrow> string \<Rightarrow> pyval \<Rightarrow> auth_state \<Rightarrow> auth_error + auth_user option" where
  "login_user cr name password st =
     (case List.find (\<lambda>u. sql_lower (au_username u) = sql_lower name) (st_users st) of
        None \<Rightarrow> Inr None
      | Some u \<Rightarrow>
          if \<not> au_enabled u then Inr None
          else (case verify_password cr password (au_hash u) of
              Inl e \<Rightarrow> Inl (AuthPy e)
            | Inr ok \<Rightarrow> Inr (if ok then Some u else None)))"

definition new_session ::
    "crypto \<Rightarrow> draws \<Rightarrow> auth_user \<Rightarrow> int \<Rightarrow> origin \<Rightarrow> auth_session" where
  "new_session cr d u ttl o' =
     \<lparr>as_id = d_id d, as_user_id = au_id u, as_token_hash = cr_digest cr (d_token d),
      as_csrf_hash = cr_digest cr (d_csrf d), as_created_at = d_now d, as_last_seen_at = Some (d_now d),
      as_expires_at = d_now d + of_int ttl, as_revoked_at = None, as_revoked_reason = [],
      as_user_agent = take 256 (or_user_agent o'), as_remote_addr = take 128 (or_remote_addr o')\<rparr>"

definition login_failed ::
    "draws \<Rightarrow> string \<Rightarrow> login_attempt option \<Rightarrow> string \<Rightarrow> origin \<Rightarrow> auth_state \<Rightarrow> login_grant auth_result" where
  "login_failed d key row name o' st =
     (let (locked, st1) = record_login_failure key row name (or_remote_addr o') (d_now d) st;
          st2 = audit d ''login'' ''failure'' ((from_origin o')\<lparr>aa_username := name\<rparr>) st1;
          retry = (case locked of
                     None \<Rightarrow> None
                   | Some t \<Rightarrow> if t = 0 then None else Some (max 1 (trunc (t - d_now d))))
      in (Inl (AuthError ''invalid_credentials'' ''invalid username or password''
                 (if retry = None then 401 else 429) retry), st2))"

definition login_succeeded ::
    "crypto \<Rightarrow> draws \<Rightarrow> string \<Rightarrow> auth_user \<Rightarrow> pyval \<Rightarrow> origin \<Rightarrow> pyval \<Rightarrow> auth_state \<Rightarrow> login_grant auth_result" where
  "login_succeeded cr d key u password o' ttl_seconds st =
     (let rehashed = (if password_needs_rehash (au_hash u)
            then mapE (\<lambda>h. set_hash (au_id u) h (d_now d) (st_users st)) (password_hash_verified cr d password)
            else Inr (st_users st));
          inserted = bindE rehashed (\<lambda>users.
            bindE (session_ttl ttl_seconds) (\<lambda>ttl.
            let s = new_session cr d u ttl o' in
            bindE (insert_unique as_id s (st_sessions st)) (\<lambda>_.
            bindE (insert_unique as_token_hash s (st_sessions st)) (\<lambda>sessions.
              Inr (users, sessions, s)))))
      in case inserted of
           Inl e \<Rightarrow> (Inl e, st)
         | Inr (users, sessions, s) \<Rightarrow>
             (Inr \<lparr>lg_session_id = d_id d, lg_token = d_token d, lg_csrf = d_csrf d,
                   lg_expires_at = as_expires_at s, lg_user_id = au_id u, lg_username = au_username u,
                   lg_role = au_role u\<rparr>,
              audit d ''login'' ''success''
                ((from_origin o')\<lparr>aa_actor_type := ''user'', aa_actor_id := au_id u, aa_username := au_username u\<rparr>)
                (st\<lparr>st_attempts := drop_attempt key (st_attempts st), st_sessions := sessions,
                    st_users := update_where (\<lambda>v. au_id v = au_id u)
                      (\<lambda>v. v\<lparr>au_last_login_at := Some (d_now d), au_updated_at := d_now d\<rparr>) users\<rparr>)))"

definition login ::
    "crypto \<Rightarrow> draws \<Rightarrow> pyval \<Rightarrow> pyval \<Rightarrow> origin \<Rightarrow> pyval \<Rightarrow> auth_state \<Rightarrow> login_grant auth_result" where
  "login cr d username password o' ttl_seconds st =
     (let name = strip (str_or_empty username) in
      case rate_limit_row cr (or_remote_addr o') (d_now d) st of
        Inl e \<Rightarrow> (Inl e, st)
      | Inr (key, row) \<Rightarrow>
          (case login_user cr name password st of
             Inl e \<Rightarrow> (Inl e, st)
           | Inr None \<Rightarrow> login_failed d key row name o' st
           | Inr (Some u) \<Rightarrow> login_succeeded cr d key u password o' ttl_seconds st))"

record verified_session =
  vs_session_id :: string
  vs_expires_at :: rat
  vs_csrf_valid :: bool
  vs_user_id :: string
  vs_username :: string
  vs_role :: string

text \<open>A live session row, joined with its enabled user.\<close>

definition live_session :: "rat \<Rightarrow> auth_session \<Rightarrow> bool" where
  "live_session now s = (as_revoked_at s = None \<and> as_expires_at s > now)"

definition user_by_id :: "auth_state \<Rightarrow> string \<Rightarrow> auth_user option" where
  "user_by_id st uid = List.find (\<lambda>u. au_id u = uid) (st_users st)"

definition session_row :: "crypto \<Rightarrow> string \<Rightarrow> rat \<Rightarrow> auth_state \<Rightarrow> (auth_session \<times> auth_user) option" where
  "session_row cr token now st =
     (case List.find (\<lambda>s. as_token_hash s = cr_digest cr token \<and> live_session now s) (st_sessions st) of
        None \<Rightarrow> None
      | Some s \<Rightarrow> map_option (\<lambda>u. (s, u)) (user_by_id st (as_user_id s)))"

definition stale :: "rat option \<Rightarrow> rat \<Rightarrow> bool" where
  "stale seen now = (case seen of None \<Rightarrow> True | Some t \<Rightarrow> t = 0 \<or> now - t \<ge> 60)"

definition verify_session ::
    "crypto \<Rightarrow> rat \<Rightarrow> string \<Rightarrow> string \<Rightarrow> bool \<Rightarrow> auth_state \<Rightarrow> verified_session option \<times> auth_state" where
  "verify_session cr now token csrf touch st =
     (if token = [] then (None, st)
      else case session_row cr token now st of
        None \<Rightarrow> (None, st)
      | Some (s, u) \<Rightarrow>
          if \<not> au_enabled u then (None, st)
          else (Some \<lparr>vs_session_id = as_id s, vs_expires_at = as_expires_at s,
                      vs_csrf_valid = (csrf \<noteq> [] \<and> as_csrf_hash s \<noteq> [] \<and> cr_digest cr csrf = as_csrf_hash s),
                      vs_user_id = au_id u, vs_username = au_username u, vs_role = au_role u\<rparr>,
                if touch \<and> stale (as_last_seen_at s) now
                then st\<lparr>st_sessions := update_where (\<lambda>r. as_id r = as_id s)
                       (\<lambda>r. r\<lparr>as_last_seen_at := Some now\<rparr>) (st_sessions st)\<rparr>
                else st))"

record actor =
  ac_method :: string
  ac_id :: string

definition by_actor :: "actor \<Rightarrow> pydict \<Rightarrow> audit_args" where
  "by_actor a detail = no_args\<lparr>aa_actor_type := ac_method a, aa_actor_id := ac_id a, aa_detail := detail\<rparr>"

definition revoke_where ::
    "(auth_session \<Rightarrow> bool) \<Rightarrow> rat \<Rightarrow> string \<Rightarrow> auth_session list \<Rightarrow> auth_session list" where
  "revoke_where p now reason sessions =
     update_where p (\<lambda>s. s\<lparr>as_revoked_at := Some now, as_revoked_reason := reason\<rparr>) sessions"

definition revoke_session ::
    "crypto \<Rightarrow> draws \<Rightarrow> string \<Rightarrow> string \<Rightarrow> actor \<Rightarrow> auth_state \<Rightarrow> nat \<times> auth_state" where
  "revoke_session cr d token reason a st =
     (if token = [] then (0, st)
      else case List.find (\<lambda>s. as_token_hash s = cr_digest cr token \<and> as_revoked_at s = None) (st_sessions st) of
        None \<Rightarrow> (0, st)
      | Some row \<Rightarrow>
          (count_where (\<lambda>s. as_id s = as_id row) (st_sessions st),
           audit d ''session_revoke'' ''success''
             (by_actor a [(''session_id'', PStr (as_id row)), (''reason'', PStr reason)])
             (st\<lparr>st_sessions := revoke_where (\<lambda>s. as_id s = as_id row) (d_now d) (take 128 reason) (st_sessions st)\<rparr>)))"

text \<open>The sessions of a user that a revocation hits: the active ones, except a kept one.\<close>

definition revocable :: "string \<Rightarrow> string \<Rightarrow> auth_session \<Rightarrow> bool" where
  "revocable uid keep s = (as_user_id s = uid \<and> as_revoked_at s = None \<and> (keep = [] \<or> as_id s \<noteq> keep))"

definition revoke_user_sessions ::
    "draws \<Rightarrow> string \<Rightarrow> string \<Rightarrow> string \<Rightarrow> actor \<Rightarrow> auth_state \<Rightarrow> nat \<times> auth_state" where
  "revoke_user_sessions d uid keep reason a st =
     (let n = count_where (revocable uid keep) (st_sessions st) in
      (n, audit d ''sessions_revoke'' ''success''
            (by_actor a [(''user_id'', PStr uid), (''count'', PInt (int n)), (''reason'', PStr reason)])
            (st\<lparr>st_sessions := revoke_where (revocable uid keep) (d_now d) reason (st_sessions st)\<rparr>)))"

definition set_password :: "string \<Rightarrow> string \<Rightarrow> rat \<Rightarrow> auth_user list \<Rightarrow> auth_user list" where
  "set_password uid hash now users = update_where (\<lambda>u. au_id u = uid)
     (\<lambda>u. u\<lparr>au_hash := hash, au_password_changed_at := Some now, au_updated_at := now\<rparr>) users"

definition change_password ::
    "crypto \<Rightarrow> draws \<Rightarrow> auth_error + password_rules \<Rightarrow> string \<Rightarrow> pyval \<Rightarrow> pyval \<Rightarrow> string \<Rightarrow> bool \<Rightarrow> origin
     \<Rightarrow> auth_state \<Rightarrow> bool auth_result" where
  "change_password cr d policy uid current new keep revoke_others o' st =
     (case bindE policy (password_hash cr d new) of
        Inl e \<Rightarrow> (Inl e, st)
      | Inr hash \<Rightarrow>
          let row = List.find (\<lambda>u. au_id u = uid \<and> au_enabled u) (st_users st);
              checked = (case row of None \<Rightarrow> Inr False | Some u \<Rightarrow> verify_password cr current (au_hash u))
          in (case checked of
                Inl e \<Rightarrow> (Inl (AuthPy e), st)
              | Inr False \<Rightarrow>
                  (Inl (AuthError ''invalid_current_password'' ''current password is incorrect'' 403 None),
                   audit d ''password_change'' ''failure''
                     ((from_origin o')\<lparr>aa_actor_type := ''user'', aa_actor_id := uid\<rparr>) st)
              | Inr True \<Rightarrow>
                  (Inr revoke_others,
                   audit d ''password_change'' ''success''
                     ((from_origin o')\<lparr>aa_actor_type := ''user'', aa_actor_id := uid,
                        aa_username := (case row of Some u \<Rightarrow> au_username u | None \<Rightarrow> [])\<rparr>)
                     (st\<lparr>st_users := set_password uid hash (d_now d) (st_users st),
                         st_sessions := (if revoke_others
                           then revoke_where (revocable uid keep) (d_now d) ''password_changed'' (st_sessions st)
                           else st_sessions st)\<rparr>))))"

section \<open>Recovery\<close>

record recovery_grant =
  rg_id :: string
  rg_token :: string
  rg_expires_at :: rat

definition recovery_ttl :: "pyval \<Rightarrow> auth_error + int" where
  "recovery_ttl v = (case int_of (por v (PInt 900)) of
      Inr i \<Rightarrow> Inr (max 60 (min 3600 i)) | Inl e \<Rightarrow> Inl (AuthPy e))"

definition recovery_user :: "string \<Rightarrow> auth_user list \<Rightarrow> auth_user option" where
  "recovery_user username users =
     (if username \<noteq> []
      then List.find (\<lambda>u. sql_lower (au_username u) = sql_lower username \<and> au_enabled u) users
      else List.find (\<lambda>u. True) (sort_key au_created_at (filter au_enabled users)))"

definition create_recovery_token ::
    "crypto \<Rightarrow> draws \<Rightarrow> string \<Rightarrow> string \<Rightarrow> pyval \<Rightarrow> auth_state \<Rightarrow> recovery_grant auth_result" where
  "create_recovery_token cr d username created_by ttl_seconds st =
     (case recovery_user username (st_users st) of
        None \<Rightarrow> (Inl (AuthError ''admin_not_found'' ''admin_not_found'' 404 None), st)
      | Some u \<Rightarrow>
          (let r = bindE (recovery_ttl ttl_seconds) (\<lambda>ttl.
              let row = \<lparr>rt_id = d_id d, rt_user_id = au_id u, rt_token_hash = cr_digest cr (d_token d),
                    rt_created_at = d_now d, rt_expires_at = d_now d + of_int ttl, rt_used_at = None,
                    rt_created_by = take 128 created_by\<rparr>
              in bindE (insert_unique rt_id row (st_recovery st)) (\<lambda>_.
                 bindE (insert_unique rt_token_hash row (st_recovery st)) (\<lambda>rows. Inr (rows, row))))
           in case r of
                Inl e \<Rightarrow> (Inl e, st)
              | Inr (rows, row) \<Rightarrow>
                  (Inr \<lparr>rg_id = d_id d, rg_token = d_token d, rg_expires_at = rt_expires_at row\<rparr>,
                   audit d ''recovery_token_create'' ''success''
                     (no_args\<lparr>aa_actor_type := ''local_cli'', aa_actor_id := created_by,
                        aa_username := au_username u,
                        aa_detail := [(''recovery_id'', PStr (d_id d)),
                          (''expires_at'', PFloat (Fin (rt_expires_at row)))]\<rparr>)
                     (st\<lparr>st_recovery := rows\<rparr>))))"

definition usable_recovery :: "crypto \<Rightarrow> string \<Rightarrow> rat \<Rightarrow> recovery_token \<Rightarrow> bool" where
  "usable_recovery cr token now r =
     (rt_token_hash r = cr_digest cr token \<and> rt_used_at r = None \<and> rt_expires_at r > now)"

definition recovery_row ::
    "crypto \<Rightarrow> string \<Rightarrow> rat \<Rightarrow> auth_state \<Rightarrow> (recovery_token \<times> auth_user) option" where
  "recovery_row cr token now st =
     (case List.find (usable_recovery cr token now) (st_recovery st) of
        None \<Rightarrow> None
      | Some r \<Rightarrow> map_option (\<lambda>u. (r, u)) (user_by_id st (rt_user_id r)))"

definition reset_password_with_recovery ::
    "crypto \<Rightarrow> draws \<Rightarrow> auth_error + password_rules \<Rightarrow> string \<Rightarrow> pyval \<Rightarrow> origin \<Rightarrow> auth_state
     \<Rightarrow> unit auth_result" where
  "reset_password_with_recovery cr d policy token new o' st =
     (case bindE policy (password_hash cr d new) of
        Inl e \<Rightarrow> (Inl e, st)
      | Inr hash \<Rightarrow>
          (case recovery_row cr token (d_now d) st of
             None \<Rightarrow> (Inl (AuthError ''invalid_recovery_token'' ''invalid_recovery_token'' 403 None),
                      audit d ''recovery_reset'' ''failure'' (from_origin o') st)
           | Some (r, u) \<Rightarrow>
               (Inr (), audit d ''recovery_reset'' ''success''
                  ((from_origin o')\<lparr>aa_actor_type := ''recovery'', aa_actor_id := rt_user_id r,
                     aa_username := au_username u\<rparr>)
                  (st\<lparr>st_users := set_password (rt_user_id r) hash (d_now d) (st_users st),
                      st_recovery := update_where (\<lambda>x. rt_id x = rt_id r)
                        (\<lambda>x. x\<lparr>rt_used_at := Some (d_now d)\<rparr>) (st_recovery st),
                      st_sessions := revoke_where (revocable (rt_user_id r) [])
                        (d_now d) ''password_recovery'' (st_sessions st)\<rparr>))))"

section \<open>API keys\<close>

definition API_KEY_SCOPES :: "string list" where
  "API_KEY_SCOPES = [''read'', ''write'', ''settings'', ''acquisition'', ''maintenance'', ''admin'']"

definition normalize_scopes :: "pyval list \<Rightarrow> auth_error + string list" where
  "normalize_scopes scopes =
     (let vals = remdups (map (\<lambda>v. lower (strip (str_or_empty v))) (if scopes = [] then [PStr ''read''] else scopes));
          unknown = filter (\<lambda>v. v \<notin> set API_KEY_SCOPES) vals
      in if unknown \<noteq> []
         then Inl (AuthError ''invalid_api_key_scope'' (''unknown API key scope: '' @ join '', '' (sort unknown)) 400 None)
         else Inr (sort (if vals = [] then [''read''] else vals)))"

definition bad_expiration :: "string \<Rightarrow> auth_error" where
  "bad_expiration msg = AuthError ''invalid_api_key_expiration'' msg 400 None"

definition api_key_expiration :: "pyval \<Rightarrow> pyval \<Rightarrow> rat \<Rightarrow> auth_error + flt option" where
  "api_key_expiration expires_in expires_at now =
     (if \<not> none_or_empty expires_in \<and> \<not> none_or_empty expires_at
      then Inl (AuthError ''conflicting_api_key_expiration'' ''choose expires_in_seconds or expires_at, not both'' 400 None)
      else if \<not> none_or_empty expires_in
      then (case int_of expires_in of
              Inr ttl \<Rightarrow> if ttl < 60 \<or> ttl > 31622400
                         then Inl (bad_expiration ''API key expiration is outside the supported range'')
                         else Inr (Some (Fin (now + of_int ttl)))
            | Inl OverflowError \<Rightarrow> Inl (AuthPy OverflowError)
            | Inl _ \<Rightarrow> Inl (bad_expiration ''expires_in_seconds must be an integer''))
      else if \<not> none_or_empty expires_at
      then (case float_of expires_at of
              Inr t \<Rightarrow> if flt_le t (Fin now) \<or> flt_lt (Fin 31622400) (flt_sub t (Fin now))
                       then Inl (bad_expiration ''API key expiration must be future and within one year'')
                       else Inr (Some t)
            | Inl _ \<Rightarrow> Inl (bad_expiration ''expires_at must be a Unix timestamp''))
      else Inr None)"

text \<open>SQLite stores a NaN as null.\<close>

fun sql_real :: "flt option \<Rightarrow> rat option" where
  "sql_real (Some (Fin q)) = Some q"
| "sql_real _ = None"

definition create_api_key ::
    "crypto \<Rightarrow> draws \<Rightarrow> pyval \<Rightarrow> string \<Rightarrow> pyval list \<Rightarrow> actor \<Rightarrow> pyval \<Rightarrow> pyval \<Rightarrow> auth_state \<Rightarrow> api_key auth_result" where
  "create_api_key cr d name description scopes a expires_in expires_at st =
     (let n = strip (str_or_empty name) in
      if n = [] \<or> length n > 128
      then (Inl (AuthError ''invalid_api_key_name'' ''API key name is required and must be under 128 characters'' 400 None), st)
      else
        let r = bindE (normalize_scopes scopes) (\<lambda>sc.
              bindE (api_key_expiration expires_in expires_at (d_now d)) (\<lambda>ex.
              let row = \<lparr>ak_id = d_id d, ak_name = n, ak_description = take 512 description,
                    ak_hash = cr_digest cr (d_token d), ak_fingerprint = fingerprint cr (d_token d),
                    ak_prefix = take 12 (d_token d), ak_scopes = sc,
                    ak_role = (if ''admin'' \<in> set sc then ''admin'' else ''api''), ak_enabled = True,
                    ak_created_at = d_now d, ak_updated_at = d_now d, ak_last_used_at = None,
                    ak_expires_at = sql_real ex, ak_revoked_at = None\<rparr>
              in bindE (insert_unique ak_id row (st_keys st)) (\<lambda>_.
                 bindE (insert_unique ak_hash row (st_keys st)) (\<lambda>rows. Inr (rows, row)))))
        in case r of
             Inl e \<Rightarrow> (Inl e, st)
           | Inr (rows, row) \<Rightarrow>
               (Inr row, audit d ''api_key_create'' ''success''
                  (by_actor a [(''api_key_id'', PStr (d_id d)), (''scopes'', PList (map PStr (ak_scopes row)))])
                  (st\<lparr>st_keys := rows\<rparr>)))"

definition unexpired :: "rat \<Rightarrow> api_key \<Rightarrow> bool" where
  "unexpired now k = (case ak_expires_at k of None \<Rightarrow> True | Some t \<Rightarrow> t > now)"

definition valid_key :: "crypto \<Rightarrow> string \<Rightarrow> rat \<Rightarrow> api_key \<Rightarrow> bool" where
  "valid_key cr token now k =
     (ak_hash k = cr_digest cr token \<and> ak_enabled k \<and> ak_revoked_at k = None \<and> unexpired now k)"

definition verify_api_key ::
    "crypto \<Rightarrow> rat \<Rightarrow> string \<Rightarrow> bool \<Rightarrow> auth_state \<Rightarrow> api_key option \<times> auth_state" where
  "verify_api_key cr now token mark_used st =
     (if token = [] then (None, st)
      else case List.find (valid_key cr token now) (st_keys st) of
        None \<Rightarrow> (None, st)
      | Some k \<Rightarrow> (Some k, if mark_used \<and> stale (ak_last_used_at k) now
           then st\<lparr>st_keys := update_where (\<lambda>r. ak_id r = ak_id k)
                  (\<lambda>r. r\<lparr>ak_last_used_at := Some now, ak_updated_at := now\<rparr>) (st_keys st)\<rparr>
           else st))"

definition revoke_api_key :: "draws \<Rightarrow> pyval \<Rightarrow> actor \<Rightarrow> auth_state \<Rightarrow> nat auth_result" where
  "revoke_api_key d key_id a st =
     (let kid = strip (str_or_empty key_id);
          hit = (\<lambda>k. ak_id k = kid \<and> ak_revoked_at k = None);
          n = count_where hit (st_keys st)
      in if kid = [] then (Inl (AuthError ''api_key_id_required'' ''api_key_id_required'' 400 None), st)
         else (Inr n, audit d ''api_key_revoke'' (if n > 0 then ''success'' else ''not_found'')
                (by_actor a [(''api_key_id'', PStr kid)])
                (st\<lparr>st_keys := update_where hit (\<lambda>k. k\<lparr>ak_enabled := False,
                   ak_revoked_at := Some (d_now d), ak_updated_at := d_now d\<rparr>) (st_keys st)\<rparr>)))"

record listed_key =
  lk_key :: api_key
  lk_preview :: string
  lk_enabled :: bool
  lk_expired :: bool

definition list_api_keys :: "rat \<Rightarrow> auth_state \<Rightarrow> listed_key list" where
  "list_api_keys now st = map (\<lambda>k.
     \<lparr>lk_key = k, lk_preview = (if ak_prefix k \<noteq> [] then ak_prefix k @ ''...'' else []),
      lk_enabled = (ak_enabled k \<and> ak_revoked_at k = None \<and> unexpired now k),
      lk_expired = \<not> unexpired now k\<rparr>)
     (sort_key (\<lambda>k. - ak_created_at k) (st_keys st))"

section \<open>Authorization\<close>

record principal =
  pr_method :: string
  pr_id :: string
  pr_user_role :: string
  pr_role :: string
  pr_scopes :: "string list"

text \<open>A required scope is \<open>None\<close> on the public routes.\<close>

definition principal_has_scope :: "principal option \<Rightarrow> string option \<Rightarrow> bool" where
  "principal_has_scope p scope =
     (case p of
        None \<Rightarrow> False
      | Some pr \<Rightarrow>
          let role = lower (if pr_user_role pr \<noteq> [] then pr_user_role pr else pr_role pr);
              scopes = set (pr_scopes pr)
          in if ''admin'' \<in> scopes \<or> role = ''admin'' \<or> scope \<in> Some ` scopes then True
             else if scope = Some ''read'' \<and> pr_scopes pr \<noteq> [] then True
             else if scope = Some ''write'' \<and> list_ex (\<lambda>s. s \<in> set [''settings'', ''acquisition'', ''maintenance'']) (pr_scopes pr)
             then True
             else False)"

definition scope_text :: "string option \<Rightarrow> string" where
  "scope_text scope = (case scope of Some s \<Rightarrow> s | None \<Rightarrow> ''None'')"

definition authorize :: "principal option \<Rightarrow> string option \<Rightarrow> bool \<Rightarrow> auth_error + principal" where
  "authorize p scope admin_required =
     (case p of
        None \<Rightarrow> Inl (AuthError ''authentication_required'' ''authentication_required'' 401 None)
      | Some pr \<Rightarrow>
          if admin_required \<and> \<not> principal_has_scope p (Some ''admin'')
          then Inl (AuthError ''admin_required'' ''admin_required'' 403 None)
          else if \<not> principal_has_scope p scope
          then Inl (AuthError ''insufficient_scope''
                 (''API key requires '' @ [char_of (39 :: nat)] @ scope_text scope @ [char_of (39 :: nat)] @ '' scope'') 403 None)
          else Inr pr)"

section \<open>External authentication\<close>

record external_config =
  ex_enabled :: bool
  ex_identity_header :: string
  ex_group_header :: string
  ex_admin_group :: string

definition csv :: "string \<Rightarrow> string list" where
  "csv v = filter (\<lambda>s. s \<noteq> []) (map strip (split_on CHR '','' v))"

text \<open>A header is looked up without regard to case; the first one of a name wins.\<close>

definition header :: "(string \<times> string) list \<Rightarrow> string \<Rightarrow> string" where
  "header headers name =
     (case List.find (\<lambda>h. lower (fst h) = lower name) headers of Some (_, v) \<Rightarrow> v | None \<Rightarrow> [])"

text \<open>\<open>trusted\<close> is the answer of \<open>remote_is_trusted\<close> for the peer address.\<close>

definition external_principal ::
    "(string \<times> string) list \<Rightarrow> bool \<Rightarrow> external_config \<Rightarrow> principal option" where
  "external_principal headers trusted cfg =
     (if \<not> ex_enabled cfg \<or> \<not> trusted then None
      else
        let name = strip (header headers (ex_identity_header cfg));
            admin_group = strip (ex_admin_group cfg);
            groups = (if ex_group_header cfg \<noteq> [] then csv (header headers (ex_group_header cfg)) else [])
        in if name = [] then None
           else if admin_group \<noteq> [] \<and> admin_group \<notin> set groups then None
           else Some \<lparr>pr_method = ''external'', pr_id = name, pr_user_role = ''admin'', pr_role = [],
                      pr_scopes = [''admin'']\<rparr>)"

definition audit_external_auth ::
    "draws \<Rightarrow> principal option \<Rightarrow> string \<Rightarrow> string \<Rightarrow> int \<Rightarrow> auth_state \<Rightarrow> bool \<times> auth_state" where
  "audit_external_auth d p remote_addr user_agent minimum_interval st =
     (case p of
        None \<Rightarrow> (False, st)
      | Some pr \<Rightarrow>
          let since = d_now d - of_int (max 60 (if minimum_interval = 0 then 3600 else minimum_interval)) in
          if pr_method pr \<noteq> ''external'' then (False, st)
          else if list_ex (\<lambda>e. ev_type e = ''external_auth'' \<and> ev_actor_id e = pr_id pr
                     \<and> ev_remote_addr e = remote_addr \<and> ev_created_at e > since) (st_audit st)
          then (False, st)
          else (True, audit d ''external_auth'' ''success''
            \<lparr>aa_actor_type = ''external'', aa_actor_id = pr_id pr, aa_username = pr_id pr,
             aa_remote_addr = remote_addr, aa_user_agent = user_agent, aa_detail = []\<rparr> st))"

section \<open>Clean-up\<close>

record cleanup_args =
  ca_batch_limit :: int
  ca_session_retention :: int
  ca_recovery_retention :: int
  ca_login_quiet :: int

record cleanup_report =
  cl_ok :: bool
  cl_batch_limit :: int
  cl_examined :: nat
  cl_deleted :: "(string \<times> nat) list"
  cl_remaining :: "(string \<times> nat) list"
  cl_error :: string

definition session_eligible :: "rat \<Rightarrow> auth_session \<Rightarrow> bool" where
  "session_eligible cutoff s = (as_expires_at s \<le> cutoff \<or> (case as_revoked_at s of None \<Rightarrow> False | Some t \<Rightarrow> t \<le> cutoff))"

definition recovery_eligible :: "rat \<Rightarrow> recovery_token \<Rightarrow> bool" where
  "recovery_eligible cutoff r = (rt_expires_at r \<le> cutoff \<or> (case rt_used_at r of None \<Rightarrow> False | Some t \<Rightarrow> t \<le> cutoff))"

definition attempt_eligible :: "rat \<Rightarrow> rat \<Rightarrow> string \<times> login_attempt \<Rightarrow> bool" where
  "attempt_eligible quiet now r = (la_updated_at (snd r) \<le> quiet
     \<and> (case la_locked_until (snd r) of None \<Rightarrow> True | Some t \<Rightarrow> t \<le> now))"

text \<open>\<open>select id where p order by id limit n\<close>, then \<open>delete where id in ...\<close> and \<open>count where p\<close>.\<close>

definition cleanup_ids :: "('r \<Rightarrow> string) \<Rightarrow> ('r \<Rightarrow> bool) \<Rightarrow> nat \<Rightarrow> 'r list \<Rightarrow> string list" where
  "cleanup_ids ident p n rows = take n (sort (map ident (filter p rows)))"

definition cleanup_table ::
    "('r \<Rightarrow> string) \<Rightarrow> ('r \<Rightarrow> bool) \<Rightarrow> nat \<Rightarrow> 'r list \<Rightarrow> 'r list \<times> nat \<times> nat \<times> nat" where
  "cleanup_table ident p n rows =
     (let ids = cleanup_ids ident p n rows;
          rest = delete_where (\<lambda>r. ident r \<in> set ids) rows
      in (rest, length ids, count_where (\<lambda>r. ident r \<in> set ids) rows, count_where p rest))"

text \<open>\<open>db_error\<close> is the text of the \<open>OperationalError\<close> that opening the transaction meets, if any.\<close>

definition cleanup_auth_state ::
    "draws \<Rightarrow> actor \<Rightarrow> cleanup_args \<Rightarrow> string option \<Rightarrow> auth_state \<Rightarrow> cleanup_report \<times> auth_state" where
  "cleanup_auth_state d a args db_error st =
     (let limit = max 1 (min 1000 (if ca_batch_limit args = 0 then 100 else ca_batch_limit args));
          n = nat limit; now = d_now d;
          (sessions, e1, d1, r1) = cleanup_table as_id
            (session_eligible (now - of_int (max 0 (ca_session_retention args)))) n (st_sessions st);
          (recovery, e2, d2, r2) = cleanup_table rt_id
            (recovery_eligible (now - of_int (max 0 (ca_recovery_retention args)))) n (st_recovery st);
          (attempts, e3, d3, r3) = cleanup_table fst
            (attempt_eligible (now - of_int (max 60 (ca_login_quiet args))) now) n (st_attempts st);
          deleted = [(''sessions'', d1), (''recovery_tokens'', d2), (''login_attempts'', d3)];
          remaining = [(''sessions'', r1), (''recovery_tokens'', r2), (''login_attempts'', r3)];
          actor_type = (if ac_method a \<noteq> [] then ac_method a else ''maintenance'')
      in case db_error of
           Some e \<Rightarrow> (\<lparr>cl_ok = False, cl_batch_limit = limit, cl_examined = 0, cl_deleted = [], cl_remaining = [],
               cl_error = (if contains (lower e) ''lock'' then ''database_busy'' else ''database_error'')\<rparr>, st)
         | None \<Rightarrow> (\<lparr>cl_ok = True, cl_batch_limit = limit, cl_examined = e1 + e2 + e3, cl_deleted = deleted,
               cl_remaining = remaining, cl_error = []\<rparr>,
             audit d ''auth_cleanup'' ''success''
               (no_args\<lparr>aa_actor_type := actor_type, aa_actor_id := ac_id a,
                  aa_detail := [(''action'', PStr ''auth_state_cleanup''),
                    (''authorization_method'', PStr (if ac_method a \<noteq> [] then ac_method a else ''local_maintenance'')),
                    (''deleted'', PDict (map (\<lambda>(k, v). (k, PInt (int v))) deleted))]\<rparr>)
               (st\<lparr>st_sessions := sessions, st_recovery := recovery, st_attempts := attempts\<rparr>)))"

section \<open>Reading the log and auditing a copy\<close>

definition recent_audit_events :: "int \<Rightarrow> auth_state \<Rightarrow> audit_event list" where
  "recent_audit_events lm st = take (nat (max 1 (min 500 (if lm = 0 then 100 else lm))))
     (sort_key (\<lambda>e. - ev_created_at e) (st_audit st))"

record plaintext_report =
  pt_ok :: bool
  pt_passwords :: nat
  pt_api_keys :: nat
  pt_sessions :: nat
  pt_recovery :: nat

definition sanitize_auth_database_copy :: "auth_state \<Rightarrow> plaintext_report" where
  "sanitize_auth_database_copy st =
     (let p = count_where (\<lambda>u. \<not> starts_with (au_hash u) (PASSWORD_ALGORITHM @ ''$'')) (st_users st);
          k = count_where (\<lambda>r. \<not> is_hex64 (ak_hash r)) (st_keys st);
          s = count_where (\<lambda>r. \<not> is_hex64 (as_token_hash r)) (st_sessions st);
          r = count_where (\<lambda>x. \<not> is_hex64 (rt_token_hash x)) (st_recovery st)
      in \<lparr>pt_ok = (p = 0 \<and> k = 0 \<and> s = 0 \<and> r = 0), pt_passwords = p, pt_api_keys = k, pt_sessions = s,
          pt_recovery = r\<rparr>)"

end
