(* ===== verification/AuthSafety.thy ===== *)
theory AuthSafety
  imports Auth
begin

text \<open>
  What the authentication store guarantees. \<open>auth_step\<close> is one committed operation with arbitrary
  arguments and draws, \<open>auth_reach\<close> a history of them from a given state; the invariant \<open>store_ok\<close>
  (one administrator at most, unique keys and token hashes, redacted audit log) holds along every
  history.
\<close>

section \<open>Histories\<close>

inductive auth_step :: "crypto \<Rightarrow> auth_state \<Rightarrow> auth_state \<Rightarrow> bool" for cr where
  step_bootstrap: "bootstrap_admin cr d policy username password o' st = (r, st') \<Longrightarrow> auth_step cr st st'"
| step_login: "login cr d username password o' ttl st = (g, st') \<Longrightarrow> auth_step cr st st'"
| step_verify_session: "verify_session cr now token csrf touch st = (v, st') \<Longrightarrow> auth_step cr st st'"
| step_revoke_session: "revoke_session cr d token reason a st = (n, st') \<Longrightarrow> auth_step cr st st'"
| step_revoke_user: "revoke_user_sessions d uid keep reason a st = (n, st') \<Longrightarrow> auth_step cr st st'"
| step_change_password:
    "change_password cr d policy uid current new keep others o' st = (b, st') \<Longrightarrow> auth_step cr st st'"
| step_recovery: "create_recovery_token cr d username by ttl st = (rg, st') \<Longrightarrow> auth_step cr st st'"
| step_reset: "reset_password_with_recovery cr d policy token new o' st = (u, st') \<Longrightarrow> auth_step cr st st'"
| step_create_key:
    "create_api_key cr d name description scopes a expires_in expires_at st = (k, st') \<Longrightarrow> auth_step cr st st'"
| step_verify_key: "verify_api_key cr now token mark st = (k', st') \<Longrightarrow> auth_step cr st st'"
| step_revoke_key: "revoke_api_key d key_id a st = (m, st') \<Longrightarrow> auth_step cr st st'"
| step_external: "audit_external_auth d p remote agent interval st = (x, st') \<Longrightarrow> auth_step cr st st'"
| step_cleanup: "cleanup_auth_state d a args db_error st = (report, st') \<Longrightarrow> auth_step cr st st'"

inductive auth_reach :: "crypto \<Rightarrow> auth_state \<Rightarrow> auth_state \<Rightarrow> bool" for cr st0 where
  reach_refl: "auth_reach cr st0 st0"
| reach_next: "auth_reach cr st0 st \<Longrightarrow> auth_step cr st st' \<Longrightarrow> auth_reach cr st0 st'"

definition empty_store :: auth_state where
  "empty_store = \<lparr>st_users = [], st_sessions = [], st_keys = [], st_attempts = [], st_recovery = [], st_audit = []\<rparr>"

section \<open>The invariant\<close>

definition redacted :: "pydict \<Rightarrow> bool" where
  "redacted m = list_all (\<lambda>(k, v). if sensitive_key k then v = PStr ''<redacted>'' else True) m"

definition keys_ok :: "auth_state \<Rightarrow> bool" where
  "keys_ok st \<longleftrightarrow> key_unique as_id (st_sessions st) \<and> key_unique as_token_hash (st_sessions st)
     \<and> key_unique ak_id (st_keys st) \<and> key_unique ak_hash (st_keys st)
     \<and> key_unique rt_id (st_recovery st) \<and> key_unique rt_token_hash (st_recovery st)
     \<and> key_unique fst (st_attempts st)"

definition store_ok :: "auth_state \<Rightarrow> bool" where
  "store_ok st \<longleftrightarrow> length (st_users st) \<le> 1 \<and> keys_ok st \<and> list_all (\<lambda>e. redacted (ev_detail e)) (st_audit st)"

lemma redact_redacted [simp]: "redacted (redact m)"
  by (auto simp: redacted_def redact_def list_all_iff split: if_splits)

lemma audit_fields [simp]:
  "st_users (audit d t out a st) = st_users st" "st_sessions (audit d t out a st) = st_sessions st"
  "st_keys (audit d t out a st) = st_keys st" "st_attempts (audit d t out a st) = st_attempts st"
  "st_recovery (audit d t out a st) = st_recovery st"
  by (simp_all add: audit_def)

lemma audit_log_redacted [simp]:
  "list_all (\<lambda>e. redacted (ev_detail e)) (st_audit (audit d t out a st))
     = list_all (\<lambda>e. redacted (ev_detail e)) (st_audit st)"
  by (simp add: audit_def)

lemma store_ok_audit [simp]: "store_ok (audit d t out a st) = store_ok st"
  by (simp add: store_ok_def keys_ok_def)

lemma key_unique_insert: "insert_unique key r rows = Inr rows' \<Longrightarrow> key_unique key rows \<Longrightarrow> rows' = rows @ [r] \<and> key_unique key rows'"
  by (auto simp: insert_unique_def key_unique_def split: if_splits)

lemma insert_unique_Inr: "insert_unique key r rows = Inr rows' \<longleftrightarrow> key r \<notin> key ` set rows \<and> rows' = rows @ [r]"
  by (auto simp: insert_unique_def)

lemma key_unique_snoc: "key_unique key (rows @ [r]) \<longleftrightarrow> key_unique key rows \<and> key r \<notin> key ` set rows"
  by (auto simp: key_unique_def)

lemma key_unique_update [simp]:
  "(\<And>r. key (f r) = key r) \<Longrightarrow> key_unique key (update_where p f rows) = key_unique key rows"
  by (simp add: key_unique_def map_key_update_where)

lemma key_unique_revoke [simp]:
  "key_unique as_id (revoke_where p now reason ss) = key_unique as_id ss"
  "key_unique as_token_hash (revoke_where p now reason ss) = key_unique as_token_hash ss"
  by (simp_all add: revoke_where_def)

lemma length_set_password [simp]:
  "length (set_password uid h now us) = length us" "length (set_hash uid h now us) = length us"
  by (simp_all add: set_password_def set_hash_def)

lemmas store_defs = store_ok_def keys_ok_def

section \<open>Every operation keeps it\<close>

lemma store_ok_bootstrap:
  "store_ok st \<Longrightarrow> bootstrap_admin cr d policy username password o' st = (r, st') \<Longrightarrow> store_ok st'"
  by (auto simp: bootstrap_admin_def Let_def store_defs split: if_splits sum.splits)

lemma record_failure_fields:
  "record_login_failure key row name addr now st = (lk, st1) \<Longrightarrow>
   st_users st1 = st_users st \<and> st_sessions st1 = st_sessions st \<and> st_keys st1 = st_keys st
     \<and> st_recovery st1 = st_recovery st \<and> st_audit st1 = st_audit st
     \<and> (\<exists>a. st_attempts st1 = put_attempt key a (st_attempts st))"
  by (auto simp: record_login_failure_def Let_def split: prod.splits)

lemma store_ok_login_failed:
  assumes "store_ok st" "login_failed d key row name o' st = (g, st')"
  shows "store_ok st'"
proof -
  obtain lk st1 where f: "record_login_failure key row name (or_remote_addr o') (d_now d) st = (lk, st1)"
    by force
  note r = record_failure_fields [OF f]
  then have "key_unique fst (st_attempts st1)"
    using assms(1) buckets.inv_put by (auto simp: store_defs)
  then have "store_ok st1" using r assms(1) by (simp add: store_defs)
  then show ?thesis using assms(2) f by (auto simp: login_failed_def Let_def)
qed

lemma store_ok_login_succeeded:
  assumes "store_ok st" "login_succeeded cr d key u password o' ttl st = (g, st')"
  shows "store_ok st'"
  using assms buckets.inv_drop [of "st_attempts st" key]
  by (auto simp: login_succeeded_def Let_def store_defs result_simps mapE_def insert_unique_Inr key_unique_snoc
      split: sum.splits prod.splits if_splits)

lemma store_ok_login:
  "store_ok st \<Longrightarrow> login cr d username password o' ttl st = (g, st') \<Longrightarrow> store_ok st'"
  by (auto simp: login_def Let_def dest: store_ok_login_failed store_ok_login_succeeded
      split: sum.splits prod.splits option.splits)

lemma store_ok_verify_session:
  "store_ok st \<Longrightarrow> verify_session cr now token csrf touch st = (v, st') \<Longrightarrow> store_ok st'"
  by (auto simp: verify_session_def store_defs split: if_splits option.splits prod.splits)

lemma store_ok_revoke_session:
  "store_ok st \<Longrightarrow> revoke_session cr d token reason a st = (n, st') \<Longrightarrow> store_ok st'"
  by (auto simp: revoke_session_def store_defs split: if_splits option.splits)

lemma store_ok_revoke_user:
  "store_ok st \<Longrightarrow> revoke_user_sessions d uid keep reason a st = (n, st') \<Longrightarrow> store_ok st'"
  by (auto simp: revoke_user_sessions_def Let_def store_defs)

lemma store_ok_change_password:
  "store_ok st \<Longrightarrow> change_password cr d policy uid current new keep others o' st = (b, st') \<Longrightarrow> store_ok st'"
  by (auto simp: change_password_def Let_def store_defs split: sum.splits bool.splits)

lemma store_ok_recovery:
  "store_ok st \<Longrightarrow> create_recovery_token cr d username by ttl st = (rg, st') \<Longrightarrow> store_ok st'"
  by (auto simp: create_recovery_token_def Let_def store_defs result_simps insert_unique_Inr key_unique_snoc
      split: option.splits sum.splits prod.splits)

lemma store_ok_reset:
  "store_ok st \<Longrightarrow> reset_password_with_recovery cr d policy token new o' st = (u, st') \<Longrightarrow> store_ok st'"
  by (auto simp: reset_password_with_recovery_def Let_def store_defs split: option.splits sum.splits prod.splits)

lemma store_ok_create_key:
  "store_ok st \<Longrightarrow> create_api_key cr d name description scopes a ei ea st = (k, st') \<Longrightarrow> store_ok st'"
  by (auto simp: create_api_key_def Let_def store_defs result_simps insert_unique_Inr key_unique_snoc
      split: if_splits sum.splits prod.splits)

lemma store_ok_verify_key:
  "store_ok st \<Longrightarrow> verify_api_key cr now token mark st = (k, st') \<Longrightarrow> store_ok st'"
  by (auto simp: verify_api_key_def store_defs split: if_splits option.splits)

lemma store_ok_revoke_key:
  "store_ok st \<Longrightarrow> revoke_api_key d key_id a st = (m, st') \<Longrightarrow> store_ok st'"
  by (auto simp: revoke_api_key_def Let_def store_defs split: if_splits)

lemma store_ok_external:
  "store_ok st \<Longrightarrow> audit_external_auth d p remote agent interval st = (x, st') \<Longrightarrow> store_ok st'"
  by (auto simp: audit_external_auth_def Let_def split: if_splits option.splits)

lemma cleanup_table_rows:
  "cleanup_table ident p n rows = (rest, e, k, r) \<Longrightarrow>
   rest = delete_where (\<lambda>x. ident x \<in> set (cleanup_ids ident p n rows)) rows"
  by (simp add: cleanup_table_def Let_def)

definition cleanup_limit :: "cleanup_args \<Rightarrow> int" where
  "cleanup_limit args = max 1 (min 1000 (if ca_batch_limit args = 0 then 100 else ca_batch_limit args))"

lemma cleanup_tables:
  assumes "cleanup_auth_state d a args None st = (report, st')"
  shows "\<exists>x ss rs as c1 c2 c3.
    st' = audit d ''auth_cleanup'' ''success'' x (st\<lparr>st_sessions := ss, st_recovery := rs, st_attempts := as\<rparr>)
    \<and> cl_batch_limit report = cleanup_limit args
    \<and> cleanup_table as_id (session_eligible (d_now d - of_int (max 0 (ca_session_retention args))))
        (nat (cleanup_limit args)) (st_sessions st) = (ss, c1)
    \<and> cleanup_table rt_id (recovery_eligible (d_now d - of_int (max 0 (ca_recovery_retention args))))
        (nat (cleanup_limit args)) (st_recovery st) = (rs, c2)
    \<and> cleanup_table fst (attempt_eligible (d_now d - of_int (max 60 (ca_login_quiet args))) (d_now d))
        (nat (cleanup_limit args)) (st_attempts st) = (as, c3)"
proof -
  note lim = cleanup_limit_def [symmetric]
  obtain ss e1 d1 r1 where s: "cleanup_table as_id (session_eligible (d_now d - of_int (max 0 (ca_session_retention args))))
      (nat (cleanup_limit args)) (st_sessions st) = (ss, e1, d1, r1)" by (metis prod_cases4)
  obtain rs e2 d2 r2 where r: "cleanup_table rt_id (recovery_eligible (d_now d - of_int (max 0 (ca_recovery_retention args))))
      (nat (cleanup_limit args)) (st_recovery st) = (rs, e2, d2, r2)" by (metis prod_cases4)
  obtain as e3 d3 r3 where a: "cleanup_table fst (attempt_eligible (d_now d - of_int (max 60 (ca_login_quiet args))) (d_now d))
      (nat (cleanup_limit args)) (st_attempts st) = (as, e3, d3, r3)" by (metis prod_cases4)
  show ?thesis
    using assms unfolding cleanup_auth_state_def Let_def lim s r a by auto
qed

lemma cleanup_state:
  assumes "cleanup_auth_state d a args err st = (report, st')"
  shows "st' = st \<or> (\<exists>x ps pr pa. st' = audit d ''auth_cleanup'' ''success'' x
    (st\<lparr>st_sessions := delete_where ps (st_sessions st), st_recovery := delete_where pr (st_recovery st),
        st_attempts := delete_where pa (st_attempts st)\<rparr>))"
proof (cases err)
  case None
  from cleanup_tables [OF assms [unfolded None]] obtain x ss rs as c1 c2 c3 where
    e: "st' = audit d ''auth_cleanup'' ''success'' x (st\<lparr>st_sessions := ss, st_recovery := rs, st_attempts := as\<rparr>)"
    and c: "cleanup_table as_id (session_eligible (d_now d - of_int (max 0 (ca_session_retention args))))
        (nat (cleanup_limit args)) (st_sessions st) = (ss, c1)"
      "cleanup_table rt_id (recovery_eligible (d_now d - of_int (max 0 (ca_recovery_retention args))))
        (nat (cleanup_limit args)) (st_recovery st) = (rs, c2)"
      "cleanup_table fst (attempt_eligible (d_now d - of_int (max 60 (ca_login_quiet args))) (d_now d))
        (nat (cleanup_limit args)) (st_attempts st) = (as, c3)" by blast
  have row: "\<exists>p. rest = delete_where p rows" if "cleanup_table ident q n rows = (rest, y)" for ident :: "'r \<Rightarrow> string" and q n rows rest y
    using that cleanup_table_rows by (cases y) blast
  show ?thesis using row [OF c(1)] row [OF c(2)] row [OF c(3)] unfolding e by blast
qed (use assms in \<open>simp add: cleanup_auth_state_def Let_def split: prod.splits\<close>)

lemma store_ok_cleanup:
  "store_ok st \<Longrightarrow> cleanup_auth_state d a args err st = (report, st') \<Longrightarrow> store_ok st'"
  by (auto simp:  Let_def store_defs dest!: cleanup_state
      split: option.splits prod.splits)

lemma store_ok_step: "auth_step cr st st' \<Longrightarrow> store_ok st \<Longrightarrow> store_ok st'"
  by (induction rule: auth_step.induct) (erule store_ok_bootstrap store_ok_login store_ok_verify_session store_ok_revoke_session
      store_ok_revoke_user store_ok_change_password store_ok_recovery store_ok_reset store_ok_create_key
      store_ok_verify_key store_ok_revoke_key store_ok_external store_ok_cleanup, assumption+)+

lemma store_ok_reach: "auth_reach cr st0 st \<Longrightarrow> store_ok st0 \<Longrightarrow> store_ok st"
  by (induction rule: auth_reach.induct) (auto dest: store_ok_step)

section \<open>Only hashes at rest\<close>

text \<open>\<open>hexdigest\<close> of SHA-256 is 64 hexadecimal digits.\<close>

definition digest_hex :: "crypto \<Rightarrow> bool" where
  "digest_hex cr \<longleftrightarrow> (\<forall>s. is_hex64 (cr_digest cr s))"

definition hashed :: "auth_state \<Rightarrow> bool" where
  "hashed st \<longleftrightarrow> list_all (\<lambda>u. starts_with (au_hash u) (PASSWORD_ALGORITHM @ ''$'')) (st_users st)
     \<and> list_all (\<lambda>k. is_hex64 (ak_hash k)) (st_keys st)
     \<and> list_all (\<lambda>s. is_hex64 (as_token_hash s)) (st_sessions st)
     \<and> list_all (\<lambda>r. is_hex64 (rt_token_hash r)) (st_recovery st)"

definition attempt_row_ok :: "login_attempt \<Rightarrow> bool" where
  "attempt_row_ok a \<longleftrightarrow> 1 \<le> la_failures a \<and> la_updated_at a = la_last_failed_at a
     \<and> la_locked_until a =
         (if la_failures a \<ge> 5 then Some (la_last_failed_at a + of_int (lock_seconds (la_failures a))) else None)"

definition attempts_ok :: "auth_state \<Rightarrow> bool" where
  "attempts_ok st = list_all (\<lambda>r. attempt_row_ok (snd r)) (st_attempts st)"

lemma count_where_none: "count_where p xs = 0 \<longleftrightarrow> list_all (\<lambda>x. \<not> p x) xs"
  by (induction xs) auto

lemma sanitized_iff: "pt_ok (sanitize_auth_database_copy st) \<longleftrightarrow> hashed st"
  by (simp add: sanitize_auth_database_copy_def hashed_def count_where_none Let_def)

lemma list_all_update_where:
  "list_all q rows \<Longrightarrow> (\<And>r. q r \<Longrightarrow> q (f r)) \<Longrightarrow> list_all q (update_where p f rows)"
  by (auto simp: update_where_def list_all_iff)

lemma list_all_delete_where: "list_all q rows \<Longrightarrow> list_all q (delete_where p rows)"
  by (auto simp: list_all_iff)

lemma list_all_revoke: "list_all (\<lambda>s. q (as_token_hash s)) ss \<Longrightarrow> list_all (\<lambda>s. q (as_token_hash s)) (revoke_where p now reason ss)"
  by (auto simp: revoke_where_def intro!: list_all_update_where)

lemma stored_form_starts: "starts_with (stored_form i s v) (PASSWORD_ALGORITHM @ ''$'')"
  by (simp add: stored_form_def starts_with_append)

lemma password_hash_form:
  "password_hash_verified cr d p = Inr h \<Longrightarrow> starts_with h (PASSWORD_ALGORITHM @ ''$'')"
  "password_hash cr d p policy = Inr h \<Longrightarrow> starts_with h (PASSWORD_ALGORITHM @ ''$'')"
proof -
  have v: "starts_with h (PASSWORD_ALGORITHM @ ''$'')" if "password_hash_verified cr d p = Inr h" for p
    using that by (auto simp: password_hash_verified_def stored_form_starts split: sum.splits)
  then show "password_hash_verified cr d p = Inr h \<Longrightarrow> starts_with h (PASSWORD_ALGORITHM @ ''$'')" .
  show "password_hash cr d p policy = Inr h \<Longrightarrow> starts_with h (PASSWORD_ALGORITHM @ ''$'')"
    by (auto simp: password_hash_def result_simps intro: v)
qed

lemma digest_hexD [simp]: "digest_hex cr \<Longrightarrow> is_hex64 (cr_digest cr s)"
  by (simp add: digest_hex_def)

lemma hashed_audit [simp]: "hashed (audit d t out a st) = hashed st"
  by (simp add: hashed_def)

lemma attempts_ok_audit [simp]: "attempts_ok (audit d t out a st) = attempts_ok st"
  by (simp add: attempts_ok_def)

lemmas hashed_intros = list_all_update_where list_all_delete_where list_all_revoke

lemma hashed_login_failed: "login_failed d key row name o' st = (g, st') \<Longrightarrow> hashed st' = hashed st"
  using record_failure_fields [of key row name "or_remote_addr o'" "d_now d" st]
  by (auto simp: login_failed_def Let_def hashed_def split: prod.splits)

lemma hashed_login_succeeded:
  assumes "digest_hex cr" "hashed st"
    and "login_succeeded cr d key u password o' ttl st = (g, st')"
  shows "hashed st'"
  using assms
  by (auto simp: login_succeeded_def Let_def hashed_def result_simps mapE_def insert_unique_Inr new_session_def
      set_hash_def intro!: hashed_intros dest!: password_hash_form split: sum.splits prod.splits if_splits)

lemma hashed_login:
  "\<lbrakk>digest_hex cr; hashed st; login cr d username password o' ttl st = (g, st')\<rbrakk> \<Longrightarrow> hashed st'"
  by (auto simp: login_def Let_def dest: hashed_login_failed hashed_login_succeeded
      split: sum.splits prod.splits option.splits)

lemma hashed_password_ops:
  "\<lbrakk>hashed st; bootstrap_admin cr d policy username password o' st = (r, st')\<rbrakk> \<Longrightarrow> hashed st'"
  "\<lbrakk>hashed st; change_password cr d policy uid current new keep others o' st = (b, st')\<rbrakk> \<Longrightarrow> hashed st'"
  "\<lbrakk>hashed st; reset_password_with_recovery cr d policy token new o' st = (v, st')\<rbrakk> \<Longrightarrow> hashed st'"
  by (auto simp: bootstrap_admin_def change_password_def reset_password_with_recovery_def set_password_def Let_def
      hashed_def result_simps intro!: hashed_intros dest!: password_hash_form
      split: if_splits sum.splits bool.splits option.splits prod.splits)

lemma hashed_token_ops:
  "\<lbrakk>digest_hex cr; hashed st; create_recovery_token cr d username by ttl st = (rg, st')\<rbrakk> \<Longrightarrow> hashed st'"
  "\<lbrakk>digest_hex cr; hashed st;
     create_api_key cr d name description scopes a expires_in expires_at st = (k, st')\<rbrakk> \<Longrightarrow> hashed st'"
  by (auto simp: create_recovery_token_def create_api_key_def Let_def hashed_def result_simps insert_unique_Inr
      split: if_splits sum.splits option.splits prod.splits)

lemma hashed_other_ops:
  "\<lbrakk>hashed st; verify_session cr now token csrf touch st = (v, st')\<rbrakk> \<Longrightarrow> hashed st'"
  "\<lbrakk>hashed st; revoke_session cr d token reason a st = (n, st')\<rbrakk> \<Longrightarrow> hashed st'"
  "\<lbrakk>hashed st; revoke_user_sessions d uid keep reason a st = (n, st')\<rbrakk> \<Longrightarrow> hashed st'"
  "\<lbrakk>hashed st; verify_api_key cr now token mark st = (k, st')\<rbrakk> \<Longrightarrow> hashed st'"
  "\<lbrakk>hashed st; revoke_api_key d key_id a st = (m, st')\<rbrakk> \<Longrightarrow> hashed st'"
  "\<lbrakk>hashed st; audit_external_auth d p remote agent interval st = (x, st')\<rbrakk> \<Longrightarrow> hashed st'"
  "\<lbrakk>hashed st; cleanup_auth_state d a args err st = (report, st')\<rbrakk> \<Longrightarrow> hashed st'"
  by (auto simp: verify_session_def revoke_session_def revoke_user_sessions_def verify_api_key_def revoke_api_key_def
      audit_external_auth_def  Let_def hashed_def intro!: hashed_intros dest!: cleanup_state
      split: if_splits option.splits prod.splits)

lemma hashed_step: "\<lbrakk>auth_step cr st st'; digest_hex cr; hashed st\<rbrakk> \<Longrightarrow> hashed st'"
  by (induction rule: auth_step.induct) (erule hashed_login hashed_password_ops hashed_token_ops hashed_other_ops, assumption+)+

lemma hashed_reach: "\<lbrakk>auth_reach cr st0 st; digest_hex cr; hashed st0\<rbrakk> \<Longrightarrow> hashed st"
  by (induction rule: auth_reach.induct) (auto dest: hashed_step)

section \<open>The log only grows\<close>

definition logs :: "auth_state \<Rightarrow> auth_state \<Rightarrow> bool" where
  "logs st st' \<longleftrightarrow> (\<exists>new. st_audit st' = st_audit st @ new \<and> list_all (\<lambda>e. redacted (ev_detail e)) new)"

lemma logs_same: "st_audit st' = st_audit st \<Longrightarrow> logs st st'"
  by (simp add: logs_def)

lemma logs_audit: "st_audit st1 = st_audit st \<Longrightarrow> logs st (audit d t out a st1)"
  by (simp add: logs_def audit_def)

lemma logs_trans: "logs st st1 \<Longrightarrow> logs st1 st2 \<Longrightarrow> logs st st2"
  by (auto simp: logs_def)

lemmas logs_intros = logs_same logs_audit

lemma logs_login_failed: "login_failed d key row name o' st = (g, st') \<Longrightarrow> logs st st'"
  using record_failure_fields [of key row name "or_remote_addr o'" "d_now d" st]
  by (auto simp: login_failed_def Let_def simp: logs_intros split: prod.splits)

lemma logs_login: "login cr d username password o' ttl st = (g, st') \<Longrightarrow> logs st st'"
  by (auto simp: login_def Let_def login_succeeded_def simp: logs_intros dest: logs_login_failed
      split: sum.splits prod.splits option.splits)

lemma logs_account_ops:
  "bootstrap_admin cr d policy username password o' st = (r, st') \<Longrightarrow> logs st st'"
  "change_password cr d policy uid current new keep others o' st = (b, st') \<Longrightarrow> logs st st'"
  "reset_password_with_recovery cr d policy token new o' st = (v, st') \<Longrightarrow> logs st st'"
  "create_recovery_token cr d who by ttl2 st = (rg, st') \<Longrightarrow> logs st st'"
  "create_api_key cr d name description scopes a expires_in expires_at st = (k, st') \<Longrightarrow> logs st st'"
  by (auto simp: bootstrap_admin_def change_password_def reset_password_with_recovery_def create_recovery_token_def
      create_api_key_def Let_def simp: logs_intros
      split: if_splits sum.splits bool.splits option.splits prod.splits)

lemma logs_other_ops:
  "verify_session cr now token csrf touch st = (w, st') \<Longrightarrow> logs st st'"
  "revoke_session cr d token reason a st = (n, st') \<Longrightarrow> logs st st'"
  "revoke_user_sessions d uid keep reason a st = (n, st') \<Longrightarrow> logs st st'"
  "verify_api_key cr now token mark st = (k', st') \<Longrightarrow> logs st st'"
  "revoke_api_key d key_id a st = (m, st') \<Longrightarrow> logs st st'"
  "audit_external_auth d p remote agent interval st = (x, st') \<Longrightarrow> logs st st'"
  "cleanup_auth_state d a args err st = (report, st') \<Longrightarrow> logs st st'"
  by (auto simp: verify_session_def revoke_session_def revoke_user_sessions_def verify_api_key_def revoke_api_key_def
      audit_external_auth_def  Let_def simp: logs_intros dest!: cleanup_state
      split: if_splits option.splits prod.splits)

lemma logs_step: "auth_step cr st st' \<Longrightarrow> logs st st'"
  by (induction rule: auth_step.induct) (erule logs_login logs_account_ops logs_other_ops)+

section \<open>Login attempts\<close>

lemma attempts_ok_same: "st_attempts st' = st_attempts st \<Longrightarrow> attempts_ok st' = attempts_ok st"
  by (simp add: attempts_ok_def)

lemma find_attempt_in: "find_attempt rows k = Some a \<Longrightarrow> \<exists>r \<in> set rows. snd r = a"
proof -
  assume "find_attempt rows k = Some a"
  then obtain r where "List.find (\<lambda>r. fst r = k) rows = Some r" "snd r = a" by (auto simp: find_attempt_def)
  then show "\<exists>r \<in> set rows. snd r = a" by (metis find_Some_iff nth_mem)
qed

lemma attempts_ok_row: "attempts_ok st \<Longrightarrow> find_attempt (st_attempts st) k = Some a \<Longrightarrow> attempt_row_ok a"
  by (auto simp: attempts_ok_def list_all_iff dest!: find_attempt_in)

lemma set_upsert_by: "set (upsert_by key r rows) \<subseteq> insert r (set rows)"
  by (induction rows) auto

lemma attempts_ok_put:
  "attempts_ok st \<Longrightarrow> attempt_row_ok a \<Longrightarrow> attempts_ok (st\<lparr>st_attempts := put_attempt k a (st_attempts st)\<rparr>)"
  using set_upsert_by [of fst "(k, a)" "st_attempts st"] by (auto simp: attempts_ok_def put_attempt_def list_all_iff)

lemma failed_attempt_ok: "attempts_ok st \<Longrightarrow> attempt_row_ok (failed_attempt (find_attempt (st_attempts st) k) name addr now)"
  using attempts_ok_row [of st k]
  by (cases "find_attempt (st_attempts st) k") (auto simp: failed_attempt_def Let_def attempt_row_ok_def)

lemma attempts_ok_drop: "attempts_ok st \<Longrightarrow> st_attempts st' = drop_attempt k (st_attempts st) \<Longrightarrow> attempts_ok st'"
  by (simp add: attempts_ok_def drop_attempt_def list_all_delete_where)

lemma attempts_ok_login:
  assumes ok: "attempts_ok st" and l: "login cr d username password o' ttl st = (g, st')"
  shows "attempts_ok st'"
proof (cases "rate_limit_row cr (or_remote_addr o') (d_now d) st")
  case (Inl e)
  then show ?thesis using assms by (simp add: login_def)
next
  case (Inr p)
  then have row: "snd p = find_attempt (st_attempts st) (fst p)"
    by (auto simp: rate_limit_row_def Let_def split: option.splits)
  have failed: "attempts_ok st'" if "login_failed d (fst p) (snd p) name o' st = (g, st')" for name
    using that ok row
    by (auto simp: login_failed_def record_login_failure_def Let_def attempts_ok_put failed_attempt_ok)
  then show ?thesis using l ok Inr
    by (auto simp: login_def Let_def login_succeeded_def attempts_ok_drop
        split: sum.splits prod.splits option.splits)
qed

lemma attempts_ok_other_ops:
  "bootstrap_admin cr d policy username password o' st = (r, st') \<Longrightarrow> attempts_ok st \<Longrightarrow> attempts_ok st'"
  "change_password cr d policy uid current new keep others o' st = (b, st') \<Longrightarrow> attempts_ok st \<Longrightarrow> attempts_ok st'"
  "reset_password_with_recovery cr d policy token new o' st = (v, st') \<Longrightarrow> attempts_ok st \<Longrightarrow> attempts_ok st'"
  "create_recovery_token cr d who by ttl2 st = (rg, st') \<Longrightarrow> attempts_ok st \<Longrightarrow> attempts_ok st'"
  "create_api_key cr d name description scopes a expires_in expires_at st = (k, st') \<Longrightarrow> attempts_ok st \<Longrightarrow> attempts_ok st'"
  "verify_session cr now token csrf touch st = (w, st') \<Longrightarrow> attempts_ok st \<Longrightarrow> attempts_ok st'"
  "revoke_session cr d token reason a st = (n, st') \<Longrightarrow> attempts_ok st \<Longrightarrow> attempts_ok st'"
  "revoke_user_sessions d uid keep reason a st = (n, st') \<Longrightarrow> attempts_ok st \<Longrightarrow> attempts_ok st'"
  "verify_api_key cr now token mark st = (k', st') \<Longrightarrow> attempts_ok st \<Longrightarrow> attempts_ok st'"
  "revoke_api_key d key_id a st = (m, st') \<Longrightarrow> attempts_ok st \<Longrightarrow> attempts_ok st'"
  "audit_external_auth d p remote agent interval st = (x, st') \<Longrightarrow> attempts_ok st \<Longrightarrow> attempts_ok st'"
  "cleanup_auth_state d a args err st = (report, st') \<Longrightarrow> attempts_ok st \<Longrightarrow> attempts_ok st'"
  by (auto simp: bootstrap_admin_def change_password_def reset_password_with_recovery_def create_recovery_token_def
    create_api_key_def verify_session_def revoke_session_def revoke_user_sessions_def verify_api_key_def
    revoke_api_key_def audit_external_auth_def  attempts_ok_def Let_def
    intro!: list_all_delete_where dest!: cleanup_state
    split: if_splits sum.splits bool.splits option.splits prod.splits)

lemma attempts_ok_step: "auth_step cr st st' \<Longrightarrow> attempts_ok st \<Longrightarrow> attempts_ok st'"
  by (induction rule: auth_step.induct) (erule attempts_ok_login attempts_ok_other_ops, assumption+)+

lemma attempts_ok_reach: "auth_reach cr st0 st \<Longrightarrow> attempts_ok st0 \<Longrightarrow> attempts_ok st"
  by (induction rule: auth_reach.induct) (auto dest: attempts_ok_step)

section \<open>The invariants along a history\<close>

lemma logs_reach: "auth_reach cr st0 st \<Longrightarrow> logs st0 st"
  by (induction rule: auth_reach.induct) (auto intro: logs_same logs_trans logs_step)

lemma empty_store_ok [simp]: "store_ok empty_store" "hashed empty_store" "attempts_ok empty_store"
  by (simp_all add: empty_store_def store_defs key_unique_def hashed_def attempts_ok_def)

text \<open>A concrete crypto and concrete draws, for the examples.\<close>

definition sample_crypto :: crypto where
  "sample_crypto = \<lparr>cr_digest = (\<lambda>s. take 64 (hex_of s @ replicate 64 CHR ''0'')),
     cr_pbkdf2 = (\<lambda>p s i. Inr (p @ s))\<rparr>"

definition plain_crypto :: crypto where
  "plain_crypto = \<lparr>cr_digest = (\<lambda>s. s), cr_pbkdf2 = (\<lambda>p s i. Inr (p @ s))\<rparr>"

definition sample_draws :: "rat \<Rightarrow> string \<Rightarrow> draws" where
  "sample_draws t tag = \<lparr>d_now = t, d_audit_now = t, d_audit_id = ''e'' @ tag, d_id = ''i'' @ tag,
     d_token = ''t'' @ tag, d_csrf = ''c'' @ tag, d_salt = ''salt''\<rparr>"

definition sample_origin :: origin where
  "sample_origin = \<lparr>or_remote_addr = ''10.0.0.7'', or_user_agent = ''curl''\<rparr>"

definition sample_policy :: "auth_error + password_rules" where
  "sample_policy = Inr \<lparr>pw_minimum = 8, pw_source = ''default''\<rparr>"

definition sample_store :: auth_state where
  "sample_store = snd (bootstrap_admin sample_crypto (sample_draws 100 ''1'') sample_policy (PStr ''admin'')
     (PStr ''correct horse'') sample_origin empty_store)"

lemma hex_of_digits: "list_all (\<lambda>c. is_digit c \<or> (97 \<le> code c \<and> code c \<le> 102)) (hex_of s)"
proof -
  have d: "n < 16 \<Longrightarrow> is_digit (hex_digit n) \<or> (97 \<le> code (hex_digit n) \<and> code (hex_digit n) \<le> 102)" for n
    by (auto simp: hex_digit_def is_digit_def code_char_of)
  have "code c div 16 < 16" for c
    by (simp add: code_def less_mult_imp_div_less)
  then show ?thesis using d by (auto simp: hex_of_def list_all_iff)
qed

lemma sample_digest: "digest_hex sample_crypto"
  using hex_of_digits
  by (auto simp: digest_hex_def sample_crypto_def is_hex64_def list_all_iff is_digit_def code_def
      dest!: in_set_takeD)

lemma sample_reach: "auth_reach sample_crypto empty_store sample_store"
  unfolding sample_store_def
  by (rule reach_next [OF reach_refl step_bootstrap [OF prod.collapse [symmetric]]])

text \<open>
  C7: From the empty store, every history of operations with any arguments keeps at most one user: the
  bootstrap operation closes once the administrator exists. It also keeps the unique columns of
  the tables unique.
\<close>

theorem single_administrator:
  assumes "auth_reach cr empty_store st"
  shows "length (st_users st) \<le> 1 \<and> keys_ok st"
  using store_ok_reach [OF assms empty_store_ok(1)] by (simp add: store_ok_def)

theorem single_administrator_witness:
  "auth_reach sample_crypto empty_store sample_store \<and> length (st_users sample_store) \<le> 1 \<and> keys_ok sample_store"
  using sample_reach single_administrator [OF sample_reach] by blast



text \<open>
  The audit log is append-only, and no event it gains holds the value of a key that names a
  password, token, secret or key.
\<close>

theorem audit_log_grows:
  assumes "auth_reach cr st0 st"
  shows "\<exists>new. st_audit st = st_audit st0 @ new \<and> list_all (\<lambda>e. redacted (ev_detail e)) new"
  using logs_reach [OF assms] by (simp add: logs_def)

theorem audit_log_grows_witness:
  "auth_reach sample_crypto empty_store sample_store \<and>
   (\<exists>new. st_audit sample_store = st_audit empty_store @ new \<and> list_all (\<lambda>e. redacted (ev_detail e)) new)"
  using sample_reach audit_log_grows [OF sample_reach] by blast

text \<open>
  In every store a history reaches, a login bucket is locked exactly when it counts five failures or
  more, until 30 seconds and up to 15 minutes after the last one.
\<close>

theorem lock_follows_failures:
  assumes "auth_reach cr empty_store st" "find_attempt (st_attempts st) k = Some a"
  shows "la_failures a \<ge> 1 \<and>
    (if la_failures a \<ge> 5
     then \<exists>n. 30 \<le> n \<and> n \<le> 900 \<and> la_locked_until a = Some (la_last_failed_at a + of_int n)
     else la_locked_until a = None)"
proof -
  have "30 \<le> lock_seconds f" "lock_seconds f \<le> 900" for f
    using one_le_power [of "2 :: int" "nat (min 6 (f - 5))"] by (auto simp: lock_seconds_def)
  moreover have "attempt_row_ok a"
    using attempts_ok_row [OF attempts_ok_reach [OF assms(1)] assms(2)] by simp
  ultimately show ?thesis by (auto simp: attempt_row_ok_def)
qed

definition sample_failed :: auth_state where
  "sample_failed = snd (login plain_crypto (sample_draws 200 ''2'') (PStr ''admin'') (PStr ''wrong'')
     sample_origin PNone empty_store)"

theorem lock_follows_failures_witness:
  "\<exists>a. find_attempt (st_attempts sample_failed) (login_bucket plain_crypto ''10.0.0.7'') = Some a
     \<and> la_failures a \<ge> 1 \<and> la_locked_until a = None"
proof -
  have r: "auth_reach plain_crypto empty_store sample_failed"
    unfolding sample_failed_def
    by (rule reach_next [OF reach_refl step_login [OF prod.collapse [symmetric]]])
  have e: "map_option la_failures (find_attempt (st_attempts sample_failed) (login_bucket plain_crypto ''10.0.0.7'')) = Some 1"
    by code_simp
  then obtain a where "find_attempt (st_attempts sample_failed) (login_bucket plain_crypto ''10.0.0.7'') = Some a"
    "la_failures a = 1" by auto
  then show ?thesis using lock_follows_failures [OF r] by fastforce
qed

end
