(* ===== verification/AuthUse.thy ===== *)
theory AuthUse
  imports AuthSafety
begin

text \<open>
  What a client of the authentication store may rely on: passwords verify against their stored form,
  a login yields a session that verifies until it expires or is revoked, failed logins lock their own
  address only, a recovery token works once and ends the sessions, an API key verifies until it
  expires or is revoked, and clean-up removes nothing that is still of use.
\<close>

lemma findD: "List.find p xs = Some x \<Longrightarrow> x \<in> set xs \<and> p x"
  by (auto simp: find_Some_iff)

section \<open>Passwords\<close>

lemma split_on_nop: "c \<notin> set s \<Longrightarrow> split_on c s = [s]"
  by (induction s) auto

lemma split_on_append: "c \<notin> set s \<Longrightarrow> split_on c (s @ c # t) = s # split_on c t"
  by (induction s) auto

lemma hex_digit_value: "n < 16 \<Longrightarrow> hex_value (hex_digit n) = Some n"
  by (auto simp: hex_value_def hex_digit_def Let_def code_char_of)

lemma hex_digit_space: "n < 16 \<Longrightarrow> \<not> ascii_space (hex_digit n)"
  by (auto simp: ascii_space_def hex_digit_def Let_def code_char_of)

lemma code_lt: "code c < 256"
  using of_char_mod_256 [of c, where ?'a = nat] by (metis code_def mod_less_divisor zero_less_numeral)

lemma from_hex_of [simp]: "from_hex (hex_of s) = Some s"
proof (induction s)
  case (Cons c s)
  have "code c div 16 < 16" using code_lt [of c] by (simp add: less_mult_imp_div_less)
  moreover have "16 * (code c div 16) + code c mod 16 = code c" by simp
  ultimately show ?case using Cons
    by (simp add: hex_of_def hex_digit_value hex_digit_space) (simp add: code_def)
qed (simp add: hex_of_def)

lemma dollar_free: "CHR ''$'' \<notin> set (hex_of s)" "CHR ''$'' \<notin> set (int_str i)" "CHR ''$'' \<notin> set PASSWORD_ALGORITHM"
proof -
  show "CHR ''$'' \<notin> set (hex_of s)"
    using hex_of_digits [of s] by (auto simp: list_all_iff is_digit_def code_def)
  show "CHR ''$'' \<notin> set (int_str i)"
    using int_str_char [of "CHR ''$''" i] by (auto simp: is_digit_def code_def)
qed (simp add: PASSWORD_ALGORITHM_def)

lemma split_stored_form:
  "split_on CHR ''$'' (stored_form i s v) = [PASSWORD_ALGORITHM, int_str i, hex_of s, hex_of v]"
  by (simp add: stored_form_def split_on_append split_on_nop dollar_free)

lemma verify_stored_form:
  "verify_password cr p (stored_form i s v) =
     (case cr_pbkdf2 cr (str_or_empty p) s i of
        Inr actual \<Rightarrow> Inr (actual = v)
      | Inl e \<Rightarrow> if e = TypeError \<or> e = ValueError then Inr False else Inl e)"
  by (simp add: verify_password_def split_stored_form)

lemma rehash_stored_form: "password_needs_rehash (stored_form i s v) \<longleftrightarrow> i < PASSWORD_ITERATIONS"
  by (simp add: password_needs_rehash_def split_stored_form)

lemma password_hash_Inr:
  assumes "password_hash cr d (PStr p) policy = Inr h"
  obtains v where "cr_pbkdf2 cr p (d_salt d) PASSWORD_ITERATIONS = Inr v"
    "h = stored_form PASSWORD_ITERATIONS (d_salt d) v"
    "pw_minimum policy \<le> int (length p)" "1 \<le> pw_minimum policy" "int (length p) \<le> 1024"
  using assms
  by (auto simp: password_hash_def validate_password_def password_minimum_def password_hash_verified_def
      password_text_def result_simps Let_def PASSWORD_MAX_LENGTH_def split: if_splits sum.splits)

text \<open>
  C21: The hash stored for a password verifies that password and no other that PBKDF2 tells apart, is
  not due for a rehash, and is made only for passwords of the policy's minimum length and at most
  1024 characters.
\<close>

theorem password_roundtrip:
  assumes "password_hash cr d (PStr p) policy = Inr h"
  shows "verify_password cr (PStr p) h = Inr True \<and> \<not> password_needs_rehash h
    \<and> pw_minimum policy \<le> int (length p) \<and> 1 \<le> length p \<and> length p \<le> 1024
    \<and> (case cr_pbkdf2 cr q (d_salt d) PASSWORD_ITERATIONS of
         Inr v \<Rightarrow> verify_password cr (PStr q) h = Inr (cr_pbkdf2 cr p (d_salt d) PASSWORD_ITERATIONS = Inr v)
       | Inl e \<Rightarrow> verify_password cr (PStr q) h \<noteq> Inr True)"
proof -
  from assms obtain v where v: "cr_pbkdf2 cr p (d_salt d) PASSWORD_ITERATIONS = Inr v"
    "h = stored_form PASSWORD_ITERATIONS (d_salt d) v"
    "pw_minimum policy \<le> int (length p)" "1 \<le> pw_minimum policy" "int (length p) \<le> 1024"
    by (rule password_hash_Inr)
  then show ?thesis
    by (auto simp: verify_stored_form rehash_stored_form split: sum.splits)
qed

theorem password_roundtrip_witness:
  "\<exists>h. password_hash sample_crypto (sample_draws 1 ''1'') (PStr ''correct horse'') \<lparr>pw_minimum = 8, pw_source = ''default''\<rparr> = Inr h
     \<and> verify_password sample_crypto (PStr ''correct horse'') h = Inr True
     \<and> verify_password sample_crypto (PStr ''wrong horse'') h = Inr False"
proof -
  let ?p = "\<lparr>pw_minimum = 8, pw_source = ''default''\<rparr>"
  have h: "password_hash sample_crypto (sample_draws 1 ''1'') (PStr ''correct horse'') ?p
      = Inr (stored_form PASSWORD_ITERATIONS ''salt'' ''correct horsesalt'')"
    by (simp add: password_hash_def validate_password_def password_text_def password_minimum_def
        password_hash_verified_def sample_crypto_def sample_draws_def PASSWORD_MAX_LENGTH_def)
  show ?thesis
    using password_roundtrip [OF h, of "''wrong horse''"] h
    by (simp add: sample_crypto_def sample_draws_def)
qed

section \<open>Lock-out\<close>

lemma find_put_attempt: "find_attempt (put_attempt k a rows) k' = (if k' = k then Some a else find_attempt rows k')"
  by (simp add: find_attempt_def put_attempt_def)

lemma rate_limit_row_Inr:
  "rate_limit_row cr addr now st = Inr (key, row) \<Longrightarrow>
   key = login_bucket cr addr \<and> row = find_attempt (st_attempts st) key \<and> locked_at row now = None"
  by (auto simp: rate_limit_row_def Let_def split: option.splits)

lemma login_succeeded_error: "login_succeeded cr d key u password o' ttl st = (Inl (AuthError c m s r), st') \<Longrightarrow> False"
  by (auto simp: login_succeeded_def Let_def result_simps mapE_def password_hash_verified_def session_ttl_def
      insert_unique_def split: if_splits sum.splits prod.splits)

lemma login_invalid_credentials:
  assumes "login cr d username password o' ttl st = (Inl (AuthError ''invalid_credentials'' m s r), st')"
  shows "\<exists>name. login_failed d (login_bucket cr (or_remote_addr o'))
      (find_attempt (st_attempts st) (login_bucket cr (or_remote_addr o'))) name o' st
    = (Inl (AuthError ''invalid_credentials'' m s r), st')"
  using assms
  by (auto simp: login_def Let_def login_user_def rate_limit_row_def dest!: login_succeeded_error
      split: sum.splits prod.splits option.splits if_splits)

lemma lock_seconds_range: "30 \<le> lock_seconds f \<and> lock_seconds f \<le> 900"
  using one_le_power [of "2 :: int" "nat (min 6 (f - 5))"] by (auto simp: lock_seconds_def)

lemma failed_attempt_lock:
  "la_locked_until (failed_attempt row name addr now) =
     (if la_failures (failed_attempt row name addr now) \<ge> 5
      then Some (now + of_int (lock_seconds (la_failures (failed_attempt row name addr now)))) else None)"
  by (auto simp: failed_attempt_def Let_def)

lemma login_failed_429:
  assumes "login_failed d key row name o' st = (Inl (AuthError c m 429 r), st')"
  shows "\<exists>a n. r = Some n \<and> 30 \<le> n \<and> n \<le> 900 \<and> find_attempt (st_attempts st') key = Some a
    \<and> la_locked_until a = Some (d_now d + of_int n)"
proof -
  let ?a = "failed_attempt row name (or_remote_addr o') (d_now d)"
  let ?n = "lock_seconds (la_failures ?a)"
  have "find_attempt (st_attempts st') key = Some ?a" "la_locked_until ?a = Some (d_now d + of_int ?n)" "r = Some ?n"
    using assms lock_seconds_range [of "la_failures ?a"] failed_attempt_lock [of row name "or_remote_addr o'" "d_now d"]
    by (auto simp: login_failed_def record_login_failure_def Let_def find_put_attempt
        split: option.splits if_splits)
  then show ?thesis using lock_seconds_range by blast
qed


text \<open>A store in which one address has failed four times.\<close>

definition four_failures :: auth_state where
  "four_failures = empty_store\<lparr>st_attempts := [(''remote|10.0.0.7'',
     \<lparr>la_username = ''admin'', la_remote_addr = ''10.0.0.7'', la_failures = 4, la_window_started_at = 100,
      la_last_failed_at = 103, la_locked_until = None, la_updated_at = 103\<rparr>)]\<rparr>"

definition five_failures :: auth_state where
  "five_failures = snd (login plain_crypto (sample_draws 104 ''x'') (PStr ''admin'') (PStr ''wrong'') sample_origin PNone four_failures)"

lemma fifth_failure:
  "login plain_crypto (sample_draws 104 ''x'') (PStr ''admin'') (PStr ''wrong'') sample_origin PNone four_failures
     = (Inl (AuthError ''invalid_credentials'' ''invalid username or password'' 429 (Some 30)), five_failures)"
proof -
  have t: "trunc 30 = 30" using trunc_of_int [of 30] by simp
  show ?thesis
    by (simp add: five_failures_def login_def rate_limit_row_def login_bucket_def find_attempt_def four_failures_def
        sample_origin_def plain_crypto_def locked_at_def login_user_def login_failed_def record_login_failure_def
        failed_attempt_def sample_draws_def lock_seconds_def t empty_store_def Let_def)
qed


text \<open>
  A login touches no bucket but that of its own address, and a successful one clears its own.
\<close>

theorem login_keeps_other_buckets:
  assumes "key_unique fst (st_attempts st)" "login cr d username password o' ttl st = (g, st')"
  shows "find_attempt (st_attempts st') k =
    (if k = login_bucket cr (or_remote_addr o') then find_attempt (st_attempts st') k
     else find_attempt (st_attempts st) k)
    \<and> (isInr g \<longrightarrow> find_attempt (st_attempts st') (login_bucket cr (or_remote_addr o')) = None)"
  using assms buckets.find_put [OF assms(1)] buckets.find_drop [OF assms(1)]
  by (auto simp: login_def login_failed_def login_succeeded_def record_login_failure_def Let_def
      dest!: rate_limit_row_Inr split: sum.splits prod.splits option.splits if_splits)

theorem login_keeps_other_buckets_witness:
  "key_unique fst (st_attempts four_failures) \<and>
   find_attempt (st_attempts (snd (login plain_crypto (sample_draws 104 ''x'') (PStr ''admin'') (PStr ''wrong'')
     (sample_origin\<lparr>or_remote_addr := ''10.0.0.8''\<rparr>) PNone four_failures))) ''remote|10.0.0.7''
     = find_attempt (st_attempts four_failures) ''remote|10.0.0.7''"
proof -
  have u: "key_unique fst (st_attempts four_failures)"
    by (simp add: four_failures_def key_unique_def)
  have n: "''remote|10.0.0.7'' \<noteq> login_bucket plain_crypto ''10.0.0.8''"
    by (simp add: login_bucket_def plain_crypto_def)
  show ?thesis
    using u n login_keeps_other_buckets [OF u prod.collapse [symmetric],
        of plain_crypto "sample_draws 104 ''x''" "PStr ''admin''" "PStr ''wrong''"
           "sample_origin\<lparr>or_remote_addr := ''10.0.0.8''\<rparr>" PNone "''remote|10.0.0.7''"]
    by simp
qed

section \<open>Sessions\<close>

lemma find_snoc_fresh:
  "key r \<notin> key ` set rows \<Longrightarrow> List.find (\<lambda>s. key s = key r \<and> p s) (rows @ [r]) = (if p r then Some r else None)"
  by (induction rows) auto

lemma login_Inr:
  assumes "login cr d username password o' ttl st = (Inr g, st')"
  shows "\<exists>u t. u \<in> set (st_users st) \<and> au_enabled u \<and> lg_token g = d_token d \<and> lg_csrf g = d_csrf d
    \<and> lg_session_id g = d_id d \<and> lg_user_id g = au_id u \<and> lg_username g = au_username u
    \<and> lg_expires_at g = d_now d + of_int t \<and> as_token_hash (new_session cr d u t o') \<notin> as_token_hash ` set (st_sessions st)
    \<and> st_sessions st' = st_sessions st @ [new_session cr d u t o']
    \<and> list_all2 (\<lambda>v' v. au_id v' = au_id v \<and> au_username v' = au_username v \<and> au_enabled v' = au_enabled v)
        (st_users st') (st_users st)"
proof -
  have l: "list_all2 (\<lambda>v' v. au_id v' = au_id v \<and> au_username v' = au_username v \<and> au_enabled v' = au_enabled v)
      (update_where p (\<lambda>v. v\<lparr>au_last_login_at := x, au_updated_at := y\<rparr>) us) us"
    "list_all2 (\<lambda>v' v. au_id v' = au_id v \<and> au_username v' = au_username v \<and> au_enabled v' = au_enabled v)
      (update_where p (\<lambda>v. v\<lparr>au_last_login_at := x, au_updated_at := y\<rparr>) (set_hash uid h z us)) us" for p x y us uid h z
    by (auto simp: update_where_def set_hash_def list_all2_conv_all_nth)
  from assms show ?thesis
    by (auto simp: login_def Let_def login_user_def login_failed_def login_succeeded_def result_simps mapE_def insert_unique_Inr
        l find_Some_iff in_set_conv_nth new_session_def dest: nth_mem
        split: sum.splits prod.splits option.splits if_splits)
qed

text \<open>
  The token of a successful login verifies exactly until its expiry, for the user that logged in; the
  CSRF flag is set for the CSRF token of the same login.
\<close>

theorem login_session_verifies:
  assumes "store_ok st" "login cr d username password o' ttl st = (Inr g, st')" "lg_token g \<noteq> []"
  shows "if now < lg_expires_at g
    then \<exists>w. fst (verify_session cr now (lg_token g) csrf touch st') = Some w
      \<and> vs_session_id w = lg_session_id g \<and> vs_user_id w = lg_user_id g \<and> vs_username w = lg_username g
      \<and> vs_csrf_valid w = (csrf \<noteq> [] \<and> cr_digest cr (lg_csrf g) \<noteq> [] \<and> cr_digest cr csrf = cr_digest cr (lg_csrf g))
    else fst (verify_session cr now (lg_token g) csrf touch st') = None"
proof -
  from login_Inr [OF assms(2)] obtain u t where u: "u \<in> set (st_users st)" "au_enabled u"
    and g: "lg_token g = d_token d" "lg_csrf g = d_csrf d" "lg_session_id g = d_id d"
      "lg_user_id g = au_id u" "lg_username g = au_username u" "lg_expires_at g = d_now d + of_int t"
    and s: "as_token_hash (new_session cr d u t o') \<notin> as_token_hash ` set (st_sessions st)"
      "st_sessions st' = st_sessions st @ [new_session cr d u t o']"
    and l: "list_all2 (\<lambda>v' v. au_id v' = au_id v \<and> au_username v' = au_username v \<and> au_enabled v' = au_enabled v)
        (st_users st') (st_users st)" by blast
  let ?s = "new_session cr d u t o'"
  have "st_users st = [u]" using u(1) assms(1) by (cases "st_users st") (auto simp: store_ok_def)
  then obtain u' where u': "st_users st' = [u']" "au_id u' = au_id u" "au_username u' = au_username u" "au_enabled u'"
    using l u(2) by (auto simp: list_all2_Cons2)
  have "List.find (\<lambda>r. as_token_hash r = cr_digest cr (d_token d) \<and> live_session now r) (st_sessions st')
      = (if live_session now ?s then Some ?s else None)"
    using find_snoc_fresh [of as_token_hash ?s "st_sessions st" "live_session now"] s by (simp add: new_session_def)
  then show ?thesis using u' assms(3) g
    by (auto simp: verify_session_def session_row_def user_by_id_def new_session_def live_session_def)
qed

lemma sample_store_ok: "store_ok sample_store"
  by (rule store_ok_reach [OF sample_reach empty_store_ok(1)])

lemma sample_user:
  "st_users sample_store = [\<lparr>au_id = ''i1'', au_username = ''admin'',
     au_hash = stored_form PASSWORD_ITERATIONS ''salt'' ''correct horsesalt'', au_role = ''admin'',
     au_enabled = True, au_created_at = 100, au_updated_at = 100, au_last_login_at = None,
     au_password_changed_at = Some 100\<rparr>]
   \<and> st_sessions sample_store = [] \<and> st_keys sample_store = [] \<and> st_attempts sample_store = []
   \<and> st_recovery sample_store = []"
proof -
  have n: "strip ''admin'' = ''admin''" "safe_username ''admin''" by code_simp+
  show ?thesis
    by (simp add: sample_store_def bootstrap_admin_def n sample_policy_def password_hash_def validate_password_def
        password_text_def password_minimum_def password_hash_verified_def sample_crypto_def sample_draws_def
        PASSWORD_MAX_LENGTH_def empty_store_def Let_def)
qed

definition sample_grant :: login_grant where
  "sample_grant = \<lparr>lg_session_id = ''i2'', lg_token = ''t2'', lg_csrf = ''c2'', lg_expires_at = 43400,
     lg_user_id = ''i1'', lg_username = ''admin'', lg_role = ''admin''\<rparr>"

definition sample_login :: auth_state where
  "sample_login = snd (login sample_crypto (sample_draws 200 ''2'') (PStr ''admin'') (PStr ''correct horse'')
     sample_origin PNone sample_store)"

lemma sample_login_Inr:
  "login sample_crypto (sample_draws 200 ''2'') (PStr ''admin'') (PStr ''correct horse'') sample_origin PNone sample_store
     = (Inr sample_grant, sample_login)"
proof -
  have n: "strip ''admin'' = ''admin''" by code_simp
  show ?thesis
    by (simp add: sample_login_def login_def n rate_limit_row_def locked_at_def find_attempt_def sample_user login_user_def
        verify_stored_form login_succeeded_def rehash_stored_form session_ttl_def por_def new_session_def
        insert_unique_def sample_grant_def mapE_def sample_draws_def sample_crypto_def Let_def split: prod.splits)
qed

theorem login_session_verifies_witness:
  "store_ok sample_store \<and> fst (login sample_crypto (sample_draws 200 ''2'') (PStr ''admin'') (PStr ''correct horse'')
      sample_origin PNone sample_store) = Inr sample_grant \<and>
   fst (verify_session sample_crypto 300 ''t2'' [] False sample_login) \<noteq> None \<and>
   fst (verify_session sample_crypto 43400 ''t2'' [] False sample_login) = None"
  using login_session_verifies [OF sample_store_ok sample_login_Inr, of 300 "[]" False]
    login_session_verifies [OF sample_store_ok sample_login_Inr, of 43400 "[]" False]
    sample_store_ok sample_login_Inr
  by (auto simp: sample_grant_def)

text \<open>How one step changes the session rows.\<close>

definition sessions_evolve :: "auth_state \<Rightarrow> auth_state \<Rightarrow> bool" where
  "sessions_evolve st st' \<longleftrightarrow> (\<forall>s' \<in> set (st_sessions st').
     as_token_hash s' \<notin> as_token_hash ` set (st_sessions st) \<or>
     (\<exists>s \<in> set (st_sessions st). as_token_hash s' = as_token_hash s \<and> (as_revoked_at s \<noteq> None \<longrightarrow> as_revoked_at s' \<noteq> None)))"

lemma evolve_same: "st_sessions st' = st_sessions st \<Longrightarrow> sessions_evolve st st'"
  by (auto simp: sessions_evolve_def)

lemma evolve_update:
  "st_sessions st' = update_where p f (st_sessions st) \<Longrightarrow>
   (\<And>s. as_token_hash (f s) = as_token_hash s \<and> (as_revoked_at s \<noteq> None \<longrightarrow> as_revoked_at (f s) \<noteq> None)) \<Longrightarrow>
   sessions_evolve st st'"
  by (fastforce simp: sessions_evolve_def set_update_where)

lemma evolve_revoke: "st_sessions st' = revoke_where p now reason (st_sessions st) \<Longrightarrow> sessions_evolve st st'"
  by (rule evolve_update) (auto simp: revoke_where_def)

lemma evolve_delete: "st_sessions st' = delete_where p (st_sessions st) \<Longrightarrow> sessions_evolve st st'"
  by (auto simp: sessions_evolve_def)

lemma evolve_insert:
  "st_sessions st' = st_sessions st @ [s] \<Longrightarrow> as_token_hash s \<notin> as_token_hash ` set (st_sessions st) \<Longrightarrow> sessions_evolve st st'"
  by (simp add: sessions_evolve_def) blast

lemma evolve_login:
  assumes "login cr d username password o' ttl st = (g, st')"
  shows "sessions_evolve st st'"
proof (cases g)
  case (Inr g')
  then show ?thesis using login_Inr [of cr d username password o' ttl st g' st'] assms
    by (auto intro: evolve_insert)
next
  case (Inl e)
  then have "st_sessions st' = st_sessions st" using assms
    by (auto simp: login_def Let_def login_failed_def record_login_failure_def login_succeeded_def
        split: sum.splits prod.splits option.splits)
  then show ?thesis by (rule evolve_same)
qed

lemma evolve_revocations:
  "verify_session cr now token csrf touch st = (w, st') \<Longrightarrow> sessions_evolve st st'"
  "revoke_session cr d token reason a st = (n, st') \<Longrightarrow> sessions_evolve st st'"
  "revoke_user_sessions d uid keep reason a st = (n, st') \<Longrightarrow> sessions_evolve st st'"
  "change_password cr d policy uid current new keep others o' st = (b, st') \<Longrightarrow> sessions_evolve st st'"
  "reset_password_with_recovery cr d policy token new o' st = (v, st') \<Longrightarrow> sessions_evolve st st'"
  "cleanup_auth_state d a args err st = (report, st') \<Longrightarrow> sessions_evolve st st'"
  by (auto simp: verify_session_def revoke_session_def revoke_user_sessions_def change_password_def
      reset_password_with_recovery_def Let_def evolve_same evolve_revoke evolve_update
      dest!: cleanup_state intro: evolve_delete
      split: if_splits sum.splits bool.splits option.splits prod.splits)

lemma evolve_others:
  "bootstrap_admin cr d policy username password o' st = (r, st') \<Longrightarrow> sessions_evolve st st'"
  "create_recovery_token cr d who by ttl st = (rg, st') \<Longrightarrow> sessions_evolve st st'"
  "create_api_key cr d name description scopes a expires_in expires_at st = (k, st') \<Longrightarrow> sessions_evolve st st'"
  "verify_api_key cr now token mark st = (k', st') \<Longrightarrow> sessions_evolve st st'"
  "revoke_api_key d key_id a st = (m, st') \<Longrightarrow> sessions_evolve st st'"
  "audit_external_auth d p remote agent interval st = (x, st') \<Longrightarrow> sessions_evolve st st'"
  by (auto simp: bootstrap_admin_def create_recovery_token_def create_api_key_def verify_api_key_def
      revoke_api_key_def audit_external_auth_def Let_def evolve_same
      split: if_splits sum.splits option.splits prod.splits)

lemma evolve_step: "auth_step cr st st' \<Longrightarrow> sessions_evolve st st'"
  by (cases rule: auth_step.cases) (auto dest: evolve_login evolve_revocations evolve_others)

text \<open>A history in which no session is issued with the token hash \<open>h\<close> again.\<close>

inductive reach_without :: "crypto \<Rightarrow> string \<Rightarrow> auth_state \<Rightarrow> auth_state \<Rightarrow> bool" for cr h st0 where
  without_refl: "reach_without cr h st0 st0"
| without_next: "\<lbrakk>reach_without cr h st0 st; auth_step cr st st';
     h \<in> as_token_hash ` set (st_sessions st') \<Longrightarrow> h \<in> as_token_hash ` set (st_sessions st)\<rbrakk>
   \<Longrightarrow> reach_without cr h st0 st'"

definition dead :: "string \<Rightarrow> auth_state \<Rightarrow> bool" where
  "dead h st = list_all (\<lambda>s. as_token_hash s = h \<longrightarrow> as_revoked_at s \<noteq> None) (st_sessions st)"

lemma dead_verify: "dead (cr_digest cr token) st \<Longrightarrow> fst (verify_session cr now token csrf touch st) = None"
  by (auto simp: verify_session_def session_row_def live_session_def dead_def list_all_iff find_Some_iff
      dest: nth_mem split: option.splits)

lemma dead_evolve:
  assumes "key_unique as_token_hash (st_sessions st)" "dead h st" "sessions_evolve st st'"
    and "h \<in> as_token_hash ` set (st_sessions st') \<Longrightarrow> h \<in> as_token_hash ` set (st_sessions st)"
  shows "dead h st'"
  unfolding dead_def list_all_iff
proof (intro ballI impI)
  fix s' assume s': "s' \<in> set (st_sessions st')" "as_token_hash s' = h"
  then have "h \<in> as_token_hash ` set (st_sessions st)" using assms(4) by auto
  then obtain s where "s \<in> set (st_sessions st)" "as_token_hash s = h"
    "as_revoked_at s \<noteq> None \<longrightarrow> as_revoked_at s' \<noteq> None"
    using s' assms(3) by (force simp: sessions_evolve_def)
  then show "as_revoked_at s' \<noteq> None" using assms(2) by (auto simp: dead_def list_all_iff)
qed

lemma dead_reach: "reach_without cr h st0 st \<Longrightarrow> store_ok st0 \<Longrightarrow> dead h st0 \<Longrightarrow> dead h st \<and> store_ok st"
proof (induction rule: reach_without.induct)
  case (without_next st st')
  then show ?case using dead_evolve [of st h st'] evolve_step [of cr st st'] store_ok_step [of cr st st']
    by (auto simp: store_ok_def keys_ok_def)
qed simp

lemma revoke_session_dead:
  assumes "store_ok st" "revoke_session cr d token reason a st = (n, st')" "token \<noteq> []"
  shows "dead (cr_digest cr token) st'"
proof (cases "List.find (\<lambda>s. as_token_hash s = cr_digest cr token \<and> as_revoked_at s = None) (st_sessions st)")
  case None
  then have "st' = st" using assms by (simp add: revoke_session_def)
  then show ?thesis using None by (auto simp: dead_def list_all_iff find_None_iff)
next
  case (Some row)
  then have row: "row \<in> set (st_sessions st)" "as_token_hash row = cr_digest cr token"
    by (auto simp: find_Some_iff)
  have u: "s = row" if "s \<in> set (st_sessions st)" "as_token_hash s = cr_digest cr token" for s
    using assms(1) that row key_unique_inj [of as_token_hash "st_sessions st"] by (auto simp: store_ok_def keys_ok_def)
  show ?thesis using assms Some u
    by (auto simp: revoke_session_def dead_def revoke_where_def list_all_iff set_update_where)
qed

text \<open>
  C9: A revoked session token never verifies again, whatever operations follow, unless a later login
  draws the very same token.
\<close>

theorem revoked_session_never_verifies:
  assumes "store_ok st" "revoke_session cr d token reason a st = (n, st1)"
    and "reach_without cr (cr_digest cr token) st1 st2"
  shows "fst (verify_session cr now token csrf touch st2) = None"
proof (cases "token = []")
  case False
  have "store_ok st1" using store_ok_revoke_session [OF assms(1,2)] .
  then show ?thesis
    using dead_verify [OF dead_reach [OF assms(3), THEN conjunct1]] revoke_session_dead [OF assms(1,2) False] by blast
qed (simp add: verify_session_def)

theorem revoked_session_never_verifies_witness:
  "\<exists>st1. snd (revoke_session sample_crypto (sample_draws 250 ''3'') ''t2'' ''logout'' \<lparr>ac_method = ''session'', ac_id = ''i1''\<rparr> sample_login) = st1
    \<and> fst (verify_session sample_crypto 300 ''t2'' [] False
        (snd (revoke_user_sessions (sample_draws 260 ''4'') ''i1'' [] ''admin'' \<lparr>ac_method = [], ac_id = []\<rparr> st1))) = None"
proof -
  let ?a = "\<lparr>ac_method = ''session'', ac_id = ''i1''\<rparr>" and ?b = "\<lparr>ac_method = [], ac_id = []\<rparr>"
  let ?st1 = "snd (revoke_session sample_crypto (sample_draws 250 ''3'') ''t2'' ''logout'' ?a sample_login)"
  let ?st2 = "snd (revoke_user_sessions (sample_draws 260 ''4'') ''i1'' [] ''admin'' ?b ?st1)"
  have ok: "store_ok sample_login" using store_ok_login [OF sample_store_ok sample_login_Inr] .
  have h: "as_token_hash ` set (st_sessions ?st2) = as_token_hash ` set (st_sessions ?st1)"
    by (simp add: revoke_user_sessions_def Let_def flip: set_map)
      (simp add: revoke_where_def map_key_update_where)
  have r: "reach_without sample_crypto (cr_digest sample_crypto ''t2'') ?st1 ?st2"
    by (rule without_next [OF without_refl step_revoke_user [OF prod.collapse [symmetric]]]) (simp only: h)
  show ?thesis
    using revoked_session_never_verifies [OF ok prod.collapse [symmetric] r] by blast
qed

section \<open>Recovery\<close>

lemma reset_Inr:
  assumes "reset_password_with_recovery cr d policy token new o' st = (Inr (), st')"
  shows "\<exists>r hash. r \<in> set (st_recovery st) \<and> usable_recovery cr token (d_now d) r
    \<and> bindE policy (password_hash cr d new) = Inr hash
    \<and> st_users st' = set_password (rt_user_id r) hash (d_now d) (st_users st)
    \<and> st_recovery st' = update_where (\<lambda>x. rt_id x = rt_id r) (\<lambda>x. x\<lparr>rt_used_at := Some (d_now d)\<rparr>) (st_recovery st)
    \<and> st_sessions st' = revoke_where (revocable (rt_user_id r) []) (d_now d) ''password_recovery'' (st_sessions st)"
  using assms
  by (auto simp: reset_password_with_recovery_def recovery_row_def find_Some_iff in_set_conv_nth
      split: sum.splits option.splits prod.splits)

lemma used_never_usable:
  assumes "\<And>r. r \<in> set (st_recovery st) \<Longrightarrow> rt_token_hash r = cr_digest cr token \<Longrightarrow> rt_used_at r \<noteq> None"
  shows "recovery_row cr token now st = None"
  using assms by (fastforce simp: recovery_row_def usable_recovery_def dest!: findD split: option.splits)

text \<open>
  A recovery token resets a password only while it is unused and unexpired. The reset stores the hash
  of the new password, ends every session of the user, and the same token never works again.
\<close>

theorem recovery_token_once:
  assumes "store_ok st" "reset_password_with_recovery cr d policy token new o' st = (Inr (), st')"
  shows "\<exists>r hash. r \<in> set (st_recovery st) \<and> rt_token_hash r = cr_digest cr token \<and> rt_used_at r = None
    \<and> d_now d < rt_expires_at r
    \<and> bindE policy (password_hash cr d new) = Inr hash
    \<and> list_all (\<lambda>u. au_id u = rt_user_id r \<longrightarrow> au_hash u = hash) (st_users st')
    \<and> list_all (\<lambda>s. as_user_id s = rt_user_id r \<longrightarrow> as_revoked_at s \<noteq> None) (st_sessions st')
    \<and> fst (reset_password_with_recovery cr d2 policy2 token new2 o2 st') \<noteq> Inr ()"
proof -
  from reset_Inr [OF assms(2)] obtain r hash where r: "r \<in> set (st_recovery st)" "usable_recovery cr token (d_now d) r"
    and h: "bindE policy (password_hash cr d new) = Inr hash"
    and u: "st_users st' = set_password (rt_user_id r) hash (d_now d) (st_users st)"
    and v: "st_recovery st' = update_where (\<lambda>x. rt_id x = rt_id r) (\<lambda>x. x\<lparr>rt_used_at := Some (d_now d)\<rparr>) (st_recovery st)"
    and s: "st_sessions st' = revoke_where (revocable (rt_user_id r) []) (d_now d) ''password_recovery'' (st_sessions st)"
    by blast
  have only: "x = r" if "x \<in> set (st_recovery st)" "rt_token_hash x = cr_digest cr token" for x
    using assms(1) r that key_unique_inj [of rt_token_hash "st_recovery st" x r]
    by (auto simp: store_defs usable_recovery_def)
  have "recovery_row cr token (d_now d2) st' = None"
    using only by (intro used_never_usable) (auto simp: v set_update_where)
  then have "fst (reset_password_with_recovery cr d2 policy2 token new2 o2 st') \<noteq> Inr ()"
    by (auto simp: reset_password_with_recovery_def split: sum.splits)
  moreover have "list_all (\<lambda>u. au_id u = rt_user_id r \<longrightarrow> au_hash u = hash) (st_users st')"
    by (auto simp: u set_password_def list_all_iff set_update_where)
  moreover have "list_all (\<lambda>s. as_user_id s = rt_user_id r \<longrightarrow> as_revoked_at s \<noteq> None) (st_sessions st')"
    by (auto simp: s revoke_where_def list_all_iff set_update_where revocable_def)
  ultimately show ?thesis using r h by (auto simp: usable_recovery_def)
qed

definition sample_recovery :: auth_state where
  "sample_recovery = snd (create_recovery_token sample_crypto (sample_draws 300 ''5'') ''admin'' ''root'' PNone sample_login)"

definition sample_reset :: auth_state where
  "sample_reset = snd (reset_password_with_recovery sample_crypto (sample_draws 400 ''6'') sample_policy ''t5''
     (PStr ''another horse'') sample_origin sample_recovery)"

lemma sample_login_fields:
  "map (\<lambda>u. (au_id u, au_username u, au_enabled u)) (st_users sample_login) = [(''i1'', ''admin'', True)]
   \<and> st_recovery sample_login = []"
proof -
  have n: "strip ''admin'' = ''admin''" by code_simp
  show ?thesis
    by (simp add: sample_login_def login_def n rate_limit_row_def locked_at_def find_attempt_def sample_user login_user_def
        verify_stored_form login_succeeded_def rehash_stored_form session_ttl_def por_def new_session_def
        insert_unique_def mapE_def sample_draws_def sample_crypto_def Let_def update_where_def split: prod.splits)
qed

lemma sample_recovery_fields:
  "map (\<lambda>u. (au_id u, au_username u, au_enabled u)) (st_users sample_recovery) = [(''i1'', ''admin'', True)]
   \<and> st_recovery sample_recovery = [\<lparr>rt_id = ''i5'', rt_user_id = ''i1'', rt_token_hash = cr_digest sample_crypto ''t5'',
        rt_created_at = 300, rt_expires_at = 1200, rt_used_at = None, rt_created_by = ''root''\<rparr>]"
proof -
  obtain u where u: "st_users sample_login = [u]" "au_id u = ''i1''" "au_username u = ''admin''" "au_enabled u"
    using sample_login_fields by (auto simp: map_eq_Cons_conv)
  show ?thesis
    using sample_login_fields
    by (simp add: sample_recovery_def create_recovery_token_def recovery_user_def u recovery_ttl_def por_def
        insert_unique_def sample_draws_def Let_def)
qed

lemma sample_reset_Inr:
  "reset_password_with_recovery sample_crypto (sample_draws 400 ''6'') sample_policy ''t5''
     (PStr ''another horse'') sample_origin sample_recovery = (Inr (), sample_reset)"
proof -
  obtain u where u: "st_users sample_recovery = [u]" "au_id u = ''i1''"
    using sample_recovery_fields by (auto simp: map_eq_Cons_conv)
  have r: "\<exists>p. recovery_row sample_crypto ''t5'' 400 sample_recovery = Some p"
    by (simp add: recovery_row_def usable_recovery_def sample_recovery_fields user_by_id_def u)
  have h: "cr_pbkdf2 sample_crypto p s i = Inr (p @ s)" for p s i
    by (simp add: sample_crypto_def)
  show ?thesis
    using r by (auto simp: sample_reset_def reset_password_with_recovery_def sample_policy_def password_hash_def
        validate_password_def password_text_def password_minimum_def password_hash_verified_def PASSWORD_MAX_LENGTH_def
        h sample_draws_def)
qed

theorem recovery_token_once_witness:
  "store_ok sample_recovery \<and>
   fst (reset_password_with_recovery sample_crypto (sample_draws 400 ''6'') sample_policy ''t5''
     (PStr ''another horse'') sample_origin sample_recovery) = Inr () \<and>
   fst (reset_password_with_recovery sample_crypto (sample_draws 401 ''7'') sample_policy ''t5''
     (PStr ''third horse'') sample_origin sample_reset) \<noteq> Inr ()"
proof -
  have ok: "store_ok sample_recovery"
    unfolding sample_recovery_def
    by (rule store_ok_recovery [OF store_ok_login [OF sample_store_ok sample_login_Inr] prod.collapse [symmetric]])
  show ?thesis
    using ok sample_reset_Inr
      recovery_token_once [OF ok sample_reset_Inr, of "sample_draws 401 ''7''" sample_policy "PStr ''third horse''" sample_origin]
    by auto
qed

section \<open>API keys\<close>

lemma normalize_scopes_known: "normalize_scopes scopes = Inr sc \<Longrightarrow> set sc \<subseteq> set API_KEY_SCOPES"
proof -
  have r: "''read'' \<in> set API_KEY_SCOPES" by (simp add: API_KEY_SCOPES_def)
  assume "normalize_scopes scopes = Inr sc"
  then show ?thesis using r
    by (auto simp: normalize_scopes_def Let_def filter_empty_conv split: if_splits)
qed

lemma create_Inr:
  assumes "create_api_key cr d name description scopes a expires_in expires_at st = (Inr k, st')"
  shows "st_keys st' = st_keys st @ [k] \<and> ak_hash k = cr_digest cr (d_token d) \<and> ak_id k = d_id d \<and> ak_enabled k
    \<and> ak_revoked_at k = None \<and> ak_hash k \<notin> ak_hash ` set (st_keys st)
    \<and> normalize_scopes scopes = Inr (ak_scopes k)
    \<and> ak_role k = (if ''admin'' \<in> set (ak_scopes k) then ''admin'' else ''api'')
    \<and> (\<exists>ex. api_key_expiration expires_in expires_at (d_now d) = Inr ex \<and> ak_expires_at k = sql_real ex)"
  using assms
  by (auto simp: create_api_key_def Let_def result_simps insert_unique_Inr split: if_splits sum.splits prod.splits)

text \<open>
  A new key verifies exactly until it expires; once it is revoked by its id it never does. Its scopes
  are known ones, and its role is admin exactly when the admin scope was asked for.
\<close>

theorem api_key_lifecycle:
  assumes "create_api_key cr d name description scopes a expires_in expires_at st = (Inr k, st')"
    and "d_token d \<noteq> []" "strip (d_id d) = d_id d" "d_id d \<noteq> []"
  shows "fst (verify_api_key cr now (d_token d) mark st') = (if unexpired now k then Some k else None)
    \<and> fst (verify_api_key cr now (d_token d) mark (snd (revoke_api_key d2 (PStr (ak_id k)) a2 st'))) = None
    \<and> set (ak_scopes k) \<subseteq> set API_KEY_SCOPES
    \<and> (ak_role k = ''admin'') = (''admin'' \<in> set (ak_scopes k))"
proof -
  note k = create_Inr [OF assms(1)]
  have f: "List.find (\<lambda>r. ak_hash r = ak_hash k \<and> p r) (st_keys st') = (if p k then Some k else None)" for p
  proof -
    from k have fr: "ak_hash k \<notin> ak_hash ` set (st_keys st)" and e: "st_keys st' = st_keys st @ [k]" by blast+
    show ?thesis using find_snoc_fresh [OF fr, of p] by (simp only: e)
  qed
  have v: "valid_key cr (d_token d) now = (\<lambda>r. ak_hash r = ak_hash k \<and> (ak_enabled r \<and> ak_revoked_at r = None \<and> unexpired now r))"
    using k by (auto simp: valid_key_def)
  have "List.find (valid_key cr (d_token d) now) (st_keys st') = (if unexpired now k then Some k else None)"
    unfolding v f using k by auto
  then have "fst (verify_api_key cr now (d_token d) mark st') = (if unexpired now k then Some k else None)"
    using assms(2) by (simp add: verify_api_key_def)
  moreover have "fst (verify_api_key cr now (d_token d) mark (snd (revoke_api_key d2 (PStr (ak_id k)) a2 st'))) = None"
  proof -
    let ?f = "\<lambda>r. r\<lparr>ak_enabled := False, ak_revoked_at := Some (d_now d2), ak_updated_at := d_now d2\<rparr>"
    let ?p = "\<lambda>r. ak_id r = d_id d \<and> ak_revoked_at r = None"
    have e: "st_keys (snd (revoke_api_key d2 (PStr (ak_id k)) a2 st')) = update_where ?p ?f (st_keys st')"
      using k assms by (simp add: revoke_api_key_def Let_def)
    have "\<not> valid_key cr (d_token d) now r" if "r \<in> set (update_where ?p ?f (st_keys st'))" for r
    proof -
      have "ak_hash q \<noteq> cr_digest cr (d_token d)" if "q \<in> set (st_keys st)" for q
        using k that by (metis image_eqI)
      then show ?thesis using that k by (auto simp: set_update_where valid_key_def)
    qed
    then have "List.find (valid_key cr (d_token d) now) (update_where ?p ?f (st_keys st')) = None"
      by (auto simp: find_None_iff)
    then show ?thesis by (simp add: verify_api_key_def e)
  qed
  moreover have "set (ak_scopes k) \<subseteq> set API_KEY_SCOPES"
    using k normalize_scopes_known by blast
  ultimately show ?thesis using k by auto
qed

theorem api_key_lifecycle_witness:
  "\<exists>k st'. create_api_key plain_crypto (sample_draws 300 ''8'') (PStr ''reader'') [] [PStr ''read'']
       \<lparr>ac_method = ''session'', ac_id = ''i1''\<rparr> (PInt 3600) PNone empty_store = (Inr k, st')
     \<and> ak_expires_at k = Some 3900
     \<and> fst (verify_api_key plain_crypto 400 ''t8'' True st') = Some k
     \<and> fst (verify_api_key plain_crypto 4000 ''t8'' True st') = None"
proof -
  let ?c = "create_api_key plain_crypto (sample_draws 300 ''8'') (PStr ''reader'') [] [PStr ''read'']
       \<lparr>ac_method = ''session'', ac_id = ''i1''\<rparr> (PInt 3600) PNone empty_store"
  have e: "case fst ?c of Inr k \<Rightarrow> ak_expires_at k = Some 3900 | Inl _ \<Rightarrow> False"
    by code_simp
  then obtain k where k: "fst ?c = Inr k" "ak_expires_at k = Some 3900" by (auto split: sum.splits)
  then have c: "?c = (Inr k, snd ?c)" by (metis prod.collapse)
  have d: "d_token (sample_draws 300 ''8'') \<noteq> []" "strip (d_id (sample_draws 300 ''8'')) = d_id (sample_draws 300 ''8'')"
    "d_id (sample_draws 300 ''8'') \<noteq> []" by code_simp+
  show ?thesis
    using k(2) c api_key_lifecycle [OF c d, of 400 True] api_key_lifecycle [OF c d, of 4000 True]
    by (intro exI [of _ k] exI [of _ "snd ?c"]) (auto simp: unexpired_def sample_draws_def)
qed

text \<open>
  A key that expires does so after its creation and at most 366 days later; a key without an expiry
  is one for which none was asked, or for which \<open>expires_at\<close> read as NaN.
\<close>

theorem api_key_expiry_range:
  assumes "create_api_key cr d name description scopes a expires_in expires_at st = (Inr k, st')"
  shows "case ak_expires_at k of
      Some t \<Rightarrow> d_now d < t \<and> t \<le> d_now d + 31622400
    | None \<Rightarrow> none_or_empty expires_in \<and> (none_or_empty expires_at \<or> float_of expires_at = Inr NaN)"
proof -
  from create_Inr [OF assms] obtain ex where ex: "api_key_expiration expires_in expires_at (d_now d) = Inr ex"
    "ak_expires_at k = sql_real ex" by blast
  have f: "(case sql_real (Some t) of Some q \<Rightarrow> d_now d < q \<and> q \<le> d_now d + 31622400 | None \<Rightarrow> t = NaN)"
    if "\<not> flt_le t (Fin (d_now d))" "\<not> flt_lt (Fin 31622400) (flt_sub t (Fin (d_now d)))" for t
    using that by (cases t) (auto simp: flt_sub_def)
  show ?thesis
  proof (cases "none_or_empty expires_in")
    case True
    then show ?thesis using ex f
      by (fastforce simp: api_key_expiration_def split: if_splits sum.splits option.splits)
  next
    case False
    then show ?thesis using ex
      by (auto simp: api_key_expiration_def split: if_splits sum.splits py_exn.splits)
  qed
qed

theorem api_key_expiry_range_witness:
  "\<exists>k. fst (create_api_key plain_crypto (sample_draws 300 ''9'') (PStr ''reader'') [] [PStr ''read'']
       \<lparr>ac_method = ''session'', ac_id = ''i1''\<rparr> PNone (PFloat NaN) empty_store) = Inr k \<and> ak_expires_at k = None
     \<and> (none_or_empty (PFloat NaN) \<or> float_of (PFloat NaN) = Inr NaN)"
proof -
  let ?c = "create_api_key plain_crypto (sample_draws 300 ''9'') (PStr ''reader'') [] [PStr ''read'']
       \<lparr>ac_method = ''session'', ac_id = ''i1''\<rparr> PNone (PFloat NaN) empty_store"
  have e: "case fst ?c of Inr k \<Rightarrow> ak_expires_at k = None | Inl _ \<Rightarrow> False"
    by code_simp
  then obtain k where k: "fst ?c = Inr k" "ak_expires_at k = None" by (auto split: sum.splits)
  then have c: "?c = (Inr k, snd ?c)" by (metis prod.collapse)
  show ?thesis using api_key_expiry_range [OF c] k by auto
qed

section \<open>Clean-up\<close>

lemma cleanup_table_deleted:
  assumes "cleanup_table ident p n rows = (rest, e, k, r)" "key_unique ident rows"
  shows "list_all (\<lambda>x. \<not> p x \<longrightarrow> x \<in> set rest) rows \<and> set rest \<subseteq> set rows \<and> length rows \<le> length rest + n"
proof -
  define ids where "ids = take n (sort (map ident (filter p rows)))"
  have ids: "set ids \<subseteq> ident ` {y \<in> set rows. p y}" "card (set ids) \<le> n"
    using set_take_subset [of n "sort (map ident (filter p rows))"] card_length [of ids] by (auto simp: ids_def)
  have rest: "rest = filter (\<lambda>x. ident x \<notin> set ids) rows"
    using cleanup_table_rows [OF assms(1)] by (simp add: cleanup_ids_def delete_where_def ids_def)
  have "p x" if "x \<in> set rows" "ident x \<in> set ids" for x
  proof -
    have "ident x \<in> ident ` {y \<in> set rows. p y}" using that(2) ids(1) by blast
    then obtain y where "y \<in> set rows" "p y" "ident y = ident x" by auto
    then show ?thesis using key_unique_inj [OF assms(2)] that(1) by metis
  qed
  moreover have "length (filter (\<lambda>x. ident x \<in> set ids) rows) \<le> n"
  proof -
    have "length (filter (\<lambda>x. ident x \<in> set ids) rows) = card (ident ` set (filter (\<lambda>x. ident x \<in> set ids) rows))"
      using distinct_card [OF distinct_map_filter [OF assms(2) [unfolded key_unique_def], of "\<lambda>x. ident x \<in> set ids"]]
      by (simp only: set_map length_map)
    also have "\<dots> \<le> card (set ids)" by (rule card_mono) auto
    also have "\<dots> \<le> n" by (rule ids(2))
    finally show ?thesis .
  qed
  moreover have "length rows = length rest + length (filter (\<lambda>x. ident x \<in> set ids) rows)"
    unfolding rest using sum_length_filter_compl [of "\<lambda>x. ident x \<in> set ids" rows] by simp
  ultimately show ?thesis by (auto simp: rest list_all_iff)
qed

text \<open>
  Clean-up keeps every live session, every unused and unexpired recovery token and every bucket
  that is still locked; it adds nothing, touches no user and no key, and deletes at most the batch
  limit of rows from each table, itself at most 1000.
\<close>

theorem cleanup_keeps_live:
  assumes "store_ok st" "cleanup_auth_state d a args err st = (report, st')"
  shows "list_all (\<lambda>s. live_session (d_now d) s \<longrightarrow> s \<in> set (st_sessions st')) (st_sessions st)
    \<and> list_all (\<lambda>r. rt_used_at r = None \<and> d_now d < rt_expires_at r \<longrightarrow> r \<in> set (st_recovery st')) (st_recovery st)
    \<and> list_all (\<lambda>b. locked_at (Some (snd b)) (d_now d) \<noteq> None \<longrightarrow> b \<in> set (st_attempts st')) (st_attempts st)
    \<and> set (st_sessions st') \<subseteq> set (st_sessions st) \<and> set (st_recovery st') \<subseteq> set (st_recovery st)
    \<and> set (st_attempts st') \<subseteq> set (st_attempts st)
    \<and> st_users st' = st_users st \<and> st_keys st' = st_keys st
    \<and> length (st_sessions st) \<le> length (st_sessions st') + nat (cl_batch_limit report)
    \<and> length (st_recovery st) \<le> length (st_recovery st') + nat (cl_batch_limit report)
    \<and> length (st_attempts st) \<le> length (st_attempts st') + nat (cl_batch_limit report)
    \<and> cl_batch_limit report \<le> 1000"
proof (cases err)
  case (Some e)
  then show ?thesis using assms(2)
    by (auto simp: cleanup_auth_state_def Let_def list_all_iff split: prod.splits)
next
  case None
  let ?n = "nat (cleanup_limit args)"
  let ?ps = "session_eligible (d_now d - of_int (max 0 (ca_session_retention args)))"
  let ?pr = "recovery_eligible (d_now d - of_int (max 0 (ca_recovery_retention args)))"
  let ?pa = "attempt_eligible (d_now d - of_int (max 60 (ca_login_quiet args))) (d_now d)"
  from cleanup_tables [OF assms(2) [unfolded None]] obtain x ss rs as c1 c2 c3 where
    e: "st' = audit d ''auth_cleanup'' ''success'' x (st\<lparr>st_sessions := ss, st_recovery := rs, st_attempts := as\<rparr>)"
    and l: "cl_batch_limit report = cleanup_limit args"
    and c: "cleanup_table as_id ?ps ?n (st_sessions st) = (ss, c1)" "cleanup_table rt_id ?pr ?n (st_recovery st) = (rs, c2)"
      "cleanup_table fst ?pa ?n (st_attempts st) = (as, c3)" by blast
  obtain e1 d1 r1 e2 d2 r2 e3 d3 r3 where t:
    "cleanup_table as_id ?ps ?n (st_sessions st) = (st_sessions st', e1, d1, r1)"
    "cleanup_table rt_id ?pr ?n (st_recovery st) = (st_recovery st', e2, d2, r2)"
    "cleanup_table fst ?pa ?n (st_attempts st) = (st_attempts st', e3, d3, r3)"
    using c e by (cases c1; cases c2; cases c3) auto
  have r: "nat (cl_batch_limit report) = ?n" "cl_batch_limit report \<le> 1000" "st_users st' = st_users st" "st_keys st' = st_keys st"
    by (simp_all add: e l) (simp add: cleanup_limit_def)
  have u: "key_unique as_id (st_sessions st)" "key_unique rt_id (st_recovery st)" "key_unique fst (st_attempts st)"
    using assms(1) by (auto simp: store_defs)
  have c: "d_now d - of_int (max 0 k) \<le> d_now d" for k by simp
  have ps: "\<not> ?ps s" if "live_session (d_now d) s" for s
    using that c [of "ca_session_retention args"] by (auto simp: live_session_def session_eligible_def)
  have pr: "\<not> ?pr x" if "rt_used_at x = None" "d_now d < rt_expires_at x" for x
    using that c [of "ca_recovery_retention args"] by (auto simp: recovery_eligible_def)
  have pa: "\<not> ?pa b" if "locked_at (Some (snd b)) (d_now d) \<noteq> None" for b
    using that by (auto simp: locked_at_def attempt_eligible_def split: option.splits if_splits)
  show ?thesis
    using cleanup_table_deleted [OF t(1) u(1)] cleanup_table_deleted [OF t(2) u(2)] cleanup_table_deleted [OF t(3) u(3)]
      ps pr pa r by (auto simp: list_all_iff)
qed

theorem cleanup_keeps_live_witness:
  "store_ok sample_login \<and> st_sessions (snd (cleanup_auth_state (sample_draws 300 ''9'') \<lparr>ac_method = [], ac_id = []\<rparr>
      \<lparr>ca_batch_limit = 100, ca_session_retention = 0, ca_recovery_retention = 0, ca_login_quiet = 60\<rparr> None sample_login)) \<noteq> []"
proof -
  have ok: "store_ok sample_login" using store_ok_login [OF sample_store_ok sample_login_Inr] .
  have "\<exists>s \<in> set (st_sessions sample_login). live_session 300 s"
    using login_Inr [OF sample_login_Inr]
    by (auto simp: sample_grant_def live_session_def new_session_def sample_draws_def)
  then show ?thesis
    using ok cleanup_keeps_live [OF ok prod.collapse [symmetric], of "sample_draws 300 ''9''" "\<lparr>ac_method = [], ac_id = []\<rparr>"
      "\<lparr>ca_batch_limit = 100, ca_session_retention = 0, ca_recovery_retention = 0, ca_login_quiet = 60\<rparr>" None]
    by (auto simp: list_all_iff sample_draws_def)
qed

end
