(* ===== verification/AuthConfig.thy ===== *)
theory AuthConfig
  imports Auth
begin

text \<open>
  The authentication policy of an installation: \<open>resolve_config\<close> of \<^verbatim>\<open>core/inkdrop_auth.py\<close>, which
  combines the environment, the saved settings and the store, its five-second cache, and the part
  of \<open>public_status\<close> that the request gate reads.

  Parsing IP addresses (the \<open>ipaddress\<close> module) is the record \<open>ipaddr\<close>. The settings table maps
  a key to the JSON value of its row, \<open>None\<close> when the text does not parse, and the row's source.
\<close>

section \<open>Inputs\<close>

record ipaddr =
  ip_address :: "string \<Rightarrow> (string \<times> bool) option"
  ip_strict_network :: "string \<Rightarrow> string option"
  ip_contains :: "string \<Rightarrow> string \<Rightarrow> bool option"

type_synonym env = "(string \<times> string) list"
type_synonym app_settings = "(string \<times> (pyval option \<times> string)) list"

definition setting_record :: "app_settings \<Rightarrow> string \<Rightarrow> pyval \<Rightarrow> pyval \<times> string" where
  "setting_record settings key fallback =
     (case dget settings key of
        None \<Rightarrow> (fallback, [])
      | Some (v, source) \<Rightarrow> ((case v of None \<Rightarrow> fallback | Some x \<Rightarrow> x), source))"

definition env_get :: "env \<Rightarrow> string \<Rightarrow> pyval" where
  "env_get env k = (case dget env k of None \<Rightarrow> PNone | Some s \<Rightarrow> PStr s)"

definition ENV_TRUE :: "string list" where
  "ENV_TRUE = [''1'', ''true'', ''yes'', ''on'', ''enabled'']"

definition env_flag :: "env \<Rightarrow> string \<Rightarrow> bool \<Rightarrow> bool" where
  "env_flag env k fallback =
     (if none_or_empty (env_get env k) then fallback else lower_text (env_get env k) \<in> set ENV_TRUE)"

fun csv_of :: "pyval \<Rightarrow> string list" where
  "csv_of (PList xs) = filter (\<lambda>s. s \<noteq> []) (map (\<lambda>v. strip (py_str v)) xs)"
| "csv_of v = csv (str_or_empty v)"

section \<open>Trusted proxies\<close>

record trusted_networks =
  tn_valid :: "string list"
  tn_invalid :: "string list"
  tn_errors :: "string list"
  tn_ok :: bool

definition entry_network :: "ipaddr \<Rightarrow> string \<Rightarrow> string option" where
  "entry_network ip entry =
     (if CHR ''/'' \<in> set entry then ip_strict_network ip entry
      else case ip_address ip entry of
             None \<Rightarrow> None
           | Some (address, v4) \<Rightarrow> ip_strict_network ip (address @ (if v4 then ''/32'' else ''/128'')))"

definition add_entry :: "ipaddr \<Rightarrow> string \<Rightarrow> string list \<times> string list \<Rightarrow> string list \<times> string list" where
  "add_entry ip entry acc =
     (case entry_network ip entry of
        None \<Rightarrow> (fst acc, snd acc @ [entry])
      | Some canonical \<Rightarrow>
          (if canonical \<in> set (fst acc) then fst acc else fst acc @ [canonical], snd acc))"

definition parse_trusted_proxy_networks :: "ipaddr \<Rightarrow> pyval \<Rightarrow> trusted_networks" where
  "parse_trusted_proxy_networks ip value =
     (let (valid, invalid) = fold (add_entry ip) (csv_of value) ([], []) in
      \<lparr>tn_valid = valid, tn_invalid = invalid,
       tn_errors = (if invalid = [] then [] else [''invalid_ip_or_cidr'']), tn_ok = (invalid = [])\<rparr>)"

definition validate_setting_value :: "ipaddr \<Rightarrow> string \<Rightarrow> pyval \<Rightarrow> auth_error + pyval" where
  "validate_setting_value ip key value =
     (if strip key \<noteq> ''auth.external.trusted_proxies'' then Inr value
      else let parsed = parse_trusted_proxy_networks ip value in
        if \<not> tn_ok parsed
        then Inl (AuthError ''invalid_trusted_proxy_configuration''
               ''trusted proxies must contain only valid IP addresses or strict CIDRs'' 400 None)
        else Inr (PList (map PStr (tn_valid parsed))))"

definition external_auth_would_be_ready :: "ipaddr \<Rightarrow> bool \<Rightarrow> string \<Rightarrow> pyval \<Rightarrow> bool" where
  "external_auth_would_be_ready ip enabled identity_header trusted =
     (let t = parse_trusted_proxy_networks ip trusted in
      enabled \<and> strip identity_header \<noteq> [] \<and> tn_valid t \<noteq> [] \<and> tn_ok t)"

definition remote_is_trusted :: "ipaddr \<Rightarrow> string \<Rightarrow> string list \<Rightarrow> bool" where
  "remote_is_trusted ip remote networks =
     (case ip_address ip remote of
        None \<Rightarrow> False
      | Some _ \<Rightarrow> list_ex (\<lambda>n. ip_contains ip n remote = Some True) networks)"

section \<open>The resolved policy\<close>

definition AUTH_MODES :: "string list" where
  "AUTH_MODES = [''built_in'', ''external'', ''built_in_or_external'', ''disabled'']"

record auth_config =
  cf_mode :: string
  cf_requested_mode :: string
  cf_mode_rejected :: bool
  cf_disabled_allowed :: bool
  cf_enforcement_active :: bool
  cf_setup_required :: bool
  cf_built_in_enabled :: bool
  cf_api_keys_enabled :: bool
  cf_bootstrap_required :: bool
  cf_user_count :: nat
  cf_active_sessions :: nat
  cf_active_keys :: nat
  cf_revoked_keys :: nat
  cf_external :: external_config
  cf_trusted_proxies :: "string list"
  cf_proxies_valid :: bool
  cf_proxy_errors :: "string list"
  cf_invalid_entries :: nat
  cf_external_ready :: bool
  cf_allowed_origins :: "string list"
  cf_session_ttl :: int
  cf_cookie_secure :: string

text \<open>A value that the user saved wins over the environment, the environment over the default.\<close>

definition chosen :: "pyval \<times> string \<Rightarrow> pyval list \<Rightarrow> pyval" where
  "chosen saved others = (if snd saved = ''user'' then fst saved else first_truthy others)"

definition requested_mode_of :: "env \<Rightarrow> app_settings \<Rightarrow> string \<times> string" where
  "requested_mode_of env settings =
     (let saved = setting_record settings ''auth.mode'' (PStr []);
          stored = lower_text (fst saved);
          env_mode = lower_text (env_get env ''INKDROP_AUTH_MODE'')
      in (if snd saved = ''user'' then stored else if env_mode \<noteq> [] then env_mode else stored, stored))"

definition inferred_mode :: "env \<Rightarrow> app_settings \<Rightarrow> string" where
  "inferred_mode env settings =
     (let saved = setting_record settings ''auth.external.enabled'' (PBool False);
          legacy_required = env_flag env ''INKDROP_AUTH_REQUIRED'' False;
          legacy_external = (snd saved \<noteq> ''user''
            \<and> env_flag env ''INKDROP_EXTERNAL_AUTH_ENABLED'' (truthy (fst saved)))
      in if legacy_required \<and> legacy_external then ''built_in_or_external''
         else if legacy_external then ''external'' else ''built_in'')"

definition disabled_allowed :: "env \<Rightarrow> bool" where
  "disabled_allowed env =
     (env_flag env ''INKDROP_AUTH_ALLOW_DISABLED'' False \<and> env_flag env ''INKDROP_TRUSTED_LAN_TESTING'' False)"

text \<open>The mode in force and whether a requested \<open>disabled\<close> was rejected.\<close>

definition mode_of :: "env \<Rightarrow> app_settings \<Rightarrow> string \<times> bool" where
  "mode_of env settings =
     (let (requested, stored) = requested_mode_of env settings;
          wanted = (if requested \<noteq> [] then requested else if stored \<noteq> [] then stored
                    else inferred_mode env settings);
          m = (if wanted \<in> set AUTH_MODES then wanted else ''built_in'');
          rejected = (m = ''disabled'' \<and> \<not> disabled_allowed env)
      in (if rejected then ''built_in'' else m, rejected))"

definition external_policy :: "env \<Rightarrow> app_settings \<Rightarrow> bool" where
  "external_policy env settings =
     (let saved = setting_record settings ''auth.external.enabled'' (PBool False)
      in if snd saved = ''user'' then truthy (fst saved)
         else env_flag env ''INKDROP_EXTERNAL_AUTH_ENABLED'' (truthy (fst saved)))"

definition active_key :: "rat \<Rightarrow> api_key \<Rightarrow> bool" where
  "active_key now k = (ak_enabled k \<and> ak_revoked_at k = None \<and> unexpired now k)"

definition text_setting :: "env \<Rightarrow> app_settings \<Rightarrow> string \<Rightarrow> string \<Rightarrow> string \<Rightarrow> string" where
  "text_setting env settings key env_key fallback =
     (let saved = setting_record settings key (PStr [])
      in strip (py_str (chosen saved [env_get env env_key, fst saved, PStr fallback])))"

definition trusted_setting :: "env \<Rightarrow> app_settings \<Rightarrow> pyval" where
  "trusted_setting env settings =
     (let saved = setting_record settings ''auth.external.trusted_proxies'' (PList [])
      in chosen saved [env_get env ''INKDROP_EXTERNAL_AUTH_TRUSTED_PROXIES'', fst saved])"

definition allowed_origins_setting :: "env \<Rightarrow> app_settings \<Rightarrow> string list" where
  "allowed_origins_setting env settings =
     (let saved = setting_record settings ''auth.allowed_origins'' (PList [])
      in csv_of (chosen saved [env_get env ''INKDROP_AUTH_ALLOWED_ORIGINS'', fst saved]))"

definition session_ttl_setting :: "env \<Rightarrow> app_settings \<Rightarrow> pyval" where
  "session_ttl_setting env settings =
     (let saved = setting_record settings ''auth.session_ttl_seconds'' (PInt 43200)
      in chosen saved [env_get env ''INKDROP_AUTH_SESSION_TTL_SECONDS'', fst saved, PInt 43200])"

definition external_of :: "env \<Rightarrow> app_settings \<Rightarrow> string \<Rightarrow> external_config" where
  "external_of env settings m =
     \<lparr>ex_enabled = (m \<in> set [''external'', ''built_in_or_external'']
        \<and> (external_policy env settings \<or> m = ''external'')),
      ex_identity_header = text_setting env settings ''auth.external.identity_header'' ''INKDROP_EXTERNAL_AUTH_HEADER'' ''X-Forwarded-User'',
      ex_group_header = text_setting env settings ''auth.external.group_header'' ''INKDROP_EXTERNAL_AUTH_GROUP_HEADER'' [],
      ex_admin_group = text_setting env settings ''auth.external.admin_group'' ''INKDROP_EXTERNAL_AUTH_ADMIN_GROUP'' []\<rparr>"

definition config_of ::
    "ipaddr \<Rightarrow> env \<Rightarrow> app_settings \<Rightarrow> auth_state \<Rightarrow> rat \<Rightarrow> string \<Rightarrow> bool \<Rightarrow> int \<Rightarrow> auth_config" where
  "config_of ip env settings st now m rejected ttl =
     (let users = count_where au_enabled (st_users st);
          external = external_of env settings m;
          proxies = parse_trusted_proxy_networks ip (trusted_setting env settings);
          built_in = (m \<in> set [''built_in'', ''built_in_or_external'']);
          ready = external_auth_would_be_ready ip (ex_enabled external) (ex_identity_header external)
            (trusted_setting env settings);
          active = ((built_in \<and> users > 0) \<or> (m \<in> set [''external'', ''built_in_or_external''] \<and> ready))
      in \<lparr>cf_mode = m, cf_requested_mode = fst (requested_mode_of env settings), cf_mode_rejected = rejected,
          cf_disabled_allowed = disabled_allowed env, cf_enforcement_active = active,
          cf_setup_required = (m \<noteq> ''disabled'' \<and> \<not> active), cf_built_in_enabled = built_in,
          cf_api_keys_enabled = (m \<noteq> ''disabled'' \<or> env_flag env ''INKDROP_API_KEYS_WHEN_DISABLED'' True),
          cf_bootstrap_required = (built_in \<and> users = 0), cf_user_count = users,
          cf_active_sessions = count_where (live_session now) (st_sessions st),
          cf_active_keys = count_where (active_key now) (st_keys st),
          cf_revoked_keys = count_where (\<lambda>k. \<not> ak_enabled k \<or> ak_revoked_at k \<noteq> None) (st_keys st),
          cf_external = external, cf_trusted_proxies = tn_valid proxies, cf_proxies_valid = tn_ok proxies,
          cf_proxy_errors = tn_errors proxies, cf_invalid_entries = length (tn_invalid proxies),
          cf_external_ready = ready, cf_allowed_origins = allowed_origins_setting env settings,
          cf_session_ttl = max 300 (min 2592000 ttl),
          cf_cookie_secure = lower_text (first_truthy [env_get env ''INKDROP_AUTH_COOKIE_SECURE'', PStr ''auto''])\<rparr>)"

definition resolve_config ::
    "ipaddr \<Rightarrow> env \<Rightarrow> app_settings \<Rightarrow> auth_state \<Rightarrow> rat \<Rightarrow> auth_error + auth_config" where
  "resolve_config ip env settings st now =
     (let (m, rejected) = mode_of env settings in
      case int_of (session_ttl_setting env settings) of
        Inl e \<Rightarrow> Inl (AuthPy e)
      | Inr ttl \<Rightarrow> Inr (config_of ip env settings st now m rejected ttl))"

text \<open>
  The cache of \<open>resolve_config\<close>: \<open>key\<close> stands for the paths, file times and environment values
  of the call, \<open>fresh\<close> for what a computation would return.
\<close>

record config_cache =
  cc_key :: string
  cc_at :: rat
  cc_value :: "auth_config option"

definition clear_config_cache :: config_cache where
  "clear_config_cache = \<lparr>cc_key = [], cc_at = 0, cc_value = None\<rparr>"

definition resolve_config_cached ::
    "string \<Rightarrow> rat \<Rightarrow> auth_error + auth_config \<Rightarrow> config_cache \<Rightarrow> (auth_error + auth_config) \<times> config_cache" where
  "resolve_config_cached key now fresh cache =
     (case cc_value cache of
        Some c \<Rightarrow> if cc_key cache = key \<and> now - cc_at cache < 5 then (Inr c, cache)
          else (fresh, case fresh of Inr v \<Rightarrow> \<lparr>cc_key = key, cc_at = now, cc_value = Some v\<rparr> | Inl _ \<Rightarrow> cache)
      | None \<Rightarrow> (fresh, case fresh of Inr v \<Rightarrow> \<lparr>cc_key = key, cc_at = now, cc_value = Some v\<rparr> | Inl _ \<Rightarrow> cache))"

section \<open>The status\<close>

record gate_status =
  gs_required :: bool
  gs_setup_required :: bool
  gs_bootstrap_required :: bool
  gs_provisional :: bool
  gs_stale :: bool

record policy_status =
  ps_rules :: password_rules
  ps_configuration_valid :: bool
  ps_configuration_error :: string

definition status_password_policy :: "pyval \<times> string \<Rightarrow> env \<Rightarrow> auth_error + policy_status" where
  "status_password_policy saved env =
     (case password_policy saved env of
        Inr r \<Rightarrow> Inr \<lparr>ps_rules = r, ps_configuration_valid = True, ps_configuration_error = []\<rparr>
      | Inl (AuthError c _ _ _) \<Rightarrow>
          mapE (\<lambda>r. \<lparr>ps_rules = r\<lparr>pw_source := ''safe_default''\<rparr>, ps_configuration_valid = False,
                     ps_configuration_error = c\<rparr>)
            (password_policy (PNone, []) [])
      | Inl e \<Rightarrow> Inl e)"

definition public_status :: "auth_error + auth_config \<Rightarrow> pyval \<times> string \<Rightarrow> env \<Rightarrow> auth_error + gate_status" where
  "public_status config saved_minimum env =
     bindE config (\<lambda>c. bindE (status_password_policy saved_minimum env) (\<lambda>_.
       Inr \<lparr>gs_required = cf_enforcement_active c, gs_setup_required = cf_setup_required c,
            gs_bootstrap_required = cf_bootstrap_required c, gs_provisional = False, gs_stale = False\<rparr>))"

section \<open>What a resolved policy guarantees\<close>

lemma resolved_config: "resolve_config ip env settings st now = Inr c \<Longrightarrow>
    \<exists>ttl. c = config_of ip env settings st now (fst (mode_of env settings)) (snd (mode_of env settings)) ttl"
  by (auto simp: resolve_config_def split: sum.splits prod.splits)

lemma config_fields:
  "cf_mode (config_of ip env settings st now m rejected ttl) = m"
  "cf_user_count (config_of ip env settings st now m rejected ttl) = count_where au_enabled (st_users st)"
  "cf_built_in_enabled (config_of ip env settings st now m rejected ttl) = (m \<in> set [''built_in'', ''built_in_or_external''])"
  "cf_bootstrap_required (config_of ip env settings st now m rejected ttl) = (m \<in> set [''built_in'', ''built_in_or_external''] \<and> count_where au_enabled (st_users st) = 0)"
  "cf_setup_required (config_of ip env settings st now m rejected ttl) = (m \<noteq> ''disabled'' \<and> \<not> cf_enforcement_active (config_of ip env settings st now m rejected ttl))"
  "cf_enforcement_active (config_of ip env settings st now m rejected ttl) = (m \<in> set [''built_in'', ''built_in_or_external''] \<and> count_where au_enabled (st_users st) > 0
     \<or> m \<in> set [''external'', ''built_in_or_external''] \<and> cf_external_ready (config_of ip env settings st now m rejected ttl))"
  "cf_external_ready (config_of ip env settings st now m rejected ttl) = (ex_enabled (external_of env settings m) \<and> strip (ex_identity_header (external_of env settings m)) \<noteq> []
     \<and> tn_valid (parse_trusted_proxy_networks ip (trusted_setting env settings)) \<noteq> []
     \<and> tn_ok (parse_trusted_proxy_networks ip (trusted_setting env settings)))"
  "cf_external (config_of ip env settings st now m rejected ttl) = external_of env settings m"
  "cf_trusted_proxies (config_of ip env settings st now m rejected ttl) = tn_valid (parse_trusted_proxy_networks ip (trusted_setting env settings))"
  "cf_proxies_valid (config_of ip env settings st now m rejected ttl) = tn_ok (parse_trusted_proxy_networks ip (trusted_setting env settings))"
  "cf_session_ttl (config_of ip env settings st now m rejected ttl) = max 300 (min 2592000 ttl)"
  by (simp_all only: config_of_def Let_def auth_config.select_convs external_auth_would_be_ready_def)

lemma resolved_mode: "resolve_config ip env settings st now = Inr c \<Longrightarrow> cf_mode c = fst (mode_of env settings)"
  by (drule resolved_config) (elim exE, simp only: config_fields)

lemma resolved_users: "resolve_config ip env settings st now = Inr c \<Longrightarrow> cf_user_count c = count_where au_enabled (st_users st)"
  by (drule resolved_config) (elim exE, simp only: config_fields)

lemma resolved_built_in: "resolve_config ip env settings st now = Inr c \<Longrightarrow>
    cf_built_in_enabled c = (cf_mode c \<in> set [''built_in'', ''built_in_or_external''])"
  by (drule resolved_config) (elim exE, simp only: config_fields)

lemma resolved_bootstrap: "resolve_config ip env settings st now = Inr c \<Longrightarrow>
    cf_bootstrap_required c = (cf_built_in_enabled c \<and> cf_user_count c = 0)"
  by (drule resolved_config) (elim exE, simp only: config_fields)

lemma resolved_setup: "resolve_config ip env settings st now = Inr c \<Longrightarrow>
    cf_setup_required c = (cf_mode c \<noteq> ''disabled'' \<and> \<not> cf_enforcement_active c)"
  by (drule resolved_config) (elim exE, simp only: config_fields)

lemma resolved_enforcement: "resolve_config ip env settings st now = Inr c \<Longrightarrow>
    cf_enforcement_active c = ((cf_built_in_enabled c \<and> cf_user_count c > 0)
      \<or> (cf_mode c \<in> set [''external'', ''built_in_or_external''] \<and> cf_external_ready c))"
  by (drule resolved_config) (elim exE, simp only: config_fields)

lemma resolved_ready: "resolve_config ip env settings st now = Inr c \<Longrightarrow>
    cf_external_ready c = (ex_enabled (cf_external c) \<and> strip (ex_identity_header (cf_external c)) \<noteq> []
      \<and> cf_trusted_proxies c \<noteq> [] \<and> cf_proxies_valid c)"
  by (drule resolved_config) (elim exE, simp only: config_fields)

lemma resolved_ttl: "resolve_config ip env settings st now = Inr c \<Longrightarrow> 300 \<le> cf_session_ttl c \<and> cf_session_ttl c \<le> 2592000"
  by (drule resolved_config) (elim exE, simp add: config_fields)

lemma mode_known: "fst (mode_of env settings) \<in> set AUTH_MODES"
  by (simp add: mode_of_def Let_def AUTH_MODES_def split: prod.splits)

lemma mode_disabled: "fst (mode_of env settings) = ''disabled'' \<Longrightarrow> disabled_allowed env"
  by (auto simp: mode_of_def Let_def split: prod.splits if_splits)

lemma mode_user:
  assumes "snd (setting_record settings ''auth.mode'' (PStr [])) = ''user''"
    "lower_text (fst (setting_record settings ''auth.mode'' (PStr []))) \<in> set AUTH_MODES"
  shows "fst (mode_of env settings) = (let m = lower_text (fst (setting_record settings ''auth.mode'' (PStr []))) in
    if m = ''disabled'' \<and> \<not> disabled_allowed env then ''built_in'' else m)"
proof -
  have "[] \<notin> set AUTH_MODES" by (simp add: AUTH_MODES_def)
  then show ?thesis using assms by (auto simp: mode_of_def requested_mode_of_def Let_def)
qed

lemma add_entry_cases:
  "entry_network ip e = None \<Longrightarrow> add_entry ip e (v, i) = (v, i @ [e])"
  "entry_network ip e = Some n \<Longrightarrow> add_entry ip e (v, i) = (if n \<in> set v then v else v @ [n], i)"
  by (simp_all add: add_entry_def)

lemma fold_add_entry:
  "fold (add_entry ip) entries (valid, invalid) = (v, i) \<Longrightarrow> distinct valid \<Longrightarrow>
   distinct v \<and> i = invalid @ filter (\<lambda>e. entry_network ip e = None) entries
   \<and> set v = set valid \<union> {n. \<exists>e \<in> set entries. entry_network ip e = Some n}"
proof (induction entries arbitrary: valid invalid)
  case (Cons e entries)
  show ?case
  proof (cases "entry_network ip e")
    case None
    then have "fold (add_entry ip) entries (valid, invalid @ [e]) = (v, i)"
      using Cons.prems(1) by (simp add: add_entry_cases(1) [OF None])
    from Cons.IH [OF this Cons.prems(2)] None show ?thesis by auto
  next
    case (Some n)
    then have "fold (add_entry ip) entries (if n \<in> set valid then valid else valid @ [n], invalid) = (v, i)"
      using Cons.prems(1) by (simp only: fold_simps add_entry_cases(2) [OF Some])
    from Cons.IH [OF this] Cons.prems(2) Some show ?thesis by (auto split: if_splits)
  qed
qed auto

lemma parse_networks:
  "distinct (tn_valid (parse_trusted_proxy_networks ip v))
   \<and> set (tn_valid (parse_trusted_proxy_networks ip v)) = {n. \<exists>e \<in> set (csv_of v). entry_network ip e = Some n}
   \<and> tn_ok (parse_trusted_proxy_networks ip v) = list_all (\<lambda>e. entry_network ip e \<noteq> None) (csv_of v)"
proof -
  obtain w i where f: "fold (add_entry ip) (csv_of v) ([], []) = (w, i)" by force
  from fold_add_entry [OF f] show ?thesis
    by (auto simp: parse_trusted_proxy_networks_def f list_all_iff filter_empty_conv)
qed

text \<open>
  Saving the trusted proxies accepts a list exactly when each entry is an address or a strict network,
  and stores each network once in canonical form; every other setting is stored as it is.
\<close>

theorem trusted_proxies_saved:
  "case validate_setting_value ip key v of
     Inl e \<Rightarrow> strip key = ''auth.external.trusted_proxies'' \<and> list_ex (\<lambda>e. entry_network ip e = None) (csv_of v)
   | Inr w \<Rightarrow>
       if strip key = ''auth.external.trusted_proxies''
       then list_all (\<lambda>e. entry_network ip e \<noteq> None) (csv_of v)
         \<and> (\<exists>ns. w = PList (map PStr ns) \<and> distinct ns \<and> set ns = {n. \<exists>e \<in> set (csv_of v). entry_network ip e = Some n})
       else w = v"
  using parse_networks [of ip v]
  by (auto simp: validate_setting_value_def Let_def list_all_iff list_ex_iff)


definition sample_addresses :: ipaddr where
  "sample_addresses = \<lparr>ip_address = (\<lambda>s. Some (s, True)), ip_strict_network = Some, ip_contains = (\<lambda>n a. Some (n = a))\<rparr>"

definition empty_state :: auth_state where
  "empty_state = \<lparr>st_users = [], st_sessions = [], st_keys = [], st_attempts = [], st_recovery = [], st_audit = []\<rparr>"


end
