(* ===== verification/RouteContract.thy ===== *)
theory RouteContract
  imports Auth
begin

text \<open>
  Which scope a request needs: the route inventory of \<^verbatim>\<open>core/inkdrop_auth_contracts.py\<close> and the
  policy that \<^verbatim>\<open>core/inkdrop_web.py\<close> (\<open>inkdrop_auth_action_policy\<close>) puts on top of it.

  The module fills a dictionary from (method, route) to a record with one call of \<open>_add\<close> per
  group of routes, in the order of the file; \<open>route_inventory\<close> is the list of these calls, and a
  lookup takes the last group that holds the route, as an assignment to a dictionary does.
\<close>

section \<open>The inventory\<close>

record route_policy =
  rp_action :: string
  rp_scope :: "string option"
  rp_public :: bool
  rp_csrf :: bool
  rp_admin_only :: bool
  rp_destructive :: bool
  rp_high_impact :: bool
  rp_idempotent :: bool

type_synonym route_group = "string \<times> string list \<times> route_policy"

definition COOKIE_MUTATION_METHODS :: "string list" where
  "COOKIE_MUTATION_METHODS = [''POST'', ''PUT'', ''PATCH'', ''DELETE'']"

definition mk_policy ::
    "string \<Rightarrow> string \<Rightarrow> string option \<Rightarrow> bool \<Rightarrow> bool \<Rightarrow> bool \<Rightarrow> bool \<Rightarrow> bool \<Rightarrow> route_policy" where
  "mk_policy m action scope public admin destructive high_impact idempotent =
     \<lparr>rp_action = action, rp_scope = scope, rp_public = public,
      rp_csrf = (\<not> public \<and> m \<in> set COOKIE_MUTATION_METHODS), rp_admin_only = admin,
      rp_destructive = destructive, rp_high_impact = high_impact, rp_idempotent = idempotent\<rparr>"

definition routes_accounts :: "route_group list" where
 "routes_accounts = [
  (''POST'', [''/api/auth/bootstrap'', ''/api/inkdrop-auth/bootstrap'', ''/api/auth/login'',
     ''/api/inkdrop-auth/login'', ''/api/auth/recovery/reset'', ''/api/inkdrop-auth/recovery/reset''],
   mk_policy ''POST'' ''authentication_public'' None True False False True False),
  (''POST'', [''/api/auth/logout'', ''/api/inkdrop-auth/logout'', ''/api/auth/password'',
     ''/api/auth/sessions/revoke'', ''/api/auth/api-keys'', ''/api/inkdrop-auth/api-keys/create'',
     ''/api/auth/api-keys/revoke'', ''/api/inkdrop-auth/api-keys/revoke'',
     ''/api/auth/recovery/token'', ''/api/inkdrop-auth/recovery/token''],
   mk_policy ''POST'' ''authentication_administration'' (Some ''admin'') False True False True False),
  (''POST'', [''/api/auth/maintenance/cleanup'', ''/api/inkdrop-auth/maintenance/cleanup''],
   mk_policy ''POST'' ''auth_state_cleanup'' (Some ''maintenance'') False False False False True),
  (''POST'', [''/api/inkdrop-settings/sync'', ''/api/inkdrop-settings/app/update'',
     ''/api/inkdrop-settings/provider/add'', ''/api/inkdrop-settings/provider/claim'',
     ''/api/inkdrop-settings/provider/update'', ''/api/inkdrop-settings/provider/test'',
     ''/api/inkdrop-settings/provider/recommendation/apply'', ''/api/notifications/settings/save'',
     ''/api/notifications/connector/create'', ''/api/notifications/connector/update'',
     ''/api/notifications/connector/test''],
   mk_policy ''POST'' ''settings_update'' (Some ''settings'') False False False False False),
  (''POST'', [''/api/notifications/connector/delete''],
   mk_policy ''POST'' ''settings_delete'' (Some ''settings'') False False True False False),
  (''POST'', [''/api/download-clients'', ''/api/download-clients/test'',
     ''/api/download-clients/test-all''],
   mk_policy ''POST'' ''download_client_administration'' (Some ''admin'') False True False True False),
  (''POST'', [''/api/inkdrop-settings/provider/delete''],
   mk_policy ''POST'' ''settings_delete'' (Some ''admin'') False True True True False),
  (''POST'', [''/api/inkdrop-settings/backup/export'', ''/api/inkdrop-settings/backup/preview'',
     ''/api/inkdrop-settings/portability/export'', ''/api/system/logs/download''],
   mk_policy ''POST'' ''settings_backup'' (Some ''admin'') False True False True False),
  (''GET'', [''/api/inkdrop-settings/backup/archives'',
     ''/api/inkdrop-settings/backup/archives/download''],
   mk_policy ''GET'' ''full_backup_read'' (Some ''admin'') False True False True False),
  (''HEAD'', [''/api/inkdrop-settings/backup/archives/download''],
   mk_policy ''HEAD'' ''full_backup_read'' (Some ''admin'') False True False True False),
  (''POST'', [''/api/system/support-bundle/download''],
   mk_policy ''POST'' ''support_bundle_export'' (Some ''admin'') False True False True False),
  (''POST'', [''/api/inkdrop-settings/backup/restore''],
   mk_policy ''POST'' ''settings_restore'' (Some ''admin'') False True True True False),
  (''POST'', [''/api/inkdrop-settings/backup/archives/create''],
   mk_policy ''POST'' ''full_backup_create'' (Some ''admin'') False True False True False),
  (''POST'', [''/api/inkdrop-settings/backup/archives/delete''],
   mk_policy ''POST'' ''full_backup_delete'' (Some ''admin'') False True True True False),
  (''POST'', [''/api/inkdrop-settings/backup/archives/upload''],
   mk_policy ''POST'' ''full_backup_upload'' (Some ''admin'') False True False True False),
  (''POST'', [''/api/inkdrop-settings/backup/archives/restore/preview''],
   mk_policy ''POST'' ''full_backup_restore_preview'' (Some ''admin'') False True False True True),
  (''POST'', [''/api/inkdrop-settings/backup/archives/restore/apply''],
   mk_policy ''POST'' ''full_backup_restore_apply'' (Some ''admin'') False True True True False),
  (''POST'', [''/api/inkdrop-settings/backup/archives/merge/preview''],
   mk_policy ''POST'' ''full_backup_merge_preview'' (Some ''admin'') False True False True True),
  (''POST'', [''/api/library-adoption/plan'', ''/api/library-adoption/plan/start'',
     ''/api/library-adoption/plan/status'', ''/api/library-adoption/plan/latest''],
   mk_policy ''POST'' ''library_adoption_plan'' (Some ''admin'') False True False True False),
  (''POST'', [''/api/library-adoption/apply''],
   mk_policy ''POST'' ''library_adoption_apply'' (Some ''admin'') False True False True False),
  (''POST'', [''/api/inkdrop-library/convert-archives/plan'',
     ''/api/inkdrop-library/convert-archives/status'', ''/api/inkdrop-library/convert-archives/latest''],
   mk_policy ''POST'' ''archive_conversion_plan'' (Some ''admin'') False True False False False),
  (''POST'', [''/api/inkdrop-library/convert-archives/apply''],
   mk_policy ''POST'' ''archive_conversion_apply'' (Some ''admin'') False True False True False)]"

definition routes_acquisition :: "route_group list" where
 "routes_acquisition = [
  (''PATCH'', [''/api/inkdrop-settings/app'', ''/api/inkdrop-settings/app/update'',
     ''/api/inkdrop-settings/provider'', ''/api/inkdrop-settings/provider/update''],
   mk_policy ''PATCH'' ''settings_update'' (Some ''settings'') False False False False False),
  (''PUT'', [''/api/inkdrop-settings/app'', ''/api/inkdrop-settings/app/update'',
     ''/api/inkdrop-settings/provider'', ''/api/inkdrop-settings/provider/update''],
   mk_policy ''PUT'' ''settings_update'' (Some ''settings'') False False False False False),
  (''POST'', [''/api/search'', ''/api/mangadex/search'', ''/api/mangadex/feed'',
     ''/api/metron/search'', ''/api/comicvine/search'', ''/api/comicvine/scan'', ''/api/watch/scan'',
     ''/api/comicvine/add'', ''/api/mangadex/add'', ''/api/metron/add'', ''/api/watch/add'',
     ''/api/watch/add-result'', ''/api/comicvine/update'', ''/api/watch/update'',
     ''/api/comicvine/replace-metadata'', ''/api/comicvine/grab'', ''/api/watch/grab'', ''/api/grab'',
     ''/api/import'', ''/api/inkdrop-state/series/run'', ''/api/inkdrop-state/series/update'',
     ''/api/inkdrop-state/series/manga-unit-override/set'',
     ''/api/inkdrop-state/series/media-type/set'',
     ''/api/inkdrop-state/series/edition-indifferent-override/set'', ''/api/inkdrop-state/wanted/run'',
     ''/api/inkdrop-state/queue/run'', ''/api/inkdrop-state/queue/remove'',
     ''/api/inkdrop-state/queue/retry-new-source'', ''/api/inkdrop-state/queue/reopen-import'',
     ''/api/inkdrop-state/series/covers/refresh'', ''/api/inkdrop-state/library-frontends/sync'',
     ''/api/inkdrop-state/sync'', ''/api/manga-unit/set'', ''/api/issue-monitor/set'',
     ''/api/missing/process'', ''/api/missing/recheck'', ''/api/missing/fresh'', ''/api/missing/hot'',
     ''/api/rss/discover'', ''/api/comicscodes/discover'', ''/api/slskd-source-probe/run'',
     ''/api/source-probe'', ''/api/series-autopilot/run'', ''/api/series-autopilot/normalize'',
     ''/api/manual-source/import-detected'', ''/api/manual-source/mark-waiting'',
     ''/api/manual-source/clear-waiting'', ''/api/sab-comic-failures/learn'',
     ''/api/unmatched-downloads/import'', ''/api/pack-review/refresh'', ''/api/pack-review/inspect'',
     ''/api/pack-review/import'', ''/api/pack-review/auto-import'', ''/api/manual-search/runs''],
   mk_policy ''POST'' ''acquisition'' (Some ''acquisition'') False False False False False),
  (''POST'', [''/api/inkdrop-state/source-memory/allow'', ''/api/inkdrop-state/source-memory/remove'',
     ''/api/inkdrop-state/source-memory/block'', ''/api/inkdrop-state/reliability/search-query'',
     ''/api/inkdrop-state/reliability/pursuit''],
   mk_policy ''POST'' ''acquisition'' (Some ''acquisition'') False False False False True)]"

definition routes_maintenance :: "route_group list" where
 "routes_maintenance = [
  (''POST'', [''/api/comicvine/delete'', ''/api/watch/delete'', ''/api/inkdrop-state/series/remove'',
     ''/api/inkdrop-state/series/library/migrate'', ''/api/inkdrop-state/import/mark-wrong'',
     ''/api/manual-review/approve'', ''/api/manual-review/approve-local-file'',
     ''/api/manual-review/approve-pack'', ''/api/manual-review/resolve-noop'',
     ''/api/manual-review/ignore'', ''/api/manual-review/bad-match'', ''/api/manual-review/add-alias'',
     ''/api/unmatched-downloads/quarantine'', ''/api/pack-review/clear'',
     ''/api/inkdrop-diagnostics/managed-library-duplicates/quarantine'',
     ''/api/inkdrop-diagnostics/managed_library_duplicates/quarantine'',
     ''/api/inkdrop-diagnostics/manga-chapter-artifacts/apply'',
     ''/api/inkdrop-diagnostics/manga_chapter_artifacts/apply'',
     ''/api/inkdrop-diagnostics/mixed-manga-units/apply'',
     ''/api/inkdrop-diagnostics/mixed_manga_units/apply'',
     ''/api/inkdrop-diagnostics/reader-frontend-orphan-cleanup/apply'',
     ''/api/inkdrop-diagnostics/reader-frontend-orphans/apply'',
     ''/api/inkdrop-diagnostics/reader_frontend_orphan_cleanup/apply'',
     ''/api/inkdrop-diagnostics/reader_frontend_orphans/apply'',
     ''/api/inkdrop-state/adapter-merge/apply'', ''/api/inkdrop-state/adapter_merge/apply'',
     ''/api/inkdrop-state/adapter-retire/apply'', ''/api/inkdrop-state/adapter_retire/apply'',
     ''/api/inkdrop-state/adapter-shadow-drain/apply'',
     ''/api/inkdrop-state/adapter_shadow_drain/apply'',
     ''/api/inkdrop-state/duplicate-series-ref-merge/apply'',
     ''/api/inkdrop-state/duplicate_series_ref_merge/apply'',
     ''/api/inkdrop-state/duplicate-series-retire/apply'',
     ''/api/inkdrop-state/duplicate_series_retire/apply'',
     ''/api/inkdrop-state/kapowarr-adapter-drain/apply'',
     ''/api/inkdrop-state/kapowarr_adapter_drain/apply'',
     ''/api/inkdrop-state/readiness-repair/apply'', ''/api/inkdrop-state/readiness_repair/apply'',
     ''/api/inkdrop-state/series-shadow-ref-merge/apply'',
     ''/api/inkdrop-state/series_shadow_ref_merge/apply'',
     ''/api/inkdrop-state/series-shadow-retire/apply'',
     ''/api/inkdrop-state/series_shadow_retire/apply'', ''/api/inkdrop-state/source-attempts/clear'',
     ''/api/inkdrop-state/series-merge/apply'', ''/api/inkdrop-state/series_merge/apply''],
   mk_policy ''POST'' ''destructive_maintenance'' (Some ''admin'') False True True True False),
  (''POST'', [''/api/inkdrop-state/series/folder-identity/transfer''],
   mk_policy ''POST'' ''series_folder_identity_transfer'' (Some ''admin'') False True False True False),
  (''POST'', [''/api/inkdrop-maintenance/deferred-queue-sync/reconcile''],
   mk_policy ''POST'' ''deferred_queue_sync_reconcile'' (Some ''admin'') False True False False True),
  (''POST'', [''/api/inkdrop-state/duplicate-series-ref-merge/preview'',
     ''/api/inkdrop-state/duplicate_series_ref_merge/preview'',
     ''/api/inkdrop-state/series-shadow-ref-merge/preview'',
     ''/api/inkdrop-state/series_shadow_ref_merge/preview'',
     ''/api/inkdrop-state/series-merge/candidate'', ''/api/inkdrop-state/series_merge/candidate''],
   mk_policy ''POST'' ''maintenance_preview'' (Some ''maintenance'') False False False False True),
  (''POST'', [''/api/inkdrop-diagnostics/managed-library-audit/run'',
     ''/api/inkdrop-diagnostics/managed_library_audit/run'',
     ''/api/inkdrop-diagnostics/library-reconciliation/run'',
     ''/api/inkdrop-diagnostics/library_reconciliation/run''],
   mk_policy ''POST'' ''advanced_diagnostics_scan'' (Some ''admin'') False True False True True),
  (''POST'', [''/api/inkdrop-diagnostics/library-reconciliation/repair'',
     ''/api/inkdrop-diagnostics/library_reconciliation/repair''],
   mk_policy ''POST'' ''library_reconciliation_repair'' (Some ''admin'') False True False True True),
  (''DELETE'', [''/api/auth/api-keys/revoke'', ''/api/inkdrop-auth/api-keys/revoke''],
   mk_policy ''DELETE'' ''api_key_revoke'' (Some ''admin'') False True True True False)]"

definition route_inventory :: "route_group list" where
  "route_inventory = routes_accounts @ routes_acquisition @ routes_maintenance"

definition exact_policy :: "string \<Rightarrow> string \<Rightarrow> route_policy option" where
  "exact_policy path m =
     map_option (\<lambda>(_, _, p). p) (List.find (\<lambda>(m', routes, _). m' = m \<and> path \<in> set routes) (rev route_inventory))"

section \<open>Dynamic routes\<close>

definition manual_search_dynamic_policy :: "string \<Rightarrow> string \<Rightarrow> route_policy option" where
  "manual_search_dynamic_policy path m =
     (if m = ''POST'' \<and> starts_with path ''/api/manual-search/runs/'' \<and> ends_with path ''/cancel''
      then Some (mk_policy m ''manual_search_cancel'' (Some ''acquisition'') False False False False True)
      else if m = ''POST'' \<and> starts_with path ''/api/manual-search/candidates/'' \<and> ends_with path ''/grab''
      then Some (mk_policy m ''manual_search_grab'' (Some ''acquisition'') False False False False False)
      else None)"

definition download_client_dynamic_policy :: "string \<Rightarrow> string \<Rightarrow> route_policy option" where
  "download_client_dynamic_policy path m =
     (let base = ''/api/download-clients'';
          admin = (\<lambda>action destructive. Some (mk_policy m action (Some ''admin'') False True destructive True False));
          suffix = strip_of (\<lambda>c. c = CHR ''/'') (drop (length base + 1) path)
      in if path = base \<and> m = ''POST'' then admin ''download_client_create'' False
         else if (path = base @ ''/test'' \<or> path = base @ ''/test-all'') \<and> m = ''POST''
         then admin ''download_client_test'' False
         else if starts_with path (base @ ''/'') \<and> m = ''POST'' \<and> ends_with suffix ''/test''
         then admin ''download_client_test'' False
         else if starts_with path (base @ ''/'') \<and> m = ''PATCH'' \<and> suffix \<noteq> [] \<and> CHR ''/'' \<notin> set suffix
         then admin ''download_client_update'' False
         else if starts_with path (base @ ''/'') \<and> m = ''DELETE'' \<and> suffix \<noteq> [] \<and> CHR ''/'' \<notin> set suffix
         then admin ''download_client_delete'' True
         else None)"

definition mutation_route_policy :: "string \<Rightarrow> string \<Rightarrow> route_policy option" where
  "mutation_route_policy path m0 =
     (let m = upper (if m0 = [] then ''GET'' else m0) in
      case exact_policy path m of Some p \<Rightarrow> Some p | None \<Rightarrow>
      (case manual_search_dynamic_policy path m of Some p \<Rightarrow> Some p | None \<Rightarrow>
      (case download_client_dynamic_policy path m of Some p \<Rightarrow> Some p | None \<Rightarrow>
       if m \<in> set [''POST'', ''DELETE''] \<and>
          (starts_with path ''/api/auth/api-keys/'' \<or> starts_with path ''/api/inkdrop-auth/api-keys/'')
       then Some (mk_policy m ''api_key_revoke'' (Some ''admin'') False True True True False)
       else None)))"

text \<open>\<open>public_inventory\<close>: the mutating routes of the inventory in the order of their keys.\<close>

definition inventory_keys :: "(string \<times> string) list" where
  "inventory_keys = concat (map (\<lambda>(m, routes, _). map (Pair m) routes) route_inventory)"

definition public_inventory :: "(string \<times> string \<times> route_policy) list" where
  "public_inventory = concat (map (\<lambda>m. concat (map (\<lambda>r.
       case exact_policy r m of Some p \<Rightarrow> [(m, r, p)] | None \<Rightarrow> [])
     (sort (remdups (map snd (filter (\<lambda>k. fst k = m) inventory_keys))))))
     (sort (filter (\<lambda>m. m \<in> set COOKIE_MUTATION_METHODS) (remdups (map fst inventory_keys)))))"

section \<open>The policy of a request\<close>

record action_policy =
  ap_action :: string
  ap_scope :: "string option"
  ap_admin_only :: bool
  ap_destructive :: bool
  ap_high_impact :: bool

definition mk_action :: "string \<Rightarrow> string \<Rightarrow> bool \<Rightarrow> bool \<Rightarrow> bool \<Rightarrow> action_policy" where
  "mk_action action scope admin destructive high_impact =
     \<lparr>ap_action = action, ap_scope = Some scope, ap_admin_only = admin, ap_destructive = destructive,
      ap_high_impact = high_impact\<rparr>"

definition INKDROP_AUTH_ACTION_POLICIES :: "((string \<times> string) \<times> action_policy) list" where
  "INKDROP_AUTH_ACTION_POLICIES = [
     ((''POST'', ''/api/auth/maintenance/cleanup''), mk_action ''auth_state_cleanup'' ''maintenance'' False False False),
     ((''POST'', ''/api/inkdrop-auth/maintenance/cleanup''), mk_action ''auth_state_cleanup'' ''maintenance'' False False False),
     ((''POST'', ''/api/auth/api-keys''), mk_action ''api_key_create'' ''admin'' True False True),
     ((''POST'', ''/api/auth/api-keys/revoke''), mk_action ''api_key_revoke'' ''admin'' True True True),
     ((''POST'', ''/api/inkdrop-auth/api-keys/create''), mk_action ''api_key_create'' ''admin'' True False True),
     ((''POST'', ''/api/inkdrop-auth/api-keys/revoke''), mk_action ''api_key_revoke'' ''admin'' True True True),
     ((''POST'', ''/api/auth/sessions/revoke''), mk_action ''session_revoke_all'' ''admin'' True True True),
     ((''POST'', ''/api/auth/password''), mk_action ''password_change'' ''admin'' True False True),
     ((''POST'', ''/api/auth/recovery/reset''), mk_action ''password_recovery'' ''admin'' True True True)]"

definition DESTRUCTIVE_WORDS :: "string list" where
  "DESTRUCTIVE_WORDS = [''maintenance'', ''cleanup'', ''clear'', ''remove'', ''delete'', ''restore'',
     ''quarantine'', ''manual-review'', ''bad-match'', ''backup'']"

definition ACQUISITION_WORDS :: "string list" where
  "ACQUISITION_WORDS = [''search'', ''source'', ''missing'', ''queue'', ''import'', ''download'', ''manga'']"

definition inkdrop_auth_action_policy :: "string \<Rightarrow> string \<Rightarrow> action_policy" where
  "inkdrop_auth_action_policy path m0 =
     (let m = upper (if m0 = [] then ''GET'' else m0) in
      case mutation_route_policy path m of
        Some p \<Rightarrow> \<lparr>ap_action = rp_action p, ap_scope = rp_scope p, ap_admin_only = rp_admin_only p,
                   ap_destructive = rp_destructive p, ap_high_impact = rp_high_impact p\<rparr>
      | None \<Rightarrow>
        (case dget INKDROP_AUTH_ACTION_POLICIES (m, path) of
           Some p \<Rightarrow> p
         | None \<Rightarrow>
           if m \<in> set [''GET'', ''HEAD'']
           then (if starts_with path ''/api/inkdrop-diagnostics/'' \<or> starts_with path ''/api/inkdrop-debug/''
                   \<or> path = ''/api/system/update-status''
                 then mk_action ''advanced_diagnostics'' ''admin'' True False False
                 else mk_action ''read'' ''read'' False False False)
           else if starts_with path ''/api/auth/'' \<or> starts_with path ''/api/inkdrop-auth/''
           then mk_action ''auth_administration'' ''admin'' True False True
           else if contains_any path DESTRUCTIVE_WORDS \<or> m = ''DELETE''
           then mk_action ''destructive_maintenance'' ''admin'' True True True
           else if starts_with path ''/api/inkdrop-settings''
           then mk_action ''settings_update'' ''settings'' False False False
           else if contains_any path ACQUISITION_WORDS
           then mk_action ''acquisition'' ''acquisition'' False False False
           else mk_action ''write'' ''write'' False False False))"

definition inkdrop_auth_required_scope :: "string \<Rightarrow> string \<Rightarrow> string option \<times> bool" where
  "inkdrop_auth_required_scope path m =
     (let p = inkdrop_auth_action_policy path m in (ap_scope p, ap_admin_only p))"

section \<open>What the policies guarantee\<close>

definition account_path :: "string \<Rightarrow> bool" where
  "account_path path = (starts_with path ''/api/auth/'' \<or> starts_with path ''/api/inkdrop-auth/'')"

definition scope_ok :: "string \<Rightarrow> string \<Rightarrow> string option \<Rightarrow> bool \<Rightarrow> bool" where
  "scope_ok m action scope admin \<longleftrightarrow>
     (admin \<longrightarrow> scope = Some ''admin'')
     \<and> (m \<notin> set [''GET'', ''HEAD''] \<longrightarrow> scope \<noteq> Some ''read'')
     \<and> (m = ''DELETE'' \<longrightarrow> admin)
     \<and> (scope = None \<longrightarrow> action = ''authentication_public'')
     \<and> (case scope of None \<Rightarrow> True | Some s \<Rightarrow> s \<in> set API_KEY_SCOPES)"

definition open_action :: "string \<Rightarrow> string \<Rightarrow> bool \<Rightarrow> bool" where
  "open_action m action admin \<longleftrightarrow> m \<in> set [''GET'', ''HEAD''] \<or> admin
     \<or> action \<in> set [''authentication_public'', ''auth_state_cleanup'']"

definition group_ok :: "route_group \<Rightarrow> bool" where
  "group_ok g = (case g of (m, routes, p) \<Rightarrow>
     scope_ok m (rp_action p) (rp_scope p) (rp_admin_only p)
     \<and> (open_action m (rp_action p) (rp_admin_only p) \<or> list_all (\<lambda>r. \<not> account_path r) routes))"

lemma groups_ok: "list_all group_ok routes_accounts" "list_all group_ok routes_acquisition"
  "list_all group_ok routes_maintenance"
  by code_simp+

lemma inventory_ok: "g \<in> set route_inventory \<Longrightarrow> group_ok g"
  using groups_ok by (auto simp: route_inventory_def list_all_iff)

lemma exact_policy_group: "exact_policy path m = Some p \<Longrightarrow> \<exists>routes. (m, routes, p) \<in> set route_inventory \<and> path \<in> set routes"
  by (auto simp: exact_policy_def find_Some_iff) (metis length_rev nth_mem set_rev)

definition sound :: "string \<Rightarrow> string \<Rightarrow> action_policy \<Rightarrow> bool" where
  "sound path m p \<longleftrightarrow> scope_ok m (ap_action p) (ap_scope p) (ap_admin_only p)
     \<and> (account_path path \<longrightarrow> open_action m (ap_action p) (ap_admin_only p))"

lemma upper_char_idem: "concat (map upper_char (upper_char c)) = upper_char c"
proof -
  define n where "n = code c"
  consider "n = 223" | "(97 \<le> n \<and> n \<le> 122) \<or> (224 \<le> n \<and> n \<le> 254 \<and> n \<noteq> 247)"
    | "n \<noteq> 223" "\<not> ((97 \<le> n \<and> n \<le> 122) \<or> (224 \<le> n \<and> n \<le> 254 \<and> n \<noteq> 247))" by blast
  then show ?thesis
  proof cases
    case 1
    have "concat (map upper_char ''SS'') = ''SS''" by code_simp
    then show ?thesis using 1 by (simp add: upper_char_def [of c] n_def)
  next
    case 2
    then have "code (char_of (n - 32) :: char) = n - 32" by (intro code_char_of) auto
    then have "upper_char (char_of (n - 32)) = [char_of (n - 32)]"
      using 2 unfolding upper_char_def Let_def by (simp only:) auto
    moreover have "upper_char c = [char_of (n - 32)]"
      using 2 unfolding upper_char_def Let_def by (fold n_def) auto
    ultimately show ?thesis by simp
  next
    case 3
    then have "upper_char c = [c]" unfolding upper_char_def Let_def by (fold n_def) auto
    then show ?thesis by simp
  qed
qed

lemma upper_idem [simp]: "upper (upper s) = upper s"
  by (induction s) (simp_all add: upper_def upper_char_idem)

lemma upper_eq_Nil: "upper s = [] \<longleftrightarrow> s = []"
  by (cases s) (auto simp: upper_def upper_char_def Let_def split: if_splits)

definition as_action :: "route_policy \<Rightarrow> action_policy" where
  "as_action p = \<lparr>ap_action = rp_action p, ap_scope = rp_scope p, ap_admin_only = rp_admin_only p,
     ap_destructive = rp_destructive p, ap_high_impact = rp_high_impact p\<rparr>"

lemma sound_exact: "exact_policy path m = Some p \<Longrightarrow> sound path m (as_action p)"
proof -
  assume "exact_policy path m = Some p"
  then obtain routes where g: "(m, routes, p) \<in> set route_inventory" "path \<in> set routes"
    using exact_policy_group by blast
  show ?thesis using inventory_ok [OF g(1)] g(2) by (auto simp: group_ok_def sound_def as_action_def list_all_iff)
qed

lemma manual_prefix: "starts_with path ''/api/manual-search/runs/'' \<or> starts_with path ''/api/manual-search/candidates/'' \<Longrightarrow>
   \<not> account_path path"
  by (auto simp: starts_with_append account_path_def)

lemma known_scopes: "''read'' \<in> set API_KEY_SCOPES" "''write'' \<in> set API_KEY_SCOPES" "''settings'' \<in> set API_KEY_SCOPES"
  "''acquisition'' \<in> set API_KEY_SCOPES" "''maintenance'' \<in> set API_KEY_SCOPES" "''admin'' \<in> set API_KEY_SCOPES"
  by (simp_all add: API_KEY_SCOPES_def)

lemma sound_manual: "manual_search_dynamic_policy path m = Some p \<Longrightarrow> sound path m (as_action p)"
  using manual_prefix [of path] known_scopes
  by (auto simp: manual_search_dynamic_policy_def mk_policy_def sound_def scope_ok_def as_action_def split: if_splits)

lemma sound_admin: "sound path m (as_action (mk_policy m action (Some ''admin'') False True d h i))"
  using known_scopes by (simp add: sound_def scope_ok_def open_action_def as_action_def mk_policy_def)

lemma sound_download: "download_client_dynamic_policy path m = Some p \<Longrightarrow> sound path m (as_action p)"
  by (auto simp: download_client_dynamic_policy_def Let_def sound_admin split: if_splits)

lemma sound_mutation:
  "mutation_route_policy path m0 = Some p \<Longrightarrow> sound path (upper (if m0 = [] then ''GET'' else m0)) (as_action p)"
  by (auto simp: mutation_route_policy_def Let_def sound_exact sound_manual sound_download sound_admin
      split: option.splits if_splits)

lemma sound_table: "(k, p) \<in> set INKDROP_AUTH_ACTION_POLICIES \<Longrightarrow> sound (snd k) (fst k) p"
proof -
  have "list_all (\<lambda>(k, p). sound (snd k) (fst k) p) INKDROP_AUTH_ACTION_POLICIES"
    by code_simp
  then show "(k, p) \<in> set INKDROP_AUTH_ACTION_POLICIES \<Longrightarrow> sound (snd k) (fst k) p"
    by (auto simp: list_all_iff)
qed

lemma sound_fallback:
  "m \<in> set [''GET'', ''HEAD''] \<Longrightarrow> sound path m (mk_action ''read'' ''read'' False False False)"
  "sound path m (mk_action action ''admin'' True d h)"
  "\<not> account_path path \<Longrightarrow> m \<noteq> ''DELETE'' \<Longrightarrow> scope \<in> set [''settings'', ''acquisition'', ''write''] \<Longrightarrow>
     sound path m (mk_action action scope False False False)"
  using known_scopes by (auto simp: sound_def scope_ok_def open_action_def mk_action_def)

lemma upper_method: "upper (if m = [] then ''GET'' else m) = k \<Longrightarrow> upper (if k = [] then ''GET'' else k) = k"
  by (cases "m = []") (auto simp: upper_eq_Nil)

lemma sound_policy: "sound path (upper (if m = [] then ''GET'' else m)) (inkdrop_auth_action_policy path m)"
proof -
  define k where "k = upper (if m = [] then ''GET'' else m)"
  have k: "upper (if k = [] then ''GET'' else k) = k" using upper_method k_def by blast
  show ?thesis
  proof (cases "mutation_route_policy path k")
    case (Some p)
    then show ?thesis using sound_mutation [OF Some] k
      by (simp add: inkdrop_auth_action_policy_def Let_def as_action_def flip: k_def)
  next
    case None
    show ?thesis
    proof (cases "dget INKDROP_AUTH_ACTION_POLICIES (k, path)")
      case (Some p)
      then show ?thesis using sound_table [OF dget_Some_in [OF Some]] None
        by (simp add: inkdrop_auth_action_policy_def Let_def flip: k_def)
    next
      case none: None
      have u: "inkdrop_auth_action_policy path m =
        (if k \<in> set [''GET'', ''HEAD'']
           then (if starts_with path ''/api/inkdrop-diagnostics/'' \<or> starts_with path ''/api/inkdrop-debug/''
                   \<or> path = ''/api/system/update-status''
                 then mk_action ''advanced_diagnostics'' ''admin'' True False False
                 else mk_action ''read'' ''read'' False False False)
           else if account_path path
           then mk_action ''auth_administration'' ''admin'' True False True
           else if contains_any path DESTRUCTIVE_WORDS \<or> k = ''DELETE''
           then mk_action ''destructive_maintenance'' ''admin'' True True True
           else if starts_with path ''/api/inkdrop-settings''
           then mk_action ''settings_update'' ''settings'' False False False
           else if contains_any path ACQUISITION_WORDS
           then mk_action ''acquisition'' ''acquisition'' False False False
           else mk_action ''write'' ''write'' False False False)"
        by (simp only: inkdrop_auth_action_policy_def Let_def k_def [symmetric] None none option.case account_path_def)
      show ?thesis
        unfolding u k_def [symmetric] by (auto simp: sound_fallback)
    qed
  qed
qed

text \<open>
  For every path and method the required scope is a known one, or none on the public account routes;
  an administrator route asks for the admin scope; a method that changes something never makes do
  with the read scope; every DELETE is for administrators; and below the account prefixes every change
  is for administrators, except the public account routes and the clean-up.
\<close>

theorem policy_table_sound:
  fixes path m :: string
  defines "p \<equiv> inkdrop_auth_action_policy path m" and "k \<equiv> upper (if m = [] then ''GET'' else m)"
  shows "(case ap_scope p of None \<Rightarrow> ap_action p = ''authentication_public'' | Some s \<Rightarrow> s \<in> set API_KEY_SCOPES)
    \<and> (if ap_admin_only p then ap_scope p = Some ''admin'' else k \<noteq> ''DELETE'')
    \<and> (if k \<in> set [''GET'', ''HEAD''] then True else ap_scope p \<noteq> Some ''read'')
    \<and> (if account_path path \<and> k \<notin> set [''GET'', ''HEAD'']
       then ap_admin_only p \<or> ap_action p \<in> set [''authentication_public'', ''auth_state_cleanup''] else True)"
proof -
  have so: "sound path k p" using sound_policy [of path m] by (simp only: p_def k_def)
  then have s: "scope_ok k (ap_action p) (ap_scope p) (ap_admin_only p)"
    and o: "account_path path \<longrightarrow> open_action k (ap_action p) (ap_admin_only p)"
    unfolding sound_def by blast+
  have "case ap_scope p of None \<Rightarrow> ap_action p = ''authentication_public'' | Some s \<Rightarrow> s \<in> set API_KEY_SCOPES"
    using s unfolding scope_ok_def by (cases "ap_scope p") simp_all
  moreover have "if ap_admin_only p then ap_scope p = Some ''admin'' else k \<noteq> ''DELETE''"
    using s unfolding scope_ok_def by argo
  moreover have "if k \<in> set [''GET'', ''HEAD''] then True else ap_scope p \<noteq> Some ''read''"
    using s unfolding scope_ok_def by argo
  ultimately show ?thesis using o unfolding open_action_def by argo
qed

theorem policy_table_sound_witness:
  "inkdrop_auth_action_policy ''/api/auth/password'' ''post'' = \<lparr>ap_action = ''authentication_administration'',
     ap_scope = Some ''admin'', ap_admin_only = True, ap_destructive = False, ap_high_impact = True\<rparr>
   \<and> (if ap_admin_only (inkdrop_auth_action_policy ''/api/auth/password'' ''post'')
      then ap_scope (inkdrop_auth_action_policy ''/api/auth/password'' ''post'') = Some ''admin'' else True)"
proof -
  have "inkdrop_auth_action_policy ''/api/auth/password'' ''post'' = \<lparr>ap_action = ''authentication_administration'',
     ap_scope = Some ''admin'', ap_admin_only = True, ap_destructive = False, ap_high_impact = True\<rparr>" by code_simp
  then show ?thesis using policy_table_sound [where path = "''/api/auth/password''" and m = "''post''"] by auto
qed

end
