(* ===== verification/RequestGate.thy ===== *)
theory RequestGate
  imports AuthConfig RouteContract AuthSafety
begin

text \<open>
  The gate every HTTP request passes, from \<^verbatim>\<open>core/inkdrop_web.py\<close>: the cached status
  (\<open>inkdrop_auth_required_status\<close>), the public paths, the principal of a request
  (\<open>inkdrop_auth_principal\<close>) and \<open>Handler.ensure_authorized\<close>. The outcome says whether the request
  is served, refused with a status and an error code, or dropped by an exception.

  \<open>http.cookies\<close>, \<open>base64\<close> and \<open>urlparse\<close> are the fields of \<open>httplib\<close>.
\<close>

section \<open>Public paths\<close>

definition INKDROP_AUTH_SETUP_SAFE_PATHS :: "string list" where
  "INKDROP_AUTH_SETUP_SAFE_PATHS =
     [''/'', ''/inkdrop-logo-mark.png'', ''/inkdrop-logo-mark-mobile.png'',
      ''/static/img/inkdrop-auth-backdrop.webp'', ''/api/inkdrop-auth/status'', ''/api/auth/status'',
      ''/status.json'', ''/m'']"

definition INKDROP_AUTH_PUBLIC_PATHS :: "string list" where
  "INKDROP_AUTH_PUBLIC_PATHS = INKDROP_AUTH_SETUP_SAFE_PATHS @
     [''/status.json'', ''/api/system/version'', ''/api/inkdrop-auth/login'', ''/api/auth/login'',
      ''/api/auth/recovery/reset'', ''/api/inkdrop-auth/recovery/reset'']"

definition method_of :: "string \<Rightarrow> string" where
  "method_of m = upper (if m = [] then ''GET'' else m)"

definition inkdrop_auth_is_public_path :: "string \<Rightarrow> string \<Rightarrow> gate_status \<Rightarrow> bool" where
  "inkdrop_auth_is_public_path path m status =
     (path \<in> set (if gs_setup_required status then INKDROP_AUTH_SETUP_SAFE_PATHS else INKDROP_AUTH_PUBLIC_PATHS)
      \<or> starts_with path ''/static/''
      \<or> (path \<in> set [''/api/inkdrop-auth/bootstrap'', ''/api/auth/bootstrap''] \<and> method_of m = ''POST''
          \<and> gs_bootstrap_required status \<and> gs_setup_required status))"

definition inkdrop_auth_public_without_status_lookup :: "string \<Rightarrow> bool" where
  "inkdrop_auth_public_without_status_lookup path =
     (path \<in> set INKDROP_AUTH_SETUP_SAFE_PATHS \<or> starts_with path ''/static/'')"

section \<open>The cached status\<close>

record status_cache =
  sc_ts :: rat
  sc_status :: "gate_status option"
  sc_key :: string

definition clear_inkdrop_auth_status_cache :: status_cache where
  "clear_inkdrop_auth_status_cache = \<lparr>sc_ts = 0, sc_status = None, sc_key = []\<rparr>"

text \<open>
  \<open>key\<close> stands for the cache key of the call, \<open>lock_free\<close> for the outcome of the non-blocking
  acquire, \<open>fresh\<close> for what \<open>auth_status\<close> returns or raises.
\<close>

definition inkdrop_auth_required_status ::
    "env \<Rightarrow> string \<Rightarrow> rat \<Rightarrow> bool \<Rightarrow> auth_error + gate_status \<Rightarrow> status_cache
     \<Rightarrow> (auth_error + gate_status \<times> bool) \<times> status_cache" where
  "inkdrop_auth_required_status env key now lock_free fresh cache =
     (let hit = (case sc_status cache of Some s \<Rightarrow> if sc_key cache = key then Some s else None | None \<Rightarrow> None)
      in case hit of
        Some s \<Rightarrow>
          if now - sc_ts cache < 15 then (Inr (s, gs_required s), cache)
          else if \<not> lock_free then (Inr (s, gs_required s), cache)
          else (case fresh of
                  Inr f \<Rightarrow> (Inr (f, gs_required f), \<lparr>sc_ts = now, sc_status = Some f, sc_key = key\<rparr>)
                | Inl e \<Rightarrow> (Inr (s\<lparr>gs_stale := True\<rparr>, gs_required s), cache))
      | None \<Rightarrow>
          if \<not> lock_free
          then (let required = (lower_text (env_get env ''INKDROP_AUTH_REQUIRED'') \<in> set ENV_TRUE) in
                (Inr (\<lparr>gs_required = required, gs_setup_required = False, gs_bootstrap_required = False,
                       gs_provisional = True, gs_stale = False\<rparr>, required), cache))
          else (case fresh of
                  Inr f \<Rightarrow> (Inr (f, gs_required f), \<lparr>sc_ts = now, sc_status = Some f, sc_key = key\<rparr>)
                | Inl e \<Rightarrow> (Inl e, cache)))"

section \<open>Credentials\<close>

record httplib =
  hl_cookie :: "string \<Rightarrow> string \<Rightarrow> string option"
  hl_basic :: "string \<Rightarrow> string option"
  hl_urlparse :: "string \<Rightarrow> (string \<times> string) option"

type_synonym headers = "(string \<times> string) list"

definition cookie_value :: "httplib \<Rightarrow> headers \<Rightarrow> string \<Rightarrow> string" where
  "cookie_value lib hs name =
     (if header hs ''Cookie'' = [] then []
      else case hl_cookie lib (header hs ''Cookie'') name of None \<Rightarrow> [] | Some v \<Rightarrow> strip v)"

definition inkdrop_auth_cookie_token :: "httplib \<Rightarrow> headers \<Rightarrow> string" where
  "inkdrop_auth_cookie_token lib hs = cookie_value lib hs ''inkdrop_session''"

definition inkdrop_auth_csrf_cookie_token :: "httplib \<Rightarrow> headers \<Rightarrow> string" where
  "inkdrop_auth_csrf_cookie_token lib hs = cookie_value lib hs ''inkdrop_csrf''"

text \<open>\<open>text.split(None, 1)[1]\<close> after a first word of \<open>n\<close> characters.\<close>

definition after_word :: "nat \<Rightarrow> string \<Rightarrow> string" where
  "after_word n s = lstrip is_space (drop n s)"

definition inkdrop_auth_bearer_token :: "headers \<Rightarrow> string" where
  "inkdrop_auth_bearer_token hs =
     (let h = strip (header hs ''Authorization'') in
      if starts_with (lower h) ''bearer '' then strip (after_word 6 h) else [])"

definition inkdrop_auth_api_key :: "headers \<Rightarrow> string" where
  "inkdrop_auth_api_key hs =
     (let a = strip (header hs ''X-InkDrop-API-Key''); b = strip (header hs ''X-Api-Key'')
      in if a \<noteq> [] then a else b)"

definition inkdrop_auth_basic_password :: "httplib \<Rightarrow> headers \<Rightarrow> string" where
  "inkdrop_auth_basic_password lib hs =
     (let h = strip (header hs ''Authorization'') in
      if starts_with (lower h) ''basic '' then
        (case hl_basic lib (after_word 5 h) of
           None \<Rightarrow> []
         | Some decoded \<Rightarrow>
             (if CHR '':'' \<in> set decoded then strip (tl (dropWhile (\<lambda>c. c \<noteq> CHR '':'') decoded)) else []))
      else [])"

text \<open>\<open>hmac.compare_digest\<close> on two strings accepts ASCII only.\<close>

definition compare_digest :: "string \<Rightarrow> string \<Rightarrow> auth_error + bool" where
  "compare_digest a b =
     (if list_all (\<lambda>c. code c < 128) (a @ b) then Inr (a = b) else Inl (AuthPy TypeError))"

section \<open>The principal\<close>

record gate_principal =
  gp_principal :: principal
  gp_transport :: string
  gp_csrf_valid :: bool

definition of_external :: "principal \<Rightarrow> gate_principal" where
  "of_external p = \<lparr>gp_principal = p, gp_transport = [], gp_csrf_valid = False\<rparr>"

definition of_key :: "api_key \<Rightarrow> gate_principal" where
  "of_key k = \<lparr>gp_principal = \<lparr>pr_method = ''api_key'', pr_id = ak_id k, pr_user_role = [], pr_role = [],
      pr_scopes = ak_scopes k\<rparr>, gp_transport = [], gp_csrf_valid = False\<rparr>"

definition of_session :: "bool \<Rightarrow> verified_session \<Rightarrow> gate_principal" where
  "of_session bearer v = \<lparr>gp_principal = \<lparr>pr_method = ''session'', pr_id = vs_user_id v,
      pr_user_role = vs_role v, pr_role = [], pr_scopes = [''admin'']\<rparr>,
      gp_transport = (if bearer then ''bearer'' else ''cookie''), gp_csrf_valid = vs_csrf_valid v\<rparr>"

text \<open>The CSRF token to check: for a cookie session the header, when it repeats the cookie.\<close>

definition csrf_token_of :: "httplib \<Rightarrow> headers \<Rightarrow> bool \<Rightarrow> auth_error + string" where
  "csrf_token_of lib hs bearer =
     (let csrf_header = strip (header hs ''X-InkDrop-CSRF''); csrf_cookie = inkdrop_auth_csrf_cookie_token lib hs
      in if bearer then Inr csrf_header
         else if csrf_header \<noteq> [] \<and> csrf_cookie \<noteq> []
         then mapE (\<lambda>same. if same then csrf_header else []) (compare_digest csrf_header csrf_cookie)
         else Inr [])"

definition session_principal ::
    "crypto \<Rightarrow> httplib \<Rightarrow> rat \<Rightarrow> headers \<Rightarrow> bool \<Rightarrow> auth_state \<Rightarrow> gate_principal option auth_result" where
  "session_principal cr lib now hs touch st =
     (let bearer = inkdrop_auth_bearer_token hs;
          token = (if bearer \<noteq> [] then bearer else inkdrop_auth_cookie_token lib hs)
      in if token = [] then (Inr None, st)
         else (case csrf_token_of lib hs (bearer \<noteq> []) of
             Inl e \<Rightarrow> (Inl e, st)
           | Inr csrf \<Rightarrow>
               (let (v, st') = verify_session cr now token csrf touch st
                in (Inr (map_option (of_session (bearer \<noteq> [])) v), st'))))"

text \<open>The API key of a request; OPDS readers may send it as a Basic password.\<close>

definition presented_key :: "httplib \<Rightarrow> headers \<Rightarrow> bool \<Rightarrow> string" where
  "presented_key lib hs allow_basic =
     (let direct = inkdrop_auth_api_key hs in
      if direct \<noteq> [] then direct else if allow_basic then inkdrop_auth_basic_password lib hs else [])"

definition inkdrop_auth_principal ::
    "crypto \<Rightarrow> ipaddr \<Rightarrow> httplib \<Rightarrow> draws \<Rightarrow> auth_error + auth_config \<Rightarrow> headers \<Rightarrow> string \<Rightarrow> bool \<Rightarrow> bool
     \<Rightarrow> auth_state \<Rightarrow> gate_principal option auth_result" where
  "inkdrop_auth_principal cr ip lib d config hs remote mark allow_basic st =
     (case config of
        Inl e \<Rightarrow> (Inl e, st)
      | Inr c \<Rightarrow>
          (case external_principal hs (remote_is_trusted ip remote (cf_trusted_proxies c)) (cf_external c) of
             Some p \<Rightarrow>
               (Inr (Some (of_external p)),
                snd (audit_external_auth d (Some p) remote (header hs ''User-Agent'') 3600 st))
           | None \<Rightarrow>
               (let key = presented_key lib hs allow_basic;
                    (verified, st1) = (if key \<noteq> [] \<and> cf_api_keys_enabled c
                       then verify_api_key cr (d_now d) key mark st else (None, st))
                in case verified of
                     Some k \<Rightarrow> (Inr (Some (of_key k)), st1)
                   | None \<Rightarrow> session_principal cr lib (d_now d) hs mark st1)))"

section \<open>The gate\<close>

datatype gate_outcome =
    Served "gate_principal option"
  | Refused int string
  | Dropped auth_error

record request =
  rq_path :: string
  rq_method :: string
  rq_headers :: headers
  rq_remote :: string

definition refuse :: "string \<Rightarrow> auth_error" where
  "refuse what = AuthError what what 403 None"

definition rstrip_slash :: "string \<Rightarrow> string" where
  "rstrip_slash s = rev (dropWhile (\<lambda>c. c = CHR ''/'') (rev s))"

definition origin_allowed :: "headers \<Rightarrow> string list \<Rightarrow> string \<Rightarrow> string \<times> string \<Rightarrow> bool" where
  "origin_allowed hs allowed_origins origin' parsed =
     (lower (snd parsed) = lower (strip (header hs ''Host'')) \<and> fst parsed \<in> set [''http'', ''https'']
      \<or> lower (rstrip_slash origin') \<in> set (map (\<lambda>v. lower (rstrip_slash v)) allowed_origins))"

definition check_csrf :: "httplib \<Rightarrow> headers \<Rightarrow> gate_principal \<Rightarrow> string list \<Rightarrow> auth_error + unit" where
  "check_csrf lib hs p allowed_origins =
     (let csrf_cookie = inkdrop_auth_csrf_cookie_token lib hs;
          csrf_header = strip (header hs ''X-InkDrop-CSRF'');
          origin' = strip (header hs ''Origin'')
      in if csrf_cookie = [] then Inl (refuse ''csrf_cookie_required'')
         else if csrf_header = [] then Inl (refuse ''csrf_header_required'')
         else bindE (compare_digest csrf_cookie csrf_header) (\<lambda>same.
           if \<not> same then Inl (refuse ''csrf_token_mismatch'')
           else if \<not> gp_csrf_valid p then Inl (refuse ''csrf_validation_failed'')
           else if origin' = [] then Inl (refuse ''origin_header_required'')
           else case hl_urlparse lib origin' of
             None \<Rightarrow> Inl (AuthPy ValueError)
           | Some parsed \<Rightarrow>
               if origin_allowed hs allowed_origins origin' parsed then Inr ()
               else Inl (refuse ''origin_validation_failed'')))"

text \<open>A cookie session that changes something.\<close>

definition needs_csrf :: "request \<Rightarrow> gate_principal \<Rightarrow> bool" where
  "needs_csrf rq p =
     (method_of (rq_method rq) \<notin> set [''GET'', ''HEAD'', ''OPTIONS'']
      \<and> pr_method (gp_principal p) = ''session'' \<and> gp_transport p = ''cookie'')"

definition admit :: "httplib \<Rightarrow> request \<Rightarrow> gate_principal \<Rightarrow> string list \<Rightarrow> auth_error + unit" where
  "admit lib rq p allowed_origins =
     (let (scope, admin) = inkdrop_auth_required_scope (rq_path rq) (rq_method rq) in
      bindE (authorize (Some (gp_principal p)) scope admin) (\<lambda>_.
        if needs_csrf rq p then check_csrf lib (rq_headers rq) p allowed_origins else Inr ()))"

definition outcome_of :: "gate_principal \<Rightarrow> auth_error + unit \<Rightarrow> gate_outcome" where
  "outcome_of p r =
     (case r of
        Inr _ \<Rightarrow> Served (Some p)
      | Inl (AuthError c _ s _) \<Rightarrow> Refused s c
      | Inl e \<Rightarrow> Dropped e)"

definition ensure_authorized ::
    "crypto \<Rightarrow> ipaddr \<Rightarrow> httplib \<Rightarrow> draws \<Rightarrow> auth_error + gate_status \<times> bool \<Rightarrow> auth_error + auth_config
     \<Rightarrow> request \<Rightarrow> auth_state \<Rightarrow> gate_outcome \<times> auth_state" where
  "ensure_authorized cr ip lib d status config rq st =
     (if inkdrop_auth_public_without_status_lookup (rq_path rq) then (Served None, st)
      else case status of
        Inl _ \<Rightarrow> (Refused 503 ''auth status unavailable'', st)
      | Inr (s, required) \<Rightarrow>
          if gs_setup_required s
          then (if inkdrop_auth_is_public_path (rq_path rq) (rq_method rq) s then (Served None, st)
                else (Refused 403 ''setup_not_complete'', st))
          else if \<not> required \<or> inkdrop_auth_is_public_path (rq_path rq) (rq_method rq) s
          then (Served None, st)
          else (case inkdrop_auth_principal cr ip lib d config (rq_headers rq) (rq_remote rq) True
                       (starts_with (rq_path rq) ''/opds/'') st of
              (Inl e, st') \<Rightarrow> (Dropped e, st')
            | (Inr None, st') \<Rightarrow> (Refused 401 ''authentication_required'', st')
            | (Inr (Some p), st') \<Rightarrow>
                (outcome_of p (admit lib rq p (case config of Inr c \<Rightarrow> cf_allowed_origins c | Inl _ \<Rightarrow> [])), st')))"

section \<open>Principals come from credentials\<close>

text \<open>What a principal rests on in the configuration and the store.\<close>

definition entitled :: "crypto \<Rightarrow> ipaddr \<Rightarrow> rat \<Rightarrow> auth_config \<Rightarrow> headers \<Rightarrow> string \<Rightarrow> auth_state \<Rightarrow> gate_principal \<Rightarrow> bool" where
  "entitled cr ip now c hs remote st p \<longleftrightarrow>
     (ex_enabled (cf_external c) \<and> remote_is_trusted ip remote (cf_trusted_proxies c)
        \<and> pr_id (gp_principal p) = strip (header hs (ex_identity_header (cf_external c))) \<and> pr_id (gp_principal p) \<noteq> []
        \<and> pr_method (gp_principal p) = ''external'')
     \<or> (cf_api_keys_enabled c \<and> (\<exists>k \<in> set (st_keys st). \<exists>token. token \<noteq> [] \<and> valid_key cr token now k \<and> p = of_key k))
     \<or> (\<exists>s \<in> set (st_sessions st). \<exists>u \<in> set (st_users st). \<exists>token bearer. token \<noteq> []
          \<and> as_token_hash s = cr_digest cr token \<and> live_session now s \<and> au_id u = as_user_id s \<and> au_enabled u
          \<and> pr_method (gp_principal p) = ''session'' \<and> pr_id (gp_principal p) = au_id u
          \<and> pr_user_role (gp_principal p) = au_role u
          \<and> gp_transport p = (if bearer then ''bearer'' else ''cookie''))"

lemma find_mem: "List.find p xs = Some x \<Longrightarrow> x \<in> set xs \<and> p x"
  by (auto simp: find_Some_iff)

lemma verify_session_Some:
  assumes "verify_session cr now token csrf touch st = (Some v, st')"
  shows "token \<noteq> [] \<and> (\<exists>s \<in> set (st_sessions st). \<exists>u \<in> set (st_users st). as_token_hash s = cr_digest cr token
    \<and> live_session now s \<and> au_id u = as_user_id s \<and> au_enabled u \<and> vs_user_id v = au_id u \<and> vs_role v = au_role u
    \<and> (vs_csrf_valid v \<longrightarrow> csrf \<noteq> [] \<and> cr_digest cr csrf = as_csrf_hash s))"
  using assms
  by (fastforce simp: verify_session_def session_row_def user_by_id_def dest!: find_mem
      split: if_splits option.splits prod.splits)

lemma verify_api_key_Some:
  "verify_api_key cr now token mark st = (Some k, st') \<Longrightarrow> token \<noteq> [] \<and> k \<in> set (st_keys st) \<and> valid_key cr token now k"
  by (auto simp: verify_api_key_def dest!: find_mem split: if_splits option.splits)

lemma verify_api_key_None: "verify_api_key cr now token mark st = (None, st') \<Longrightarrow> st' = st"
  by (auto simp: verify_api_key_def split: if_splits option.splits)

lemma session_principal_Some:
  assumes "session_principal cr lib now hs touch st = (Inr (Some p), st')"
  shows "\<exists>bearer token csrf v. token \<noteq> [] \<and> csrf_token_of lib hs bearer = Inr csrf
    \<and> verify_session cr now token csrf touch st = (Some v, st') \<and> p = of_session bearer v"
  using assms by (auto simp: session_principal_def Let_def split: if_splits sum.splits prod.splits)

lemma external_principal_Some:
  "external_principal hs trusted cfg = Some p \<Longrightarrow> ex_enabled cfg \<and> trusted
     \<and> pr_id p = strip (header hs (ex_identity_header cfg)) \<and> pr_id p \<noteq> [] \<and> pr_method p = ''external''"
  by (auto simp: external_principal_def Let_def split: if_splits)

lemma principal_cases:
  assumes "inkdrop_auth_principal cr ip lib d config hs remote mark basic st = (Inr (Some p), st')"
  obtains (external) c e where "config = Inr c" "p = of_external e"
      "external_principal hs (remote_is_trusted ip remote (cf_trusted_proxies c)) (cf_external c) = Some e"
  | (key) c token k where "config = Inr c" "cf_api_keys_enabled c" "p = of_key k"
      "verify_api_key cr (d_now d) token mark st = (Some k, st')"
  | (session) c where "config = Inr c" "session_principal cr lib (d_now d) hs mark st = (Inr (Some p), st')"
proof (cases config)
  case (Inl e)
  then show ?thesis using assms by (simp add: inkdrop_auth_principal_def)
next
  case (Inr c)
  define token where "token = presented_key lib hs basic"
  define found where "found = (if token \<noteq> [] \<and> cf_api_keys_enabled c
      then verify_api_key cr (d_now d) token mark st else (None, st))"
  show ?thesis
  proof (cases "external_principal hs (remote_is_trusted ip remote (cf_trusted_proxies c)) (cf_external c)")
    case (Some e)
    then have "p = of_external e" using assms Inr by (simp add: inkdrop_auth_principal_def)
    then show ?thesis by (rule external [OF Inr _ Some])
  next
    case None
    obtain x st1 where f: "found = (x, st1)" by force
    have a: "(case x of Some k \<Rightarrow> (Inr (Some (of_key k)), st1)
        | None \<Rightarrow> session_principal cr lib (d_now d) hs mark st1) = (Inr (Some p), st')"
      using assms Inr None f unfolding found_def token_def inkdrop_auth_principal_def Let_def by simp
    show ?thesis
    proof (cases x)
      case (Some k)
      then have "p = of_key k" "st1 = st'" using a by auto
      then show ?thesis using key Inr f Some by (auto simp: found_def split: if_splits)
    next
      case none: None
      then have "st1 = st" using f verify_api_key_None by (auto simp: found_def split: if_splits)
      then show ?thesis using session a none Inr by simp
    qed
  qed
qed

lemma principal_entitled:
  assumes "inkdrop_auth_principal cr ip lib d (Inr c) hs remote mark basic st = (Inr (Some p), st')"
  shows "entitled cr ip (d_now d) c hs remote st p"
  using assms
proof (cases rule: principal_cases)
  case (external c' e)
  then show ?thesis using external_principal_Some by (fastforce simp: entitled_def of_external_def)
next
  case (key c' token k)
  then show ?thesis using verify_api_key_Some [OF key(4)] by (auto simp: entitled_def)
next
  case (session c')
  then obtain bearer token csrf v where v: "p = of_session bearer v"
    "verify_session cr (d_now d) token csrf mark st = (Some v, st')"
    using session_principal_Some by blast
  from verify_session_Some [OF v(2)] obtain s u where "token \<noteq> []" "s \<in> set (st_sessions st)" "u \<in> set (st_users st)"
    "as_token_hash s = cr_digest cr token" "live_session (d_now d) s" "au_id u = as_user_id s" "au_enabled u"
    "vs_user_id v = au_id u" "vs_role v = au_role u" by blast
  then show ?thesis unfolding entitled_def v(1) of_session_def
    by (intro disjI2 bexI [of _ s] bexI [of _ u] exI [of _ token] exI [of _ bearer]) auto
qed

section \<open>What a served request shows\<close>

lemma served_cases:
  assumes "ensure_authorized cr ip lib d status config rq st = (Served r, st')"
  obtains (open_path) "inkdrop_auth_public_without_status_lookup (rq_path rq)" "r = None"
  | (public) s req where "status = Inr (s, req)" "inkdrop_auth_is_public_path (rq_path rq) (rq_method rq) s" "r = None"
  | (off) s where "status = Inr (s, False)" "\<not> gs_setup_required s" "r = None"
  | (admitted) s c p where "status = Inr (s, True)" "\<not> gs_setup_required s" "config = Inr c" "r = Some p"
      "inkdrop_auth_principal cr ip lib d config (rq_headers rq) (rq_remote rq) True
         (starts_with (rq_path rq) ''/opds/'') st = (Inr (Some p), st')"
      "admit lib rq p (cf_allowed_origins c) = Inr ()"
proof (cases "inkdrop_auth_public_without_status_lookup (rq_path rq)")
  case True
  then show ?thesis using assms that(1) by (simp add: ensure_authorized_def)
next
  case False
  show ?thesis
  proof (cases status)
    case (Inl e)
    then show ?thesis using assms False by (simp add: ensure_authorized_def)
  next
    case (Inr sr)
    obtain s req where sr: "sr = (s, req)" by force
    let ?pub = "inkdrop_auth_is_public_path (rq_path rq) (rq_method rq) s"
    let ?p = "inkdrop_auth_principal cr ip lib d config (rq_headers rq) (rq_remote rq) True (starts_with (rq_path rq) ''/opds/'') st"
    consider "?pub" | "\<not> ?pub" "gs_setup_required s" | "\<not> ?pub" "\<not> gs_setup_required s" "\<not> req"
      | "\<not> ?pub" "\<not> gs_setup_required s" "req" by blast
    then show ?thesis
    proof cases
      case 4
      then obtain p where p: "?p = (Inr (Some p), st')"
        "outcome_of p (admit lib rq p (case config of Inr c \<Rightarrow> cf_allowed_origins c | Inl _ \<Rightarrow> [])) = Served r"
        using assms False Inr sr
        by (auto simp: ensure_authorized_def split: sum.splits prod.splits option.splits)
      then obtain c where c: "config = Inr c"
        by (cases config) (auto simp: inkdrop_auth_principal_def)
      then have "admit lib rq p (cf_allowed_origins c) = Inr ()" "r = Some p"
        using p(2) by (auto simp: outcome_of_def split: sum.splits auth_error.splits)
      then show ?thesis using that(4) [of s c p] 4 Inr sr c p(1) by simp
    qed (use assms False Inr sr that in \<open>auto simp: ensure_authorized_def split: if_splits\<close>)
  qed
qed


definition sample_ip :: ipaddr where
  "sample_ip = \<lparr>ip_address = (\<lambda>s. Some (s, True)), ip_strict_network = Some, ip_contains = (\<lambda>n a. Some False)\<rparr>"

definition sample_lib :: httplib where
  "sample_lib = \<lparr>hl_cookie = (\<lambda>c name. Some (if name = ''inkdrop_session'' then ''t5'' else ''c5'')),
     hl_basic = (\<lambda>s. None), hl_urlparse = (\<lambda>u. Some (''http'', drop 7 u))\<rparr>"

definition reader_key :: api_key where
  "reader_key = \<lparr>ak_id = ''k8'', ak_name = ''reader'', ak_description = [], ak_hash = ''t8'', ak_fingerprint = ''t8:t8'',
     ak_prefix = ''t8'', ak_scopes = [''read''], ak_role = ''api'', ak_enabled = True, ak_created_at = 1,
     ak_updated_at = 1, ak_last_used_at = Some 1, ak_expires_at = None, ak_revoked_at = None\<rparr>"

definition sample_keys :: auth_state where
  "sample_keys = empty_store\<lparr>st_keys := [reader_key]\<rparr>"

definition live_status :: gate_status where
  "live_status = \<lparr>gs_required = True, gs_setup_required = False, gs_bootstrap_required = False,
     gs_provisional = False, gs_stale = False\<rparr>"

definition key_request :: "string \<Rightarrow> string \<Rightarrow> request" where
  "key_request m path = \<lparr>rq_path = path, rq_method = m, rq_headers = [(''X-Api-Key'', ''t8'')], rq_remote = ''10.0.0.9''\<rparr>"

definition sample_gate :: "request \<Rightarrow> auth_state \<Rightarrow> gate_outcome \<times> auth_state" where
  "sample_gate rq st = ensure_authorized plain_crypto sample_ip sample_lib (sample_draws 400 ''9'')
     (Inr (live_status, True)) (resolve_config sample_ip [] [] empty_store 300) rq st"

lemma sample_config: "\<exists>c. resolve_config sample_ip [] [] empty_store 300 = Inr c"
proof -
  have "case resolve_config sample_ip [] [] empty_store 300 of Inr c \<Rightarrow> True | Inl _ \<Rightarrow> False" by code_simp
  then show ?thesis by (auto split: sum.splits)
qed


text \<open>
  C6: An API key that holds only the read scope is served nothing but GET and HEAD requests, and no
  route that is for administrators.
\<close>

theorem read_key_cannot_change:
  assumes "ensure_authorized cr ip lib d status config rq st = (Served (Some (of_key k)), st')"
    and "set (ak_scopes k) \<subseteq> {''read''}"
  shows "method_of (rq_method rq) \<in> set [''GET'', ''HEAD''] \<and> \<not> snd (inkdrop_auth_required_scope (rq_path rq) (rq_method rq))
    \<and> fst (inkdrop_auth_required_scope (rq_path rq) (rq_method rq)) = Some ''read''"
  using assms(1)
proof (cases rule: served_cases)
  case (admitted s c p)
  let ?a = "inkdrop_auth_action_policy (rq_path rq) (rq_method rq)"
  have so: "sound (rq_path rq) (method_of (rq_method rq)) ?a"
    using sound_policy by (simp add: method_of_def)
  have "isInr (authorize (Some (gp_principal (of_key k))) (ap_scope ?a) (ap_admin_only ?a))"
    using admitted by (auto simp: admit_def inkdrop_auth_required_scope_def Let_def result_simps split: prod.splits)
  then have "ap_scope ?a = Some ''read'' \<and> \<not> ap_admin_only ?a"
    using assms(2) by (auto simp: authorize_def principal_has_scope_def of_key_def list_ex_iff Let_def split: if_splits)
  then show ?thesis using so by (auto simp: sound_def scope_ok_def inkdrop_auth_required_scope_def Let_def)
qed auto

theorem read_key_cannot_change_witness:
  "\<exists>k. fst (sample_gate (key_request ''GET'' ''/opds/all'') sample_keys) = Served (Some (of_key k))
     \<and> ak_scopes k = [''read''] \<and> method_of ''GET'' \<in> set [''GET'', ''HEAD'']"
proof -
  let ?g = "sample_gate (key_request ''GET'' ''/opds/all'') sample_keys"
  have e: "map ak_scopes (st_keys sample_keys) = [[''read'']] \<and> fst ?g = Served (Some (of_key (hd (st_keys sample_keys))))"
    by code_simp
  then have k: "ak_scopes (hd (st_keys sample_keys)) = [''read'']" by auto
  have g: "?g = (Served (Some (of_key (hd (st_keys sample_keys)))), snd ?g)" using e by (simp add: prod_eq_iff)
  show ?thesis
    using read_key_cannot_change [OF g [unfolded sample_gate_def]] e k by (auto simp: key_request_def)
qed

lemma csrf_principal:
  assumes "inkdrop_auth_principal cr ip lib d config hs remote mark basic st = (Inr (Some p), st')"
    and "pr_method (gp_principal p) = ''session''" "gp_transport p = ''cookie''" "gp_csrf_valid p"
  shows "strip (header hs ''X-InkDrop-CSRF'') = inkdrop_auth_csrf_cookie_token lib hs
    \<and> (\<exists>s \<in> set (st_sessions st). as_csrf_hash s = cr_digest cr (strip (header hs ''X-InkDrop-CSRF'')) \<and> live_session (d_now d) s)"
  using assms(1)
proof (cases rule: principal_cases)
  case (external c e)
  then show ?thesis using assms(3) by (simp add: of_external_def)
next
  case (key c token k)
  then show ?thesis using assms(3) by (simp add: of_key_def)
next
  case (session c)
  from session_principal_Some [OF session(2)] obtain bearer token csrf v where
    v: "csrf_token_of lib hs bearer = Inr csrf" "verify_session cr (d_now d) token csrf mark st = (Some v, st')"
       "p = of_session bearer v" by blast
  have b: "\<not> bearer" "vs_csrf_valid v" using assms v(3) by (auto simp: of_session_def split: if_splits)
  from verify_session_Some [OF v(2)] b(2) obtain s where s: "s \<in> set (st_sessions st)" "live_session (d_now d) s"
    "csrf \<noteq> []" "cr_digest cr csrf = as_csrf_hash s" by blast
  have "csrf = strip (header hs ''X-InkDrop-CSRF'')" "csrf = inkdrop_auth_csrf_cookie_token lib hs"
    using v(1) b(1) s(3)
    by (auto simp: csrf_token_of_def Let_def mapE_def compare_digest_def split: if_splits)
  then show ?thesis using s by auto
qed

text \<open>
  C5: A cookie session is served a changing request only when the CSRF header repeats the CSRF cookie,
  its digest is the one stored with a live session, and the \<open>Origin\<close> is the host of the request
  or one that the configuration allows.
\<close>

theorem cookie_change_needs_csrf:
  assumes "ensure_authorized cr ip lib d status (Inr c) rq st = (Served (Some p), st')" "needs_csrf rq p"
  shows "strip (header (rq_headers rq) ''X-InkDrop-CSRF'') = inkdrop_auth_csrf_cookie_token lib (rq_headers rq)
    \<and> inkdrop_auth_csrf_cookie_token lib (rq_headers rq) \<noteq> []
    \<and> (\<exists>s \<in> set (st_sessions st). as_csrf_hash s = cr_digest cr (inkdrop_auth_csrf_cookie_token lib (rq_headers rq))
         \<and> live_session (d_now d) s)
    \<and> (\<exists>parsed. strip (header (rq_headers rq) ''Origin'') \<noteq> []
         \<and> hl_urlparse lib (strip (header (rq_headers rq) ''Origin'')) = Some parsed
         \<and> origin_allowed (rq_headers rq) (cf_allowed_origins c) (strip (header (rq_headers rq) ''Origin'')) parsed)"
  using assms(1)
proof (cases rule: served_cases)
  case (admitted s c' q)
  then have k: "check_csrf lib (rq_headers rq) p (cf_allowed_origins c) = Inr ()"
    using assms(2) by (auto simp: admit_def result_simps split: prod.splits)
  then have v: "gp_csrf_valid p" "inkdrop_auth_csrf_cookie_token lib (rq_headers rq) \<noteq> []"
    "\<exists>parsed. strip (header (rq_headers rq) ''Origin'') \<noteq> [] \<and> hl_urlparse lib (strip (header (rq_headers rq) ''Origin'')) = Some parsed
       \<and> origin_allowed (rq_headers rq) (cf_allowed_origins c) (strip (header (rq_headers rq) ''Origin'')) parsed"
    by (auto simp: check_csrf_def Let_def result_simps split: if_splits option.splits)
  show ?thesis using csrf_principal [of cr ip lib d "Inr c" "rq_headers rq"] admitted assms(2) v
    by (fastforce simp: needs_csrf_def)
qed auto

definition sample_admin :: auth_user where
  "sample_admin = \<lparr>au_id = ''u1'', au_username = ''admin'', au_hash = ''x'', au_role = ''admin'', au_enabled = True,
     au_created_at = 1, au_updated_at = 1, au_last_login_at = None, au_password_changed_at = None\<rparr>"

definition sample_session_store :: auth_state where
  "sample_session_store = empty_store\<lparr>st_users := [sample_admin],
     st_sessions := [new_session plain_crypto (sample_draws 300 ''5'') sample_admin 3600 sample_origin]\<rparr>"

definition cookie_request :: request where
  "cookie_request = \<lparr>rq_path = ''/jobs/run'', rq_method = ''POST'',
     rq_headers = [(''cookie'', ''c''), (''X-InkDrop-CSRF'', ''c5''),
       (''Origin'', ''http://box''), (''Host'', ''box'')], rq_remote = ''10.0.0.7''\<rparr>"

theorem cookie_change_needs_csrf_witness:
  "\<exists>p. fst (sample_gate cookie_request sample_session_store) = Served (Some p) \<and> needs_csrf cookie_request p
     \<and> inkdrop_auth_csrf_cookie_token sample_lib (rq_headers cookie_request) \<noteq> []"
proof -
  let ?g = "sample_gate cookie_request sample_session_store"
  have "case fst ?g of Served (Some p) \<Rightarrow> needs_csrf cookie_request p | _ \<Rightarrow> False" by code_simp
  then obtain p where p: "fst ?g = Served (Some p)" "needs_csrf cookie_request p"
    by (auto split: gate_outcome.splits option.splits)
  obtain c where c: "resolve_config sample_ip [] [] empty_store 300 = Inr c" using sample_config by blast
  have g: "ensure_authorized plain_crypto sample_ip sample_lib (sample_draws 400 ''9'') (Inr (live_status, True)) (Inr c)
      cookie_request sample_session_store = (Served (Some p), snd ?g)"
    using p unfolding sample_gate_def c by (simp add: prod_eq_iff)
  show ?thesis using cookie_change_needs_csrf [OF g p(2)] p by blast
qed

text \<open>
  While setup is required, nothing is served but the setup-safe paths, static assets and the POST
  that creates the first administrator; every other request is refused, whatever it carries.
\<close>

theorem setup_refuses_the_rest:
  assumes "gs_setup_required s"
  shows "ensure_authorized cr ip lib d (Inr (s, req)) config rq st =
    (if rq_path rq \<in> set INKDROP_AUTH_SETUP_SAFE_PATHS \<or> starts_with (rq_path rq) ''/static/''
        \<or> (rq_path rq \<in> set [''/api/inkdrop-auth/bootstrap'', ''/api/auth/bootstrap'']
            \<and> method_of (rq_method rq) = ''POST'' \<and> gs_bootstrap_required s)
     then Served None else Refused 403 ''setup_not_complete'', st)"
  using assms
  by (auto simp: ensure_authorized_def inkdrop_auth_public_without_status_lookup_def inkdrop_auth_is_public_path_def)

theorem setup_refuses_the_rest_witness:
  "gs_setup_required (live_status\<lparr>gs_setup_required := True\<rparr>) \<and>
   fst (ensure_authorized plain_crypto sample_ip sample_lib (sample_draws 400 ''9'')
     (Inr (live_status\<lparr>gs_setup_required := True\<rparr>, False)) (Inl IntegrityError) (key_request ''GET'' ''/opds/all'') sample_keys)
   = Refused 403 ''setup_not_complete''"
  by (simp add: setup_refuses_the_rest key_request_def INKDROP_AUTH_SETUP_SAFE_PATHS_def)

section \<open>The gate of a configured installation\<close>

lemma status_cold:
  assumes "sc_status cache = None \<or> sc_key cache \<noteq> key"
  shows "fst (inkdrop_auth_required_status env key now True fresh cache) = mapE (\<lambda>f. (f, gs_required f)) fresh"
  using assms by (cases fresh) (auto simp: inkdrop_auth_required_status_def Let_def split: option.splits)

lemma public_status_Inr:
  "public_status config sm env = Inr f \<Longrightarrow> \<exists>c. config = Inr c \<and> gs_required f = cf_enforcement_active c
     \<and> gs_setup_required f = cf_setup_required c"
  by (auto simp: public_status_def result_simps)



text \<open>
  C28: A request that meets the lock of the status cache held, with no status cached under its key, is
  judged by the environment alone: unless \<open>INKDROP_AUTH_REQUIRED\<close> is set it is served without any
  credential, even on an installation whose store enforces authentication.
\<close>

theorem contended_status_serves_everything:
  assumes "sc_status cache = None \<or> sc_key cache \<noteq> key"
    and "lower_text (env_get env ''INKDROP_AUTH_REQUIRED'') \<notin> set ENV_TRUE"
  shows "ensure_authorized cr ip lib d (fst (inkdrop_auth_required_status env key now False fresh cache)) config rq st
    = (Served None, st)"
  using assms
  by (auto simp: inkdrop_auth_required_status_def ensure_authorized_def Let_def split: option.splits)

theorem contended_status_serves_everything_witness:
  "fst (ensure_authorized plain_crypto sample_ip sample_lib (sample_draws 400 ''9'')
     (fst (inkdrop_auth_required_status [] ''k'' 400 False (Inr live_status) clear_inkdrop_auth_status_cache))
     (Inl IntegrityError) \<lparr>rq_path = ''/api/queue'', rq_method = ''POST'', rq_headers = [], rq_remote = ''203.0.113.9''\<rparr>
     sample_session_store) = Served None"
proof -
  have e: "lower_text (env_get [] ''INKDROP_AUTH_REQUIRED'') \<notin> set ENV_TRUE" by code_simp
  have k: "sc_status clear_inkdrop_auth_status_cache = None \<or> sc_key clear_inkdrop_auth_status_cache \<noteq> ''k''"
    by (simp add: clear_inkdrop_auth_status_cache_def)
  show ?thesis by (simp add: contended_status_serves_everything [OF k e])
qed

end
