(* ===== verification/NotifySettings.thy ===== *)
theory NotifySettings
  imports Py
begin

text \<open>
  The settings of the notification store, \<^verbatim>\<open>core/inkdrop_notification_store.py\<close>: the contract of
  every setting, the validation of a patch and the one stored row.

  A patch and the settings are Python dictionaries. The stored row is the dictionary of its columns;
  a JSON column is the value it encodes. \<open>Refused\<close> is the \<open>SettingsValidationError\<close> of the source
  and \<open>Raised\<close> any other exception.
\<close>

section \<open>The contract\<close>

datatype settings_error = Refused string | Raised py_exn

datatype setting_kind =
    KBoolean
  | KTime
  | KEnumList "string list"
  | KInteger int int

record setting_spec =
  sp_kind :: setting_kind
  sp_default :: pyval
  sp_note :: "string option"
  sp_zero_means :: "string option"

definition EVENT_TYPES :: "string list" where
  "EVENT_TYPES = [''grabbed'', ''download_failed'', ''import_verified'', ''manual_action_required'',
     ''health_issue'', ''health_restored'', ''application_update'']"

definition WEEKDAYS :: "string list" where
  "WEEKDAYS = [''mon'', ''tue'', ''wed'', ''thu'', ''fri'', ''sat'', ''sun'']"

definition DEFAULT_URGENT_EVENTS :: pyval where
  "DEFAULT_URGENT_EVENTS = PList [PStr ''health_issue'']"

definition DEFAULT_RATE_LIMIT_PER_HOUR :: int where
  "DEFAULT_RATE_LIMIT_PER_HOUR = 20"

definition DEFAULT_DEDUP_WINDOW_SECONDS :: int where
  "DEFAULT_DEDUP_WINDOW_SECONDS = 86400"

definition DEFAULT_RETRY_MAX_ATTEMPTS :: int where
  "DEFAULT_RETRY_MAX_ATTEMPTS = 5"

definition DEFAULT_RETRY_BACKOFF_SECONDS :: int where
  "DEFAULT_RETRY_BACKOFF_SECONDS = 300"

definition DEFAULT_HISTORY_RETENTION_DAYS :: int where
  "DEFAULT_HISTORY_RETENTION_DAYS = 30"

lemmas notify_defaults =
  DEFAULT_URGENT_EVENTS_def DEFAULT_RATE_LIMIT_PER_HOUR_def DEFAULT_DEDUP_WINDOW_SECONDS_def
  DEFAULT_RETRY_MAX_ATTEMPTS_def DEFAULT_RETRY_BACKOFF_SECONDS_def DEFAULT_HISTORY_RETENTION_DAYS_def

definition setting :: "setting_kind \<Rightarrow> pyval \<Rightarrow> setting_spec" where
  "setting k d = \<lparr>sp_kind = k, sp_default = d, sp_note = None, sp_zero_means = None\<rparr>"

definition SETTINGS_CONTRACT :: "(string \<times> setting_spec) list" where
  "SETTINGS_CONTRACT =
    [(''quiet_hours_enabled'', setting KBoolean (PBool False)),
     (''quiet_hours_start'', setting KTime (PStr ''22:00'')),
     (''quiet_hours_end'', setting KTime (PStr ''07:00'')),
     (''quiet_hours_days'', (setting (KEnumList WEEKDAYS) (PList []))
        \<lparr>sp_note := Some ''empty means every day''\<rparr>),
     (''quiet_hours_urgent_events'', setting (KEnumList EVENT_TYPES) DEFAULT_URGENT_EVENTS),
     (''rate_limit_max_per_hour'', setting (KInteger 1 1000) (PInt DEFAULT_RATE_LIMIT_PER_HOUR)),
     (''dedup_window_seconds'', (setting (KInteger 0 604800) (PInt DEFAULT_DEDUP_WINDOW_SECONDS))
        \<lparr>sp_zero_means := Some ''send every occurrence; no duplicate suppression''\<rparr>),
     (''retry_max_attempts'', (setting (KInteger 0 20) (PInt DEFAULT_RETRY_MAX_ATTEMPTS))
        \<lparr>sp_note := Some ''total sends, not retries on top of the first'',
         sp_zero_means := Some ''never retry a failed send''\<rparr>),
     (''retry_backoff_seconds'', setting (KInteger 30 3600) (PInt DEFAULT_RETRY_BACKOFF_SECONDS)),
     (''history_retention_days'', setting (KInteger 1 365) (PInt DEFAULT_HISTORY_RETENTION_DAYS))]"

definition SERVER_OWNED_SETTING_KEYS :: "string list" where
  "SERVER_OWNED_SETTING_KEYS = [''updated_at'']"

fun kind_fields :: "setting_kind \<Rightarrow> pydict" where
  "kind_fields KBoolean = [(''kind'', PStr ''boolean'')]"
| "kind_fields KTime = [(''kind'', PStr ''time'')]"
| "kind_fields (KEnumList cs) = [(''kind'', PStr ''enum_list''), (''choices'', PList (map PStr cs))]"
| "kind_fields (KInteger lo hi) = [(''kind'', PStr ''integer''), (''min'', PInt lo), (''max'', PInt hi)]"

definition opt_field :: "string \<Rightarrow> string option \<Rightarrow> pydict" where
  "opt_field k v = (case v of None \<Rightarrow> [] | Some s \<Rightarrow> [(k, PStr s)])"

definition settings_contract :: pydict where
  "settings_contract = map (\<lambda>(key, spec). (key, PDict
     (kind_fields (sp_kind spec) @ opt_field ''note'' (sp_note spec)
      @ opt_field ''zero_means'' (sp_zero_means spec) @ [(''default'', sp_default spec)])))
     SETTINGS_CONTRACT"

section \<open>Validation\<close>

definition validated_boolean :: "string \<Rightarrow> pyval \<Rightarrow> settings_error + pyval" where
  "validated_boolean key v =
     (case v of PBool b \<Rightarrow> Inr v | _ \<Rightarrow> Inl (Refused (key @ '' must be true or false'')))"

definition two_digits :: "int \<Rightarrow> string" where
  "two_digits i = (if 0 \<le> i \<and> i < 10 then ''0'' else []) @ int_str i"

definition clock_text :: "int \<Rightarrow> int \<Rightarrow> string" where
  "clock_text h m = two_digits h @ '':'' @ two_digits m"

definition before_char :: "char \<Rightarrow> string \<Rightarrow> string" where
  "before_char c s = takeWhile (\<lambda>x. x \<noteq> c) s"

definition after_char :: "char \<Rightarrow> string \<Rightarrow> string" where
  "after_char c s = drop 1 (dropWhile (\<lambda>x. x \<noteq> c) s)"

definition validated_time :: "string \<Rightarrow> pyval \<Rightarrow> settings_error + pyval" where
  "validated_time key v =
     (let raw = strip (if v = PNone then [] else py_str v) in
      case (parse_int (before_char CHR '':'' raw), parse_int (after_char CHR '':'' raw)) of
        (Some h, Some m) \<Rightarrow>
          if 0 \<le> h \<and> h \<le> 23 \<and> 0 \<le> m \<and> m \<le> 59 then Inr (PStr (clock_text h m))
          else Inl (Refused (key @ '' must be between 00:00 and 23:59''))
      | _ \<Rightarrow> Inl (Refused (key @ '' must be a time of day as HH:MM'')))"

definition item_name :: "pyval \<Rightarrow> string" where
  "item_name v = lower (strip (if v = PNone then [] else py_str v))"

fun clean_names :: "string \<Rightarrow> string list \<Rightarrow> pyval list \<Rightarrow> string list \<Rightarrow> settings_error + string list" where
  "clean_names key choices [] acc = Inr acc"
| "clean_names key choices (v # vs) acc =
     (let name = item_name v in
      if name \<notin> set choices then
        Inl (Refused (key @ '' contains an unknown value: '' @ py_repr v @ '' (expected one of: ''
               @ join '', '' choices @ '')''))
      else clean_names key choices vs (if name \<in> set acc then acc else acc @ [name]))"

definition validated_enum_list :: "string \<Rightarrow> pyval \<Rightarrow> string list \<Rightarrow> settings_error + pyval" where
  "validated_enum_list key v choices =
     (case v of
        PList xs \<Rightarrow> mapE (\<lambda>names. PList (map PStr names)) (clean_names key choices xs [])
      | _ \<Rightarrow> Inl (Refused (key @ '' must be a list'')))"

definition validated_integer :: "string \<Rightarrow> pyval \<Rightarrow> int \<Rightarrow> int \<Rightarrow> settings_error + pyval" where
  "validated_integer key v lo hi =
     (case v of PBool _ \<Rightarrow> Inl (Refused (key @ '' must be a whole number''))
      | _ \<Rightarrow>
        (case float_arg v of
           Inl OverflowError \<Rightarrow> Inl (Raised OverflowError)
         | Inl _ \<Rightarrow> Inl (Refused (key @ '' must be a whole number''))
         | Inr (Fin q) \<Rightarrow>
             if q \<noteq> of_int (trunc q) then Inl (Refused (key @ '' must be a whole number''))
             else if trunc q < lo \<or> trunc q > hi then
               Inl (Refused (key @ '' must be between '' @ int_str lo @ '' and '' @ int_str hi))
             else Inr (PInt (trunc q))
         | Inr _ \<Rightarrow> Inl (Refused (key @ '' must be a whole number''))))"

definition validated :: "string \<Rightarrow> setting_spec \<Rightarrow> pyval \<Rightarrow> settings_error + pyval" where
  "validated key spec v =
     (if v = PNone \<or> v = PStr [] then Inr (sp_default spec)
      else case sp_kind spec of
        KBoolean \<Rightarrow> validated_boolean key v
      | KTime \<Rightarrow> validated_time key v
      | KEnumList choices \<Rightarrow> validated_enum_list key v choices
      | KInteger lo hi \<Rightarrow> validated_integer key v lo hi)"

definition validated_entry :: "string \<times> pyval \<Rightarrow> settings_error + (string \<times> pyval)" where
  "validated_entry kv = (case kv of (key, v) \<Rightarrow>
     (case dget SETTINGS_CONTRACT key of
        None \<Rightarrow> Inl (Raised KeyError)
      | Some spec \<Rightarrow> mapE (\<lambda>w. (key, w)) (validated key spec v)))"

definition unknown_keys :: "pydict \<Rightarrow> string list" where
  "unknown_keys patch = sort (filter (\<lambda>k. \<not> dhas SETTINGS_CONTRACT k) (dkeys patch))"

definition validate_settings_patch :: "pydict \<Rightarrow> settings_error + pydict" where
  "validate_settings_patch patch =
     (let p = fold ddel SERVER_OWNED_SETTING_KEYS patch in
      if unknown_keys p \<noteq> [] then
        Inl (Refused (''unknown notification setting: '' @ join '', '' (unknown_keys p)))
      else traverseE validated_entry p)"

section \<open>The stored row\<close>

definition stored_int :: "pyval \<Rightarrow> int \<Rightarrow> py_exn + pyval" where
  "stored_int v d = mapE PInt (int_of (if v = PNone then PInt d else v))"

definition stored_list :: "pyval \<Rightarrow> pyval \<Rightarrow> pyval" where
  "stored_list v d = (case v of PList xs \<Rightarrow> v | _ \<Rightarrow> d)"

definition default_settings :: pydict where
  "default_settings =
    [(''quiet_hours_enabled'', PBool False),
     (''quiet_hours_start'', PStr ''22:00''),
     (''quiet_hours_end'', PStr ''07:00''),
     (''quiet_hours_days'', PList []),
     (''quiet_hours_urgent_events'', DEFAULT_URGENT_EVENTS),
     (''rate_limit_max_per_hour'', PInt DEFAULT_RATE_LIMIT_PER_HOUR),
     (''dedup_window_seconds'', PInt DEFAULT_DEDUP_WINDOW_SECONDS),
     (''retry_max_attempts'', PInt DEFAULT_RETRY_MAX_ATTEMPTS),
     (''retry_backoff_seconds'', PInt DEFAULT_RETRY_BACKOFF_SECONDS),
     (''history_retention_days'', PInt DEFAULT_HISTORY_RETENTION_DAYS),
     (''updated_at'', PNone)]"

definition settings_row :: "pydict option \<Rightarrow> py_exn + pydict" where
  "settings_row r =
    (case r of None \<Rightarrow> Inr default_settings
     | Some row \<Rightarrow>
        bindE (stored_int (get row ''rate_limit_max_per_hour'') DEFAULT_RATE_LIMIT_PER_HOUR) (\<lambda>rate.
        bindE (stored_int (get row ''dedup_window_seconds'') DEFAULT_DEDUP_WINDOW_SECONDS) (\<lambda>dedup.
        bindE (stored_int (get row ''retry_max_attempts'') DEFAULT_RETRY_MAX_ATTEMPTS) (\<lambda>attempts.
        bindE (stored_int (get row ''retry_backoff_seconds'') DEFAULT_RETRY_BACKOFF_SECONDS) (\<lambda>backoff.
        bindE (stored_int (get row ''history_retention_days'') DEFAULT_HISTORY_RETENTION_DAYS) (\<lambda>days.
        Inr [(''quiet_hours_enabled'', PBool (truthy (get row ''quiet_hours_enabled''))),
             (''quiet_hours_start'', por (get row ''quiet_hours_start'') (PStr ''22:00'')),
             (''quiet_hours_end'', por (get row ''quiet_hours_end'') (PStr ''07:00'')),
             (''quiet_hours_days'', stored_list (get row ''quiet_hours_days'') (PList [])),
             (''quiet_hours_urgent_events'',
                stored_list (get row ''quiet_hours_urgent_events'') DEFAULT_URGENT_EVENTS),
             (''rate_limit_max_per_hour'', rate),
             (''dedup_window_seconds'', dedup),
             (''retry_max_attempts'', attempts),
             (''retry_backoff_seconds'', backoff),
             (''history_retention_days'', days),
             (''updated_at'', get row ''updated_at'')]))))))"

definition get_settings :: "pydict option \<Rightarrow> py_exn + pydict" where
  "get_settings r = settings_row r"

definition row_of_settings :: "rat \<Rightarrow> pydict \<Rightarrow> pydict" where
  "row_of_settings now s =
    [(''id'', PStr ''global''),
     (''quiet_hours_enabled'', PInt (if truthy (get s ''quiet_hours_enabled'') then 1 else 0)),
     (''quiet_hours_start'', get s ''quiet_hours_start''),
     (''quiet_hours_end'', get s ''quiet_hours_end''),
     (''quiet_hours_days'', get s ''quiet_hours_days''),
     (''quiet_hours_urgent_events'', get s ''quiet_hours_urgent_events''),
     (''rate_limit_max_per_hour'', get s ''rate_limit_max_per_hour''),
     (''dedup_window_seconds'', get s ''dedup_window_seconds''),
     (''retry_max_attempts'', get s ''retry_max_attempts''),
     (''retry_backoff_seconds'', get s ''retry_backoff_seconds''),
     (''history_retention_days'', get s ''history_retention_days''),
     (''updated_at'', PFloat (Fin now))]"

definition save_settings ::
    "rat \<Rightarrow> pydict \<Rightarrow> pydict option \<Rightarrow> (settings_error + pydict) \<times> pydict option" where
  "save_settings now patch r =
     (case validate_settings_patch patch of
        Inl e \<Rightarrow> (Inl e, r)
      | Inr cleaned \<Rightarrow>
          (case settings_row r of
             Inl e \<Rightarrow> (Inl (Raised e), r)
           | Inr current \<Rightarrow>
               let updated = dupdate current cleaned in
               (Inr (dset ''updated_at'' (PFloat (Fin now)) updated),
                Some (row_of_settings now updated))))"

section \<open>What a conforming setting is\<close>

fun conforms :: "setting_kind \<Rightarrow> pyval \<Rightarrow> bool" where
  "conforms KBoolean v = (case v of PBool _ \<Rightarrow> True | _ \<Rightarrow> False)"
| "conforms KTime v =
     list_ex (\<lambda>h. list_ex (\<lambda>m. v = PStr (clock_text h m)) (map int [0..<60])) (map int [0..<24])"
| "conforms (KEnumList choices) v =
     (\<exists>names. v = PList (map PStr names) \<and> distinct names \<and> set names \<subseteq> set choices)"
| "conforms (KInteger lo hi) v = (case v of PInt i \<Rightarrow> lo \<le> i \<and> i \<le> hi | _ \<Rightarrow> False)"

definition settings_conform :: "pydict \<Rightarrow> bool" where
  "settings_conform s = list_all (\<lambda>(key, spec). conforms (sp_kind spec) (get s key)) SETTINGS_CONTRACT"

lemma conforms_KTime_iff:
  "conforms KTime v \<longleftrightarrow> (\<exists>h m. 0 \<le> h \<and> h < 24 \<and> 0 \<le> m \<and> m < 60 \<and> v = PStr (clock_text h m))"
  (is "?l \<longleftrightarrow> ?r")
proof
  assume ?l
  then show ?r by (auto simp: list_ex_iff simp del: upt_rec_numeral) (metis of_nat_0_le_iff of_nat_less_iff of_nat_numeral)
next
  assume ?r
  then obtain h m where v: "0 \<le> h" "h < 24" "0 \<le> m" "m < 60" "v = PStr (clock_text h m)" by blast
  then have "h \<in> int ` {0..<24}" "m \<in> int ` {0..<60}"
    using image_int_atLeastLessThan [of 0 24] image_int_atLeastLessThan [of 0 60] by simp_all
  with v show ?l by (auto simp: list_ex_iff simp del: upt_rec_numeral)
qed

lemma clean_names_sound:
  assumes "clean_names key choices vs acc = Inr names" "distinct acc" "set acc \<subseteq> set choices"
  shows "distinct names \<and> set names \<subseteq> set choices"
  using assms
proof (induction key choices vs acc rule: clean_names.induct)
  case (2 key choices v vs acc)
  then show ?case by (simp add: Let_def split: if_splits)
qed simp

lemma validated_boolean_conforms: "validated_boolean key v = Inr w \<Longrightarrow> conforms KBoolean w"
  by (auto simp: validated_boolean_def split: pyval.splits)

lemma validated_time_conforms: "validated_time key v = Inr w \<Longrightarrow> conforms KTime w"
  unfolding conforms_KTime_iff
  by (fastforce simp: validated_time_def Let_def split: option.splits if_splits)

lemma validated_enum_list_conforms:
  "validated_enum_list key v choices = Inr w \<Longrightarrow> conforms (KEnumList choices) w"
  by (cases v) (auto simp: validated_enum_list_def mapE_def result_simps dest: clean_names_sound)

lemma validated_integer_conforms: "validated_integer key v lo hi = Inr w \<Longrightarrow> conforms (KInteger lo hi) w"
  by (auto simp: validated_integer_def
      split: pyval.splits sum.splits py_exn.splits flt.splits if_splits)

lemma validated_conforms:
  assumes "validated key spec v = Inr w" "conforms (sp_kind spec) (sp_default spec)"
  shows "conforms (sp_kind spec) w"
proof (cases "v = PNone \<or> v = PStr []")
  case True
  then show ?thesis using assms by (auto simp: validated_def)
next
  case False
  then show ?thesis
    using assms(1)
    by (cases "sp_kind spec")
       (auto simp: validated_def simp del: conforms.simps
             intro: validated_boolean_conforms validated_time_conforms
               validated_enum_list_conforms validated_integer_conforms)
qed

lemma contract_keys: "dkeys SETTINGS_CONTRACT =
    [''quiet_hours_enabled'', ''quiet_hours_start'', ''quiet_hours_end'', ''quiet_hours_days'',
     ''quiet_hours_urgent_events'', ''rate_limit_max_per_hour'', ''dedup_window_seconds'',
     ''retry_max_attempts'', ''retry_backoff_seconds'', ''history_retention_days'']"
  by (simp add: SETTINGS_CONTRACT_def)

lemma contract_dwf: "dwf SETTINGS_CONTRACT"
  by (simp add: dwf_def contract_keys)

lemma clock_22_00: "clock_text 22 0 = ''22:00''" and clock_07_00: "clock_text 7 0 = ''07:00''"
  by (code_simp, code_simp)

lemma default_times_conform: "conforms KTime (PStr ''22:00'')" "conforms KTime (PStr ''07:00'')"
  unfolding conforms_KTime_iff
  by (rule exI [of _ 22], rule exI [of _ 0], simp add: clock_22_00)
     (rule exI [of _ 7], rule exI [of _ 0], simp add: clock_07_00)

lemma no_names_conform: "conforms (KEnumList cs) (PList [])"
  by simp

lemma urgent_default_conforms: "conforms (KEnumList EVENT_TYPES) DEFAULT_URGENT_EVENTS"
  by (auto simp: DEFAULT_URGENT_EVENTS_def EVENT_TYPES_def intro!: exI [of _ "[''health_issue'']"])

lemma contract_defaults_conform:
  "(key, spec) \<in> set SETTINGS_CONTRACT \<Longrightarrow> conforms (sp_kind spec) (sp_default spec)"
  unfolding SETTINGS_CONTRACT_def setting_def
  by (auto simp: notify_defaults simp del: conforms.simps(2,3)
      intro: default_times_conform no_names_conform urgent_default_conforms [unfolded notify_defaults])

lemma validate_settings_patch_sound:
  assumes "validate_settings_patch patch = Inr cleaned" "(key, w) \<in> set cleaned"
  shows "\<exists>spec. dget SETTINGS_CONTRACT key = Some spec \<and> conforms (sp_kind spec) w"
proof -
  define p where "p = fold ddel SERVER_OWNED_SETTING_KEYS patch"
  have "traverseE validated_entry p = Inr cleaned"
    using assms(1) by (auto simp: validate_settings_patch_def p_def Let_def split: if_splits)
  then show ?thesis
    using assms(2)
  proof (induction p arbitrary: cleaned)
    case (Cons kv p)
    then obtain kw rest where h: "validated_entry kv = Inr kw" "traverseE validated_entry p = Inr rest"
        "cleaned = kw # rest"
      by (auto simp: result_simps)
    show ?case
    proof (cases "(key, w) = kw")
      case True
      with h(1) obtain v spec where s: "dget SETTINGS_CONTRACT key = Some spec" "validated key spec v = Inr w"
        by (cases kv) (auto simp: validated_entry_def mapE_def result_simps split: option.splits)
      then have "conforms (sp_kind spec) (sp_default spec)"
        by (intro contract_defaults_conform [of key]) (rule dget_Some_in)
      with s show ?thesis using validated_conforms by blast
    next
      case False
      then show ?thesis using Cons.IH [OF h(2)] Cons.prems(2) h(3) by simp
    qed
  qed simp
qed

lemma settings_conform_iff:
  "settings_conform s \<longleftrightarrow> (\<forall>(key, spec) \<in> set SETTINGS_CONTRACT. conforms (sp_kind spec) (get s key))"
  by (simp add: settings_conform_def list_all_iff)

lemma conform_dset:
  assumes "settings_conform s" "\<And>spec. dget SETTINGS_CONTRACT k = Some spec \<Longrightarrow> conforms (sp_kind spec) w"
  shows "settings_conform (dset k w s)"
proof -
  have "dget SETTINGS_CONTRACT key = Some spec" if "(key, spec) \<in> set SETTINGS_CONTRACT" for key spec
    using that by (rule dget_mem [OF contract_dwf])
  with assms show ?thesis by (auto simp: settings_conform_iff)
qed

lemma conform_dupdate:
  assumes "settings_conform s"
    and "\<And>k w. (k, w) \<in> set c \<Longrightarrow> \<exists>spec. dget SETTINGS_CONTRACT k = Some spec \<and> conforms (sp_kind spec) w"
  shows "settings_conform (dupdate s c)"
  using assms
proof (induction c arbitrary: s)
  case Nil
  then show ?case by (simp add: dupdate_def)
next
  case (Cons kw c)
  obtain k w where kw: "kw = (k, w)" by (cases kw)
  have "settings_conform (dset k w s)"
    using Cons.prems(2) [of k w] by (intro conform_dset Cons.prems(1)) (auto simp: kw)
  with Cons kw show ?case by (simp add: dupdate_def)
qed

section \<open>Saving and reading back\<close>

definition settings_shape :: "pydict \<Rightarrow> bool" where
  "settings_shape s = (dkeys s = dkeys default_settings)"

lemma default_keys: "dkeys default_settings = dkeys SETTINGS_CONTRACT @ [''updated_at'']"
  by (simp add: default_settings_def contract_keys)

lemma shape_cases:
  assumes "settings_shape s"
  obtains v1 v2 v3 v4 v5 v6 v7 v8 v9 v10 v11 where
    "s = [(''quiet_hours_enabled'', v1), (''quiet_hours_start'', v2), (''quiet_hours_end'', v3),
      (''quiet_hours_days'', v4), (''quiet_hours_urgent_events'', v5), (''rate_limit_max_per_hour'', v6),
      (''dedup_window_seconds'', v7), (''retry_max_attempts'', v8), (''retry_backoff_seconds'', v9),
      (''history_retention_days'', v10), (''updated_at'', v11)]"
proof -
  have "map fst s = dkeys SETTINGS_CONTRACT @ [''updated_at'']"
    using assms by (simp add: settings_shape_def default_keys) (simp add: dkeys_def)
  then show ?thesis
    using that by (auto simp: contract_keys map_eq_Cons_conv)
qed

lemma conform_fields:
  "settings_conform s \<longleftrightarrow>
     conforms KBoolean (get s ''quiet_hours_enabled'') \<and> conforms KTime (get s ''quiet_hours_start'')
     \<and> conforms KTime (get s ''quiet_hours_end'')
     \<and> conforms (KEnumList WEEKDAYS) (get s ''quiet_hours_days'')
     \<and> conforms (KEnumList EVENT_TYPES) (get s ''quiet_hours_urgent_events'')
     \<and> conforms (KInteger 1 1000) (get s ''rate_limit_max_per_hour'')
     \<and> conforms (KInteger 0 604800) (get s ''dedup_window_seconds'')
     \<and> conforms (KInteger 0 20) (get s ''retry_max_attempts'')
     \<and> conforms (KInteger 30 3600) (get s ''retry_backoff_seconds'')
     \<and> conforms (KInteger 1 365) (get s ''history_retention_days'')"
  by (simp add: settings_conform_def SETTINGS_CONTRACT_def setting_def del: conforms.simps)

lemma conforms_boolean_cases: "conforms KBoolean v \<longleftrightarrow> (\<exists>b. v = PBool b)"
  by (cases v) simp_all

lemma conforms_integer_cases: "conforms (KInteger lo hi) v \<longleftrightarrow> (\<exists>i. v = PInt i \<and> lo \<le> i \<and> i \<le> hi)"
  by (cases v) simp_all

lemma conforms_list_cases: "conforms (KEnumList cs) v \<Longrightarrow> \<exists>xs. v = PList xs"
  by auto

lemma conforms_time_truthy: "conforms KTime v \<Longrightarrow> truthy v"
  unfolding conforms_KTime_iff by (auto simp: clock_text_def)

lemma settings_row_saved:
  assumes "settings_conform s" "settings_shape s"
  shows "settings_row (Some (row_of_settings now s)) = Inr (dset ''updated_at'' (PFloat (Fin now)) s)"
proof (rule shape_cases [OF assms(2)])
  fix v1 v2 v3 v4 v5 v6 v7 v8 v9 v10 v11
  assume s: "s = [(''quiet_hours_enabled'', v1), (''quiet_hours_start'', v2), (''quiet_hours_end'', v3),
      (''quiet_hours_days'', v4), (''quiet_hours_urgent_events'', v5), (''rate_limit_max_per_hour'', v6),
      (''dedup_window_seconds'', v7), (''retry_max_attempts'', v8), (''retry_backoff_seconds'', v9),
      (''history_retention_days'', v10), (''updated_at'', v11)]"
  have "conforms KBoolean v1 \<and> conforms KTime v2 \<and> conforms KTime v3
    \<and> conforms (KEnumList WEEKDAYS) v4 \<and> conforms (KEnumList EVENT_TYPES) v5
    \<and> conforms (KInteger 1 1000) v6 \<and> conforms (KInteger 0 604800) v7 \<and> conforms (KInteger 0 20) v8
    \<and> conforms (KInteger 30 3600) v9 \<and> conforms (KInteger 1 365) v10"
    using assms(1) unfolding conform_fields s by (simp del: conforms.simps)
  then have c: "conforms KBoolean v1" "conforms KTime v2" "conforms KTime v3"
    "conforms (KEnumList WEEKDAYS) v4" "conforms (KEnumList EVENT_TYPES) v5"
    "conforms (KInteger 1 1000) v6" "conforms (KInteger 0 604800) v7" "conforms (KInteger 0 20) v8"
    "conforms (KInteger 30 3600) v9" "conforms (KInteger 1 365) v10"
    by blast+
  obtain b x4 x5 i6 i7 i8 i9 i10 where
    v: "v1 = PBool b" "v4 = PList x4" "v5 = PList x5" "v6 = PInt i6" "v7 = PInt i7" "v8 = PInt i8"
      "v9 = PInt i9" "v10 = PInt i10"
    using c(1,6-10) conforms_list_cases [OF c(4)] conforms_list_cases [OF c(5)]
    unfolding conforms_boolean_cases conforms_integer_cases by blast
  have "por v2 d = v2" "por v3 d = v3" for d
    using c(2,3) by (simp_all add: por_def conforms_time_truthy del: conforms.simps)
  then show ?thesis
    by (simp add: s v settings_row_def row_of_settings_def stored_int_def stored_list_def)
qed

lemma default_settings_conform: "settings_conform default_settings"
  unfolding conform_fields
  by (simp add: default_settings_def default_times_conform urgent_default_conforms notify_defaults del: conforms.simps(2,3))
     (auto simp: EVENT_TYPES_def notify_defaults intro!: exI [of _ "[''health_issue'']"])

lemma validated_keys:
  assumes "validate_settings_patch patch = Inr cleaned" "(k, w) \<in> set cleaned"
  shows "k \<in> set (dkeys SETTINGS_CONTRACT)"
  using validate_settings_patch_sound [OF assms] dget_None_iff [of SETTINGS_CONTRACT k]
  by (auto simp: dhas_def)

lemma shape_dset: "settings_shape s \<Longrightarrow> k \<in> set (dkeys default_settings) \<Longrightarrow> settings_shape (dset k w s)"
  by (simp add: settings_shape_def dkeys_dset dhas_def)

lemma shape_dupdate:
  "settings_shape s \<Longrightarrow> (\<And>k w. (k, w) \<in> set c \<Longrightarrow> k \<in> set (dkeys default_settings))
   \<Longrightarrow> settings_shape (dupdate s c)"
proof (induction c arbitrary: s)
  case Nil
  then show ?case by (simp add: dupdate_def)
next
  case (Cons kw c)
  obtain k w where kw: "kw = (k, w)" by (cases kw)
  have "settings_shape (dset k w s)"
    using Cons.prems(2) [of k w] by (intro shape_dset Cons.prems(1)) (simp add: kw)
  then have "settings_shape (dupdate (dset k w s) c)"
    by (rule Cons.IH) (use Cons.prems(2) in auto)
  then show ?case by (simp add: dupdate_def kw)
qed

text \<open>What \<open>save_settings\<close> leaves behind for the next reader.\<close>

definition row_ok :: "pydict option \<Rightarrow> bool" where
  "row_ok r = (\<exists>s. settings_row r = Inr s \<and> settings_conform s \<and> settings_shape s)"

lemma row_ok_None: "row_ok None"
  by (simp add: row_ok_def settings_row_def default_settings_conform settings_shape_def)

lemma save_settings_row:
  assumes "row_ok r" "save_settings now patch r = (Inr s, r')"
  shows "settings_row r' = Inr s \<and> settings_conform s \<and> settings_shape s"
proof -
  obtain current cleaned where
    c: "settings_row r = Inr current" "settings_conform current" "settings_shape current"
      "validate_settings_patch patch = Inr cleaned"
    using assms by (auto simp: row_ok_def save_settings_def split: sum.splits)
  define u where "u = dupdate current cleaned"
  have "settings_conform u"
    unfolding u_def by (rule conform_dupdate [OF c(2) validate_settings_patch_sound [OF c(4)]])
  moreover have u: "settings_shape u"
    unfolding u_def
    by (rule shape_dupdate [OF c(3)]) (use validated_keys [OF c(4)] in \<open>auto simp: default_keys\<close>)
  ultimately have "settings_row (Some (row_of_settings now u)) = Inr (dset ''updated_at'' (PFloat (Fin now)) u)"
    by (rule settings_row_saved)
  moreover have "settings_conform (dset ''updated_at'' w u)" for w
    by (rule conform_dset [OF \<open>settings_conform u\<close>]) (simp add: SETTINGS_CONTRACT_def setting_def)
  moreover have "settings_shape (dset ''updated_at'' w u)" for w
    by (rule shape_dset [OF u]) (simp add: default_keys)
  ultimately show ?thesis
    using assms(2) c by (auto simp: save_settings_def u_def Let_def)
qed

lemma save_settings_refused: "save_settings now patch r = (Inl e, r') \<Longrightarrow> r' = r"
  by (auto simp: save_settings_def Let_def split: sum.splits)

lemma save_settings_ok: "row_ok r \<Longrightarrow> row_ok (snd (save_settings now patch r))"
proof -
  assume ok: "row_ok r"
  obtain res r' where s: "save_settings now patch r = (res, r')" by (cases "save_settings now patch r")
  show ?thesis
  proof (cases res)
    case (Inl e)
    then show ?thesis using save_settings_refused s ok by fastforce
  next
    case (Inr x)
    then show ?thesis using save_settings_row [OF ok] s unfolding row_ok_def by (metis snd_conv)
  qed
qed

section \<open>Properties\<close>

text \<open>
  C36: Whatever patches are saved, in whatever order and however malformed, the settings that are read
  back hold for every key of the contract a value of its kind: a boolean, a time of day in canonical
  form, distinct names of its vocabulary, an integer within its bounds.
\<close>

theorem settings_always_conform:
  "\<exists>s. get_settings (fold (\<lambda>(now, patch) r. snd (save_settings now patch r)) history None) = Inr s
     \<and> settings_conform s"
proof -
  have "row_ok (fold (\<lambda>(now, patch) r. snd (save_settings now patch r)) history r)" if "row_ok r" for r
    using that by (induction history arbitrary: r) (auto intro: save_settings_ok)
  from this [OF row_ok_None] show ?thesis
    by (auto simp: row_ok_def get_settings_def)
qed

text \<open>
  A saved patch is read back exactly as \<open>save_settings\<close> returned it, and a patch that is refused
  changes nothing.
\<close>

theorem save_settings_roundtrip:
  assumes "save_settings now patch (fold (\<lambda>(t, p) r. snd (save_settings t p r)) history None) = (res, r')"
  shows "(\<forall>s. res = Inr s \<longrightarrow> get_settings r' = Inr s)
    \<and> (\<forall>e. res = Inl e \<longrightarrow> r' = fold (\<lambda>(t, p) r. snd (save_settings t p r)) history None)"
proof -
  have "row_ok (fold (\<lambda>(now, patch) r. snd (save_settings now patch r)) history r)" if "row_ok r" for r
    using that by (induction history arbitrary: r) (auto intro: save_settings_ok)
  from this [OF row_ok_None] show ?thesis
    using assms save_settings_row save_settings_refused
    by (auto simp: get_settings_def)
qed

lemma save_settings_roundtrip_witness:
  "get_settings (snd (save_settings 5 [(''quiet_hours_enabled'', PBool True)] None))
     = Inr (dset ''updated_at'' (PFloat (Fin 5)) (dset ''quiet_hours_enabled'' (PBool True) default_settings))"
proof -
  have "save_settings 5 [(''quiet_hours_enabled'', PBool True)] (fold (\<lambda>(t, p) r. snd (save_settings t p r)) [] None)
    = (Inr (dset ''updated_at'' (PFloat (Fin 5)) (dset ''quiet_hours_enabled'' (PBool True) default_settings)),
       snd (save_settings 5 [(''quiet_hours_enabled'', PBool True)] None))"
    by code_simp
  from save_settings_roundtrip [OF this] show ?thesis by blast
qed

section \<open>Validation is a projection\<close>

lemma two_digits_chars: "0 \<le> i \<Longrightarrow> c \<in> set (two_digits i) \<Longrightarrow> is_digit c"
  using nat_str_digits [of "nat i"]
  by (auto simp: two_digits_def int_str_def is_digit_def code_def split: if_splits)

lemma parse_two_digits: "0 \<le> i \<Longrightarrow> parse_int (two_digits i) = Some i"
proof -
  assume i: "0 \<le> i"
  have s: "strip (two_digits i) = two_digits i"
    unfolding strip_def using two_digits_chars [OF i] not_space_digit by (intro strip_of_nop) blast
  show ?thesis
  proof (cases "i < 10")
    case True
    then have "two_digits i = CHR ''0'' # nat_str (nat i)"
      using i by (simp add: two_digits_def int_str_def)
    with s i show ?thesis
      by (simp add: parse_int_def signed_def int_digits_nat_str is_digit_def digit_value_def code_def)
  next
    case False
    then have "two_digits i = int_str i" by (simp add: two_digits_def)
    then show ?thesis by simp
  qed
qed

lemma clock_parts:
  assumes "0 \<le> h" "0 \<le> m"
  shows "strip (clock_text h m) = clock_text h m"
    and "before_char CHR '':'' (clock_text h m) = two_digits h"
    and "after_char CHR '':'' (clock_text h m) = two_digits m"
proof -
  have n: "\<forall>x \<in> set (two_digits h). x \<noteq> CHR '':''"
    using two_digits_chars [OF assms(1)] by (force simp: is_digit_def code_def)
  then show "before_char CHR '':'' (clock_text h m) = two_digits h"
    "after_char CHR '':'' (clock_text h m) = two_digits m"
    by (simp_all add: before_char_def after_char_def clock_text_def takeWhile_append2 dropWhile_append2)
  have "\<not> is_space c" if "c \<in> set (clock_text h m)" for c
    using that two_digits_chars [OF assms(1)] two_digits_chars [OF assms(2)] not_space_digit
    by (auto simp: clock_text_def) (simp add: is_space_def code_def)
  then show "strip (clock_text h m) = clock_text h m"
    unfolding strip_def by (rule strip_of_nop)
qed

lemma validated_time_fixed: "conforms KTime v \<Longrightarrow> validated_time key v = Inr v"
  unfolding conforms_KTime_iff
  by (auto simp: validated_time_def clock_parts parse_two_digits Let_def)

lemma clean_names_fixed:
  assumes "\<And>n. n \<in> set choices \<Longrightarrow> lower (strip n) = n" "distinct (acc @ names)" "set names \<subseteq> set choices"
  shows "clean_names key choices (map PStr names) acc = Inr (acc @ names)"
  using assms(2,3)
proof (induction names arbitrary: acc)
  case (Cons n names)
  then have "item_name (PStr n) = n" using assms(1) by (simp add: item_name_def)
  with Cons show ?case by (simp add: Let_def)
qed simp

lemma vocabulary_lower:
  "n \<in> set WEEKDAYS \<or> n \<in> set EVENT_TYPES \<Longrightarrow> lower (strip n) = n"
  by (auto simp: WEEKDAYS_def EVENT_TYPES_def strip_def strip_of_def is_space_def lower_def
      lower_char_def is_upper_def code_def Let_def)

lemma small_below_limit: "(604800::rat) < double_limit"
  by (simp add: double_limit_def)

lemma validated_integer_fixed:
  assumes "conforms (KInteger lo hi) v" "0 \<le> lo" "hi \<le> 604800"
  shows "validated_integer key v lo hi = Inr v"
proof -
  obtain i where i: "v = PInt i" "lo \<le> i" "i \<le> hi"
    using assms(1) unfolding conforms_integer_cases by blast
  then have "\<bar>of_int i\<bar> \<le> (604800::rat)" using assms(2,3) by simp
  then have "\<not> double_limit \<le> \<bar>of_int i\<bar>" using small_below_limit by linarith
  with i show ?thesis by (simp add: validated_integer_def)
qed

lemma validated_fixed:
  assumes "(key, spec) \<in> set SETTINGS_CONTRACT" "conforms (sp_kind spec) v"
  shows "validated key spec v = Inr v"
proof -
  have ne: "v \<noteq> PNone \<and> v \<noteq> PStr []"
    using assms(2) conforms_time_truthy [of v] by (cases "sp_kind spec") (auto split: pyval.splits)
  have k: "sp_kind spec = KBoolean \<or> sp_kind spec = KTime \<or> sp_kind spec = KEnumList WEEKDAYS
      \<or> sp_kind spec = KEnumList EVENT_TYPES
      \<or> (\<exists>lo hi. sp_kind spec = KInteger lo hi \<and> 0 \<le> lo \<and> hi \<le> 604800)"
    using assms(1) by (auto simp: SETTINGS_CONTRACT_def setting_def)
  have e: "validated_enum_list key v cs = Inr v"
    if "conforms (KEnumList cs) v" "\<And>n. n \<in> set cs \<Longrightarrow> lower (strip n) = n" for cs
    using that clean_names_fixed [of cs "[]"] by (auto simp: validated_enum_list_def)
  have w: "validated_enum_list key v WEEKDAYS = Inr v" if "conforms (KEnumList WEEKDAYS) v"
    by (rule e [OF that]) (simp add: vocabulary_lower)
  have t: "validated_enum_list key v EVENT_TYPES = Inr v" if "conforms (KEnumList EVENT_TYPES) v"
    by (rule e [OF that]) (simp add: vocabulary_lower)
  have "validated_boolean key v = Inr v" if "conforms KBoolean v"
    using that unfolding conforms_boolean_cases by (auto simp: validated_boolean_def)
  with k ne assms(2) w t show ?thesis
    by (auto simp: validated_def simp del: conforms.simps
        intro: validated_time_fixed validated_integer_fixed)
qed

lemma dset_same: "dget m k = Some v \<Longrightarrow> dset k v m = m"
  by (induction m) (auto split: if_splits)

lemma dupdate_same: "(\<And>k v. (k, v) \<in> set n \<Longrightarrow> dget m k = Some v) \<Longrightarrow> dupdate m n = m"
  unfolding dupdate_def by (induction n) (auto simp: dset_same)

lemma traverse_fixed: "(\<And>x. x \<in> set xs \<Longrightarrow> f x = Inr x) \<Longrightarrow> traverseE f xs = Inr xs"
  by (induction xs) auto

lemma set_ddel: "set (ddel k m) = {(k', v). (k', v) \<in> set m \<and> k' \<noteq> k}"
  by (induction m) (auto split: if_splits)

lemma validate_conforming:
  assumes "settings_conform s" "settings_shape s"
  shows "validate_settings_patch s = Inr (ddel ''updated_at'' s)"
proof -
  have d: "dwf s"
    using assms(2) by (simp add: dwf_def settings_shape_def default_keys contract_keys)
  have "validated_entry kv = Inr kv" if "kv \<in> set (ddel ''updated_at'' s)" for kv
  proof -
    obtain k v where kv: "kv = (k, v)" by (cases kv)
    with that have m: "(k, v) \<in> set s" "k \<noteq> ''updated_at''" by (auto simp: set_ddel)
    then have "k \<in> set (dkeys s)" by (force simp: dkeys_def)
    with m(2) have "dhas SETTINGS_CONTRACT k"
      using assms(2) by (simp add: settings_shape_def default_keys dhas_def)
    then obtain spec where s: "dget SETTINGS_CONTRACT k = Some spec"
      using dget_None_iff [of SETTINGS_CONTRACT k] by (cases "dget SETTINGS_CONTRACT k") auto
    then have "(k, spec) \<in> set SETTINGS_CONTRACT" by (rule dget_Some_in)
    moreover from this have "conforms (sp_kind spec) (get s k)"
      using assms(1) by (auto simp: settings_conform_iff)
    moreover have "get s k = v" using dget_mem [OF d m(1)] by (simp add: get_def)
    ultimately have "validated k spec v = Inr v" using validated_fixed by metis
    with s show ?thesis by (simp add: validated_entry_def kv)
  qed
  then have "traverseE validated_entry (ddel ''updated_at'' s) = Inr (ddel ''updated_at'' s)"
    by (rule traverse_fixed)
  moreover have "unknown_keys (ddel ''updated_at'' s) = []"
    using assms(2)
    by (auto simp: unknown_keys_def filter_empty_conv settings_shape_def default_keys dhas_def)
  ultimately show ?thesis
    by (simp add: validate_settings_patch_def SERVER_OWNED_SETTING_KEYS_def)
qed

text \<open>
  Sending back the settings that were read, as a restore does, is accepted and changes nothing but
  the time stamp.
\<close>

theorem settings_resave:
  assumes "get_settings (fold (\<lambda>(t, p) r. snd (save_settings t p r)) history None) = Inr s"
  shows "fst (save_settings now s (fold (\<lambda>(t, p) r. snd (save_settings t p r)) history None))
    = Inr (dset ''updated_at'' (PFloat (Fin now)) s)"
proof -
  have "row_ok (fold (\<lambda>(now, patch) r. snd (save_settings now patch r)) history r)" if "row_ok r" for r
    using that by (induction history arbitrary: r) (auto intro: save_settings_ok)
  from this [OF row_ok_None] have s: "settings_conform s" "settings_shape s"
    using assms by (auto simp: row_ok_def get_settings_def)
  then have d: "dwf s"
    by (simp add: dwf_def settings_shape_def default_keys contract_keys)
  have "dupdate s (ddel ''updated_at'' s) = s"
    by (rule dupdate_same) (use dget_mem [OF d] in \<open>auto simp: set_ddel\<close>)
  with assms show ?thesis
    by (simp add: save_settings_def get_settings_def validate_conforming [OF s] Let_def)
qed

lemma settings_resave_witness:
  "fst (save_settings 9 default_settings None) = Inr (dset ''updated_at'' (PFloat (Fin 9)) default_settings)"
  using settings_resave [of "[]" default_settings 9]
  by (simp add: get_settings_def settings_row_def)

text \<open>An integer that no double can hold is not refused with a message: it raises.\<close>

lemma huge_integer_raises:
  "validate_settings_patch [(''retry_max_attempts'', PInt (10 ^ 400))] = Inl (Raised OverflowError)"
  by (simp add: validate_settings_patch_def SERVER_OWNED_SETTING_KEYS_def unknown_keys_def
      validated_entry_def SETTINGS_CONTRACT_def setting_def validated_def validated_integer_def
      dhas_def double_limit_def mapE_def)

end
