(* ===== verification/NotifyStore.thy ===== *)
theory NotifyStore
  imports NotifySettings "HOL-Library.Product_Lexorder"
begin

text \<open>
  The delivery table of \<^verbatim>\<open>core/inkdrop_notification_store.py\<close>: the ledger from which the
  dispatch pipeline decides whether an occurrence is a duplicate and whether a channel has capacity
  left, and which is the visible delivery history at the same time.

  The table is the list of its rows. An operation is one transaction; its result and the table after
  it are returned. The clock and the fresh identifier a call draws are arguments. Rows that compare
  equal under an \<open>order by\<close> keep the table's order.
\<close>

section \<open>Rows\<close>

datatype store_error = UnknownStatus string | DuplicateId

definition DELIVERY_STATUSES :: "string list" where
  "DELIVERY_STATUSES = [''sent'', ''sending'', ''failed'', ''queued'', ''deduped'', ''filtered'',
     ''disabled'', ''skipped'']"

definition HISTORY_RECORD_STATUSES :: "string list" where
  "HISTORY_RECORD_STATUSES = [''sent'', ''failed'']"

definition HISTORY_ACTIVE_STATUSES :: "string list" where
  "HISTORY_ACTIVE_STATUSES = [''queued'', ''sending'']"

definition RATE_LIMIT_WINDOW_SECONDS :: int where
  "RATE_LIMIT_WINDOW_SECONDS = 3600"

definition DEFAULT_SUPPRESSION_RETENTION_SECONDS :: int where
  "DEFAULT_SUPPRESSION_RETENTION_SECONDS = 2 * 86400"

definition NOTIFICATION_HISTORY_MAX_ROWS :: int where
  "NOTIFICATION_HISTORY_MAX_ROWS = 50000"

record delivery =
  dl_id :: string
  dl_event_type :: string
  dl_channel_id :: string
  dl_occurrence_key :: string
  dl_series_id :: "string option"
  dl_issue_id :: "string option"
  dl_subject :: string
  dl_message :: string
  dl_status :: string
  dl_queue_reason :: "string option"
  dl_attempt :: int
  dl_max_attempts :: int
  dl_error_detail :: "string option"
  dl_created_at :: rat
  dl_updated_at :: rat
  dl_delivered_at :: "rat option"
  dl_next_attempt_at :: "rat option"

text \<open>What a caller says about one delivery.\<close>

record message =
  ms_event_type :: string
  ms_channel_id :: string
  ms_occurrence_key :: string
  ms_series_id :: "string option"
  ms_issue_id :: "string option"
  ms_subject :: string
  ms_message :: string

definition find_delivery :: "string \<Rightarrow> delivery list \<Rightarrow> delivery option" where
  "find_delivery i t = List.find (\<lambda>r. dl_id r = i) t"

definition insert_delivery :: "delivery \<Rightarrow> delivery list \<Rightarrow> (store_error + delivery) \<times> delivery list" where
  "insert_delivery r t =
     (if dl_id r \<in> dl_id ` set t then (Inl DuplicateId, t) else (Inr r, t @ [r]))"

definition delivery_of ::
    "message \<Rightarrow> string \<Rightarrow> rat \<Rightarrow> string \<Rightarrow> string option \<Rightarrow> int \<Rightarrow> int \<Rightarrow> string option \<Rightarrow>
     rat option \<Rightarrow> rat option \<Rightarrow> delivery" where
  "delivery_of m i now status reason attempt max_attempts detail delivered due =
     \<lparr>dl_id = i, dl_event_type = ms_event_type m, dl_channel_id = ms_channel_id m,
      dl_occurrence_key = ms_occurrence_key m, dl_series_id = ms_series_id m,
      dl_issue_id = ms_issue_id m, dl_subject = ms_subject m, dl_message = ms_message m,
      dl_status = status, dl_queue_reason = reason, dl_attempt = attempt,
      dl_max_attempts = max_attempts, dl_error_detail = detail, dl_created_at = now,
      dl_updated_at = now, dl_delivered_at = delivered, dl_next_attempt_at = due\<rparr>"

text \<open>\<open>coalesce(delivered_at, created_at)\<close>.\<close>

definition occurred_at :: "delivery \<Rightarrow> rat" where
  "occurred_at r = (case dl_delivered_at r of Some t \<Rightarrow> t | None \<Rightarrow> dl_created_at r)"

section \<open>Recording and updating\<close>

record outcome =
  oc_status :: string
  oc_queue_reason :: "string option"
  oc_error_detail :: "string option"
  oc_next_attempt_at :: "rat option"
  oc_attempt :: "int option"

definition record_delivery ::
    "rat \<Rightarrow> string \<Rightarrow> message \<Rightarrow> outcome \<Rightarrow> int \<Rightarrow> int \<Rightarrow> delivery list \<Rightarrow>
     (store_error + delivery) \<times> delivery list" where
  "record_delivery now i m oc attempt max_attempts t =
     (if oc_status oc \<notin> set DELIVERY_STATUSES then (Inl (UnknownStatus (oc_status oc)), t)
      else insert_delivery
        (delivery_of m i now (oc_status oc) (oc_queue_reason oc) attempt max_attempts
           (oc_error_detail oc) (if oc_status oc = ''sent'' then Some now else None)
           (oc_next_attempt_at oc)) t)"

definition assign_outcome :: "rat \<Rightarrow> outcome \<Rightarrow> delivery \<Rightarrow> delivery" where
  "assign_outcome now oc r =
     r\<lparr>dl_status := oc_status oc, dl_updated_at := now, dl_error_detail := oc_error_detail oc,
       dl_next_attempt_at := oc_next_attempt_at oc,
       dl_delivered_at := (if oc_status oc = ''sent'' then Some now else dl_delivered_at r),
       dl_attempt := (case oc_attempt oc of Some a \<Rightarrow> a | None \<Rightarrow> dl_attempt r),
       dl_queue_reason := (if oc_status oc = ''queued'' then oc_queue_reason oc else None)\<rparr>"

definition lease_matches :: "rat option \<Rightarrow> delivery \<Rightarrow> bool" where
  "lease_matches expected r =
     (case expected of None \<Rightarrow> True
      | Some lease \<Rightarrow> dl_status r = ''sending'' \<and> dl_next_attempt_at r = Some lease)"

definition update_delivery ::
    "rat \<Rightarrow> string \<Rightarrow> outcome \<Rightarrow> rat option \<Rightarrow> delivery list \<Rightarrow>
     (store_error + delivery option) \<times> delivery list" where
  "update_delivery now i oc expected_lease_until t =
     (if oc_status oc \<notin> set DELIVERY_STATUSES then (Inl (UnknownStatus (oc_status oc)), t)
      else let t' = update_where (\<lambda>r. dl_id r = i \<and> lease_matches expected_lease_until r)
                      (assign_outcome now oc) t
           in (Inr (find_delivery i t'), t'))"

section \<open>Duplicates and capacity\<close>

definition same_occurrence :: "string \<Rightarrow> string \<Rightarrow> delivery \<Rightarrow> bool" where
  "same_occurrence occurrence channel r =
     (dl_occurrence_key r = occurrence \<and> dl_channel_id r = channel)"

definition live_or_sent_since :: "rat option \<Rightarrow> delivery \<Rightarrow> bool" where
  "live_or_sent_since since r =
     (dl_status r \<in> {''sending'', ''queued''}
      \<or> dl_status r = ''sent'' \<and> (case since of None \<Rightarrow> True | Some s \<Rightarrow> occurred_at r \<ge> s))"

definition max_of :: "rat list \<Rightarrow> rat option" where
  "max_of xs = (case xs of [] \<Rightarrow> None | x # ys \<Rightarrow> Some (fold max ys x))"

definition min_of :: "rat list \<Rightarrow> rat option" where
  "min_of xs = (case xs of [] \<Rightarrow> None | x # ys \<Rightarrow> Some (fold min ys x))"

definition last_sent_at :: "rat \<Rightarrow> string \<Rightarrow> string \<Rightarrow> rat option \<Rightarrow> delivery list \<Rightarrow> rat option" where
  "last_sent_at now occurrence channel within_seconds t =
     max_of (map occurred_at (filter (\<lambda>r. same_occurrence occurrence channel r
        \<and> live_or_sent_since (map_option (\<lambda>w. now - w) within_seconds) r) t))"

definition sent_since :: "string \<Rightarrow> rat \<Rightarrow> delivery \<Rightarrow> bool" where
  "sent_since channel since r =
     (dl_channel_id r = channel \<and> dl_status r = ''sent'' \<and> occurred_at r \<ge> since)"

definition sent_count_since :: "string \<Rightarrow> rat \<Rightarrow> delivery list \<Rightarrow> nat" where
  "sent_count_since channel since t = count_where (sent_since channel since) t"

definition null_or_le :: "rat option \<Rightarrow> rat \<Rightarrow> bool" where
  "null_or_le v now = (case v of None \<Rightarrow> True | Some t \<Rightarrow> t \<le> now)"

text \<open>A negative \<open>limit\<close> of SQLite is no limit.\<close>

definition sql_limit :: "int \<Rightarrow> 'r list \<Rightarrow> 'r list" where
  "sql_limit n rows = (if n < 0 then rows else take (nat n) rows)"

definition due_queued_deliveries :: "rat \<Rightarrow> int \<Rightarrow> delivery list \<Rightarrow> delivery list" where
  "due_queued_deliveries now n t =
     sql_limit n (sort_key dl_created_at
       (filter (\<lambda>r. dl_status r = ''queued'' \<and> null_or_le (dl_next_attempt_at r) now) t))"

text \<open>What counts against the hourly limit: what was sent in the last hour and the live leases.\<close>

definition leased :: "rat \<Rightarrow> delivery \<Rightarrow> bool" where
  "leased now r = (dl_status r = ''sending''
     \<and> (case dl_next_attempt_at r of Some t \<Rightarrow> t > now | None \<Rightarrow> False))"

definition holds_capacity :: "string \<Rightarrow> rat \<Rightarrow> delivery \<Rightarrow> bool" where
  "holds_capacity channel now r =
     (dl_channel_id r = channel
      \<and> (dl_status r = ''sent'' \<and> occurred_at r \<ge> now - 3600 \<or> leased now r))"

definition reserved_count :: "string \<Rightarrow> rat \<Rightarrow> delivery list \<Rightarrow> nat" where
  "reserved_count channel now t = count_where (holds_capacity channel now) t"

definition oldest_sent :: "string \<Rightarrow> rat \<Rightarrow> delivery list \<Rightarrow> rat option" where
  "oldest_sent channel now t = min_of (map occurred_at (filter (sent_since channel (now - 3600)) t))"

definition capacity_due_at :: "string \<Rightarrow> rat \<Rightarrow> delivery list \<Rightarrow> rat" where
  "capacity_due_at channel now t =
     (case oldest_sent channel now t of Some o' \<Rightarrow> max (now + 30) (o' + 3601) | None \<Rightarrow> now + 30)"

definition lease_end :: "rat \<Rightarrow> int \<Rightarrow> rat" where
  "lease_end now lease_seconds =
     now + of_int (max 15 (min 120 (if lease_seconds = 0 then 30 else lease_seconds)))"

section \<open>Reserving and claiming\<close>

definition duplicate_of :: "rat \<Rightarrow> message \<Rightarrow> int \<Rightarrow> delivery list \<Rightarrow> bool" where
  "duplicate_of now m window t =
     list_ex (\<lambda>r. same_occurrence (ms_occurrence_key m) (ms_channel_id m) r
                  \<and> live_or_sent_since (Some (now - of_int window)) r) t"

definition at_capacity :: "int \<Rightarrow> nat \<Rightarrow> bool" where
  "at_capacity max_per_hour n = (max_per_hour \<noteq> 0 \<and> int n \<ge> max_per_hour)"

definition reservation ::
    "rat \<Rightarrow> message \<Rightarrow> int \<Rightarrow> int \<Rightarrow> string option \<Rightarrow> rat option \<Rightarrow> int \<Rightarrow> delivery list \<Rightarrow>
     string \<times> string option \<times> string option \<times> rat option" where
  "reservation now m window max_per_hour defer_reason next_attempt_at lease_seconds t =
     (if window \<noteq> 0 \<and> duplicate_of now m window t then
        (''deduped'', None, Some ''already notified for this occurrence within the dedup window'', None)
      else if defer_reason \<notin> {None, Some []} then (''queued'', defer_reason, None, next_attempt_at)
      else if at_capacity max_per_hour (reserved_count (ms_channel_id m) now t) then
        (''queued'', Some ''rate_limit'', None, Some (capacity_due_at (ms_channel_id m) now t))
      else (''sending'', None, None, Some (lease_end now lease_seconds)))"

definition reserve_new_delivery ::
    "rat \<Rightarrow> string \<Rightarrow> message \<Rightarrow> int \<Rightarrow> int \<Rightarrow> int \<Rightarrow> string option \<Rightarrow> rat option \<Rightarrow> int \<Rightarrow>
     delivery list \<Rightarrow> (store_error + delivery) \<times> delivery list" where
  "reserve_new_delivery now i m max_attempts window max_per_hour defer_reason next_attempt_at
       lease_seconds t =
     (case reservation now m window max_per_hour defer_reason next_attempt_at lease_seconds t of
        (status, reason, detail, due) \<Rightarrow>
          insert_delivery (delivery_of m i now status reason (if status = ''queued'' then 0 else 1)
             max_attempts detail None due) t)"

definition claimable :: "rat \<Rightarrow> delivery \<Rightarrow> bool" where
  "claimable now r =
     (dl_status r \<in> {''queued'', ''sending''} \<and> null_or_le (dl_next_attempt_at r) now)"

definition capacity_reason :: "delivery \<Rightarrow> string" where
  "capacity_reason r = (if dl_queue_reason r = Some ''retry'' then ''retry'' else ''rate_limit'')"

definition requeue_for_capacity :: "rat \<Rightarrow> string \<Rightarrow> rat \<Rightarrow> delivery \<Rightarrow> delivery" where
  "requeue_for_capacity now reason due r =
     r\<lparr>dl_status := ''queued'', dl_queue_reason := Some reason, dl_next_attempt_at := Some due,
       dl_updated_at := now\<rparr>"

definition take_lease :: "rat \<Rightarrow> int \<Rightarrow> delivery \<Rightarrow> delivery" where
  "take_lease now lease_seconds r =
     r\<lparr>dl_status := ''sending'', dl_next_attempt_at := Some (lease_end now lease_seconds),
       dl_updated_at := now\<rparr>"

fun claim_first ::
    "rat \<Rightarrow> int \<Rightarrow> int \<Rightarrow> delivery list \<Rightarrow> delivery list \<Rightarrow> delivery option \<times> delivery list" where
  "claim_first now max_per_hour lease_seconds [] t = (None, t)"
| "claim_first now max_per_hour lease_seconds (r # rs) t =
     (let reserved = count_where (\<lambda>q. dl_id q \<noteq> dl_id r \<and> holds_capacity (dl_channel_id r) now q) t in
      if at_capacity max_per_hour reserved then
        claim_first now max_per_hour lease_seconds rs
          (update_where (\<lambda>q. dl_id q = dl_id r)
             (requeue_for_capacity now (capacity_reason r) (capacity_due_at (dl_channel_id r) now t)) t)
      else
        (let t' = update_where (\<lambda>q. dl_id q = dl_id r) (take_lease now lease_seconds) t
         in (find_delivery (dl_id r) t', t')))"

definition claim_next_due_delivery ::
    "rat \<Rightarrow> int \<Rightarrow> int \<Rightarrow> delivery list \<Rightarrow> delivery option \<times> delivery list" where
  "claim_next_due_delivery now max_per_hour lease_seconds t =
     claim_first now max_per_hour lease_seconds
       (take 100 (sort_key dl_created_at (filter (claimable now) t))) t"

section \<open>Reading the history\<close>

record delivery_query =
  dq_limit :: int
  dq_before :: "rat option"
  dq_before_id :: "string option"
  dq_event_type :: "string option"
  dq_channel_id :: "string option"
  dq_status :: "string option"

definition page_limit :: "int \<Rightarrow> nat" where
  "page_limit n = nat (max 1 (min 500 (if n = 0 then 100 else n)))"

definition before_cursor :: "delivery_query \<Rightarrow> delivery \<Rightarrow> bool" where
  "before_cursor q r =
     (case dq_before q of
        None \<Rightarrow> True
      | Some b \<Rightarrow>
          if dq_before_id q \<notin> {None, Some []}
          then dl_created_at r < b \<or> (dl_created_at r = b \<and> dl_id r < the (dq_before_id q))
          else dl_created_at r < b)"

definition matches_text :: "string option \<Rightarrow> string \<Rightarrow> bool" where
  "matches_text wanted s = (wanted = None \<or> wanted = Some [] \<or> wanted = Some s)"

definition query_matches :: "delivery_query \<Rightarrow> delivery \<Rightarrow> bool" where
  "query_matches q r =
     (matches_text (dq_event_type q) (dl_event_type r)
      \<and> matches_text (dq_channel_id q) (dl_channel_id r)
      \<and> matches_text (dq_status q) (dl_status r))"

definition newest_first :: "delivery list \<Rightarrow> delivery list" where
  "newest_first t = rev (sort_key (\<lambda>r. (dl_created_at r, dl_id r)) t)"

definition list_deliveries :: "delivery_query \<Rightarrow> delivery list \<Rightarrow> delivery list" where
  "list_deliveries q t =
     take (page_limit (dq_limit q))
       (newest_first (filter (\<lambda>r. before_cursor q r \<and> query_matches q r) t))"

section \<open>Pruning\<close>

record windows =
  wd_record :: int
  wd_suppression :: int
  wd_protect :: int

definition history_windows :: "pydict \<Rightarrow> int option \<Rightarrow> py_exn + windows" where
  "history_windows settings retention_days =
     bindE (case retention_days of None \<Rightarrow> int_of (get settings ''history_retention_days'')
            | Some d \<Rightarrow> Inr d) (\<lambda>days.
     bindE (int_of (por (get settings ''dedup_window_seconds'') (PInt 0))) (\<lambda>window.
       let keep = max 1 days * 86400; dedup = max 0 window in
       Inr \<lparr>wd_record = keep,
            wd_suppression = min keep (max DEFAULT_SUPPRESSION_RETENTION_SECONDS dedup),
            wd_protect = max dedup RATE_LIMIT_WINDOW_SECONDS\<rparr>))"

definition prunable :: "rat \<Rightarrow> delivery \<Rightarrow> bool" where
  "prunable protect r =
     (dl_status r \<notin> set HISTORY_ACTIVE_STATUSES \<and> dl_created_at r < protect \<and> occurred_at r < protect)"

definition retention_expired :: "rat \<Rightarrow> windows \<Rightarrow> delivery \<Rightarrow> bool" where
  "retention_expired now w r =
     (if dl_status r \<in> set HISTORY_RECORD_STATUSES then dl_created_at r < now - of_int (wd_record w)
      else dl_created_at r < now - of_int (wd_suppression w))"

definition expired :: "rat \<Rightarrow> windows \<Rightarrow> delivery \<Rightarrow> bool" where
  "expired now w r = (prunable (now - of_int (wd_protect w)) r \<and> retention_expired now w r)"

definition beyond_cap :: "int \<Rightarrow> delivery list \<Rightarrow> string list" where
  "beyond_cap cap t = map dl_id (drop (nat cap) (sort_key (\<lambda>r. - dl_created_at r)
     (filter (\<lambda>r. dl_status r \<notin> set HISTORY_ACTIVE_STATUSES) t)))"

record prune_report =
  pr_deleted :: nat
  pr_by_retention :: nat
  pr_by_cap :: nat
  pr_over_cap_retained :: nat

definition prune_rows :: "rat \<Rightarrow> windows \<Rightarrow> int \<Rightarrow> delivery list \<Rightarrow> prune_report \<times> delivery list" where
  "prune_rows now w cap t =
     (let t1 = delete_where (expired now w) t;
          deleted = length t - length t1;
          excess = beyond_cap (max 1 cap) t1;
          over_cap = count_where (\<lambda>r. dl_status r \<notin> set HISTORY_ACTIVE_STATUSES \<and> dl_id r \<in> set excess) t1;
          t2 = (if over_cap > 0 then delete_where (\<lambda>r. expired now w r \<and> dl_id r \<in> set excess) t1 else t1);
          capped = length t1 - length t2
      in (\<lparr>pr_deleted = deleted + capped, pr_by_retention = deleted, pr_by_cap = capped,
           pr_over_cap_retained = over_cap - capped\<rparr>, t2))"

definition prune_history ::
    "rat \<Rightarrow> int option \<Rightarrow> int \<Rightarrow> pydict option \<Rightarrow> delivery list \<Rightarrow>
     (py_exn + prune_report) \<times> delivery list" where
  "prune_history now retention_days cap settings t =
     (case bindE (settings_row settings) (\<lambda>s. history_windows s retention_days) of
        Inl e \<Rightarrow> (Inl e, t)
      | Inr w \<Rightarrow> (case prune_rows now w cap t of (rep, t') \<Rightarrow> (Inr rep, t')))"

section \<open>Counting rows\<close>

named_theorems ledger_simps \<open>what the ledger's predicates say of a changed row\<close>

lemma count_update_le:
  "(\<And>r. r \<in> set t \<Longrightarrow> p (if u r then f r else r) \<Longrightarrow> q r) \<Longrightarrow>
   count_where p (update_where u f t) \<le> count_where q t"
  by (induction t) (auto simp: update_where_def)

lemma count_update_one:
  assumes "distinct (map dl_id t)"
  shows "count_where p (update_where (\<lambda>r. dl_id r = i) f t)
    \<le> count_where (\<lambda>r. dl_id r \<noteq> i \<and> p r) t + 1"
  using assms
proof (induction t)
  case (Cons r t)
  show ?case
  proof (cases "dl_id r = i")
    case True
    then have "update_where (\<lambda>r. dl_id r = i) f t = t"
      using Cons.prems unfolding update_where_def by (intro map_idI) (metis distinct.simps(2) imageI list.simps(9) set_map)
    moreover have "count_where p t \<le> count_where (\<lambda>r. dl_id r \<noteq> i \<and> p r) t"
      using Cons.prems True by (intro count_where_mono) (auto simp: image_iff dest: sym)
    ultimately show ?thesis using True by (simp add: update_where_def)
  next
    case False
    then show ?thesis using Cons by (simp add: update_where_def)
  qed
qed (simp add: update_where_def)

lemma map_id_update:
  "(\<And>r. dl_id (f r) = dl_id r) \<Longrightarrow> map dl_id (update_where q f t) = map dl_id t"
  by (simp add: update_where_def)

lemma in_update_where:
  "r' \<in> set (update_where q f t) \<longleftrightarrow> (\<exists>r \<in> set t. r' = (if q r then f r else r))"
  by (auto simp: update_where_def)

lemma unique_row:
  "distinct (map dl_id t) \<Longrightarrow> r \<in> set t \<Longrightarrow> s \<in> set t \<Longrightarrow> dl_id r = dl_id s \<Longrightarrow> r = s"
  by (metis distinct_map inj_on_eq_iff)

lemma find_delivery_in: "find_delivery i t = Some r \<Longrightarrow> r \<in> set t \<and> dl_id r = i"
  by (auto simp: find_delivery_def find_Some_iff)

lemma changed_ids [simp]:
  "dl_id (assign_outcome now oc r) = dl_id r" "dl_id (take_lease now l r) = dl_id r"
  "dl_id (requeue_for_capacity now reason due r) = dl_id r"
  by (simp_all add: assign_outcome_def take_lease_def requeue_for_capacity_def)

lemma same_occurrence_changed [ledger_simps]:
  "same_occurrence o' c (assign_outcome now oc r) = same_occurrence o' c r"
  "same_occurrence o' c (take_lease now l r) = same_occurrence o' c r"
  "same_occurrence o' c (requeue_for_capacity now reason due r) = same_occurrence o' c r"
  by (simp_all add: assign_outcome_def take_lease_def requeue_for_capacity_def same_occurrence_def)

lemma live_changed [ledger_simps]:
  "live_or_sent_since s (take_lease now l r)" "live_or_sent_since s (requeue_for_capacity now reason due r)"
  by (simp_all add: live_or_sent_since_def take_lease_def requeue_for_capacity_def)

lemma channel_changed [ledger_simps]:
  "dl_channel_id (assign_outcome now oc r) = dl_channel_id r"
  "dl_channel_id (take_lease now l r) = dl_channel_id r"
  "dl_channel_id (requeue_for_capacity now reason due r) = dl_channel_id r"
  by (simp_all add: assign_outcome_def take_lease_def requeue_for_capacity_def)

lemma claimable_live: "claimable now r \<Longrightarrow> live_or_sent_since s r"
  by (auto simp: claimable_def live_or_sent_since_def)

lemma claimable_not_leased: "claimable now r \<Longrightarrow> \<not> leased now r"
  by (auto simp: claimable_def leased_def null_or_le_def split: option.splits)

lemma requeued_frees [ledger_simps]: "\<not> holds_capacity c now (requeue_for_capacity now' reason due r)"
  by (simp add: holds_capacity_def leased_def requeue_for_capacity_def)

lemma lease_end_after: "now < lease_end now l"
  by (simp add: lease_end_def)

text \<open>Whatever the two kinds of change that claiming makes preserve, claiming preserves.\<close>

lemma claim_first_preserves:
  assumes "P t" "distinct (map dl_id t)" "distinct (map dl_id rs)" "set rs \<subseteq> set t"
    and "\<And>r. r \<in> set rs \<Longrightarrow> claimable now r"
    and requeue: "\<And>t r reason due. \<lbrakk>P t; distinct (map dl_id t); r \<in> set t; claimable now r\<rbrakk>
        \<Longrightarrow> P (update_where (\<lambda>q. dl_id q = dl_id r) (requeue_for_capacity now reason due) t)"
    and lease: "\<And>t r. \<lbrakk>P t; distinct (map dl_id t); r \<in> set t; claimable now r;
        \<not> at_capacity m (count_where (\<lambda>q. dl_id q \<noteq> dl_id r \<and> holds_capacity (dl_channel_id r) now q) t)\<rbrakk>
        \<Longrightarrow> P (update_where (\<lambda>q. dl_id q = dl_id r) (take_lease now l) t)"
  shows "P (snd (claim_first now m l rs t))"
  using assms(1-5)
proof (induction rs arbitrary: t)
  case (Cons r rs)
  let ?u = "\<lambda>t. update_where (\<lambda>q. dl_id q = dl_id r)
      (requeue_for_capacity now (capacity_reason r) (capacity_due_at (dl_channel_id r) now t)) t"
  show ?case
  proof (cases "at_capacity m (count_where (\<lambda>q. dl_id q \<noteq> dl_id r \<and> holds_capacity (dl_channel_id r) now q) t)")
    case True
    have "set rs \<subseteq> set (?u t)"
    proof
      fix x assume "x \<in> set rs"
      then have "x \<in> set t" "dl_id x \<noteq> dl_id r"
        using Cons.prems(3,4) by (auto simp: image_iff dest: sym)
      then show "x \<in> set (?u t)" by (auto simp: in_update_where)
    qed
    then have "P (snd (claim_first now m l rs (?u t)))"
      using Cons.prems requeue by (intro Cons.IH) (auto simp: map_id_update)
    with True show ?thesis by simp
  next
    case False
    then show ?thesis using lease Cons.prems by (simp add: Let_def)
  qed
qed simp

lemma claim_preserves:
  assumes "P t" "distinct (map dl_id t)"
    and "\<And>t r reason due. \<lbrakk>P t; distinct (map dl_id t); r \<in> set t; claimable now r\<rbrakk>
        \<Longrightarrow> P (update_where (\<lambda>q. dl_id q = dl_id r) (requeue_for_capacity now reason due) t)"
    and "\<And>t r. \<lbrakk>P t; distinct (map dl_id t); r \<in> set t; claimable now r;
        \<not> at_capacity m (count_where (\<lambda>q. dl_id q \<noteq> dl_id r \<and> holds_capacity (dl_channel_id r) now q) t)\<rbrakk>
        \<Longrightarrow> P (update_where (\<lambda>q. dl_id q = dl_id r) (take_lease now l) t)"
  shows "P (snd (claim_next_due_delivery now m l t))"
proof -
  let ?rs = "take 100 (sort_key dl_created_at (filter (claimable now) t))"
  have d: "distinct (map dl_id ?rs)"
    using assms(2) by (intro distinct_map_take) (auto simp: distinct_map inj_on_def)
  have s: "set ?rs \<subseteq> {r \<in> set t. claimable now r}"
    using set_take_subset by fastforce
  then show ?thesis
    unfolding claim_next_due_delivery_def
    by (intro claim_first_preserves [where P = P] assms d) (use s in auto)
qed

end
