(* ===== verification/NotifyLedger.thy ===== *)
theory NotifyLedger
  imports NotifyStore
begin

text \<open>
  What the delivery table of \<^verbatim>\<open>core/inkdrop_notification_store.py\<close> guarantees to the dispatch
  pipeline: over every interleaving of the store's operations by any number of dispatchers, one
  occurrence is pending or sent at most once per channel and window, a channel never exceeds its
  hourly limit, and pruning never changes a later decision.

  \<open>ledger_step\<close> has one rule per operation as the pipeline calls it. Every operation is one
  transaction, so an interleaving is a sequence of operations with a clock that does not go back.
\<close>

section \<open>Steps\<close>

record ledger =
  lg_now :: rat
  lg_rows :: "delivery list"

text \<open>
  \<open>window\<close> is the dedup window, \<open>limit\<close> the hourly limit. A dispatcher ends its send with the lease it
  was given (\<open>finish\<close>), or, after a claim, puts the row aside without a lease (\<open>set_aside\<close>).
\<close>

inductive ledger_step :: "int \<Rightarrow> int \<Rightarrow> ledger \<Rightarrow> ledger \<Rightarrow> bool" for window limit where
  tick: "now \<le> now' \<Longrightarrow> ledger_step window limit \<lparr>lg_now = now, lg_rows = t\<rparr> \<lparr>lg_now = now', lg_rows = t\<rparr>"
| reserve: "reserve_new_delivery now i m attempts window limit reason due lease t = (res, t')
    \<Longrightarrow> ledger_step window limit \<lparr>lg_now = now, lg_rows = t\<rparr> \<lparr>lg_now = now, lg_rows = t'\<rparr>"
| filtered: "oc_status oc = ''filtered'' \<Longrightarrow> record_delivery now i m oc attempt attempts t = (res, t')
    \<Longrightarrow> ledger_step window limit \<lparr>lg_now = now, lg_rows = t\<rparr> \<lparr>lg_now = now, lg_rows = t'\<rparr>"
| claim: "claim_next_due_delivery now limit lease t = (res, t')
    \<Longrightarrow> ledger_step window limit \<lparr>lg_now = now, lg_rows = t\<rparr> \<lparr>lg_now = now, lg_rows = t'\<rparr>"
| finish: "oc_status oc \<in> {''sent'', ''queued'', ''failed'', ''disabled''} \<Longrightarrow> now < lease
    \<Longrightarrow> update_delivery now i oc (Some lease) t = (res, t')
    \<Longrightarrow> ledger_step window limit \<lparr>lg_now = now, lg_rows = t\<rparr> \<lparr>lg_now = now, lg_rows = t'\<rparr>"
| set_aside: "oc_status oc \<in> {''queued'', ''disabled''} \<Longrightarrow> find_delivery i t = Some r
    \<Longrightarrow> dl_status r = ''sending'' \<Longrightarrow> update_delivery now i oc None t = (res, t')
    \<Longrightarrow> ledger_step window limit \<lparr>lg_now = now, lg_rows = t\<rparr> \<lparr>lg_now = now, lg_rows = t'\<rparr>"
| prune: "prune_rows now w cap t = (rep, t')
    \<Longrightarrow> ledger_step window limit \<lparr>lg_now = now, lg_rows = t\<rparr> \<lparr>lg_now = now, lg_rows = t'\<rparr>"

inductive_cases ledger_stepE: "ledger_step window limit s s'"

inductive ledger_reach :: "int \<Rightarrow> int \<Rightarrow> ledger \<Rightarrow> bool" for window limit where
  start: "ledger_reach window limit \<lparr>lg_now = now, lg_rows = []\<rparr>"
| step: "ledger_reach window limit s \<Longrightarrow> ledger_step window limit s s' \<Longrightarrow> ledger_reach window limit s'"

definition once_per_occurrence :: "int \<Rightarrow> ledger \<Rightarrow> bool" where
  "once_per_occurrence window s =
     (\<forall>occurrence channel. count_where (\<lambda>r. same_occurrence occurrence channel r
        \<and> live_or_sent_since (Some (lg_now s - of_int window)) r) (lg_rows s) \<le> 1)"

definition within_limit :: "int \<Rightarrow> ledger \<Rightarrow> bool" where
  "within_limit limit s = (\<forall>channel. int (reserved_count channel (lg_now s) (lg_rows s)) \<le> limit)"

definition ledger_ids :: "ledger \<Rightarrow> bool" where
  "ledger_ids s = distinct (map dl_id (lg_rows s))"

lemma insert_delivery_rows:
  "insert_delivery r t = (res, t') \<Longrightarrow> t' = t \<or> (t' = t @ [r] \<and> dl_id r \<notin> dl_id ` set t)"
  by (auto simp: insert_delivery_def split: if_splits)

lemma update_delivery_rows:
  "update_delivery now i oc lease t = (res, t') \<Longrightarrow>
   t' = t \<or> t' = update_where (\<lambda>r. dl_id r = i \<and> lease_matches lease r) (assign_outcome now oc) t"
  by (auto simp: update_delivery_def Let_def split: if_splits)

lemma prune_rows_delete: "prune_rows now w cap t = (rep, t') \<Longrightarrow> \<exists>p. t' = delete_where p t"
proof -
  have "delete_where p (delete_where q t) = delete_where (\<lambda>r. p r \<or> q r) t" for p q
    by (auto simp: delete_where_def intro!: filter_cong)
  then show "prune_rows now w cap t = (rep, t') \<Longrightarrow> \<exists>p. t' = delete_where p t"
    by (auto simp: prune_rows_def Let_def split: if_splits)
qed

lemma map_id_claim:
  assumes "distinct (map dl_id t)"
  shows "map dl_id (snd (claim_next_due_delivery now m l t)) = map dl_id t"
  using claim_preserves [where P = "\<lambda>u. map dl_id u = map dl_id t", of t now m l] assms
  by (simp add: map_id_update)

lemma ledger_ids_step: "ledger_step window limit s s' \<Longrightarrow> ledger_ids s \<Longrightarrow> ledger_ids s'"
proof (induction rule: ledger_step.induct)
  case (reserve now i m attempts reason due lease t res t')
  then show ?case
    using insert_delivery_rows
    by (fastforce simp: reserve_new_delivery_def ledger_ids_def split: prod.splits)
next
  case (filtered oc now i m attempt attempts t res t')
  then show ?case
    using insert_delivery_rows
    by (fastforce simp: record_delivery_def ledger_ids_def split: if_splits)
next
  case (claim now lease t res t')
  then show ?case using map_id_claim [of t now limit lease] by (simp add: ledger_ids_def)
next
  case (finish oc now lease i t res t')
  then show ?case using update_delivery_rows [of now i oc "Some lease" t res t']
    by (auto simp: ledger_ids_def map_id_update)
next
  case (set_aside oc i t r now res t')
  then show ?case using update_delivery_rows [of now i oc None t res t']
    by (auto simp: ledger_ids_def map_id_update)
next
  case (prune now w cap t rep t')
  then show ?case using prune_rows_delete [of now w cap t rep t']
    by (auto simp: ledger_ids_def delete_where_def distinct_map_filter)
qed (simp add: ledger_ids_def)

section \<open>One notification per occurrence\<close>

lemma live_later: "live_or_sent_since (Some b) r \<Longrightarrow> a \<le> b \<Longrightarrow> live_or_sent_since (Some a) r"
  by (auto simp: live_or_sent_since_def)

lemma reserve_once:
  assumes r: "reserve_new_delivery now i m attempts window limit reason due lease t = (res, t')"
    and "window \<noteq> 0"
    and o': "\<And>a b. count_where (\<lambda>r. same_occurrence a b r \<and> live_or_sent_since (Some (now - of_int window)) r) t \<le> 1"
  shows "count_where (\<lambda>r. same_occurrence a b r \<and> live_or_sent_since (Some (now - of_int window)) r) t' \<le> 1"
    (is "count_where ?p t' \<le> 1")
proof -
  obtain status why detail d where
    v: "reservation now m window limit reason due lease t = (status, why, detail, d)"
    by (metis prod_cases4)
  define row where "row = delivery_of m i now status why (if status = ''queued'' then 0 else 1) attempts detail None d"
  have t': "t' = t \<or> t' = t @ [row]"
    using r v insert_delivery_rows unfolding row_def by (fastforce simp: reserve_new_delivery_def)
  show ?thesis
  proof (cases "?p row")
    case False
    with t' o' show ?thesis by auto
  next
    case True
    then have "status \<noteq> ''deduped''" and same: "a = ms_occurrence_key m" "b = ms_channel_id m"
      by (auto simp: row_def delivery_of_def live_or_sent_since_def same_occurrence_def)
    then have "\<not> duplicate_of now m window t"
      using v assms(2) by (auto simp: reservation_def split: if_splits)
    then have "count_where ?p t = 0"
      by (simp add: count_where_zero duplicate_of_def list_ex_iff same)
    with t' show ?thesis by auto
  qed
qed

lemma once_le:
  assumes "once_per_occurrence window \<lparr>lg_now = now, lg_rows = t\<rparr>"
    and "\<And>a b. count_where (\<lambda>r. same_occurrence a b r \<and> live_or_sent_since (Some (now' - of_int window)) r) t'
      \<le> count_where (\<lambda>r. same_occurrence a b r \<and> live_or_sent_since (Some (now - of_int window)) r) t"
  shows "once_per_occurrence window \<lparr>lg_now = now', lg_rows = t'\<rparr>"
  using assms unfolding once_per_occurrence_def ledger.simps by (meson order_trans)

lemma once_step:
  assumes "ledger_step window limit s s'" "window \<noteq> 0" "once_per_occurrence window s" "ledger_ids s"
  shows "once_per_occurrence window s'"
  using assms
proof (induction rule: ledger_step.induct)
  case (tick now now' t)
  then have "now - of_int window \<le> now' - of_int window" by simp
  then have "count_where (\<lambda>r. same_occurrence a b r \<and> live_or_sent_since (Some (now' - of_int window)) r) t
      \<le> count_where (\<lambda>r. same_occurrence a b r \<and> live_or_sent_since (Some (now - of_int window)) r) t" for a b
    by (intro count_where_mono) (auto intro: live_later)
  then show ?case by (rule once_le [OF tick(3)])
next
  case (reserve now i m attempts reason due lease t res t')
  then show ?case
    using reserve_once [OF reserve(1,2)] by (simp add: once_per_occurrence_def)
next
  case (filtered oc now i m attempt attempts t res t')
  then have "t' = t \<or> (\<exists>r. t' = t @ [r] \<and> dl_status r = ''filtered'')"
    using insert_delivery_rows
    by (fastforce simp: record_delivery_def delivery_of_def split: if_splits)
  then have "count_where (\<lambda>r. same_occurrence a b r \<and> live_or_sent_since x r) t'
      = count_where (\<lambda>r. same_occurrence a b r \<and> live_or_sent_since x r) t" for a b x
    by (auto simp: live_or_sent_since_def)
  with filtered(4) show ?case
    by (simp add: once_per_occurrence_def)
next
  case (claim now lease t res t')
  let ?p = "\<lambda>a b r. same_occurrence a b r \<and> live_or_sent_since (Some (now - of_int window)) r"
  have "\<forall>a b. count_where (?p a b) (snd (claim_next_due_delivery now limit lease t)) \<le> 1"
  proof (rule claim_preserves)
    fix t r reason due
    assume a: "\<forall>a b. count_where (?p a b) t \<le> 1" "distinct (map dl_id t)" "r \<in> set t" "claimable now r"
    have "count_where (?p a b) (update_where (\<lambda>q. dl_id q = dl_id r) f t) \<le> count_where (?p a b) t"
      if "\<And>q. same_occurrence a b (f q) = same_occurrence a b q" for a b f
    proof (rule count_update_le)
      fix q assume "q \<in> set t" "?p a b (if dl_id q = dl_id r then f q else q)"
      then show "?p a b q"
        using that a(2-4) unique_row [of t q r] claimable_live [of now r] by (auto split: if_splits)
    qed
    note le = this
    show "\<forall>a b. count_where (?p a b) (update_where (\<lambda>q. dl_id q = dl_id r) (requeue_for_capacity now reason due) t) \<le> 1"
      using le [OF same_occurrence_changed(3)] a(1) by (meson order_trans)
    show "\<forall>a b. count_where (?p a b) (update_where (\<lambda>q. dl_id q = dl_id r) (take_lease now lease) t) \<le> 1"
      using le [OF same_occurrence_changed(2)] a(1) by (meson order_trans)
  qed (use claim in \<open>auto simp: once_per_occurrence_def ledger_ids_def\<close>)
  with claim show ?case by (simp add: once_per_occurrence_def)
next
  case (finish oc now lease i t res t')
  have "count_where (\<lambda>r. same_occurrence a b r \<and> live_or_sent_since s r)
      (update_where (\<lambda>r. dl_id r = i \<and> lease_matches (Some lease) r) (assign_outcome now oc) t)
    \<le> count_where (\<lambda>r. same_occurrence a b r \<and> live_or_sent_since s r) t" for a b s
    by (rule count_update_le)
       (auto simp: same_occurrence_changed lease_matches_def live_or_sent_since_def split: if_splits)
  then show ?case
    using update_delivery_rows [OF finish(3)] by (intro once_le [OF finish(5)]) auto
next
  case (set_aside oc i t r now res t')
  have "count_where (\<lambda>r. same_occurrence a b r \<and> live_or_sent_since s r)
      (update_where (\<lambda>r. dl_id r = i \<and> lease_matches None r) (assign_outcome now oc) t)
    \<le> count_where (\<lambda>r. same_occurrence a b r \<and> live_or_sent_since s r) t" for a b s
  proof (rule count_update_le)
    fix q assume q: "q \<in> set t" "same_occurrence a b (if dl_id q = i \<and> lease_matches None q then assign_outcome now oc q else q)
        \<and> live_or_sent_since s (if dl_id q = i \<and> lease_matches None q then assign_outcome now oc q else q)"
    have "q = r" if "dl_id q = i"
      using unique_row [of t q r] that q(1) set_aside find_delivery_in [of i t r] by (simp add: ledger_ids_def)
    then show "same_occurrence a b q \<and> live_or_sent_since s q"
      using q set_aside(3) by (auto simp: same_occurrence_changed live_or_sent_since_def split: if_splits)
  qed
  then show ?case
    using update_delivery_rows [OF set_aside(4)] by (intro once_le [OF set_aside(6)]) auto
next
  case (prune now w cap t rep t')
  obtain p where "t' = delete_where p t" using prune_rows_delete [OF prune(1)] by blast
  then show ?case
    by (intro once_le [OF prune(3)]) (simp add: count_where_delete_le)
qed
section \<open>The hourly limit\<close>

lemma holds_later:
  "holds_capacity c now' r \<Longrightarrow> now \<le> now' \<Longrightarrow> holds_capacity c now r"
  by (auto simp: holds_capacity_def leased_def split: option.splits)

lemma reserve_within:
  assumes r: "reserve_new_delivery now i m attempts window limit reason due lease t = (res, t')"
    and "0 < limit" and o': "\<And>c. int (reserved_count c now t) \<le> limit"
  shows "int (reserved_count c now t') \<le> limit"
proof -
  obtain status why detail d where
    v: "reservation now m window limit reason due lease t = (status, why, detail, d)"
    by (metis prod_cases4)
  define row where "row = delivery_of m i now status why (if status = ''queued'' then 0 else 1) attempts detail None d"
  have t': "t' = t \<or> t' = t @ [row]"
    using r v insert_delivery_rows unfolding row_def by (fastforce simp: reserve_new_delivery_def)
  show ?thesis
  proof (cases "holds_capacity c now row")
    case False
    with t' o' show ?thesis by (auto simp: reserved_count_def)
  next
    case True
    then have s: "status = ''sending''" and c: "c = ms_channel_id m"
      using v by (auto simp: row_def delivery_of_def holds_capacity_def leased_def reservation_def split: if_splits)
    then have "\<not> at_capacity limit (reserved_count c now t)"
      using v by (auto simp: reservation_def split: if_splits)
    with assms(2) t' o' show ?thesis by (auto simp: reserved_count_def at_capacity_def)
  qed
qed

lemma within_step:
  assumes "ledger_step window limit s s'" "0 < limit" "within_limit limit s" "ledger_ids s"
  shows "within_limit limit s'"
  using assms
proof (induction rule: ledger_step.induct)
  case (tick now now' t)
  then have "reserved_count c now' t \<le> reserved_count c now t" for c
    unfolding reserved_count_def by (intro count_where_mono) (auto intro: holds_later)
  with tick show ?case
    by (auto simp: within_limit_def intro: order_trans [OF of_nat_mono])
next
  case (reserve now i m attempts reason due lease t res t')
  then show ?case
    using reserve_within [OF reserve(1)] by (auto simp: within_limit_def)
next
  case (filtered oc now i m attempt attempts t res t')
  then have "t' = t \<or> (\<exists>r. t' = t @ [r] \<and> dl_status r = ''filtered'')"
    using insert_delivery_rows
    by (fastforce simp: record_delivery_def delivery_of_def split: if_splits)
  then have "reserved_count c x t' = reserved_count c x t" for c x
    by (auto simp: reserved_count_def holds_capacity_def leased_def)
  with filtered(4) show ?case by (simp add: within_limit_def)
next
  case (claim now lease t res t')
  have "\<forall>c. int (reserved_count c now (snd (claim_next_due_delivery now limit lease t))) \<le> limit"
  proof (rule claim_preserves)
    fix t r reason due
    assume a: "\<forall>c. int (reserved_count c now t) \<le> limit" "distinct (map dl_id t)" "r \<in> set t" "claimable now r"
    have "reserved_count c now (update_where (\<lambda>q. dl_id q = dl_id r) (requeue_for_capacity now reason due) t)
        \<le> reserved_count c now t" for c
      unfolding reserved_count_def
      by (rule count_update_le) (auto simp: requeued_frees split: if_splits)
    with a(1) show "\<forall>c. int (reserved_count c now (update_where (\<lambda>q. dl_id q = dl_id r)
        (requeue_for_capacity now reason due) t)) \<le> limit"
      by (meson order_trans of_nat_mono)
  next
    fix t r
    assume a: "\<forall>c. int (reserved_count c now t) \<le> limit" "distinct (map dl_id t)" "r \<in> set t" "claimable now r"
      and cap: "\<not> at_capacity limit (count_where (\<lambda>q. dl_id q \<noteq> dl_id r \<and> holds_capacity (dl_channel_id r) now q) t)"
    show "\<forall>c. int (reserved_count c now (update_where (\<lambda>q. dl_id q = dl_id r) (take_lease now lease) t)) \<le> limit"
    proof
      fix c
      show "int (reserved_count c now (update_where (\<lambda>q. dl_id q = dl_id r) (take_lease now lease) t)) \<le> limit"
      proof (cases "c = dl_channel_id r")
        case True
        then show ?thesis
          using count_update_one [OF a(2), of "holds_capacity c now" "dl_id r" "take_lease now lease"] cap claim.prems(1)
          by (simp add: reserved_count_def at_capacity_def)
      next
        case False
        have "reserved_count c now (update_where (\<lambda>q. dl_id q = dl_id r) (take_lease now lease) t)
            \<le> reserved_count c now t"
          unfolding reserved_count_def
        proof (rule count_update_le)
          fix q assume "q \<in> set t" "holds_capacity c now (if dl_id q = dl_id r then take_lease now lease q else q)"
          then show "holds_capacity c now q"
            using False a(2,3) unique_row [of t q r]
            by (auto simp: holds_capacity_def channel_changed split: if_splits)
        qed
        with a(1) show ?thesis by (meson order_trans of_nat_mono)
      qed
    qed
  qed (use claim in \<open>auto simp: within_limit_def ledger_ids_def\<close>)
  with claim show ?case by (simp add: within_limit_def)
next
  case (finish oc now lease i t res t')
  have "reserved_count c now (update_where (\<lambda>r. dl_id r = i \<and> lease_matches (Some lease) r) (assign_outcome now oc) t)
    \<le> reserved_count c now t" for c
    unfolding reserved_count_def
  proof (rule count_update_le)
    fix q assume q: "q \<in> set t" "holds_capacity c now
      (if dl_id q = i \<and> lease_matches (Some lease) q then assign_outcome now oc q else q)"
    show "holds_capacity c now q"
    proof (cases "dl_id q = i \<and> lease_matches (Some lease) q")
      case True
      then have "dl_status q = ''sending''" "dl_next_attempt_at q = Some lease"
        by (auto simp: lease_matches_def)
      with q(2) True finish(2) show ?thesis
        by (auto simp: holds_capacity_def leased_def channel_changed)
    qed (use q(2) in auto)
  qed
  with finish show ?case
    using update_delivery_rows [of now i oc "Some lease" t res t']
    by (auto simp: within_limit_def intro: order_trans [OF of_nat_mono])
next
  case (set_aside oc i t r now res t')
  have "reserved_count c now (update_where (\<lambda>r. dl_id r = i \<and> lease_matches None r) (assign_outcome now oc) t)
    \<le> reserved_count c now t" for c
    unfolding reserved_count_def
    by (rule count_update_le)
       (use set_aside(1) in \<open>auto simp: holds_capacity_def leased_def assign_outcome_def split: if_splits\<close>)
  with set_aside show ?case
    using update_delivery_rows [of now i oc None t res t']
    by (auto simp: within_limit_def intro: order_trans [OF of_nat_mono])
next
  case (prune now w cap t rep t')
  obtain p where t': "t' = delete_where p t" using prune_rows_delete [OF prune(1)] by blast
  have "reserved_count c now t' \<le> reserved_count c now t" for c
    by (simp add: t' reserved_count_def count_where_delete_le)
  with prune show ?case
    by (auto simp: within_limit_def intro: order_trans [OF of_nat_mono])
qed

section \<open>Pruning is invisible\<close>

lemma filter_delete:
  "(\<And>r. r \<in> set t \<Longrightarrow> p r \<Longrightarrow> \<not> q r) \<Longrightarrow> filter p (delete_where q t) = filter p t"
  by (induction t) (auto simp: delete_where_def)

lemma prune_rows_eq:
  "prune_rows now w cap t =
     (let kept = delete_where (expired now w) t;
          over = count_where (\<lambda>r. dl_status r \<notin> set HISTORY_ACTIVE_STATUSES
                   \<and> dl_id r \<in> set (beyond_cap (max 1 cap) kept)) kept
      in (\<lparr>pr_deleted = length t - length kept, pr_by_retention = length t - length kept,
           pr_by_cap = 0, pr_over_cap_retained = over\<rparr>, kept))"
proof -
  have "delete_where (\<lambda>r. expired now w r \<and> p r) (delete_where (expired now w) t)
      = delete_where (expired now w) t" for p
    by (auto simp: delete_where_def intro!: filter_cong)
  then show ?thesis by (simp add: prune_rows_def Let_def)
qed

lemma expired_out_of_reach:
  assumes "expired now w r" "now \<le> now'" "horizon \<le> wd_protect w"
  shows "\<not> live_or_sent_since (Some (now' - of_int horizon)) r"
proof -
  have "occurred_at r < now - of_int (wd_protect w)" "dl_status r \<notin> {''queued'', ''sending''}"
    using assms(1) by (auto simp: expired_def prunable_def HISTORY_ACTIVE_STATUSES_def)
  moreover have "now - of_int (wd_protect w) \<le> now' - of_int horizon"
    using assms(2,3) by (simp add: diff_mono)
  ultimately show ?thesis
    by (auto simp: live_or_sent_since_def)
qed

lemma expired_no_capacity:
  assumes "expired now w r" "now \<le> now'" "3600 \<le> wd_protect w"
  shows "\<not> holds_capacity c now' r" "\<not> sent_since c (now' - 3600) r"
  using expired_out_of_reach [OF assms] assms(1)
  by (auto simp: holds_capacity_def live_or_sent_since_def leased_def sent_since_def)

lemma history_windows_protect:
  "history_windows s days = Inr w \<Longrightarrow> get s ''dedup_window_seconds'' = PInt n \<Longrightarrow>
   n \<le> wd_protect w \<and> 3600 \<le> wd_protect w"
  by (auto simp: history_windows_def result_simps Let_def RATE_LIMIT_WINDOW_SECONDS_def por_def
      split: if_splits)

lemma pruned_capacity:
  assumes "now \<le> now'" "3600 \<le> wd_protect w"
  shows "reserved_count c now' (delete_where (expired now w) t) = reserved_count c now' t"
    and "capacity_due_at c now' (delete_where (expired now w) t) = capacity_due_at c now' t"
proof -
  have "filter (holds_capacity c now') (delete_where (expired now w) t) = filter (holds_capacity c now') t"
    "filter (sent_since c (now' - 3600)) (delete_where (expired now w) t) = filter (sent_since c (now' - 3600)) t"
    using expired_no_capacity [OF _ assms] by (auto intro!: filter_delete)
  then show "reserved_count c now' (delete_where (expired now w) t) = reserved_count c now' t"
    "capacity_due_at c now' (delete_where (expired now w) t) = capacity_due_at c now' t"
    by (simp_all add: reserved_count_def count_where_def capacity_due_at_def oldest_sent_def)
qed

lemma pruned_duplicate:
  assumes "now \<le> now'" "window \<le> wd_protect w"
  shows "duplicate_of now' m window (delete_where (expired now w) t) = duplicate_of now' m window t"
  using expired_out_of_reach [OF _ assms]
  by (auto simp: duplicate_of_def list_ex_iff delete_where_def)

section \<open>Properties\<close>

lemma ledger_reach_inv:
  assumes "ledger_reach window limit s"
  shows "ledger_ids s \<and> (window \<noteq> 0 \<longrightarrow> once_per_occurrence window s) \<and> (0 < limit \<longrightarrow> within_limit limit s)"
  using assms
proof induction
  case (start now)
  then show ?case
    by (simp add: ledger_ids_def once_per_occurrence_def within_limit_def reserved_count_def)
next
  case (step s s')
  then show ?case using ledger_ids_step once_step within_step by blast
qed



text \<open>
  C33: Pruning takes no decision away from the pipeline: after a pruning pass under the stored settings
  every later reservation with their dedup window decides, and schedules, as it would have without
  the pass.
\<close>

theorem prune_invisible_to_reservations:
  assumes "settings_row settings = Inr s" "get s ''dedup_window_seconds'' = PInt window"
    and "prune_history now days cap settings t = (Inr rep, t')" "now \<le> now'"
  shows "reservation now' m window limit reason due lease t' = reservation now' m window limit reason due lease t"
proof -
  obtain w where w: "history_windows s days = Inr w" "t' = delete_where (expired now w) t"
    using assms(1,3) by (auto simp: prune_history_def prune_rows_eq Let_def split: sum.splits)
  then have "window \<le> wd_protect w" "3600 \<le> wd_protect w"
    using history_windows_protect [OF w(1) assms(2)] by auto
  then show ?thesis
    using assms(4) by (simp add: reservation_def w(2) pruned_capacity pruned_duplicate)
qed

definition sample_message :: message where
  "sample_message = \<lparr>ms_event_type = ''grabbed'', ms_channel_id = ''discord'', ms_occurrence_key = ''k'',
     ms_series_id = None, ms_issue_id = None, ms_subject = ''s'', ms_message = ''m''\<rparr>"

definition sample_rows :: "delivery list" where
  "sample_rows = [delivery_of sample_message ''a'' 100 ''sending'' None 1 5 None None (Some 130),
     delivery_of sample_message ''b'' 100 ''deduped'' None 1 5
       (Some ''already notified for this occurrence within the dedup window'') None None]"

lemmas decide_simps = reserve_new_delivery_def reservation_def duplicate_of_def reserved_count_def
  at_capacity_def lease_end_def insert_delivery_def delivery_of_def same_occurrence_def
  live_or_sent_since_def sample_message_def

lemma sample_ledger_reach: "ledger_reach 60 1 \<lparr>lg_now = 100, lg_rows = sample_rows\<rparr>"
proof -
  have a: "reserve_new_delivery 100 ''a'' sample_message 5 60 1 None None 30 []
      = (Inr (sample_rows ! 0), [sample_rows ! 0])"
    by (simp add: decide_simps sample_rows_def)
  have b: "reserve_new_delivery 100 ''b'' sample_message 5 60 1 None None 30 [sample_rows ! 0]
      = (Inr (sample_rows ! 1), sample_rows)"
    by (simp add: decide_simps sample_rows_def)
  show ?thesis
    by (rule ledger_reach.step [OF ledger_reach.step [OF ledger_reach.start]
          ledger_step.reserve [OF b]], rule ledger_step.reserve [OF a])
qed



definition old_row :: delivery where
  "old_row = delivery_of sample_message ''a'' (- 10000000) ''sent'' None 1 5 None (Some (- 10000000)) None"

lemma prune_invisible_to_reservations_witness:
  "reservation 10000 sample_message 86400 1 None None 30 []
     = reservation 10000 sample_message 86400 1 None None 30 [old_row]"
proof -
  have w: "history_windows default_settings None
      = Inr \<lparr>wd_record = 2592000, wd_suppression = 172800, wd_protect = 86400\<rparr>"
    by code_simp
  have s: "settings_row None = Inr default_settings"
    by (simp add: settings_row_def)
  have g: "get default_settings ''dedup_window_seconds'' = PInt 86400"
    by code_simp
  have "prune_history 0 None 50000 None [old_row]
    = (Inr \<lparr>pr_deleted = 1, pr_by_retention = 1, pr_by_cap = 0, pr_over_cap_retained = 0\<rparr>, [])"
    by (simp add: prune_history_def s w prune_rows_eq expired_def prunable_def retention_expired_def
        delete_where_def old_row_def delivery_of_def HISTORY_ACTIVE_STATUSES_def
        HISTORY_RECORD_STATUSES_def occurred_at_def beyond_cap_def)
  from prune_invisible_to_reservations [OF s g this] show ?thesis by simp
qed

section \<open>Leases\<close>

lemma claim_first_result:
  "claim_first now m l rs t = (Some r, t') \<Longrightarrow>
   \<exists>r0 \<in> set rs. dl_id r = dl_id r0 \<and> r \<in> set t' \<and> (\<exists>q. r = take_lease now l q)"
proof (induction rs arbitrary: t)
  case (Cons r0 rs)
  show ?case
  proof (cases "at_capacity m (count_where (\<lambda>q. dl_id q \<noteq> dl_id r0 \<and> holds_capacity (dl_channel_id r0) now q) t)")
    case True
    then show ?thesis using Cons.IH Cons.prems by (auto simp: Let_def)
  next
    case False
    then have "r \<in> set t' \<and> dl_id r = dl_id r0"
      "t' = update_where (\<lambda>q. dl_id q = dl_id r0) (take_lease now l) t"
      using Cons.prems by (auto simp: Let_def dest: find_delivery_in)
    then show ?thesis by (auto simp: in_update_where)
  qed
qed simp

lemma claim_result:
  assumes "claim_next_due_delivery now m l t = (Some r, t')"
  shows "\<exists>r0 \<in> set t. dl_id r = dl_id r0 \<and> claimable now r0"
    and "r \<in> set t'" and "\<exists>q. r = take_lease now l q"
  using claim_first_result [OF assms [unfolded claim_next_due_delivery_def]] set_take_subset by fastforce+

text \<open>
  A delivery that one dispatcher claimed is not handed to another while the lease runs: a claim
  before the end of the lease returns a different row.
\<close>

theorem claims_are_exclusive:
  assumes "distinct (map dl_id t)" "claim_next_due_delivery now m l t = (Some r, t1)"
    and "now' < lease_end now l" "claim_next_due_delivery now' m' l' t1 = (Some r', t2)"
  shows "dl_id r' \<noteq> dl_id r"
proof
  assume same: "dl_id r' = dl_id r"
  have d: "distinct (map dl_id t1)"
    using map_id_claim [OF assms(1), of now m l] assms(1,2) by simp
  obtain r0 where r0: "r0 \<in> set t1" "dl_id r' = dl_id r0" "claimable now' r0"
    using claim_result(1) [OF assms(4)] by blast
  then have "r0 = r"
    using unique_row [OF d] claim_result(2) [OF assms(2)] same by metis
  moreover have "leased now' r"
    using claim_result(3) [OF assms(2)] assms(3) by (auto simp: leased_def take_lease_def)
  ultimately show False
    using claimable_not_leased r0(3) by blast
qed

definition queued_rows :: "delivery list" where
  "queued_rows = [delivery_of sample_message ''a'' 1 ''queued'' (Some ''retry'') 1 5 None None (Some 50),
     delivery_of sample_message ''b'' 2 ''queued'' (Some ''retry'') 1 5 None None (Some 50)]"

lemma claims_are_exclusive_witness:
  "\<exists>r t1 r' t2. claim_next_due_delivery 60 20 30 queued_rows = (Some r, t1)
     \<and> claim_next_due_delivery 70 20 30 t1 = (Some r', t2) \<and> dl_id r' \<noteq> dl_id r"
proof -
  define r where "r = take_lease 60 30 (hd queued_rows)"
  define r' where "r' = take_lease 70 30 (queued_rows ! 1)"
  have d: "distinct (map dl_id queued_rows)" by code_simp
  have 1: "claim_next_due_delivery 60 20 30 queued_rows = (Some r, [r, queued_rows ! 1])"
    unfolding r_def by code_simp
  have 2: "claim_next_due_delivery 70 20 30 [r, queued_rows ! 1] = (Some r', [r, r'])"
    unfolding r_def r'_def by code_simp
  have "70 < lease_end 60 30" by code_simp
  from claims_are_exclusive [OF d 1 this 2] 1 2 show ?thesis by blast
qed

section \<open>Paging\<close>

lemma filter_below_desc:
  assumes "sorted_wrt (\<lambda>a b. k b < k a) xs" "n < length xs"
  shows "filter (\<lambda>x. k x < (k (xs ! n) :: 'k::linorder)) xs = drop (Suc n) xs"
proof -
  have "filter (\<lambda>x. k x < k (xs ! n)) (take (Suc n) xs) = []"
    using assms by (fastforce simp: filter_empty_conv in_set_conv_nth sorted_wrt_iff_nth_less less_Suc_eq)
  moreover have "filter (\<lambda>x. k x < k (xs ! n)) (drop (Suc n) xs) = drop (Suc n) xs"
    using assms by (fastforce simp: filter_id_conv in_set_conv_nth sorted_wrt_iff_nth_less)
  ultimately show ?thesis
    by (metis append_Nil append_take_drop_id filter_append)
qed

definition newest_key :: "delivery \<Rightarrow> rat \<times> string" where
  "newest_key r = (dl_created_at r, dl_id r)"

lemma newest_first_sorted:
  assumes "distinct (map dl_id t)"
  shows "sorted_wrt (\<lambda>a b. newest_key b < newest_key a) (newest_first t)"
proof -
  have "sorted (map newest_key (sort_key newest_key t))" by simp
  moreover have "distinct (map newest_key (sort_key newest_key t))"
    using assms by (auto simp: distinct_map inj_on_def newest_key_def)
  ultimately have "sorted_wrt (<) (map newest_key (sort_key newest_key t))"
    by (simp add: strict_sorted_iff)
  then show ?thesis
    by (simp add: newest_first_def sorted_wrt_rev sorted_wrt_map newest_key_def [abs_def])
qed

lemma newest_first_filter: "newest_first (filter p t) = filter p (newest_first t)"
  by (simp add: newest_first_def filter_sort [symmetric] rev_filter)

text \<open>
  Paging by the cursor of the last row shown loses and repeats nothing: the page after the row at
  position \<open>n\<close> of the whole filtered history consists of the rows from position \<open>n + 1\<close> on, even when
  several rows carry the same time stamp.
\<close>

theorem cursor_paging:
  assumes "distinct (map dl_id t)" "\<forall>r \<in> set t. dl_id r \<noteq> []"
    and "n < length (newest_first (filter (query_matches q) t))"
    and "r = newest_first (filter (query_matches q) t) ! n"
  shows "list_deliveries (q\<lparr>dq_before := Some (dl_created_at r), dq_before_id := Some (dl_id r)\<rparr>) t
    = take (page_limit (dq_limit q)) (drop (Suc n) (newest_first (filter (query_matches q) t)))"
proof -
  let ?f = "newest_first (filter (query_matches q) t)"
  let ?q = "q\<lparr>dq_before := Some (dl_created_at r), dq_before_id := Some (dl_id r)\<rparr>"
  have "r \<in> set t" using assms(3,4) nth_mem [OF assms(3)] by (simp add: newest_first_def)
  then have b: "before_cursor ?q x \<longleftrightarrow> newest_key x < newest_key r" for x
    using assms(2) by (auto simp: before_cursor_def newest_key_def less_prod_def)
  have "newest_first (filter (\<lambda>x. before_cursor ?q x \<and> query_matches ?q x) t)
      = filter (\<lambda>x. newest_key x < newest_key r) ?f"
    by (auto simp: newest_first_filter b query_matches_def intro!: filter_cong)
  also have "\<dots> = drop (Suc n) ?f"
    unfolding assms(4)
    by (rule filter_below_desc [OF newest_first_sorted assms(3)])
       (use assms(1) in \<open>simp add: distinct_map_filter\<close>)
  finally show ?thesis by (simp add: list_deliveries_def)
qed

lemma cursor_paging_witness:
  "list_deliveries \<lparr>dq_limit = 1, dq_before = Some 1, dq_before_id = Some ''b'', dq_event_type = None,
       dq_channel_id = None, dq_status = None\<rparr>
     [delivery_of sample_message ''a'' 1 ''queued'' None 0 5 None None None,
      delivery_of sample_message ''b'' 1 ''queued'' None 0 5 None None None]
   = [delivery_of sample_message ''a'' 1 ''queued'' None 0 5 None None None]"
proof -
  let ?a = "delivery_of sample_message ''a'' 1 ''queued'' None 0 5 None None None"
  let ?b = "delivery_of sample_message ''b'' 1 ''queued'' None 0 5 None None None"
  let ?q = "\<lparr>dq_limit = 1, dq_before = None, dq_before_id = None, dq_event_type = None,
       dq_channel_id = None, dq_status = None\<rparr>"
  have d: "distinct (map dl_id [?a, ?b])" "\<forall>r \<in> set [?a, ?b]. dl_id r \<noteq> []"
    by (simp_all add: delivery_of_def)
  have n: "newest_first (filter (query_matches ?q) [?a, ?b]) = [?b, ?a]"
    by code_simp
  have i: "dl_created_at ?b = 1" "dl_id ?b = ''b''" by (simp_all add: delivery_of_def)
  have p: "page_limit 1 = 1" by code_simp
  have "list_deliveries (?q\<lparr>dq_before := Some (dl_created_at ?b), dq_before_id := Some (dl_id ?b)\<rparr>) [?a, ?b] = [?a]"
    using cursor_paging [OF d, of 0 ?q ?b, unfolded n] by (simp add: p)
  then show ?thesis by (simp add: i)
qed

end
