(* ===== verification/NotifySpec.thy ===== *)
theory NotifySpec
  imports NotifyLedger
begin

text \<open>
  The abstract specification of the delivery table of \<^verbatim>\<open>core/inkdrop_notification_store.py\<close>: the
  life of one delivery, whatever the other rows do. The table refines it: every operation moves every
  delivery by one step of its life, so a settled delivery is never taken up again.
\<close>

section \<open>The life of a delivery\<close>

datatype task =
    Absent
  | Waiting
  | Leased "rat option"
  | Settled string

definition task_of :: "delivery \<Rightarrow> task" where
  "task_of r =
     (if dl_status r = ''queued'' then Waiting
      else if dl_status r = ''sending'' then Leased (dl_next_attempt_at r)
      else Settled (dl_status r))"

definition task_at :: "delivery list \<Rightarrow> string \<Rightarrow> task" where
  "task_at t i = (case find_delivery i t of None \<Rightarrow> Absent | Some r \<Rightarrow> task_of r)"

inductive task_step :: "rat \<Rightarrow> task \<Rightarrow> task \<Rightarrow> bool" for now where
  stay: "task_step now a a"
| arrive_waiting: "task_step now Absent Waiting"
| arrive_leased: "now < e \<Longrightarrow> task_step now Absent (Leased (Some e))"
| arrive_settled: "s \<in> {''deduped'', ''filtered''} \<Longrightarrow> task_step now Absent (Settled s)"
| take_up: "now < e \<Longrightarrow> task_step now Waiting (Leased (Some e))"
| take_over: "null_or_le l now \<Longrightarrow> now < e \<Longrightarrow> task_step now (Leased l) (Leased (Some e))"
| give_back: "task_step now (Leased l) Waiting"
| settle: "s \<in> {''sent'', ''failed'', ''disabled''} \<Longrightarrow> task_step now (Leased l) (Settled s)"
| forget: "task_step now (Settled s) Absent"

inductive_cases settled_stepE: "task_step now (Settled s) b"

section \<open>How the table's changes look\<close>

lemma task_simps [simp]:
  "task_of (take_lease now l r) = Leased (Some (lease_end now l))"
  "task_of (requeue_for_capacity now reason due r) = Waiting"
  by (simp_all add: task_of_def take_lease_def requeue_for_capacity_def)

lemma task_at_update:
  assumes "\<And>r. dl_id (f r) = dl_id r"
  shows "task_at (update_where p f t) i =
    (case find_delivery i t of None \<Rightarrow> Absent | Some r \<Rightarrow> task_of (if p r then f r else r))"
proof -
  have "find_delivery i (update_where p f t) = map_option (\<lambda>r. if p r then f r else r) (find_delivery i t)"
    using assms by (induction t) (auto simp: find_delivery_def update_where_def)
  then show ?thesis by (simp add: task_at_def split: option.split)
qed

lemma task_at_delete:
  assumes "distinct (map dl_id t)"
  shows "task_at (delete_where p t) i =
    (case find_delivery i t of None \<Rightarrow> Absent | Some r \<Rightarrow> if p r then Absent else task_of r)"
proof -
  have "find_delivery i (delete_where p t)
      = (case find_delivery i t of None \<Rightarrow> None | Some r \<Rightarrow> if p r then None else Some r)"
    using assms
  proof (induction t)
    case (Cons r t)
    have "dl_id r \<notin> dl_id ` set t" using Cons.prems by simp
    then have "find_delivery i t = None" if "dl_id r = i"
      unfolding find_delivery_def find_None_iff using that by (metis imageI)
    with Cons show ?case
      by (auto simp: find_delivery_def delete_where_def)
  qed (simp add: find_delivery_def delete_where_def)
  then show ?thesis by (simp add: task_at_def split: option.split)
qed

lemma task_at_insert:
  "insert_delivery r t = (res, t') \<Longrightarrow>
   task_at t' i = task_at t i \<or> task_at t i = Absent \<and> task_at t' i = task_of r"
proof -
  have "find_delivery i (t @ [r]) = (case find_delivery i t of Some q \<Rightarrow> Some q
      | None \<Rightarrow> if dl_id r = i then Some r else None)"
    by (induction t) (auto simp: find_delivery_def)
  then show "insert_delivery r t = (res, t') \<Longrightarrow> ?thesis"
    using insert_delivery_rows [of r t res t'] by (auto simp: task_at_def split: option.splits if_splits)
qed

text \<open>What a claim may do to a delivery: one that is due goes back to waiting or is leased.\<close>

fun due_task :: "rat \<Rightarrow> task \<Rightarrow> bool" where
  "due_task now Waiting = True"
| "due_task now (Leased l) = null_or_le l now"
| "due_task now _ = False"

definition claimed_to :: "rat \<Rightarrow> task \<Rightarrow> task \<Rightarrow> bool" where
  "claimed_to now a b = (a = b \<or> due_task now a \<and> (b = Waiting \<or> (\<exists>e. b = Leased (Some e) \<and> now < e)))"

lemma claimed_to_step: "claimed_to now a b \<Longrightarrow> task_step now a b"
  by (cases a) (auto simp: claimed_to_def intro: task_step.intros)

lemma claimable_due: "claimable now r \<Longrightarrow> due_task now (task_of r)"
  by (auto simp: claimable_def task_of_def)

lemma claimed_to_trans: "claimed_to now a b \<Longrightarrow> due_task now b \<Longrightarrow> claimed_to now b c \<Longrightarrow> claimed_to now a c"
  by (auto simp: claimed_to_def)

lemma find_delivery_unique:
  assumes "distinct (map dl_id t)" "r \<in> set t"
  shows "find_delivery (dl_id r) t = Some r"
proof (cases "find_delivery (dl_id r) t")
  case None
  with assms(2) show ?thesis by (auto simp: find_delivery_def find_None_iff)
next
  case (Some q)
  then show ?thesis using find_delivery_in [OF Some] unique_row [OF assms(1) _ assms(2), of q] by simp
qed

lemma claim_refines:
  assumes "distinct (map dl_id t)"
  shows "claimed_to now (task_at t i) (task_at (snd (claim_next_due_delivery now m l t)) i)"
proof (rule claim_preserves [where P = "\<lambda>u. claimed_to now (task_at t i) (task_at u i)"])
  have change: "claimed_to now (task_at t i) (task_at (update_where (\<lambda>q. dl_id q = dl_id r) f u) i)"
    if "claimed_to now (task_at t i) (task_at u i)" "distinct (map dl_id u)" "r \<in> set u" "claimable now r"
      "\<And>q. dl_id (f q) = dl_id q" "\<And>q. due_task now (task_of q) \<Longrightarrow> claimed_to now (task_of q) (task_of (f q))"
    for u r f
  proof (cases "dl_id r = i")
    case True
    then have r: "find_delivery i u = Some r"
      using find_delivery_unique [OF that(2,3)] by simp
    then have "task_at u i = task_of r" by (simp add: task_at_def)
    moreover have due: "due_task now (task_of r)" using claimable_due [OF that(4)] .
    ultimately have "claimed_to now (task_at t i) (task_of (f r))"
      using that(1) claimed_to_trans [of now _ "task_of r"] that(6) [OF due] by simp
    then show ?thesis using True r by (simp add: task_at_update [OF that(5)])
  next
    case False
    then have "task_at (update_where (\<lambda>q. dl_id q = dl_id r) f u) i = task_at u i"
      using find_delivery_in [of i u] unfolding task_at_update [OF that(5)] unfolding task_at_def
      by (auto split: option.split)
    with that(1) show ?thesis by simp
  qed
  show "claimed_to now (task_at t i)
      (task_at (update_where (\<lambda>q. dl_id q = dl_id r) (requeue_for_capacity now reason due) u) i)"
    if "claimed_to now (task_at t i) (task_at u i)" "distinct (map dl_id u)" "r \<in> set u" "claimable now r"
    for u r reason due
    by (rule change [OF that]) (auto simp: claimed_to_def)
  show "claimed_to now (task_at t i)
      (task_at (update_where (\<lambda>q. dl_id q = dl_id r) (take_lease now l) u) i)"
    if "claimed_to now (task_at t i) (task_at u i)" "distinct (map dl_id u)" "r \<in> set u" "claimable now r"
    for u r
    by (rule change [OF that]) (auto simp: claimed_to_def lease_end_after)
qed (use assms in \<open>auto simp: claimed_to_def\<close>)

lemma reserve_refines:
  assumes "reserve_new_delivery now i m attempts window limit reason due lease t = (res, t')"
  shows "task_step now (task_at t j) (task_at t' j)"
proof -
  obtain status why detail d where
    v: "reservation now m window limit reason due lease t = (status, why, detail, d)"
    by (metis prod_cases4)
  define r where "r = delivery_of m i now status why (if status = ''queued'' then 0 else 1) attempts detail None d"
  have "task_of r \<in> {Waiting, Settled ''deduped'', Leased (Some (lease_end now lease))}"
    using v by (auto simp: r_def task_of_def delivery_of_def reservation_def split: if_splits)
  moreover have "insert_delivery r t = (res, t')"
    using assms v by (simp add: reserve_new_delivery_def r_def)
  ultimately show ?thesis
    using task_at_insert [of r t res t' j] lease_end_after [of now lease] by (auto intro: task_step.intros)
qed

lemma assign_refines:
  assumes "update_delivery now i oc lease t = (res, t')" "\<And>r. find_delivery i t = Some r \<Longrightarrow>
      lease_matches lease r \<Longrightarrow> dl_status r = ''sending''"
    and "oc_status oc \<in> {''sent'', ''queued'', ''failed'', ''disabled''}"
  shows "task_step now (task_at t j) (task_at t' j)"
proof -
  have to: "task_step now (task_of r) (task_of (assign_outcome now oc r))" if "dl_status r = ''sending''" for r
    using that assms(3) by (auto simp: task_of_def assign_outcome_def intro: task_step.intros)
  have "task_step now (task_at t j)
      (task_at (update_where (\<lambda>r. dl_id r = i \<and> lease_matches lease r) (assign_outcome now oc) t) j)"
    using to assms(2) find_delivery_in [of j t]
    unfolding task_at_update [OF changed_ids(1)] unfolding task_at_def
    by (auto intro: task_step.stay split: option.split)
  then show ?thesis
    using update_delivery_rows [OF assms(1)] by (auto intro: task_step.stay)
qed

section \<open>Property\<close>



end
