(* ===== verification/NotifyWatch.thy ===== *)
theory NotifyWatch
  imports NotifySettings
begin

text \<open>
  The watch state of \<^verbatim>\<open>core/inkdrop_notification_store.py\<close>: one JSON object per key, in which
  the notification scanner keeps what it has already announced. A scanner takes a lease on one flag
  of an entry (\<open>claim_watch_flag\<close>), does its work, and then sets the flag (\<open>finish_watch_flag\<close>) or
  gives the lease back (\<open>release_watch_flag\<close>).

  The table is a dictionary from the key to the object and its time stamp; a call is one transaction.
\<close>

section \<open>Operations\<close>

type_synonym watch_table = "(string \<times> (pydict \<times> rat)) list"

definition WATCH_CLAIM_LEASE_SECONDS :: rat where
  "WATCH_CLAIM_LEASE_SECONDS = 300"

definition get_watch_state :: "string \<Rightarrow> watch_table \<Rightarrow> pydict" where
  "get_watch_state key t = (case dget t key of Some (v, _) \<Rightarrow> v | None \<Rightarrow> [])"

definition set_watch_state :: "rat \<Rightarrow> string \<Rightarrow> pydict \<Rightarrow> watch_table \<Rightarrow> watch_table" where
  "set_watch_state now key v t = dset key (v, now) t"

definition claim_field :: "string \<Rightarrow> string" where
  "claim_field flag = ''claim_until:'' @ flag"

definition coerce_ts :: "pyval \<Rightarrow> py_exn + flt" where
  "coerce_ts v = (case float_arg v of
      Inl OverflowError \<Rightarrow> Inl OverflowError
    | Inl _ \<Rightarrow> Inr (Fin 0)
    | Inr x \<Rightarrow> Inr x)"

datatype claim_result = Done | Busy | Claimed

definition claim_watch_flag ::
    "rat \<Rightarrow> string \<Rightarrow> string \<Rightarrow> rat \<Rightarrow> watch_table \<Rightarrow> (py_exn + claim_result) \<times> watch_table" where
  "claim_watch_flag now key flag lease_seconds t =
     (let current = get_watch_state key t in
      if truthy (get current flag) then (Inr Done, t)
      else case coerce_ts (get current (claim_field flag)) of
        Inl e \<Rightarrow> (Inl e, t)
      | Inr until \<Rightarrow>
          if flt_lt (Fin now) until then (Inr Busy, t)
          else (Inr Claimed, set_watch_state now key
                 (dset (claim_field flag) (PFloat (Fin (now + max 1 lease_seconds))) current) t))"

definition update_watch_claim ::
    "rat \<Rightarrow> string \<Rightarrow> string \<Rightarrow> bool \<Rightarrow> pydict \<Rightarrow> watch_table \<Rightarrow> pydict \<times> watch_table" where
  "update_watch_claim now key flag finished extra t =
     (let released = ddel (claim_field flag) (get_watch_state key t);
          flagged = (if finished then dset flag (PBool True) released else released);
          current = dupdate flagged extra
      in (current, set_watch_state now key current t))"

definition finish_watch_flag ::
    "rat \<Rightarrow> string \<Rightarrow> string \<Rightarrow> pydict \<Rightarrow> watch_table \<Rightarrow> pydict \<times> watch_table" where
  "finish_watch_flag now key flag extra t = update_watch_claim now key flag True extra t"

definition release_watch_flag :: "rat \<Rightarrow> string \<Rightarrow> string \<Rightarrow> watch_table \<Rightarrow> pydict \<times> watch_table" where
  "release_watch_flag now key flag t = update_watch_claim now key flag False [] t"

text \<open>\<open>key like pattern\<close>: \<open>%\<close> stands for any text, \<open>_\<close> for one character, ASCII letters match in
  either case.\<close>

fun sql_like :: "string \<Rightarrow> string \<Rightarrow> bool" where
  "sql_like [] s = (s = [])"
| "sql_like (p # ps) [] = (p = CHR ''%'' \<and> sql_like ps [])"
| "sql_like (p # ps) (c # cs) =
     (if p = CHR ''%'' then sql_like ps (c # cs) \<or> sql_like (p # ps) cs
      else (p = CHR ''_'' \<or> ascii_lower p = ascii_lower c) \<and> sql_like ps cs)"

definition prune_watch_state :: "rat \<Rightarrow> string \<Rightarrow> int \<Rightarrow> watch_table \<Rightarrow> nat \<times> watch_table" where
  "prune_watch_state now prefix older_than_seconds t =
     (let t' = delete_where (\<lambda>(key, _, updated). sql_like (prefix @ ''%'') key
                 \<and> updated < now - of_int (max 0 older_than_seconds)) t
      in (length t - length t', t'))"

definition delete_watch_state :: "string list \<Rightarrow> watch_table \<Rightarrow> nat \<times> watch_table" where
  "delete_watch_state keys t =
     (let ks = filter (\<lambda>k. k \<noteq> []) keys; t' = delete_where (\<lambda>(key, _). key \<in> set ks) t
      in (length t - length t', t'))"

section \<open>Runs of several scanners\<close>

text \<open>An operation of some scanner, with the time at which its transaction runs.\<close>

datatype watch_op =
    OpClaim rat string string rat
  | OpFinish rat string string pydict
  | OpRelease rat string string
  | OpSet rat string pydict
  | OpPrune rat string int
  | OpDelete "string list"

fun watch_exec :: "watch_op \<Rightarrow> watch_table \<Rightarrow> watch_table" where
  "watch_exec (OpClaim now key flag lease) t = snd (claim_watch_flag now key flag lease t)"
| "watch_exec (OpFinish now key flag extra) t = snd (finish_watch_flag now key flag extra t)"
| "watch_exec (OpRelease now key flag) t = snd (release_watch_flag now key flag t)"
| "watch_exec (OpSet now key v) t = set_watch_state now key v t"
| "watch_exec (OpPrune now prefix age) t = snd (prune_watch_state now prefix age t)"
| "watch_exec (OpDelete keys) t = snd (delete_watch_state keys t)"

text \<open>The operations that do not take the flag or its lease away: claims, of this flag too, and the
  other operations as long as they concern another entry or another flag. (A flag whose name is the
  lease field of another flag would be confused with it.)\<close>

fun leaves_flag :: "string \<Rightarrow> string \<Rightarrow> watch_op \<Rightarrow> bool" where
  "leaves_flag key flag (OpClaim _ k f _) = (k \<noteq> key \<or> claim_field f \<noteq> flag)"
| "leaves_flag key flag (OpFinish _ k f extra) =
     (k \<noteq> key \<or> (f \<notin> {flag, claim_field flag} \<and> claim_field f \<notin> {flag, claim_field flag}
        \<and> flag \<notin> set (dkeys extra) \<and> claim_field flag \<notin> set (dkeys extra)))"
| "leaves_flag key flag (OpRelease _ k f) =
     (k \<noteq> key \<or> (f \<noteq> flag \<and> claim_field f \<noteq> flag))"
| "leaves_flag key flag (OpSet _ k _) = (k \<noteq> key)"
| "leaves_flag key flag (OpPrune _ prefix _) = (\<not> sql_like (prefix @ ''%'') key)"
| "leaves_flag key flag (OpDelete keys) = (key \<notin> set keys)"

definition leased_until :: "rat \<Rightarrow> string \<Rightarrow> string \<Rightarrow> watch_table \<Rightarrow> bool" where
  "leased_until limit key flag t =
     (\<not> truthy (get (get_watch_state key t) flag)
      \<and> (\<exists>u. get (get_watch_state key t) (claim_field flag) = PFloat (Fin u) \<and> limit \<le> u))"

definition flagged :: "string \<Rightarrow> string \<Rightarrow> watch_table \<Rightarrow> bool" where
  "flagged key flag t = truthy (get (get_watch_state key t) flag)"

lemma claim_field_inj [simp]: "claim_field f = claim_field g \<longleftrightarrow> f = g"
  by (simp add: claim_field_def)

lemma claim_field_neq [simp]: "claim_field f \<noteq> f" "f \<noteq> claim_field f"
  by (auto simp: claim_field_def dest: arg_cong [of _ _ length])

lemma get_set_watch_state [simp]:
  "get_watch_state key (set_watch_state now k v t) = (if k = key then v else get_watch_state key t)"
  by (simp add: get_watch_state_def set_watch_state_def)

lemma dget_delete_where:
  "(\<And>v. \<not> p (k, v)) \<Longrightarrow> dget (delete_where p t) k = dget t k"
  by (induction t) (auto simp: delete_where_def)

lemma get_watch_delete [simp]:
  "(\<And>v. \<not> p (key, v)) \<Longrightarrow> get_watch_state key (delete_where p t) = get_watch_state key t"
  by (simp add: get_watch_state_def dget_delete_where)

lemma get_dupdate_frame: "k \<notin> set (dkeys n) \<Longrightarrow> get (dupdate m n) k = get m k"
  by (simp add: get_def dupdate_frame)

lemma claim_entry:
  assumes "claim_watch_flag now key flag lease t = (res, t')"
  shows "t' = t \<or> (t' = set_watch_state now key (dset (claim_field flag)
       (PFloat (Fin (now + max 1 lease))) (get_watch_state key t)) t
     \<and> \<not> truthy (get (get_watch_state key t) flag)
     \<and> (\<exists>u. coerce_ts (get (get_watch_state key t) (claim_field flag)) = Inr u \<and> \<not> flt_lt (Fin now) u))"
  using assms by (auto simp: claim_watch_flag_def Let_def split: if_splits sum.splits)

text \<open>A step that leaves the flag alone keeps a lease at least as long, and a set flag set.\<close>

lemma leases_last:
  assumes "leased_until limit key flag t" "leaves_flag key flag op"
  shows "leased_until limit key flag (watch_exec op t)"
proof (cases op)
  case (OpClaim now k f lease)
  obtain res t' where c: "claim_watch_flag now k f lease t = (res, t')" by fastforce
  show ?thesis
    using claim_entry [OF c] c assms OpClaim
    by (cases "k = key"; cases "f = flag") (auto simp: leased_until_def coerce_ts_def intro: order_trans)
next
  case (OpFinish now k f extra)
  then show ?thesis
    using assms(1,2)
    by (auto simp: leased_until_def finish_watch_flag_def update_watch_claim_def Let_def get_dupdate_frame)
next
  case (OpRelease now k f)
  then show ?thesis
    using assms(1,2)
    by (auto simp: leased_until_def release_watch_flag_def update_watch_claim_def Let_def dupdate_def)
qed (use assms(1,2) in \<open>auto simp: leased_until_def prune_watch_state_def delete_watch_state_def Let_def\<close>)

lemma flags_last:
  assumes "flagged key flag t" "leaves_flag key flag op"
  shows "flagged key flag (watch_exec op t)"
proof (cases op)
  case (OpClaim now k f lease)
  obtain res t' where c: "claim_watch_flag now k f lease t = (res, t')" by fastforce
  then show ?thesis
    using claim_entry [OF c] assms OpClaim by (auto simp: flagged_def)
next
  case (OpFinish now k f extra)
  then show ?thesis
    using assms(1,2)
    by (auto simp: flagged_def finish_watch_flag_def update_watch_claim_def Let_def get_dupdate_frame)
next
  case (OpRelease now k f)
  then show ?thesis
    using assms(1,2)
    by (auto simp: flagged_def release_watch_flag_def update_watch_claim_def Let_def dupdate_def)
qed (use assms(1,2) in \<open>auto simp: flagged_def prune_watch_state_def delete_watch_state_def Let_def\<close>)
text \<open>Giving the lease back leaves the flag claimable.\<close>

lemma released_flag_claimable:
  "\<not> truthy (get (get_watch_state key t) flag) \<Longrightarrow> 0 \<le> now' \<Longrightarrow>
   fst (claim_watch_flag now' key flag lease (snd (release_watch_flag now key flag t))) = Inr Claimed"
  by (simp add: release_watch_flag_def update_watch_claim_def claim_watch_flag_def Let_def dupdate_def
      coerce_ts_def)

section \<open>Properties\<close>

definition watch_run :: "watch_op list \<Rightarrow> watch_table \<Rightarrow> watch_table" where
  "watch_run ops t = fold watch_exec ops t"

lemma leases_last_run:
  "leased_until limit key flag t \<Longrightarrow> list_all (leaves_flag key flag) ops
   \<Longrightarrow> leased_until limit key flag (watch_run ops t)"
  unfolding watch_run_def by (induction ops arbitrary: t) (auto intro: leases_last)

lemma flags_last_run:
  "flagged key flag t \<Longrightarrow> list_all (leaves_flag key flag) ops \<Longrightarrow> flagged key flag (watch_run ops t)"
  unfolding watch_run_def by (induction ops arbitrary: t) (auto intro: flags_last)

text \<open>
  A scanner that was told \<open>Claimed\<close> has the flag to itself for the whole lease: whatever other
  scanners do in between, short of finishing, releasing or deleting that very entry, every claim
  before the lease ends is told \<open>Busy\<close>.
\<close>

theorem watch_lease_exclusive:
  assumes "claim_watch_flag now key flag lease t = (Inr Claimed, t')"
    and "list_all (leaves_flag key flag) ops" "now' < now + max 1 lease"
  shows "claim_watch_flag now' key flag lease' (watch_run ops t') = (Inr Busy, watch_run ops t')"
proof -
  have "leased_until (now + max 1 lease) key flag t'"
    using assms(1) by (auto simp: claim_watch_flag_def leased_until_def Let_def split: if_splits sum.splits)
  then have "leased_until (now + max 1 lease) key flag (watch_run ops t')"
    using assms(2) by (rule leases_last_run)
  then show ?thesis
    using assms(3) by (auto simp: leased_until_def claim_watch_flag_def coerce_ts_def)
qed

lemma watch_lease_exclusive_witness:
  "claim_watch_flag 250 ''k'' ''sent'' 300
     (watch_run [OpClaim 120 ''k'' ''sent'' 300, OpFinish 130 ''other'' ''sent'' []]
       (snd (claim_watch_flag 100 ''k'' ''sent'' 300 [])))
   = (Inr Busy, [(''k'', [(''claim_until:sent'', PFloat (Fin 400))], 100),
                 (''other'', [(''sent'', PBool True)], 130)])"
proof -
  have c: "claim_watch_flag 100 ''k'' ''sent'' 300 []
      = (Inr Claimed, [(''k'', [(''claim_until:sent'', PFloat (Fin 400))], 100)])"
    by (simp add: claim_watch_flag_def get_watch_state_def coerce_ts_def set_watch_state_def claim_field_def)
  have l: "list_all (leaves_flag ''k'' ''sent'') [OpClaim 120 ''k'' ''sent'' 300, OpFinish 130 ''other'' ''sent'' []]"
    by simp
  have r: "watch_run [OpClaim 120 ''k'' ''sent'' 300, OpFinish 130 ''other'' ''sent'' []]
      [(''k'', [(''claim_until:sent'', PFloat (Fin 400))], 100)]
    = [(''k'', [(''claim_until:sent'', PFloat (Fin 400))], 100), (''other'', [(''sent'', PBool True)], 130)]"
    by (simp add: watch_run_def claim_watch_flag_def get_watch_state_def coerce_ts_def set_watch_state_def
        claim_field_def finish_watch_flag_def update_watch_claim_def dupdate_def Let_def)
  show ?thesis
    using watch_lease_exclusive [OF c l, of 250 300] by (simp add: c r)
qed

text \<open>
  An outcome is acknowledged for good: after \<open>finish_watch_flag\<close> every later claim of the flag is
  told \<open>Done\<close> and changes nothing, whatever leaves that entry's flag alone happens in between.
\<close>

theorem finished_flag_stays_done:
  assumes "list_all (leaves_flag key flag) ops" "flag \<notin> set (dkeys extra)"
  shows "claim_watch_flag now' key flag lease (watch_run ops (snd (finish_watch_flag now key flag extra t)))
      = (Inr Done, watch_run ops (snd (finish_watch_flag now key flag extra t)))"
proof -
  have "flagged key flag (snd (finish_watch_flag now key flag extra t))"
    using assms(2) by (simp add: flagged_def finish_watch_flag_def update_watch_claim_def Let_def get_dupdate_frame)
  then have "flagged key flag (watch_run ops (snd (finish_watch_flag now key flag extra t)))"
    using assms(1) by (rule flags_last_run)
  then show ?thesis
    by (simp add: flagged_def claim_watch_flag_def)
qed

lemma finished_flag_stays_done_witness:
  "fst (claim_watch_flag 500 ''k'' ''sent'' 300
     (watch_run [OpClaim 120 ''k'' ''sent'' 300] (snd (finish_watch_flag 110 ''k'' ''sent'' [] [])))) = Inr Done"
  using finished_flag_stays_done [where key = "''k''" and flag = "''sent''" and extra = "[]"
      and ops = "[OpClaim 120 ''k'' ''sent'' 300]"]
  by simp

end
