(* ===== verification/BoundedRead.thy ===== *)
theory BoundedRead
  imports Py
begin

text \<open>
  Reading an external HTTP body under a size bound: \<^verbatim>\<open>core/inkdrop_bounded_read.py\<close>.

  A response is what the two transports offer: the header lookup, the declared encoding, the body
  already buffered, and a stream of chunks. A stream may be endless, so it is a function from the
  position to the chunk and the reading loop is a \<open>partial_function\<close>: \<open>None\<close> is a loop that does not
  end. Decoding bytes and parsing JSON are parameters.
\<close>

section \<open>Responses\<close>

text \<open>\<open>Iter\<close> is \<open>iter_content(chunk_size)\<close>, \<open>None\<close> the end of the iteration; \<open>Reads\<close> is the
  sequence of answers of \<open>read(chunk_bytes)\<close>.\<close>

datatype body_stream =
    Iter "int \<Rightarrow> nat \<Rightarrow> string option"
  | Reads "int \<Rightarrow> nat \<Rightarrow> string"
  | NoStream

record response =
  rs_header :: "(string \<Rightarrow> string option) option"
  rs_encoding :: "string option"
  rs_content :: "string option"
  rs_stream :: body_stream

datatype read_error =
    ResponseTooLarge string
  | LookupError string
  | JSONDecodeError

definition DEFAULT_CHUNK_BYTES :: int where
  "DEFAULT_CHUNK_BYTES = 64 * 1024"

definition NOTIFICATION_RESPONSE_MAX_BYTES :: int where
  "NOTIFICATION_RESPONSE_MAX_BYTES = 1024 * 1024"

definition header :: "response \<Rightarrow> string \<Rightarrow> string option" where
  "header r name = (case rs_header r of None \<Rightarrow> None | Some look \<Rightarrow> look name)"

definition declared_length :: "response \<Rightarrow> int" where
  "declared_length r =
     (case header r ''Content-Length'' of
        None \<Rightarrow> 0
      | Some raw \<Rightarrow> if raw = [] then 0 else (case parse_int raw of Some n \<Rightarrow> n | None \<Rightarrow> 0))"

definition too_large :: "string \<Rightarrow> int \<Rightarrow> read_error" where
  "too_large label max_bytes =
     ResponseTooLarge (label @ '' response exceeded the '' @ int_str max_bytes @ '' byte bound'')"

definition stream_chunks :: "response \<Rightarrow> int \<Rightarrow> (nat \<Rightarrow> string option) option" where
  "stream_chunks r chunk_bytes =
     (case rs_stream r of
        Iter next \<Rightarrow> Some (next chunk_bytes)
      | Reads read \<Rightarrow> Some (\<lambda>i. if list_ex (\<lambda>j. read chunk_bytes j = []) [0..<Suc i] then None
                               else Some (read chunk_bytes i))
      | NoStream \<Rightarrow> None)"

section \<open>The reading loop\<close>

text \<open>The second component of the result is the number of chunks that were pulled.\<close>

partial_function (option) accumulate ::
    "read_error \<Rightarrow> int \<Rightarrow> (nat \<Rightarrow> string option) \<Rightarrow> nat \<Rightarrow> string \<Rightarrow> ((read_error + string) \<times> nat) option"
where
  "accumulate e max_bytes chunks i body =
     (case chunks i of
        None \<Rightarrow> Some (Inr body, i)
      | Some chunk \<Rightarrow>
          if chunk = [] then accumulate e max_bytes chunks (Suc i) body
          else if int (length (body @ chunk)) > max_bytes then Some (Inl e, Suc i)
          else accumulate e max_bytes chunks (Suc i) (body @ chunk))"

declare accumulate.simps [code]

definition bounded_read_pulled ::
    "response \<Rightarrow> int \<Rightarrow> string \<Rightarrow> int \<Rightarrow> ((read_error + string) \<times> nat) option" where
  "bounded_read_pulled r max_bytes label chunk_bytes =
     (if declared_length r > max_bytes then Some (Inl (too_large label max_bytes), 0)
      else case stream_chunks r (max 1 chunk_bytes) of
        None \<Rightarrow>
          (let buffered = (case rs_content r of Some b \<Rightarrow> b | None \<Rightarrow> []) in
           if int (length buffered) > max_bytes then Some (Inl (too_large label max_bytes), 0)
           else Some (Inr buffered, 0))
      | Some chunks \<Rightarrow> accumulate (too_large label max_bytes) max_bytes chunks 0 [])"

definition bounded_read_bytes ::
    "response \<Rightarrow> int \<Rightarrow> string \<Rightarrow> int \<Rightarrow> (read_error + string) option" where
  "bounded_read_bytes r max_bytes label chunk_bytes =
     map_option fst (bounded_read_pulled r max_bytes label chunk_bytes)"

section \<open>Text and JSON\<close>

definition is_quote :: "char \<Rightarrow> bool" where
  "is_quote c = (c = CHR 0x22 \<or> c = CHR 0x27)"

fun charset_of :: "string list \<Rightarrow> string option" where
  "charset_of [] = None"
| "charset_of (part # parts) =
     (let p = strip part;
          charset = strip_of is_quote (strip (drop 8 p)) in
      if starts_with (lower p) ''charset='' \<and> charset \<noteq> [] then Some charset
      else charset_of parts)"

definition response_encoding :: "response \<Rightarrow> string \<Rightarrow> string" where
  "response_encoding r fallback =
     (case rs_encoding r of
        Some (c # cs) \<Rightarrow> c # cs
      | _ \<Rightarrow>
          (case charset_of (split_on CHR '';'' (case header r ''Content-Type'' of Some t \<Rightarrow> t | None \<Rightarrow> [])) of
             Some charset \<Rightarrow> charset
           | None \<Rightarrow> fallback))"

text \<open>\<open>decode encoding errors bytes\<close> is \<open>bytes.decode\<close>; an encoding it does not know raises.\<close>

definition bounded_read_text ::
    "(string \<Rightarrow> string \<Rightarrow> string \<Rightarrow> read_error + string) \<Rightarrow> response \<Rightarrow> int \<Rightarrow> string \<Rightarrow> int \<Rightarrow>
     string option \<Rightarrow> string \<Rightarrow> (read_error + string) option" where
  "bounded_read_text decode r max_bytes label chunk_bytes encoding errors =
     map_option (\<lambda>res. bindE res (decode
        (case encoding of Some (c # cs) \<Rightarrow> c # cs | _ \<Rightarrow> response_encoding r ''utf-8'') errors))
       (bounded_read_bytes r max_bytes label chunk_bytes)"

definition bounded_read_json ::
    "(string \<Rightarrow> string \<Rightarrow> string \<Rightarrow> read_error + string) \<Rightarrow> (string \<Rightarrow> read_error + pyval) \<Rightarrow>
     response \<Rightarrow> int \<Rightarrow> string \<Rightarrow> int \<Rightarrow> pyval \<Rightarrow> (read_error + pyval) option" where
  "bounded_read_json decode loads r max_bytes label chunk_bytes fallback =
     map_option (\<lambda>res. bindE res (\<lambda>t. let text = strip t in if text = [] then Inr fallback else loads text))
       (bounded_read_text decode r max_bytes label chunk_bytes None ''replace'')"

section \<open>The loop ends and keeps the bound\<close>

text \<open>The bytes of the first \<open>n\<close> chunks.\<close>

fun pulled_bytes :: "(nat \<Rightarrow> string option) \<Rightarrow> nat \<Rightarrow> string" where
  "pulled_bytes chunks 0 = []"
| "pulled_bytes chunks (Suc n) = pulled_bytes chunks n @ (case chunks n of Some c \<Rightarrow> c | None \<Rightarrow> [])"

definition outcome_ok ::
    "read_error \<Rightarrow> int \<Rightarrow> (nat \<Rightarrow> string option) \<Rightarrow> (read_error + string) \<times> nat \<Rightarrow> bool" where
  "outcome_ok e m chunks res =
     (case res of
        (Inr body, n) \<Rightarrow> chunks n = None \<and> body = pulled_bytes chunks n \<and> (n > 0 \<longrightarrow> body = [] \<or> int (length body) \<le> m)
      | (Inl e', n) \<Rightarrow> e' = e \<and> 0 < n \<and> m < int (length (pulled_bytes chunks n))
          \<and> (pulled_bytes chunks (n - 1) = [] \<or> int (length (pulled_bytes chunks (n - 1))) \<le> m))"

lemma accumulate_ok:
  assumes "accumulate e m chunks i body = Some res" "body = pulled_bytes chunks i"
    and "body = [] \<or> int (length body) \<le> m"
  shows "outcome_ok e m chunks res"
proof -
  have "body = pulled_bytes chunks i \<longrightarrow> (body = [] \<or> int (length body) \<le> m) \<longrightarrow> outcome_ok e m chunks res"
  proof (rule accumulate.raw_induct [OF _ assms(1), where P = "\<lambda>e m chunks i body res.
      body = pulled_bytes chunks i \<longrightarrow> (body = [] \<or> int (length body) \<le> m) \<longrightarrow> outcome_ok e m chunks res"])
    fix acc :: "read_error \<Rightarrow> int \<Rightarrow> (nat \<Rightarrow> string option) \<Rightarrow> nat \<Rightarrow> string \<Rightarrow> ((read_error + string) \<times> nat) option"
      and e m chunks i body res
    assume ih: "\<And>e m chunks i body res. acc e m chunks i body = Some res \<Longrightarrow>
        body = pulled_bytes chunks i \<longrightarrow> (body = [] \<or> int (length body) \<le> m) \<longrightarrow> outcome_ok e m chunks res"
      and b: "(case chunks i of None \<Rightarrow> Some (Inr body, i)
        | Some chunk \<Rightarrow> if chunk = [] then acc e m chunks (Suc i) body
            else if int (length (body @ chunk)) > m then Some (Inl e, Suc i)
            else acc e m chunks (Suc i) (body @ chunk)) = Some res"
    show "body = pulled_bytes chunks i \<longrightarrow> (body = [] \<or> int (length body) \<le> m) \<longrightarrow> outcome_ok e m chunks res"
    proof (cases "chunks i")
      case None
      then show ?thesis using b by (auto simp: outcome_ok_def)
    next
      case (Some chunk)
      then show ?thesis
        using b ih [of e m chunks "Suc i" "body @ chunk" res] ih [of e m chunks "Suc i" body res]
        by (auto simp: outcome_ok_def split: if_splits)
    qed
  qed
  with assms(2,3) show ?thesis by blast
qed

lemma accumulate_finite:
  "chunks (i + n) = None \<Longrightarrow> \<exists>res. accumulate e m chunks i body = Some res"
proof (induction n arbitrary: i body)
  case 0
  then show ?case by (subst accumulate.simps) simp
next
  case (Suc n)
  then show ?case by (subst accumulate.simps) (auto split: option.splits)
qed

text \<open>Every non-empty chunk brings the loop nearer to the bound, so it ends on an endless stream.\<close>

lemma accumulate_endless:
  assumes "\<forall>j. \<exists>c. chunks j = Some c \<and> c \<noteq> []" "int (length body) \<le> m"
  shows "\<exists>n \<le> i + nat (m - int (length body)) + 1. accumulate e m chunks i body = Some (Inl e, n)"
  using assms(2)
proof (induction "nat (m - int (length body))" arbitrary: i body rule: less_induct)
  case less
  obtain c where c: "chunks i = Some c" "c \<noteq> []" using assms(1) by blast
  show ?case
  proof (cases "int (length (body @ c)) > m")
    case True
    then show ?thesis using c by (subst accumulate.simps) auto
  next
    case False
    have pos: "0 < length c" using c(2) by simp
    have "nat (m - int (length (body @ c))) < nat (m - int (length body))"
      using False pos unfolding length_append by linarith
    then obtain n where n: "n \<le> Suc i + nat (m - int (length (body @ c))) + 1"
        "accumulate e m chunks (Suc i) (body @ c) = Some (Inl e, n)"
      using less(1) [of "body @ c" "Suc i"] False by auto
    have "n \<le> i + nat (m - int (length body)) + 1"
      using n(1) False pos unfolding length_append by linarith
    moreover have "accumulate e m chunks i body = Some (Inl e, n)"
      using c False n(2) by (subst accumulate.simps) simp
    ultimately show ?thesis by blast
  qed
qed

section \<open>Properties\<close>

text \<open>
  The bound is enforced while the body arrives. A body that is returned is never longer than the
  bound and is exactly what the stream delivered; when the read is refused, everything pulled before
  the last chunk was still within the bound.
\<close>

theorem bounded_read_bound:
  assumes "bounded_read_pulled r max_bytes label chunk_bytes = Some (res, n)"
    and "stream_chunks r (max 1 chunk_bytes) = Some chunks" "0 \<le> max_bytes"
  shows "case res of
      Inr body \<Rightarrow> int (length body) \<le> max_bytes \<and> body = pulled_bytes chunks n \<and> chunks n = None
    | Inl e \<Rightarrow> e = too_large label max_bytes \<and> int (length (pulled_bytes chunks (n - 1))) \<le> max_bytes
        \<and> (declared_length r > max_bytes \<or> int (length (pulled_bytes chunks n)) > max_bytes)"
proof (cases "declared_length r > max_bytes")
  case True
  then show ?thesis using assms by (auto simp: bounded_read_pulled_def)
next
  case False
  then have "accumulate (too_large label max_bytes) max_bytes chunks 0 [] = Some (res, n)"
    using assms(1,2) by (simp add: bounded_read_pulled_def)
  then have "outcome_ok (too_large label max_bytes) max_bytes chunks (res, n)"
    by (rule accumulate_ok) simp_all
  then show ?thesis
    using assms(3) by (cases res) (auto simp: outcome_ok_def)
qed

lemma bounded_read_bound_witness:
  "int (length (pulled_bytes (\<lambda>i. Some ''ab'') 1)) \<le> 3"
proof -
  let ?r = "\<lparr>rs_header = None, rs_encoding = None, rs_content = None, rs_stream = Iter (\<lambda>_ i. Some ''ab'')\<rparr>"
  have "bounded_read_pulled ?r 3 ''x'' 1 = Some (Inl (too_large ''x'' 3), 2)"
    by (simp add: bounded_read_pulled_def declared_length_def header_def stream_chunks_def accumulate.simps)
  from bounded_read_bound [OF this] show ?thesis by (simp add: stream_chunks_def)
qed

text \<open>
  C32: The read returns: on a stream that ends, and on an endless stream of non-empty chunks too, where
  it refuses after at most \<open>max_bytes + 1\<close> chunks.
\<close>

theorem bounded_read_returns:
  assumes "0 \<le> max_bytes" "stream_chunks r (max 1 chunk_bytes) = Some chunks"
    and "(\<exists>n. chunks n = None) \<or> (\<forall>j. \<exists>c. chunks j = Some c \<and> c \<noteq> [])"
  shows "\<exists>res n. bounded_read_pulled r max_bytes label chunk_bytes = Some (res, n)
    \<and> ((\<forall>j. \<exists>c. chunks j = Some c \<and> c \<noteq> []) \<longrightarrow>
         res = Inl (too_large label max_bytes) \<and> n \<le> nat max_bytes + 1)"
proof (cases "declared_length r > max_bytes")
  case True
  then show ?thesis by (simp add: bounded_read_pulled_def)
next
  case False
  then have p: "bounded_read_pulled r max_bytes label chunk_bytes
      = accumulate (too_large label max_bytes) max_bytes chunks 0 []"
    using assms(2) by (simp add: bounded_read_pulled_def)
  show ?thesis
  proof (cases "\<forall>j. \<exists>c. chunks j = Some c \<and> c \<noteq> []")
    case True
    with accumulate_endless [OF True, of "[]" max_bytes 0] assms(1) p show ?thesis by auto
  next
    case False
    then obtain n where "chunks (0 + n) = None" using assms(3) by auto
    then have "\<exists>res. accumulate (too_large label max_bytes) max_bytes chunks 0 [] = Some res"
      by (rule accumulate_finite)
    with p False show ?thesis by (metis surj_pair)
  qed
qed

lemma bounded_read_returns_witness:
  "\<exists>res n. bounded_read_pulled \<lparr>rs_header = None, rs_encoding = None, rs_content = None,
      rs_stream = Iter (\<lambda>_ i. Some ''ab'')\<rparr> 3 ''x'' 1 = Some (res, n) \<and> n \<le> 4"
  using bounded_read_returns [of 3 "\<lparr>rs_header = None, rs_encoding = None, rs_content = None,
      rs_stream = Iter (\<lambda>_ i. Some ''ab'')\<rparr>" 1 "\<lambda>i. Some ''ab''" "''x''"]
  by (auto simp: stream_chunks_def)

end
