(* ===== verification/Labels.thy ===== *)
theory Labels
  imports Py
begin

text \<open>
  Display labels, \<^verbatim>\<open>core/inkdrop_display_labels.py\<close>, and the test for a path of
  \<^verbatim>\<open>core/inkdrop_import_evidence.py\<close>: a machine key is dressed up, operator data is returned as
  it came in.
\<close>

section \<open>Keys and free text\<close>

definition looks_like_path :: "string \<Rightarrow> bool" where
  "looks_like_path value =
     (let t = strip value in t \<noteq> [] \<and> (CHR ''/'' \<in> set t \<or> CHR 0x5C \<in> set t))"

definition key_char :: "char \<Rightarrow> bool" where
  "key_char c = ((97 \<le> code c \<and> code c \<le> 122) \<or> is_digit c)"

text \<open>\<open>[a-z0-9]+(?:[_-][a-z0-9]+)*\<close>: the flag tells whether a key character may not be missing.\<close>

fun enum_key :: "bool \<Rightarrow> string \<Rightarrow> bool" where
  "enum_key seen [] = seen"
| "enum_key seen (c # cs) =
     (if key_char c then enum_key True cs
      else (c = CHR ''_'' \<or> c = CHR ''-'') \<and> seen \<and> enum_key False cs)"

definition looks_like_free_text :: "string \<Rightarrow> bool" where
  "looks_like_free_text value =
     (let t = strip value in t \<noteq> [] \<and> (looks_like_path t \<or> \<not> enum_key False t))"

section \<open>Labels\<close>

datatype label_style = TitleStyle | SentenceStyle

definition is_letter :: "char \<Rightarrow> bool" where
  "is_letter c = ((65 \<le> code c \<and> code c \<le> 90) \<or> (97 \<le> code c \<and> code c \<le> 122))"

text \<open>\<open>str.title\<close> on ASCII text.\<close>

fun title_word :: "bool \<Rightarrow> string \<Rightarrow> string" where
  "title_word inside [] = []"
| "title_word inside (c # cs) =
     (if inside then [lower_char c] else upper_char c) @ title_word (is_letter c) cs"

definition split_key :: "string \<Rightarrow> string list" where
  "split_key text = filter (\<lambda>w. w \<noteq> [])
     (split_on CHR '' '' (map (\<lambda>c. if c = CHR ''_'' \<or> c = CHR ''-'' then CHR '' '' else c) (lower text)))"

definition display_label ::
    "string \<Rightarrow> (string \<times> string) list \<Rightarrow> string list \<Rightarrow> label_style \<Rightarrow> string \<Rightarrow> string \<Rightarrow> string" where
  "display_label raw labels acronyms style fallback suffix =
     (let text = strip raw in
      if text = [] then fallback
      else case dget labels (lower text) of
        Some (c # cs) \<Rightarrow> c # cs
      | _ \<Rightarrow>
        if looks_like_free_text text then raw
        else let words = split_key text in
          if words = [] then raw
          else if style = SentenceStyle then
            (let s = join '' '' words in upper (take 1 s) @ drop 1 s @ suffix)
          else join '' '' (map (\<lambda>w. if w \<in> lower ` set acronyms then upper w else title_word False w) words)
               @ suffix)"

section \<open>Operator data is never rewritten\<close>

lemma enum_key_chars: "enum_key b s \<Longrightarrow> c \<in> set s \<Longrightarrow> key_char c \<or> c = CHR ''_'' \<or> c = CHR ''-''"
  by (induction b s rule: enum_key.induct) (auto split: if_splits)

lemma free_text_iff:
  "looks_like_free_text s \<longleftrightarrow> strip s \<noteq> [] \<and> \<not> enum_key False (strip s)"
proof -
  have "\<not> looks_like_path t" if "enum_key False t" "strip t = t" for t
    using enum_key_chars [OF that(1)] that(2)
    by (force simp: looks_like_path_def key_char_def is_digit_def code_def)
  then show ?thesis by (auto simp: looks_like_free_text_def Let_def)
qed

text \<open>
  A value that is not a machine key, such as a path, a release name with a capital letter or a
  sentence, comes back exactly as it went in unless the vocabulary names it.
\<close>

theorem label_keeps_free_text:
  assumes "c \<in> set (strip s)" "\<not> key_char c" "c \<noteq> CHR ''_''" "c \<noteq> CHR ''-''"
    and "dget labels (lower (strip s)) = None"
  shows "display_label s labels acronyms style fallback suffix = s"
proof -
  have "\<not> enum_key False (strip s)" using enum_key_chars assms(1-4) by blast
  moreover have "strip s \<noteq> []" using assms(1) by auto
  ultimately show ?thesis
    using assms(5) by (simp add: display_label_def free_text_iff Let_def)
qed

lemma label_keeps_free_text_witness:
  "display_label ''/media/Vol01.cbz'' [] [''nzb''] TitleStyle [] [] = ''/media/Vol01.cbz''"
  by (rule label_keeps_free_text [of "CHR ''/''"]) code_simp+

end
