(* ===== verification/NotifyConnect.thy ===== *)
theory NotifyConnect
  imports NotifySettings BoundedRead Labels
begin

text \<open>
  The connectors: the configured instances of \<^verbatim>\<open>core/inkdrop_notification_store.py\<close> and the
  providers, the switch and the views of \<^verbatim>\<open>core/inkdrop_notifications.py\<close>.

  The connector table is the list of its rows, a JSON column the value it encodes. The network is
  the record \<open>http\<close>: what a POST answers, how bytes are decoded and JSON parsed, the process
  environment and the clock. \<open>redact\<close> is the redactor of \<^verbatim>\<open>core/inkdrop_manual_search.py\<close>.
  A \<open>send\<close> is \<open>None\<close> when reading the body of the answer never ends.
\<close>

section \<open>The connector table\<close>

datatype connector_error = ConnectorError string

record connector =
  cn_id :: string
  cn_type :: string
  cn_name :: string
  cn_enabled :: bool
  cn_settings :: pydict
  cn_events :: "string list"
  cn_filter :: "string list"
  cn_created_at :: rat
  cn_updated_at :: rat

text \<open>\<open>sorted(set(xs))\<close>.\<close>

definition sorted_set :: "string list \<Rightarrow> string list" where
  "sorted_set xs = sort (remdups xs)"

definition known_events :: "string list \<Rightarrow> string list" where
  "known_events es = sorted_set (filter (\<lambda>e. e \<in> set EVENT_TYPES) (map strip es))"

definition clean_filter :: "string list \<Rightarrow> string list" where
  "clean_filter ss = filter (\<lambda>s. s \<noteq> []) (map strip ss)"

definition connector_row :: "connector \<Rightarrow> connector" where
  "connector_row c = c\<lparr>cn_events := sorted_set (cn_events c)\<rparr>"

definition find_connector :: "string \<Rightarrow> connector list \<Rightarrow> connector option" where
  "find_connector i t = List.find (\<lambda>c. cn_id c = i) t"

definition list_connectors :: "connector list \<Rightarrow> connector list" where
  "list_connectors t = map connector_row (sort_key cn_created_at (sort_key cn_id t))"

definition get_connector :: "string \<Rightarrow> connector list \<Rightarrow> connector option" where
  "get_connector i t = (let k = strip i in
     if k = [] then None else map_option connector_row (find_connector k t))"

definition create_connector ::
    "rat \<Rightarrow> string \<Rightarrow> string \<Rightarrow> string \<Rightarrow> string \<Rightarrow> pydict \<Rightarrow> string list \<Rightarrow> string list \<Rightarrow> bool \<Rightarrow>
     connector list \<Rightarrow> (connector_error + connector) \<times> connector list" where
  "create_connector now fresh ty name i settings events series enabled t =
     (let ctype = lower (strip ty);
          k = (if strip i = [] then fresh else strip i) in
      if ctype = [] then (Inl (ConnectorError ''connector type is required''), t)
      else if k \<in> cn_id ` set t then (Inl (ConnectorError (''connector already exists: '' @ k)), t)
      else
        (let row = \<lparr>cn_id = k, cn_type = ctype,
               cn_name = (if strip name = [] then display_label ty [] [] TitleStyle [] [] else strip name),
               cn_enabled = enabled, cn_settings = settings, cn_events = known_events events,
               cn_filter = clean_filter series, cn_created_at = now, cn_updated_at = now\<rparr>
         in (Inr (connector_row row), t @ [row])))"

definition nonblank :: "pydict \<Rightarrow> pydict" where
  "nonblank s = filter (\<lambda>(_, v). v \<noteq> PNone \<and> v \<noteq> PStr []) s"

definition update_connector ::
    "rat \<Rightarrow> string \<Rightarrow> string option \<Rightarrow> bool option \<Rightarrow> pydict option \<Rightarrow> string list option \<Rightarrow>
     string list option \<Rightarrow> connector list \<Rightarrow> (connector_error + connector) \<times> connector list" where
  "update_connector now i name enabled settings events series t =
     (let k = strip i in
      if k = [] then (Inl (ConnectorError ''connector id is required''), t)
      else case find_connector k t of
        None \<Rightarrow> (Inl (ConnectorError (''unknown connector: '' @ k)), t)
      | Some row \<Rightarrow>
          (let current = connector_row row;
               new = current
                 \<lparr>cn_name := (case name of Some n \<Rightarrow> if strip n = [] then cn_name current else strip n
                              | None \<Rightarrow> cn_name current),
                  cn_enabled := (case enabled of Some b \<Rightarrow> b | None \<Rightarrow> cn_enabled current),
                  cn_settings := (case settings of Some s \<Rightarrow> dupdate (cn_settings current) (nonblank s)
                                  | None \<Rightarrow> cn_settings current),
                  cn_events := (case events of Some es \<Rightarrow> known_events es | None \<Rightarrow> cn_events current),
                  cn_filter := (case series of Some ss \<Rightarrow> clean_filter ss | None \<Rightarrow> cn_filter current),
                  cn_updated_at := now\<rparr>
           in (Inr (connector_row new), update_where (\<lambda>c. cn_id c = k) (\<lambda>_. new) t)))"

definition delete_connector :: "string \<Rightarrow> connector list \<Rightarrow> bool \<times> connector list" where
  "delete_connector i t = (let k = strip i in
     if k = [] then (False, t) else (k \<in> cn_id ` set t, delete_where (\<lambda>c. cn_id c = k) t))"

text \<open>What every operation on the table keeps.\<close>

definition connector_ok :: "connector \<Rightarrow> bool" where
  "connector_ok c = (cn_id c \<noteq> [] \<and> cn_type c \<noteq> [] \<and> set (cn_events c) \<subseteq> set EVENT_TYPES
     \<and> [] \<notin> set (cn_filter c))"

definition connectors_ok :: "connector list \<Rightarrow> bool" where
  "connectors_ok t = (distinct (map cn_id t) \<and> list_all connector_ok t)"

lemma set_sorted_set [simp]: "set (sorted_set xs) = set xs"
  by (simp add: sorted_set_def)

lemma known_events_subset: "set (known_events es) \<subseteq> set EVENT_TYPES"
  by (auto simp: known_events_def)

lemma clean_filter_nonblank: "[] \<notin> set (clean_filter ss)"
  by (simp add: clean_filter_def)

lemma create_connector_ok:
  assumes "connectors_ok t" "fresh \<noteq> []"
  shows "connectors_ok (snd (create_connector now fresh ty name i settings events series enabled t))"
  using assms known_events_subset clean_filter_nonblank
  by (auto simp: create_connector_def connectors_ok_def connector_ok_def Let_def)

lemma update_where_ok:
  assumes "connectors_ok t" "connector_ok new" "cn_id new = k"
  shows "connectors_ok (update_where (\<lambda>c. cn_id c = k) (\<lambda>_. new) t)"
proof -
  have "map cn_id (update_where (\<lambda>c. cn_id c = k) (\<lambda>_. new) t) = map cn_id t"
    using assms(3) by (simp add: update_where_def)
  then have "distinct (map cn_id (update_where (\<lambda>c. cn_id c = k) (\<lambda>_. new) t))"
    using assms(1) unfolding connectors_ok_def by metis
  then show ?thesis
    using assms(1,2) by (auto simp: connectors_ok_def list_all_iff update_where_def simp del: map_map)
qed

lemma update_connector_ok:
  assumes "connectors_ok t"
  shows "connectors_ok (snd (update_connector now i name enabled settings events series t))"
proof (cases "find_connector (strip i) t")
  case None
  then show ?thesis using assms by (simp add: update_connector_def Let_def)
next
  case (Some row)
  then have "connector_ok row" "cn_id row = strip i"
    using assms by (auto simp: find_connector_def find_Some_iff connectors_ok_def list_all_iff)
  with Some assms show ?thesis
    using known_events_subset clean_filter_nonblank
    by (auto simp: update_connector_def Let_def connector_ok_def connector_row_def
        intro!: update_where_ok split: option.splits)
qed

lemma delete_connector_ok: "connectors_ok t \<Longrightarrow> connectors_ok (snd (delete_connector i t))"
  by (auto simp: delete_connector_def connectors_ok_def delete_where_def list_all_iff distinct_map_filter Let_def)

text \<open>A blank field of a saved form leaves the stored secret alone.\<close>

lemma blank_keeps_secret:
  assumes "update_connector now i name enabled (Some s) events series t = (Inr c, t')"
    and "dget s key \<in> {None, Some PNone, Some (PStr [])}" "dwf s"
  shows "\<exists>row. find_connector (strip i) t = Some row \<and> get (cn_settings c) key = get (cn_settings row) key"
proof -
  have "key \<notin> set (dkeys (nonblank s))"
    using assms(2,3) dget_mem [OF assms(3), of key] by (auto simp: nonblank_def dkeys_def)
  then have "dget (dupdate m (nonblank s)) key = dget m key" for m :: pydict
    by (rule dupdate_frame)
  with assms(1) show ?thesis
    by (auto simp: update_connector_def Let_def connector_row_def get_def split: if_splits option.splits)
qed

section \<open>The preferences by channel type\<close>

definition CHANNEL_TYPES :: "string list" where
  "CHANNEL_TYPES = [''discord'', ''pushover'']"

record channel_prefs =
  cp_id :: string
  cp_events :: "string list"
  cp_filter :: "string list"
  cp_updated_at :: "rat option"

definition channel_prefs_row :: "connector \<Rightarrow> channel_prefs" where
  "channel_prefs_row c = \<lparr>cp_id = cn_id c, cp_events = cn_events c, cp_filter = cn_filter c,
     cp_updated_at = Some (cn_updated_at c)\<rparr>"

definition default_channel_prefs :: "string \<Rightarrow> channel_prefs" where
  "default_channel_prefs i = \<lparr>cp_id = i, cp_events = [], cp_filter = [], cp_updated_at = None\<rparr>"

definition list_channel_prefs :: "connector list \<Rightarrow> channel_prefs list" where
  "list_channel_prefs t =
     (let by_id = fold (\<lambda>c. dset (cn_id c) (channel_prefs_row c)) (list_connectors t) [] in
      map (\<lambda>i. case dget by_id i of Some p \<Rightarrow> p | None \<Rightarrow> default_channel_prefs i) CHANNEL_TYPES)"

definition save_channel_prefs ::
    "rat \<Rightarrow> string \<Rightarrow> string \<Rightarrow> string list option \<Rightarrow> string list option \<Rightarrow> connector list \<Rightarrow>
     (connector_error + channel_prefs) \<times> connector list" where
  "save_channel_prefs now fresh channel events series t =
     (let i = lower (strip channel) in
      if i \<notin> set CHANNEL_TYPES then
        (Inl (ConnectorError (''unknown notification channel: '' @ i)), t)
      else case (if get_connector i t = None
                 then create_connector now fresh i (title_word False i) i []
                        (case events of Some es \<Rightarrow> es | None \<Rightarrow> [])
                        (case series of Some ss \<Rightarrow> ss | None \<Rightarrow> []) True t
                 else update_connector now i None None None events series t) of
        (res, t') \<Rightarrow> (mapE channel_prefs_row res, t'))"

section \<open>Providers\<close>

text \<open>An exception is the list of the classes below that it is an instance of.\<close>

datatype exc_class =
    ReqTimeout | ReqConnectionError | ReqHTTPError | ReqRequestException
  | PyTimeoutError | PyConnectionError | PyRuntimeError | PyValueError | PyTypeError | PyOSError

type_synonym exn = "exc_class list"

fun class_name :: "exc_class \<Rightarrow> string" where
  "class_name ReqTimeout = ''Timeout''"
| "class_name ReqConnectionError = ''ConnectionError''"
| "class_name ReqHTTPError = ''HTTPError''"
| "class_name ReqRequestException = ''RequestException''"
| "class_name PyTimeoutError = ''TimeoutError''"
| "class_name PyConnectionError = ''ConnectionError''"
| "class_name PyRuntimeError = ''RuntimeError''"
| "class_name PyValueError = ''ValueError''"
| "class_name PyTypeError = ''TypeError''"
| "class_name PyOSError = ''OSError''"

definition is_retryable_exception :: "exn \<Rightarrow> bool" where
  "is_retryable_exception e =
     list_ex (\<lambda>c. c \<in> set e) [ReqTimeout, ReqConnectionError, PyTimeoutError, PyConnectionError]"

definition failure_type :: "exn \<Rightarrow> string" where
  "failure_type e =
     (case filter (\<lambda>c. c \<in> set e) [ReqTimeout, ReqConnectionError, ReqHTTPError, ReqRequestException,
         PyTimeoutError, PyConnectionError, PyRuntimeError, PyValueError, PyTypeError, PyOSError] of
        c # _ \<Rightarrow> class_name c
      | [] \<Rightarrow> ''Exception'')"

record send_result =
  sr_ok :: bool
  sr_detail :: string
  sr_retryable :: bool
  sr_retry_after :: "int option"

definition send_failed :: "string \<Rightarrow> bool \<Rightarrow> send_result" where
  "send_failed detail retryable =
     \<lparr>sr_ok = False, sr_detail = detail, sr_retryable = retryable, sr_retry_after = None\<rparr>"

definition send_ok :: send_result where
  "send_ok = \<lparr>sr_ok = True, sr_detail = ''sent'', sr_retryable = False, sr_retry_after = None\<rparr>"

record http_request =
  hq_url :: string
  hq_payload :: pydict
  hq_params :: "(string \<times> string) list"

datatype http_answer = HttpRaised exn | HttpResponse "int option" response

record http =
  ht_post :: "http_request \<Rightarrow> http_answer"
  ht_decode :: "string \<Rightarrow> string \<Rightarrow> string \<Rightarrow> read_error + string"
  ht_loads :: "string \<Rightarrow> read_error + pyval"
  ht_env :: "string \<Rightarrow> string option"
  ht_now :: rat

definition retry_after_seconds :: "response \<Rightarrow> int option" where
  "retry_after_seconds r =
     (case header r ''Retry-After'' of
        None \<Rightarrow> None
      | Some raw \<Rightarrow>
          (case bindE (float_of (PStr raw)) flt_int of
             Inl _ \<Rightarrow> None
           | Inr seconds \<Rightarrow> Some (max 30 (min 3600 seconds))))"

fun ceil_flt :: "flt \<Rightarrow> py_exn + int" where
  "ceil_flt (Fin q) = Inr \<lceil>q\<rceil>"
| "ceil_flt NaN = Inl ValueError"
| "ceil_flt _ = Inl OverflowError"

definition pushover_quota_reset_seconds :: "rat \<Rightarrow> response \<Rightarrow> int option" where
  "pushover_quota_reset_seconds now r =
     (case header r ''X-Limit-App-Reset'' of
        None \<Rightarrow> None
      | Some raw \<Rightarrow>
          (case bindE (float_of (PStr raw)) (\<lambda>reset_at. ceil_flt (flt_sub reset_at (Fin now))) of
             Inl _ \<Rightarrow> None
           | Inr seconds \<Rightarrow> Some (max 30 (min 2678400 seconds))))"

text \<open>\<open>settings.get(key) or os.environ.get(name, "")\<close>.\<close>

definition setting_or_env :: "http \<Rightarrow> pydict \<Rightarrow> string \<Rightarrow> string \<Rightarrow> string" where
  "setting_or_env h settings key name =
     (if truthy (get settings key) then py_str (get settings key)
      else case ht_env h name of Some s \<Rightarrow> s | None \<Rightarrow> [])"

text \<open>What both providers do with an answer; \<open>confirm\<close> reads the body, \<open>guidance\<close> the retry hint.\<close>

definition answer_of ::
    "http_answer \<Rightarrow> (response \<Rightarrow> int option) \<Rightarrow> (response \<Rightarrow> (exn + send_result) option) \<Rightarrow>
     (exn + send_result) option" where
  "answer_of a guidance confirm =
     (case a of
        HttpRaised e \<Rightarrow>
          Some (Inr (send_failed (''send failed ('' @ failure_type e @ '')'') (is_retryable_exception e)))
      | HttpResponse None r \<Rightarrow> Some (Inr (send_failed ''send failed (invalid response)'' True))
      | HttpResponse (Some status) r \<Rightarrow>
          if status \<ge> 400 then
            Some (Inr ((send_failed (''send failed (HTTP '' @ int_str status @ '')'')
                          (status \<ge> 500 \<or> status = 429))
                       \<lparr>sr_retry_after := (if status = 429 then guidance r else None)\<rparr>))
          else confirm r)"

definition read_answer ::
    "http \<Rightarrow> string \<Rightarrow> response \<Rightarrow> (read_error + pyval) option" where
  "read_answer h label r =
     bounded_read_json (ht_decode h) (ht_loads h) r NOTIFICATION_RESPONSE_MAX_BYTES label
       DEFAULT_CHUNK_BYTES (PDict [])"

text \<open>\<open>(body or {}).get(key)\<close>: an answer that is no object has no such field.\<close>

definition answer_field :: "pyval \<Rightarrow> string \<Rightarrow> pyval" where
  "answer_field body key = get (as_dict (por body (PDict []))) key"

definition discord_url :: "http \<Rightarrow> pydict \<Rightarrow> string" where
  "discord_url h settings = setting_or_env h settings ''webhook_url'' ''INKDROP_DISCORD_WEBHOOK_URL''"

definition discord_configured :: "http \<Rightarrow> pydict \<Rightarrow> bool" where
  "discord_configured h settings = (discord_url h settings \<noteq> [])"

definition discord_confirm :: "http \<Rightarrow> response \<Rightarrow> (exn + send_result) option" where
  "discord_confirm h r =
     map_option (\<lambda>res. case res of
         Inl (LookupError _) \<Rightarrow> Inl []
       | Inl _ \<Rightarrow> Inr (send_failed ''send failed (no delivery confirmation)'' True)
       | Inr body \<Rightarrow>
           if truthy (answer_field body ''id'') then Inr send_ok
           else Inr (send_failed ''send failed (no delivery confirmation)'' True))
       (read_answer h ''Discord webhook'' r)"

definition discord_send :: "http \<Rightarrow> pydict \<Rightarrow> string \<Rightarrow> string \<Rightarrow> (exn + send_result) option" where
  "discord_send h settings title message =
     (if discord_url h settings = [] then Some (Inr (send_failed ''not configured'' False))
      else answer_of
        (ht_post h \<lparr>hq_url = discord_url h settings,
           hq_payload = [(''content'', PStr (''**'' @ title @ ''**'' @ [CHR 0x0A] @ message))],
           hq_params = [(''wait'', ''true'')]\<rparr>)
        retry_after_seconds (discord_confirm h))"

definition pushover_token :: "http \<Rightarrow> pydict \<Rightarrow> string" where
  "pushover_token h settings = setting_or_env h settings ''api_token'' ''INKDROP_PUSHOVER_API_TOKEN''"

definition pushover_user_key :: "http \<Rightarrow> pydict \<Rightarrow> string" where
  "pushover_user_key h settings = setting_or_env h settings ''user_key'' ''INKDROP_PUSHOVER_USER_KEY''"

definition pushover_configured :: "http \<Rightarrow> pydict \<Rightarrow> bool" where
  "pushover_configured h settings = (pushover_token h settings \<noteq> [] \<and> pushover_user_key h settings \<noteq> [])"

definition pushover_confirm :: "http \<Rightarrow> response \<Rightarrow> (exn + send_result) option" where
  "pushover_confirm h r =
     map_option (\<lambda>res. case res of
         Inl (LookupError _) \<Rightarrow> Inl []
       | Inl _ \<Rightarrow> Inr (send_failed ''send failed (provider rejected request)'' False)
       | Inr body \<Rightarrow>
           (case int_of (answer_field body ''status'') of
              Inl OverflowError \<Rightarrow> Inl []
            | Inl _ \<Rightarrow> Inr (send_failed ''send failed (provider rejected request)'' False)
            | Inr n \<Rightarrow> if n = 1 then Inr send_ok
                       else Inr (send_failed ''send failed (provider rejected request)'' False)))
       (read_answer h ''Pushover API'' r)"

definition pushover_send :: "http \<Rightarrow> pydict \<Rightarrow> string \<Rightarrow> string \<Rightarrow> (exn + send_result) option" where
  "pushover_send h settings title message =
     (if \<not> pushover_configured h settings then Some (Inr (send_failed ''not configured'' False))
      else answer_of
        (ht_post h \<lparr>hq_url = ''https://api.pushover.net/1/messages.json'',
           hq_payload = [(''token'', PStr (pushover_token h settings)),
             (''user'', PStr (pushover_user_key h settings)),
             (''title'', PStr title), (''message'', PStr message)],
           hq_params = []\<rparr>)
        (pushover_quota_reset_seconds (ht_now h)) (pushover_confirm h))"

section \<open>The provider interface\<close>

text \<open>
  What the dispatch pipeline relies on in a \<open>NotificationProvider\<close>: an unconfigured provider sends
  nothing and says so, a success is final, and retry guidance comes with a retryable failure and
  stays within bounds.
\<close>

locale provider =
  fixes configured :: "http \<Rightarrow> pydict \<Rightarrow> bool"
    and send :: "http \<Rightarrow> pydict \<Rightarrow> string \<Rightarrow> string \<Rightarrow> (exn + send_result) option"
  assumes unconfigured: "\<not> configured h s \<Longrightarrow> send h s t m = Some (Inr (send_failed ''not configured'' False))"
    and ok_final: "send h s t m = Some (Inr r) \<Longrightarrow> sr_ok r \<Longrightarrow> r = send_ok"
    and guidance: "send h s t m = Some (Inr r) \<Longrightarrow> sr_retry_after r = Some k \<Longrightarrow>
        sr_retryable r \<and> \<not> sr_ok r \<and> 30 \<le> k \<and> k \<le> 2678400"
begin

lemma ok_configured: "send h s t m = Some (Inr r) \<Longrightarrow> sr_ok r \<Longrightarrow> configured h s"
  using unconfigured [of h s t m] by (cases r) (auto simp: send_failed_def)

lemma ok_not_retried: "send h s t m = Some (Inr r) \<Longrightarrow> sr_ok r \<Longrightarrow> \<not> sr_retryable r"
  using ok_final [of h s t m r] by (simp add: send_ok_def)

end

lemma answer_of_cases:
  assumes "answer_of a g c = Some (Inr r)"
  shows "\<not> sr_ok r \<and> (\<forall>k. sr_retry_after r = Some k \<longrightarrow> sr_retryable r \<and> (\<exists>q. g q = Some k))
    \<or> (\<exists>q status. a = HttpResponse (Some status) q \<and> status < 400 \<and> c q = Some (Inr r))"
  using assms by (auto simp: answer_of_def send_failed_def split: http_answer.splits option.splits if_splits)

lemma retry_after_range: "retry_after_seconds r = Some k \<Longrightarrow> 30 \<le> k \<and> k \<le> 3600"
  by (auto simp: retry_after_seconds_def split: option.splits sum.splits)

lemma quota_reset_range: "pushover_quota_reset_seconds now r = Some k \<Longrightarrow> 30 \<le> k \<and> k \<le> 2678400"
  by (auto simp: pushover_quota_reset_seconds_def split: option.splits sum.splits)

lemma discord_confirm_result:
  "discord_confirm h q = Some (Inr r) \<Longrightarrow>
   r = send_ok \<or> r = send_failed ''send failed (no delivery confirmation)'' True"
  by (cases "read_answer h ''Discord webhook'' q")
     (auto simp: discord_confirm_def split: sum.splits read_error.splits if_splits)

lemma pushover_confirm_result:
  "pushover_confirm h q = Some (Inr r) \<Longrightarrow>
   r = send_ok \<or> r = send_failed ''send failed (provider rejected request)'' False"
  by (cases "read_answer h ''Pushover API'' q")
     (auto simp: pushover_confirm_def split: sum.splits read_error.splits py_exn.splits if_splits)

interpretation discord: provider discord_configured discord_send
proof
  show "\<not> discord_configured h s \<Longrightarrow> discord_send h s t m = Some (Inr (send_failed ''not configured'' False))"
    for h s t m
    by (simp add: discord_configured_def discord_send_def)
  show "discord_send h s t m = Some (Inr r) \<Longrightarrow> sr_ok r \<Longrightarrow> r = send_ok" for h s t m r
    by (auto simp: discord_send_def send_failed_def
        dest!: answer_of_cases discord_confirm_result split: if_splits)
  show "discord_send h s t m = Some (Inr r) \<Longrightarrow> sr_retry_after r = Some k \<Longrightarrow>
      sr_retryable r \<and> \<not> sr_ok r \<and> 30 \<le> k \<and> k \<le> 2678400" for h s t m r k
    by (fastforce simp: discord_send_def send_failed_def send_ok_def
        dest!: answer_of_cases discord_confirm_result dest: retry_after_range split: if_splits)
qed

interpretation pushover: provider pushover_configured pushover_send
proof
  show "\<not> pushover_configured h s \<Longrightarrow> pushover_send h s t m = Some (Inr (send_failed ''not configured'' False))"
    for h s t m
    by (simp add: pushover_send_def)
  show "pushover_send h s t m = Some (Inr r) \<Longrightarrow> sr_ok r \<Longrightarrow> r = send_ok" for h s t m r
    by (auto simp: pushover_send_def send_failed_def
        dest!: answer_of_cases pushover_confirm_result split: if_splits)
  show "pushover_send h s t m = Some (Inr r) \<Longrightarrow> sr_retry_after r = Some k \<Longrightarrow>
      sr_retryable r \<and> \<not> sr_ok r \<and> 30 \<le> k \<and> k \<le> 2678400" for h s t m r k
    by (fastforce simp: pushover_send_def send_failed_def send_ok_def
        dest!: answer_of_cases pushover_confirm_result dest: quota_reset_range split: if_splits)
qed

section \<open>Views\<close>

record config_field =
  cf_key :: string
  cf_label :: string
  cf_help :: string

record provider_class =
  pc_name :: string
  pc_display_name :: string
  pc_fields :: "config_field list"
  pc_configured :: "http \<Rightarrow> pydict \<Rightarrow> bool"
  pc_send :: "http \<Rightarrow> pydict \<Rightarrow> string \<Rightarrow> string \<Rightarrow> (exn + send_result) option"

text \<open>Every field of both providers is secret and required.\<close>

definition discord_class :: provider_class where
  "discord_class = \<lparr>pc_name = ''discord'', pc_display_name = ''Discord'',
     pc_fields = [\<lparr>cf_key = ''webhook_url'', cf_label = ''Webhook URL'',
        cf_help = ''Discord channel -> Edit Channel -> Integrations -> Webhooks.''\<rparr>],
     pc_configured = discord_configured, pc_send = discord_send\<rparr>"

definition pushover_class :: provider_class where
  "pushover_class = \<lparr>pc_name = ''pushover'', pc_display_name = ''Pushover'',
     pc_fields = [\<lparr>cf_key = ''api_token'', cf_label = ''API Token'',
          cf_help = ''Pushover application/API token.''\<rparr>,
        \<lparr>cf_key = ''user_key'', cf_label = ''User Key'', cf_help = ''Pushover user or group key.''\<rparr>],
     pc_configured = pushover_configured, pc_send = pushover_send\<rparr>"

definition PROVIDER_CLASSES :: "(string \<times> provider_class) list" where
  "PROVIDER_CLASSES = [(''discord'', discord_class), (''pushover'', pushover_class)]"

definition provider_for :: "string \<Rightarrow> provider_class option" where
  "provider_for ty = dget PROVIDER_CLASSES ty"

definition connector_types_catalog :: "(string \<times> string \<times> config_field list) list" where
  "connector_types_catalog = map (\<lambda>(_, c). (pc_name c, pc_display_name c, pc_fields c)) PROVIDER_CLASSES"

definition master_switch_enabled :: "pydict option \<Rightarrow> bool" where
  "master_switch_enabled config =
     (case config of None \<Rightarrow> True
      | Some row \<Rightarrow> (case dget row ''enabled'' of None \<Rightarrow> True | Some v \<Rightarrow> truthy v))"

record channel_status =
  cs_id :: string
  cs_type :: string
  cs_name :: string
  cs_display_name :: string
  cs_enabled :: bool
  cs_secret_fields :: "(string \<times> bool) list"
  cs_events :: "string list"
  cs_filter :: "string list"

definition channel_status_of :: "connector \<Rightarrow> channel_status" where
  "channel_status_of c =
     (let cls = provider_for (cn_type c) in
      \<lparr>cs_id = cn_id c, cs_type = cn_type c, cs_name = cn_name c,
       cs_display_name = (case cls of Some k \<Rightarrow> pc_display_name k
                          | None \<Rightarrow> display_label (cn_type c) [] [] TitleStyle [] []),
       cs_enabled = cn_enabled c,
       cs_secret_fields = (case cls of None \<Rightarrow> []
          | Some k \<Rightarrow> map (\<lambda>f. (cf_key f, truthy (get (cn_settings c) (cf_key f)))) (pc_fields k)),
       cs_events = cn_events c, cs_filter = cn_filter c\<rparr>)"

definition public_channel_status :: "connector list \<Rightarrow> channel_status list" where
  "public_channel_status t = map channel_status_of (list_connectors t)"

record channel =
  ch_id :: string
  ch_type :: string
  ch_enabled :: bool
  ch_settings :: pydict
  ch_events :: "string list"
  ch_filter :: "string list"

definition channel_of :: "bool \<Rightarrow> bool \<Rightarrow> connector \<Rightarrow> channel" where
  "channel_of ignore_enabled master c =
     \<lparr>ch_id = cn_id c, ch_type = cn_type c, ch_enabled = (ignore_enabled \<or> (master \<and> cn_enabled c)),
      ch_settings = cn_settings c, ch_events = cn_events c, ch_filter = cn_filter c\<rparr>"

definition load_connectors :: "bool \<Rightarrow> pydict option \<Rightarrow> connector list \<Rightarrow> channel list" where
  "load_connectors ignore_enabled config t =
     map (channel_of ignore_enabled (master_switch_enabled config)) (list_connectors t)"

section \<open>Test messages\<close>

record test_result =
  tr_id :: string
  tr_name :: string
  tr_configured :: bool
  tr_sent :: bool
  tr_detail :: string

definition overridden :: "provider_class \<Rightarrow> pydict \<Rightarrow> pydict \<Rightarrow> pydict" where
  "overridden cls settings override =
     dupdate settings (filter (\<lambda>(k, _). k \<in> cf_key ` set (pc_fields cls)) (nonblank override))"

definition raised_result :: "exn + send_result \<Rightarrow> send_result" where
  "raised_result res =
     (case res of Inr r \<Rightarrow> r
      | Inl e \<Rightarrow> send_failed (''send failed ('' @ failure_type e @ '')'') True)"

definition test_connector_row ::
    "http \<Rightarrow> (string \<Rightarrow> string) \<Rightarrow> pydict \<Rightarrow> connector \<Rightarrow> test_result option" where
  "test_connector_row h redact override c =
     (let name = (if cn_name c = [] then cn_type c else cn_name c);
          answer = (\<lambda>conf sent detail. \<lparr>tr_id = cn_id c, tr_name = name, tr_configured = conf,
                      tr_sent = sent, tr_detail = detail\<rparr>) in
      case provider_for (cn_type c) of
        None \<Rightarrow> Some (answer False False ''unknown connector type'')
      | Some cls \<Rightarrow>
          (let settings = overridden cls (cn_settings c) override in
           if \<not> pc_configured cls h settings then Some (answer False False ''not configured'')
           else map_option (\<lambda>res. let r = raised_result res in
               answer True (sr_ok r)
                 (if sr_detail r \<noteq> [] then redact (sr_detail r)
                  else if sr_ok r then ''sent'' else ''send failed''))
             (pc_send cls h settings ''InkDrop: test notification''
                ''This is a test notification from InkDrop.'')))"

definition test_all ::
    "http \<Rightarrow> (string \<Rightarrow> string) \<Rightarrow> connector list \<Rightarrow> test_result option list" where
  "test_all h redact t = map (test_connector_row h redact []) (list_connectors t)"

datatype test_answer = UnknownConnector string | Tested test_result

definition test_connector ::
    "http \<Rightarrow> (string \<Rightarrow> string) \<Rightarrow> string \<Rightarrow> pydict \<Rightarrow> connector list \<Rightarrow> test_answer option" where
  "test_connector h redact i override t =
     (case get_connector i t of
        None \<Rightarrow> Some (UnknownConnector i)
      | Some c \<Rightarrow> map_option Tested (test_connector_row h redact override c))"

section \<open>Properties\<close>

text \<open>The two rows of a connector differ only in secrets that are configured in both or in neither.\<close>

definition same_but_secrets :: "connector \<Rightarrow> connector \<Rightarrow> bool" where
  "same_but_secrets c d =
     (d = c\<lparr>cn_settings := cn_settings d\<rparr>
      \<and> (\<forall>key. truthy (get (cn_settings c) key) = truthy (get (cn_settings d) key)))"

lemma same_but_secrets_row: "same_but_secrets c d \<Longrightarrow> same_but_secrets (connector_row c) (connector_row d)"
  by (cases c; cases d) (simp add: same_but_secrets_def connector_row_def)

lemma list_connectors_rel:
  assumes "list_all2 same_but_secrets t u"
  shows "list_all2 same_but_secrets (list_connectors t) (list_connectors u)"
proof -
  have k: "cn_id c = cn_id d" "cn_created_at c = cn_created_at d" "cn_events c = cn_events d"
    if "same_but_secrets c d" for c d
    using that unfolding same_but_secrets_def by (metis connector.simps connector.surjective connector.update_convs)+
  have ins: "list_all2 same_but_secrets (insort_key f c xs) (insort_key f d ys)"
    if "list_all2 same_but_secrets xs ys" "same_but_secrets c d" "\<And>c d. same_but_secrets c d \<Longrightarrow> f c = f d"
    for f :: "connector \<Rightarrow> 'k::linorder" and c d xs ys
    using that by (induction rule: list_all2_induct) auto
  have srt: "list_all2 same_but_secrets (sort_key f t) (sort_key f u)"
    if "list_all2 same_but_secrets t u" "\<And>c d. same_but_secrets c d \<Longrightarrow> f c = f d"
    for f :: "connector \<Rightarrow> 'k::linorder" and t u
    using that by (induction rule: list_all2_induct) (auto intro: ins)
  have "list_all2 same_but_secrets (sort_key cn_created_at (sort_key cn_id t)) (sort_key cn_created_at (sort_key cn_id u))"
    using assms k by (intro srt) auto
  then show ?thesis
    unfolding list_connectors_def list_all2_map1 list_all2_map2
    by (rule list_all2_mono) (rule same_but_secrets_row)
qed

text \<open>
  The status shown to the browser carries no secret: two connector tables that agree on everything
  but the values of their settings, with the same fields configured, are shown alike.
\<close>

theorem public_status_masks_secrets:
  assumes "list_all2 same_but_secrets t u"
  shows "public_channel_status t = public_channel_status u"
proof -
  have "channel_status_of c = channel_status_of d" if "same_but_secrets c d" for c d
    using that by (cases c; cases d) (auto simp: same_but_secrets_def channel_status_of_def Let_def split: option.splits)
  then have "list_all2 (=) (map channel_status_of (list_connectors t)) (map channel_status_of (list_connectors u))"
    unfolding list_all2_map1 list_all2_map2 by (rule list_all2_mono [OF list_connectors_rel [OF assms]])
  then show ?thesis by (simp add: public_channel_status_def list_all2_eq)
qed

definition sample_connector :: connector where
  "sample_connector = \<lparr>cn_id = ''discord'', cn_type = ''discord'', cn_name = ''Discord'', cn_enabled = True,
     cn_settings = [(''webhook_url'', PStr ''https://example.org/a'')], cn_events = [''grabbed''],
     cn_filter = [], cn_created_at = 1, cn_updated_at = 1\<rparr>"

lemma public_status_masks_secrets_witness:
  "public_channel_status [sample_connector]
     = public_channel_status [sample_connector\<lparr>cn_settings := [(''webhook_url'', PStr ''https://example.org/b'')]\<rparr>]"
  by (rule public_status_masks_secrets) (auto simp: same_but_secrets_def sample_connector_def)

text \<open>
  A Discord message counts as sent only when Discord confirmed it: the one request carried the
  message and asked to wait for it, it was answered below 400, and the body names the message that
  was created. The connector was configured, and a success is never retried.
\<close>

theorem sent_means_confirmed:
  assumes "discord_send h settings title message = Some (Inr r)" "sr_ok r"
  shows "discord_configured h settings \<and> \<not> sr_retryable r
    \<and> (\<exists>q status body. ht_post h \<lparr>hq_url = discord_url h settings,
           hq_payload = [(''content'', PStr (''**'' @ title @ ''**'' @ [CHR 0x0A] @ message))],
           hq_params = [(''wait'', ''true'')]\<rparr> = HttpResponse (Some status) q
         \<and> status < 400 \<and> read_answer h ''Discord webhook'' q = Some (Inr body)
         \<and> truthy (answer_field body ''id''))"
proof -
  have conf: "discord_configured h settings" "\<not> sr_retryable r"
    using discord.ok_configured [OF assms] discord.ok_not_retried [OF assms] by auto
  then obtain q status where q: "ht_post h \<lparr>hq_url = discord_url h settings,
           hq_payload = [(''content'', PStr (''**'' @ title @ ''**'' @ [CHR 0x0A] @ message))],
           hq_params = [(''wait'', ''true'')]\<rparr> = HttpResponse (Some status) q"
      "status < 400" "discord_confirm h q = Some (Inr r)"
    using assms by (auto simp: discord_send_def discord_configured_def dest!: answer_of_cases)
  moreover from q(3) assms(2) have "\<exists>body. read_answer h ''Discord webhook'' q = Some (Inr body) \<and> truthy (answer_field body ''id'')"
    by (cases "read_answer h ''Discord webhook'' q")
       (auto simp: discord_confirm_def send_failed_def split: sum.splits read_error.splits if_splits)
  ultimately show ?thesis using conf by blast
qed

definition sample_http :: http where
  "sample_http = \<lparr>ht_post = (\<lambda>_. HttpResponse (Some 200)
       \<lparr>rs_header = None, rs_encoding = None, rs_content = Some ''body'', rs_stream = NoStream\<rparr>),
     ht_decode = (\<lambda>_ _ b. Inr b), ht_loads = (\<lambda>_. Inr (PDict [(''id'', PStr ''17'')])),
     ht_env = (\<lambda>_. None), ht_now = 0\<rparr>"

lemma sample_discord_send:
  "discord_send sample_http [(''webhook_url'', PStr ''https://example.org/a'')] ''t'' ''m'' = Some (Inr send_ok)"
  by (simp add: discord_send_def discord_url_def setting_or_env_def sample_http_def answer_of_def
      discord_confirm_def read_answer_def bounded_read_json_def bounded_read_text_def
      bounded_read_bytes_def bounded_read_pulled_def declared_length_def header_def stream_chunks_def
      NOTIFICATION_RESPONSE_MAX_BYTES_def answer_field_def por_def strip_def strip_of_def is_space_def
      code_def)

lemma sent_means_confirmed_witness:
  "\<exists>body. read_answer sample_http ''Discord webhook''
      \<lparr>rs_header = None, rs_encoding = None, rs_content = Some ''body'', rs_stream = NoStream\<rparr> = Some (Inr body)
    \<and> truthy (answer_field body ''id'')"
  using sent_means_confirmed [OF sample_discord_send]
  by (auto simp: send_ok_def sample_http_def)

end
