(* ===== verification/NotifyDispatch.thy ===== *)
theory NotifyDispatch
  imports NotifyLedger NotifyConnect
begin

text \<open>
  The dispatch pipeline of \<^verbatim>\<open>core/inkdrop_notifications.py\<close>: one event is routed through every
  enabled and subscribed channel, filtered, deduplicated, held back during quiet hours, rate limited
  and sent; what was queued is taken up again by \<open>process_due_retries\<close>.

  \<open>local_time\<close> is \<open>time.localtime\<close>; the times and the identifier a dispatch draws are its \<open>moments\<close>.
  SHA-256 and the redactor are parameters. A run is \<open>None\<close> when a provider never answers.
\<close>

section \<open>Quiet hours\<close>

record local_clock =
  lc_wday :: nat
  lc_hour :: int
  lc_min :: int

definition minute_of_day :: "local_clock \<Rightarrow> int" where
  "minute_of_day c = lc_hour c * 60 + lc_min c"

definition parse_hhmm :: "pyval \<Rightarrow> int option" where
  "parse_hhmm value =
     (let s = strip (str_or_empty value) in
      if CHR '':'' \<notin> set s then None
      else case (parse_int (before_char CHR '':'' s), parse_int (after_char CHR '':'' s)) of
        (Some h, Some m) \<Rightarrow> if 0 \<le> h \<and> h \<le> 23 \<and> 0 \<le> m \<and> m \<le> 59 then Some (h * 60 + m) else None
      | _ \<Rightarrow> None)"

definition in_window :: "int \<Rightarrow> int \<Rightarrow> int \<Rightarrow> bool" where
  "in_window start stop m =
     (if start = stop then False
      else if start < stop then start \<le> m \<and> m < stop
      else m \<ge> start \<or> m < stop)"

definition in_quiet_hours :: "pydict \<Rightarrow> local_clock \<Rightarrow> bool" where
  "in_quiet_hours settings c =
     (if \<not> truthy (get settings ''quiet_hours_enabled'') then False
      else let days = as_list (get settings ''quiet_hours_days'') in
        if days \<noteq> [] \<and> PStr (WEEKDAYS ! lc_wday c) \<notin> set days then False
        else case (parse_hhmm (get settings ''quiet_hours_start''), parse_hhmm (get settings ''quiet_hours_end'')) of
          (Some start, Some stop) \<Rightarrow> in_window start stop (minute_of_day c)
        | _ \<Rightarrow> False)"

definition quiet_hours_release_at :: "(rat \<Rightarrow> local_clock) \<Rightarrow> pydict \<Rightarrow> rat \<Rightarrow> rat" where
  "quiet_hours_release_at local_time settings now =
     (let stop = (case parse_hhmm (get settings ''quiet_hours_end'') of Some m \<Rightarrow> m | None \<Rightarrow> 0);
          delay = (stop - minute_of_day (local_time now)) mod (24 * 60)
      in now + of_int (max 1 (delay * 60)))"

section \<open>One event, one channel\<close>

definition REQUEST_TIMEOUT_SECONDS :: int where
  "REQUEST_TIMEOUT_SECONDS = 10"

record moments =
  mt_check :: rat
  mt_release :: rat
  mt_reserve :: rat
  mt_backoff :: rat
  mt_finish :: rat
  mt_id :: string

record dispatcher =
  cx_http :: http
  cx_local_time :: "rat \<Rightarrow> local_clock"
  cx_redact :: "string \<Rightarrow> string"
  cx_digest :: "string \<Rightarrow> string"

text \<open>\<open>settings.get(key, default)\<close> on the settings the store returns, whose numbers are integers.\<close>

definition int_setting :: "pydict \<Rightarrow> string \<Rightarrow> int \<Rightarrow> int" where
  "int_setting s key d = (case dget s key of Some (PInt i) \<Rightarrow> i | _ \<Rightarrow> d)"

definition occurrence_key :: "(string \<Rightarrow> string) \<Rightarrow> string \<Rightarrow> string option list \<Rightarrow> string" where
  "occurrence_key digest event_type parts =
     take 32 (digest (join ''|'' (event_type # concat (map (\<lambda>p. case p of Some s \<Rightarrow> [s] | None \<Rightarrow> []) parts))))"

definition urgent_events :: "pydict \<Rightarrow> pyval list" where
  "urgent_events settings = as_list (por (get settings ''quiet_hours_urgent_events'') DEFAULT_URGENT_EVENTS)"

definition retry_delay :: "pydict \<Rightarrow> int \<Rightarrow> int option \<Rightarrow> int" where
  "retry_delay settings attempt guidance =
     (case guidance of Some k \<Rightarrow> if k = 0 then min 3600 (int_setting settings ''retry_backoff_seconds''
             DEFAULT_RETRY_BACKOFF_SECONDS * 2 ^ nat (attempt - 1)) else k
      | None \<Rightarrow> min 3600 (int_setting settings ''retry_backoff_seconds'' DEFAULT_RETRY_BACKOFF_SECONDS
                  * 2 ^ nat (attempt - 1)))"

text \<open>The outcome an attempt ends with, from what the provider answered.\<close>

definition attempt_outcome ::
    "(string \<Rightarrow> string) \<Rightarrow> rat \<Rightarrow> pydict \<Rightarrow> int \<Rightarrow> send_result \<Rightarrow> outcome" where
  "attempt_outcome redact backoff_now settings attempt result =
     (let max_attempts = int_setting settings ''retry_max_attempts'' DEFAULT_RETRY_MAX_ATTEMPTS in
      if sr_ok result then
        \<lparr>oc_status = ''sent'', oc_queue_reason = None, oc_error_detail = None, oc_next_attempt_at = None,
         oc_attempt = Some attempt\<rparr>
      else if sr_retryable result \<and> attempt < max 1 max_attempts then
        \<lparr>oc_status = ''queued'', oc_queue_reason = Some ''retry'',
         oc_error_detail = Some (redact (sr_detail result)),
         oc_next_attempt_at = Some (backoff_now + of_int (retry_delay settings attempt (sr_retry_after result))),
         oc_attempt = Some attempt\<rparr>
      else
        \<lparr>oc_status = ''failed'', oc_queue_reason = None, oc_error_detail = Some (redact (sr_detail result)),
         oc_next_attempt_at = None, oc_attempt = Some attempt\<rparr>)"

definition disabled_outcome :: "string \<Rightarrow> int option \<Rightarrow> outcome" where
  "disabled_outcome detail attempt =
     \<lparr>oc_status = ''disabled'', oc_queue_reason = None, oc_error_detail = Some detail,
      oc_next_attempt_at = None, oc_attempt = attempt\<rparr>"

definition finish_attempt ::
    "moments \<Rightarrow> message \<Rightarrow> pydict \<Rightarrow> int \<Rightarrow> string option \<Rightarrow> rat option \<Rightarrow> outcome \<Rightarrow> delivery list \<Rightarrow>
     (store_error + delivery option) \<times> delivery list" where
  "finish_attempt mt m settings attempt existing deadline oc t =
     (case existing of
        Some i \<Rightarrow> update_delivery (mt_finish mt) i oc deadline t
      | None \<Rightarrow>
          (case record_delivery (mt_finish mt) (mt_id mt) m oc attempt
                  (int_setting settings ''retry_max_attempts'' DEFAULT_RETRY_MAX_ATTEMPTS) t of
             (res, t') \<Rightarrow> (mapE Some res, t')))"

definition attempt_send ::
    "dispatcher \<Rightarrow> moments \<Rightarrow> channel \<Rightarrow> pydict \<Rightarrow> message \<Rightarrow> int \<Rightarrow> string option \<Rightarrow> rat option \<Rightarrow>
     delivery list \<Rightarrow> ((store_error + delivery option) \<times> delivery list) option" where
  "attempt_send cx mt ch settings m attempt existing deadline t =
     (let finish = (\<lambda>oc. finish_attempt mt m settings attempt existing deadline oc t) in
      case provider_for (ch_type ch) of
        None \<Rightarrow> Some (finish (disabled_outcome ''channel is not configured'' (Some attempt)))
      | Some cls \<Rightarrow>
          if \<not> pc_configured cls (cx_http cx) (ch_settings ch) then
            Some (finish (disabled_outcome ''channel is not configured'' (Some attempt)))
          else map_option (\<lambda>res. finish (attempt_outcome (cx_redact cx) (mt_backoff mt) settings attempt
                                   (raised_result res)))
                 (pc_send cls (cx_http cx) (ch_settings ch) (ms_subject m) (ms_message m)))"

definition subscribed :: "channel \<Rightarrow> string \<Rightarrow> bool" where
  "subscribed ch event_type = (ch_enabled ch \<and> event_type \<in> set (ch_events ch))"

definition filtered_out :: "channel \<Rightarrow> string option \<Rightarrow> bool" where
  "filtered_out ch series =
     (ch_filter ch \<noteq> [] \<and> (case series of None \<Rightarrow> False | Some s \<Rightarrow> s \<noteq> [] \<and> s \<notin> set (ch_filter ch)))"

definition held_back :: "dispatcher \<Rightarrow> rat \<Rightarrow> pydict \<Rightarrow> bool \<Rightarrow> string \<Rightarrow> bool" where
  "held_back cx now settings urgent event_type =
     (\<not> (urgent \<or> PStr event_type \<in> set (urgent_events settings))
      \<and> in_quiet_hours settings (cx_local_time cx now))"

definition filtered_outcome :: outcome where
  "filtered_outcome = \<lparr>oc_status = ''filtered'', oc_queue_reason = None,
     oc_error_detail = Some ''series is not in this channel's filter'', oc_next_attempt_at = None,
     oc_attempt = None\<rparr>"

definition dispatch_to_channel ::
    "dispatcher \<Rightarrow> moments \<Rightarrow> channel \<Rightarrow> pydict \<Rightarrow> message \<Rightarrow> bool \<Rightarrow> delivery list \<Rightarrow>
     ((store_error + delivery option) \<times> delivery list) option" where
  "dispatch_to_channel cx mt ch settings m urgent t =
     (if \<not> subscribed ch (ms_event_type m) then Some (Inr None, t)
      else if filtered_out ch (ms_series_id m) then
        Some (case record_delivery (mt_reserve mt) (mt_id mt) m filtered_outcome 1 1 t of
                (res, t') \<Rightarrow> (mapE Some res, t'))
      else
        (let hold = held_back cx (mt_check mt) settings urgent (ms_event_type m) in
         case reserve_new_delivery (mt_reserve mt) (mt_id mt) m
                (int_setting settings ''retry_max_attempts'' DEFAULT_RETRY_MAX_ATTEMPTS)
                (int_setting settings ''dedup_window_seconds'' DEFAULT_DEDUP_WINDOW_SECONDS)
                (int_setting settings ''rate_limit_max_per_hour'' DEFAULT_RATE_LIMIT_PER_HOUR)
                (if hold then Some ''quiet_hours'' else None)
                (if hold then Some (quiet_hours_release_at (cx_local_time cx) settings (mt_release mt)) else None)
                (REQUEST_TIMEOUT_SECONDS * 3 + 15) t of
           (Inl e, t') \<Rightarrow> Some (Inl e, t')
         | (Inr row, t') \<Rightarrow>
             if dl_status row \<noteq> ''sending'' then Some (Inr (Some row), t')
             else attempt_send cx mt ch settings m 1 (Some (dl_id row)) (dl_next_attempt_at row) t'))"

section \<open>One event, every channel\<close>

record notify_report =
  np_sent :: "string list"
  np_settled :: bool
  np_recorded :: nat
  np_channels :: nat
  np_reason :: "string option"

definition message_for :: "channel \<Rightarrow> message \<Rightarrow> message" where
  "message_for ch m = m\<lparr>ms_channel_id := ch_id ch\<rparr>"

fun notify_channels ::
    "dispatcher \<Rightarrow> (string \<Rightarrow> moments) \<Rightarrow> channel list \<Rightarrow> pydict \<Rightarrow> message \<Rightarrow> bool \<Rightarrow> notify_report \<Rightarrow>
     delivery list \<Rightarrow> (notify_report \<times> delivery list) option" where
  "notify_channels cx draw [] settings m urgent rep t = Some (rep, t)"
| "notify_channels cx draw (ch # chs) settings m urgent rep t =
     (case dispatch_to_channel cx (draw (ch_id ch)) ch settings (message_for ch m) urgent t of
        None \<Rightarrow> None
      | Some (Inl e, t') \<Rightarrow>
          notify_channels cx draw chs settings m urgent
            (rep\<lparr>np_settled := False, np_reason := Some ''channel_error''\<rparr>) t'
      | Some (Inr None, t') \<Rightarrow> notify_channels cx draw chs settings m urgent rep t'
      | Some (Inr (Some row), t') \<Rightarrow>
          notify_channels cx draw chs settings m urgent
            (rep\<lparr>np_recorded := np_recorded rep + 1,
                 np_sent := np_sent rep @ (if dl_status row = ''sent'' then [ch_id ch] else [])\<rparr>) t')"

definition notify_result ::
    "dispatcher \<Rightarrow> (string \<Rightarrow> moments) \<Rightarrow> pydict option \<Rightarrow> pydict option \<Rightarrow> connector list \<Rightarrow> message \<Rightarrow> bool \<Rightarrow>
     delivery list \<Rightarrow> (notify_report \<times> delivery list) option" where
  "notify_result cx draw settings_tbl config connectors m urgent t =
     (let report = (\<lambda>settled n reason. \<lparr>np_sent = [], np_settled = settled, np_recorded = 0,
                      np_channels = n, np_reason = reason\<rparr>);
          key = (if ms_occurrence_key m \<noteq> [] then ms_occurrence_key m
                 else occurrence_key (cx_digest cx) (ms_event_type m)
                        [ms_series_id m, ms_issue_id m, Some (ms_subject m)])
      in if ms_event_type m \<notin> set EVENT_TYPES then Some (report True 0 (Some ''not_dispatchable''), t)
         else case get_settings settings_tbl of
           Inl _ \<Rightarrow> Some (report False 0 (Some ''settings_unavailable''), t)
         | Inr settings \<Rightarrow>
             (let channels = load_connectors False config connectors in
              notify_channels cx draw channels settings (m\<lparr>ms_occurrence_key := key\<rparr>) urgent
                (report True (length channels) None) t))"

definition notify ::
    "dispatcher \<Rightarrow> (string \<Rightarrow> moments) \<Rightarrow> pydict option \<Rightarrow> pydict option \<Rightarrow> connector list \<Rightarrow> message \<Rightarrow> bool \<Rightarrow>
     delivery list \<Rightarrow> (string list \<times> delivery list) option" where
  "notify cx draw settings_tbl config connectors m urgent t =
     map_option (\<lambda>(rep, t'). (np_sent rep, t')) (notify_result cx draw settings_tbl config connectors m urgent t)"

section \<open>Taking up what was queued\<close>

definition message_of_row :: "delivery \<Rightarrow> message" where
  "message_of_row r = \<lparr>ms_event_type = dl_event_type r, ms_channel_id = dl_channel_id r,
     ms_occurrence_key = dl_occurrence_key r, ms_series_id = dl_series_id r,
     ms_issue_id = dl_issue_id r, ms_subject = dl_subject r, ms_message = dl_message r\<rparr>"

definition find_channel :: "string \<Rightarrow> channel list \<Rightarrow> channel option" where
  "find_channel i chs = List.find (\<lambda>c. ch_id c = i) (rev chs)"

definition next_attempt_of :: "delivery \<Rightarrow> int" where
  "next_attempt_of r = (if dl_queue_reason r = Some ''retry'' then max 1 (dl_attempt r + 1) else 1)"

definition still_quiet :: "dispatcher \<Rightarrow> rat \<Rightarrow> pydict \<Rightarrow> delivery \<Rightarrow> bool" where
  "still_quiet cx now settings r =
     (dl_queue_reason r = Some ''quiet_hours'' \<and> PStr (dl_event_type r) \<notin> set (urgent_events settings)
      \<and> in_quiet_hours settings (cx_local_time cx now))"

definition handle_due ::
    "dispatcher \<Rightarrow> moments \<Rightarrow> rat \<Rightarrow> pydict \<Rightarrow> channel list \<Rightarrow> delivery \<Rightarrow> delivery list \<Rightarrow>
     (bool \<times> (store_error + delivery option) \<times> delivery list) option" where
  "handle_due cx mt now settings channels r t =
     (case find_channel (dl_channel_id r) channels of
        None \<Rightarrow> Some (False, update_delivery (mt_finish mt) (dl_id r)
            (disabled_outcome ''channel disabled or event untoggled before retry'' None) None t)
      | Some ch \<Rightarrow>
          if \<not> subscribed ch (dl_event_type r) then
            Some (False, update_delivery (mt_finish mt) (dl_id r)
              (disabled_outcome ''channel disabled or event untoggled before retry'' None) None t)
          else if still_quiet cx now settings r then
            Some (False, update_delivery (mt_finish mt) (dl_id r)
              \<lparr>oc_status = ''queued'', oc_queue_reason = Some ''quiet_hours'', oc_error_detail = None,
               oc_next_attempt_at = Some (quiet_hours_release_at (cx_local_time cx) settings now),
               oc_attempt = Some (dl_attempt r)\<rparr> None t)
          else map_option (\<lambda>res. (True, res))
            (attempt_send cx mt ch settings (message_of_row r) (next_attempt_of r) (Some (dl_id r))
               (dl_next_attempt_at r) t))"

text \<open>The loop runs at most \<open>limit\<close> times; \<open>clock\<close> gives the claim time and the draws of each turn.
  An exception of the store ends it.\<close>

fun retry_loop ::
    "dispatcher \<Rightarrow> (nat \<Rightarrow> rat \<times> moments) \<Rightarrow> pydict \<Rightarrow> channel list \<Rightarrow> nat \<Rightarrow> nat \<Rightarrow> delivery list \<Rightarrow>
     ((store_error + nat) \<times> delivery list) option" where
  "retry_loop cx clock settings channels 0 attempted t = Some (Inr attempted, t)"
| "retry_loop cx clock settings channels (Suc n) attempted t =
     (case clock n of (now, mt) \<Rightarrow>
      (case claim_next_due_delivery now
              (int_setting settings ''rate_limit_max_per_hour'' DEFAULT_RATE_LIMIT_PER_HOUR)
              (REQUEST_TIMEOUT_SECONDS * 3 + 15) t of
         (None, t') \<Rightarrow> Some (Inr attempted, t')
       | (Some r, t') \<Rightarrow>
           (case handle_due cx mt now settings channels r t' of
              None \<Rightarrow> None
            | Some (sent, Inl e, t'') \<Rightarrow> Some (Inl e, t'')
            | Some (sent, Inr _, t'') \<Rightarrow>
                retry_loop cx clock settings channels n (if sent then attempted + 1 else attempted) t'')))"

definition process_due_retries ::
    "dispatcher \<Rightarrow> (nat \<Rightarrow> rat \<times> moments) \<Rightarrow> pydict \<Rightarrow> pydict option \<Rightarrow> connector list \<Rightarrow> int \<Rightarrow>
     delivery list \<Rightarrow> ((store_error + nat) \<times> delivery list) option" where
  "process_due_retries cx clock settings config connectors limit t =
     retry_loop cx clock settings (load_connectors False config connectors)
       (nat (max 1 (if limit = 0 then 100 else limit))) 0 t"

section \<open>One row per channel\<close>

definition signature :: "delivery \<Rightarrow> string \<times> string \<times> string" where
  "signature r = (dl_id r, dl_channel_id r, dl_event_type r)"

lemma signature_assign [simp]: "signature (assign_outcome now oc r) = signature r"
  by (simp add: signature_def assign_outcome_def)

lemma signature_update: "map signature (update_where p (assign_outcome now oc) t) = map signature t"
  by (simp add: update_where_def)

lemma id_of_signature: "map signature t = map signature u \<Longrightarrow> map dl_id t = map dl_id u"
proof -
  have "map dl_id t = map fst (map signature t)" for t by (simp add: signature_def)
  then show "map signature t = map signature u \<Longrightarrow> map dl_id t = map dl_id u" by metis
qed

lemma update_delivery_found:
  assumes "oc_status oc \<in> set DELIVERY_STATUSES" "i \<in> dl_id ` set t"
  shows "\<exists>row t'. update_delivery now i oc lease t = (Inr (Some row), t') \<and> map signature t' = map signature t"
proof -
  define t' where "t' = update_where (\<lambda>r. dl_id r = i \<and> lease_matches lease r) (assign_outcome now oc) t"
  have s: "map signature t' = map signature t" by (simp add: t'_def signature_update)
  then have "i \<in> dl_id ` set t'" using id_of_signature [OF s] assms(2) by (metis set_map)
  then have "find_delivery i t' \<noteq> None" by (auto simp: find_delivery_def find_None_iff)
  then show ?thesis
    using assms(1) s by (auto simp: update_delivery_def t'_def Let_def)
qed

lemma outcome_statuses:
  "oc_status (attempt_outcome redact now settings attempt r) \<in> {''sent'', ''queued'', ''failed''}"
  "oc_status (disabled_outcome detail a) = ''disabled''"
  by (simp_all add: attempt_outcome_def disabled_outcome_def Let_def)

lemma outcome_known:
  "oc_status (attempt_outcome redact now settings attempt r) \<in> set DELIVERY_STATUSES"
  "oc_status (disabled_outcome detail a) \<in> set DELIVERY_STATUSES"
  using outcome_statuses(1) [of redact now settings attempt r]
  by (auto simp: DELIVERY_STATUSES_def outcome_statuses(2))

lemma attempt_send_row:
  assumes "attempt_send cx mt ch settings m attempt (Some i) deadline t = Some (res, t')" "i \<in> dl_id ` set t"
  shows "\<exists>row. res = Inr (Some row) \<and> map signature t' = map signature t"
proof -
  have "\<exists>oc. oc_status oc \<in> set DELIVERY_STATUSES \<and> update_delivery (mt_finish mt) i oc deadline t = (res, t')"
  proof (cases "provider_for (ch_type ch)")
    case None
    then show ?thesis
      using assms(1) outcome_known(2) by (auto simp: attempt_send_def finish_attempt_def)
  next
    case (Some cls)
    then show ?thesis
      using assms(1) outcome_known
      by (auto simp: attempt_send_def finish_attempt_def split: if_splits) (blast+)
  qed
  then obtain oc where "oc_status oc \<in> set DELIVERY_STATUSES"
    "update_delivery (mt_finish mt) i oc deadline t = (res, t')" by blast
  then show ?thesis
    using update_delivery_found [OF _ assms(2), of oc "mt_finish mt" deadline] by auto
qed

lemma dispatch_row:
  assumes "dispatch_to_channel cx mt ch settings m urgent t = Some (Inr res, t')"
  shows "if subscribed ch (ms_event_type m)
    then res \<noteq> None \<and> map signature t' = map signature t @ [(mt_id mt, ms_channel_id m, ms_event_type m)]
    else res = None \<and> t' = t"
proof (cases "subscribed ch (ms_event_type m)")
  case False
  then show ?thesis using assms by (simp add: dispatch_to_channel_def)
next
  case sub: True
  show ?thesis
  proof (cases "filtered_out ch (ms_series_id m)")
    case True
    then show ?thesis
      using assms sub
      by (auto simp: dispatch_to_channel_def record_delivery_def insert_delivery_def filtered_outcome_def
          delivery_of_def signature_def DELIVERY_STATUSES_def split: if_splits)
  next
    case False
    obtain row t1 where r: "reserve_new_delivery (mt_reserve mt) (mt_id mt) m
          (int_setting settings ''retry_max_attempts'' DEFAULT_RETRY_MAX_ATTEMPTS)
          (int_setting settings ''dedup_window_seconds'' DEFAULT_DEDUP_WINDOW_SECONDS)
          (int_setting settings ''rate_limit_max_per_hour'' DEFAULT_RATE_LIMIT_PER_HOUR)
          (if held_back cx (mt_check mt) settings urgent (ms_event_type m) then Some ''quiet_hours'' else None)
          (if held_back cx (mt_check mt) settings urgent (ms_event_type m)
           then Some (quiet_hours_release_at (cx_local_time cx) settings (mt_release mt)) else None)
          (REQUEST_TIMEOUT_SECONDS * 3 + 15) t = (Inr row, t1)"
      "(if dl_status row \<noteq> ''sending'' then Some (Inr (Some row), t1)
        else attempt_send cx mt ch settings m 1 (Some (dl_id row)) (dl_next_attempt_at row) t1) = Some (Inr res, t')"
      using assms sub False
      by (auto simp: dispatch_to_channel_def Let_def simp del: de_Morgan_conj split: sum.splits prod.splits)
    have n: "map signature t1 = map signature t @ [(mt_id mt, ms_channel_id m, ms_event_type m)]" "dl_id row \<in> dl_id ` set t1"
      using r(1) by (auto simp: reserve_new_delivery_def insert_delivery_def delivery_of_def signature_def
          split: prod.splits if_splits)
    show ?thesis
    proof (cases "dl_status row = ''sending''")
      case True
      then show ?thesis using r(2) n sub attempt_send_row [OF _ n(2)] by fastforce
    next
      case False
      then show ?thesis using r(2) n sub by auto
    qed
  qed
qed

lemma notify_channels_rows:
  assumes "notify_channels cx draw chs settings m urgent rep t = Some (rep', t')" "np_settled rep'"
  shows "np_settled rep
    \<and> map signature t' = map signature t
        @ map (\<lambda>ch. (mt_id (draw (ch_id ch)), ch_id ch, ms_event_type m)) (filter (\<lambda>ch. subscribed ch (ms_event_type m)) chs)
    \<and> np_recorded rep' = np_recorded rep + length (filter (\<lambda>ch. subscribed ch (ms_event_type m)) chs)"
  using assms
proof (induction chs arbitrary: rep t)
  case (Cons ch chs)
  have e: "ms_event_type (message_for ch m) = ms_event_type m" "ms_channel_id (message_for ch m) = ch_id ch"
    by (simp_all add: message_for_def)
  obtain res t1 where d: "dispatch_to_channel cx (draw (ch_id ch)) ch settings (message_for ch m) urgent t = Some (res, t1)"
    using Cons.prems(1) by (cases "dispatch_to_channel cx (draw (ch_id ch)) ch settings (message_for ch m) urgent t") auto
  show ?case
  proof (cases res)
    case (Inl x)
    then show ?thesis using Cons.IH [of "rep\<lparr>np_settled := False, np_reason := Some ''channel_error''\<rparr>" t1] Cons.prems d by simp
  next
    case (Inr x)
    note row = dispatch_row [OF d [unfolded Inr], unfolded e]
    show ?thesis
    proof (cases x)
      case None
      then show ?thesis using Cons.IH [of rep t1] Cons.prems d Inr row by (auto split: if_splits)
    next
      case (Some r)
      then show ?thesis
        using Cons.IH [of "rep\<lparr>np_recorded := np_recorded rep + 1,
            np_sent := np_sent rep @ (if dl_status r = ''sent'' then [ch_id ch] else [])\<rparr>" t1] Cons.prems d Inr row
        by (auto split: if_splits)
    qed
  qed
qed simp

section \<open>Quiet hours end\<close>

lemma release_after_window:
  assumes "in_quiet_hours settings (lt now)"
    and "\<And>t k. 0 \<le> k \<Longrightarrow> minute_of_day (lt (t + of_int (k * 60))) = (minute_of_day (lt t) + k) mod 1440"
    and "\<And>t. 0 \<le> minute_of_day (lt t) \<and> minute_of_day (lt t) < 1440"
  shows "\<not> in_quiet_hours settings (lt (quiet_hours_release_at lt settings now))"
proof -
  define m where "m = minute_of_day (lt now)"
  obtain start stop where p: "parse_hhmm (get settings ''quiet_hours_start'') = Some start"
      "parse_hhmm (get settings ''quiet_hours_end'') = Some stop" "in_window start stop m"
    using assms(1) by (auto simp: in_quiet_hours_def m_def Let_def split: if_splits option.splits)
  have r: "0 \<le> stop" "stop < 1440" "0 \<le> m" "m < 1440"
    using p(2) assms(3) [of now]
    by (auto simp: parse_hhmm_def m_def Let_def split: if_splits option.splits)
  define delay where "delay = (stop - m) mod 1440"
  have "m \<noteq> stop" using p(3) by (auto simp: in_window_def split: if_splits)
  then have pos: "0 < delay"
    using r unfolding delay_def by (smt (verit) mod_pos_pos_trivial mod_add_self2 pos_mod_sign zero_less_numeral)
  have "quiet_hours_release_at lt settings now = now + of_int (delay * 60)"
    using pos by (simp add: quiet_hours_release_at_def p(2) m_def [symmetric] delay_def [symmetric] Let_def)
  then have "minute_of_day (lt (quiet_hours_release_at lt settings now)) = (m + delay) mod 1440"
    using assms(2) [of delay now] pos by (simp add: m_def)
  also have "\<dots> = stop"
    using r by (simp add: delay_def mod_add_right_eq)
  finally show ?thesis
    by (auto simp: in_quiet_hours_def p in_window_def Let_def)
qed

section \<open>Properties\<close>

text \<open>
  C34: A notification that reports itself settled left exactly one row in the history for every enabled
  and subscribed channel, in the order of the channels, and none for the others.
\<close>

theorem settled_means_recorded:
  assumes "notify_result cx draw settings_tbl config connectors m urgent t = Some (rep, t')"
    and "np_settled rep" "ms_event_type m \<in> set EVENT_TYPES"
  shows "map signature t' = map signature t @ map (\<lambda>ch. (mt_id (draw (ch_id ch)), ch_id ch, ms_event_type m))
      (filter (\<lambda>ch. subscribed ch (ms_event_type m)) (load_connectors False config connectors))
    \<and> np_recorded rep = length (filter (\<lambda>ch. subscribed ch (ms_event_type m)) (load_connectors False config connectors))"
proof -
  obtain settings key where n: "notify_channels cx draw (load_connectors False config connectors) settings
      (m\<lparr>ms_occurrence_key := key\<rparr>) urgent
      \<lparr>np_sent = [], np_settled = True, np_recorded = 0,
       np_channels = length (load_connectors False config connectors), np_reason = None\<rparr> t = Some (rep, t')"
    using assms by (auto simp: notify_result_def Let_def split: sum.splits)
  show ?thesis using notify_channels_rows [OF n assms(2)] by simp
qed

definition sample_context :: dispatcher where
  "sample_context = \<lparr>cx_http = sample_http, cx_local_time = (\<lambda>_. \<lparr>lc_wday = 0, lc_hour = 23, lc_min = 0\<rparr>),
     cx_redact = id, cx_digest = id\<rparr>"

definition sample_moments :: moments where
  "sample_moments = \<lparr>mt_check = 1, mt_release = 1, mt_reserve = 1, mt_backoff = 1, mt_finish = 1, mt_id = ''d1''\<rparr>"

lemma sample_channels:
  "load_connectors False None [sample_connector] = [channel_of False True sample_connector]"
  by (simp add: load_connectors_def list_connectors_def master_switch_enabled_def connector_row_def
      sample_connector_def sorted_set_def)

lemma sample_channel:
  "ch_id (channel_of False True sample_connector) = ''discord''"
  "ch_type (channel_of False True sample_connector) = ''discord''"
  "ch_enabled (channel_of False True sample_connector)"
  "ch_settings (channel_of False True sample_connector) = [(''webhook_url'', PStr ''https://example.org/a'')]"
  "ch_events (channel_of False True sample_connector) = [''grabbed'']"
  "ch_filter (channel_of False True sample_connector) = []"
  by (simp_all add: channel_of_def sample_connector_def)

lemma sample_notify:
  "notify_result sample_context (\<lambda>_. sample_moments) None None [sample_connector] sample_message False []
   = Some (\<lparr>np_sent = [''discord''], np_settled = True, np_recorded = 1, np_channels = 1, np_reason = None\<rparr>,
       [assign_outcome 1 (attempt_outcome id 1 default_settings 1 send_ok)
          (delivery_of sample_message ''d1'' 1 ''sending'' None 1 5 None None (Some 46))])"
proof -
  have s: "pc_send discord_class sample_http [(''webhook_url'', PStr ''https://example.org/a'')] ''s'' ''m'' = Some (Inr send_ok)"
    by (simp add: discord_class_def discord_send_def discord_url_def setting_or_env_def sample_http_def
        answer_of_def discord_confirm_def read_answer_def bounded_read_json_def bounded_read_text_def
        bounded_read_bytes_def bounded_read_pulled_def declared_length_def header_def stream_chunks_def
        NOTIFICATION_RESPONSE_MAX_BYTES_def answer_field_def por_def strip_def strip_of_def is_space_def
        code_def)
  have i: "int_setting default_settings ''retry_max_attempts'' DEFAULT_RETRY_MAX_ATTEMPTS = 5"
    "int_setting default_settings ''dedup_window_seconds'' DEFAULT_DEDUP_WINDOW_SECONDS = 86400"
    "int_setting default_settings ''rate_limit_max_per_hour'' DEFAULT_RATE_LIMIT_PER_HOUR = 20"
    by code_simp+
  have h: "held_back cx now default_settings urgent e = False" for cx now urgent e
    by (simp add: held_back_def in_quiet_hours_def default_settings_def)
  have c: "provider_for ''discord'' = Some discord_class" "pc_configured discord_class sample_http
      [(''webhook_url'', PStr ''https://example.org/a'')]"
    by (simp_all add: provider_for_def PROVIDER_CLASSES_def discord_class_def discord_configured_def
        discord_url_def setting_or_env_def)
  show ?thesis
    by (simp add: notify_result_def sample_message_def EVENT_TYPES_def get_settings_def settings_row_def
        sample_channels sample_channel dispatch_to_channel_def subscribed_def message_for_def
        filtered_out_def h i reserve_new_delivery_def reservation_def duplicate_of_def at_capacity_def
        reserved_count_def insert_delivery_def delivery_of_def lease_end_def REQUEST_TIMEOUT_SECONDS_def
        sample_moments_def attempt_send_def c sample_context_def s finish_attempt_def update_delivery_def
        raised_result_def attempt_outcome_def send_ok_def DELIVERY_STATUSES_def update_where_def
        lease_matches_def find_delivery_def assign_outcome_def Let_def)
qed

lemma settled_means_recorded_witness:
  "map signature [assign_outcome 1 (attempt_outcome id 1 default_settings 1 send_ok)
          (delivery_of sample_message ''d1'' 1 ''sending'' None 1 5 None None (Some 46))]
     = [(''d1'', ''discord'', ''grabbed'')]"
  using settled_means_recorded [OF sample_notify]
  by (simp add: sample_channels sample_channel sample_message_def EVENT_TYPES_def subscribed_def
      sample_moments_def)


definition quiet_settings :: pydict where
  "quiet_settings = dset ''quiet_hours_enabled'' (PBool True) default_settings"


text \<open>
  A delivery held back for quiet hours is released when they are over: at the time it is scheduled
  for, the window is closed. (The local clock is assumed to advance by one minute per 60 seconds.)
\<close>

theorem quiet_hours_release:
  assumes "in_quiet_hours settings (lt now)"
    and "\<forall>t k. 0 \<le> k \<longrightarrow> minute_of_day (lt (t + of_int (k * 60))) = (minute_of_day (lt t) + k) mod 1440"
    and "\<forall>t. 0 \<le> minute_of_day (lt t) \<and> minute_of_day (lt t) < 1440"
  shows "\<not> in_quiet_hours settings (lt (quiet_hours_release_at lt settings now))
    \<and> now < quiet_hours_release_at lt settings now
    \<and> quiet_hours_release_at lt settings now \<le> now + 86400"
proof -
  have "0 \<le> (stop - m) mod (24 * 60)" "(stop - m) mod (24 * 60) < 1440" for stop m :: int
    by simp_all
  then have "max 1 ((stop - m) mod (24 * 60) * 60) \<le> (86400 :: int)" for stop m :: int
    by (smt (verit, best))
  then have "of_int (max 1 ((stop - m) mod (24 * 60) * 60)) \<le> (86400 :: rat)" for stop m :: int
    by (metis of_int_le_iff of_int_numeral)
  then have "quiet_hours_release_at lt settings now \<le> now + 86400"
    by (simp add: quiet_hours_release_at_def Let_def del: of_int_max)
  moreover have "now < quiet_hours_release_at lt settings now"
    by (simp add: quiet_hours_release_at_def Let_def)
  ultimately show ?thesis
    using release_after_window [where lt = lt and settings = settings and now = now] assms by blast
qed

definition uniform_clock :: "rat \<Rightarrow> local_clock" where
  "uniform_clock t = (let m = \<lfloor>t / 60\<rfloor> mod 1440 in \<lparr>lc_wday = 0, lc_hour = m div 60, lc_min = m mod 60\<rparr>)"

lemma quiet_hours_release_witness:
  "\<not> in_quiet_hours quiet_settings (uniform_clock (quiet_hours_release_at uniform_clock quiet_settings 82800))
   \<and> 82800 < quiet_hours_release_at uniform_clock quiet_settings 82800
   \<and> quiet_hours_release_at uniform_clock quiet_settings 82800 \<le> 82800 + 86400"
proof (rule quiet_hours_release)
  have m: "minute_of_day (uniform_clock t) = \<lfloor>t / 60\<rfloor> mod 1440" for t
    by (simp add: minute_of_day_def uniform_clock_def Let_def)
  have "parse_hhmm (PStr ''22:00'') = Some 1320" "parse_hhmm (PStr ''07:00'') = Some 420"
    by code_simp+
  then show "in_quiet_hours quiet_settings (uniform_clock 82800)"
    by (simp add: in_quiet_hours_def quiet_settings_def default_settings_def in_window_def m)
  have "\<lfloor>(t + of_int (k * 60)) / 60\<rfloor> = \<lfloor>t / 60\<rfloor> + k" for t :: rat and k
    by (simp add: add_divide_distrib)
  then show "\<forall>t k. 0 \<le> k \<longrightarrow> minute_of_day (uniform_clock (t + of_int (k * 60)))
      = (minute_of_day (uniform_clock t) + k) mod 1440"
    by (simp add: m mod_add_left_eq del: of_int_mult)
  show "\<forall>t. 0 \<le> minute_of_day (uniform_clock t) \<and> minute_of_day (uniform_clock t) < 1440"
    by (simp add: m)
qed

text \<open>
  An attempt spends the retry budget: a delivery goes back to the queue only while sends are left,
  and then it is due no earlier than 30 seconds and, by the provider's own guidance at most, no later
  than 31 days; without sends left the outcome is final.
\<close>

theorem retry_budget:
  assumes "settings_conform settings" "provider_for ty = Some cls"
    and "pc_send cls h conf title message = Some res" "1 \<le> attempt"
    and "oc = attempt_outcome redact now settings attempt (raised_result res)"
  shows "(oc_status oc = ''queued'' \<longrightarrow>
      attempt < max 1 (int_setting settings ''retry_max_attempts'' DEFAULT_RETRY_MAX_ATTEMPTS)
      \<and> (\<exists>due. oc_next_attempt_at oc = Some due \<and> now + 30 \<le> due \<and> due \<le> now + 2678400))
    \<and> (oc_status oc \<noteq> ''queued'' \<longrightarrow> oc_status oc \<in> {''sent'', ''failed''} \<and> oc_next_attempt_at oc = None)"
proof (cases "oc_status oc = ''queued''")
  case False
  then show ?thesis using assms(5) by (auto simp: attempt_outcome_def Let_def split: if_splits)
next
  case True
  let ?r = "raised_result res"
  have q: "\<not> sr_ok ?r" "sr_retryable ?r"
    "attempt < max 1 (int_setting settings ''retry_max_attempts'' DEFAULT_RETRY_MAX_ATTEMPTS)"
    "oc_next_attempt_at oc = Some (now + of_int (retry_delay settings attempt (sr_retry_after ?r)))"
    using True assms(5) by (auto simp: attempt_outcome_def Let_def split: if_splits)
  have g: "30 \<le> k \<and> k \<le> 2678400" if "sr_retry_after ?r = Some k" for k
  proof (cases res)
    case (Inl e)
    then show ?thesis using that by (simp add: raised_result_def send_failed_def)
  next
    case (Inr r)
    then have "sr_retry_after r = Some k" using that by (simp add: raised_result_def)
    then show ?thesis
      using assms(2,3) Inr discord.guidance pushover.guidance
      by (auto simp: provider_for_def PROVIDER_CLASSES_def discord_class_def pushover_class_def split: if_splits)
  qed
  obtain b where b: "get settings ''retry_backoff_seconds'' = PInt b" "30 \<le> b" "b \<le> 3600"
    using assms(1) unfolding conform_fields conforms_integer_cases by blast
  then have i: "int_setting settings ''retry_backoff_seconds'' DEFAULT_RETRY_BACKOFF_SECONDS = b"
    by (auto simp: int_setting_def get_def split: option.splits)
  have "b \<le> b * 2 ^ nat (attempt - 1)" using b(2) by (simp add: mult_le_cancel_left1)
  then have "30 \<le> min 3600 (b * 2 ^ nat (attempt - 1))" "min 3600 (b * 2 ^ nat (attempt - 1)) \<le> 2678400"
    using b(2) by linarith+
  then have "30 \<le> retry_delay settings attempt (sr_retry_after ?r)"
    "retry_delay settings attempt (sr_retry_after ?r) \<le> 2678400"
    using g by (auto simp: retry_delay_def i split: option.splits)
  then have "(30 :: rat) \<le> of_int (retry_delay settings attempt (sr_retry_after ?r))"
    "of_int (retry_delay settings attempt (sr_retry_after ?r)) \<le> (2678400 :: rat)"
    by (metis of_int_le_iff of_int_numeral)+
  with q True show ?thesis by auto
qed

lemma retry_budget_witness:
  "oc_status (attempt_outcome id 0 default_settings 1 (raised_result (Inr send_ok))) \<in> {''sent'', ''failed''}"
proof -
  have p: "provider_for ''discord'' = Some discord_class"
    by (simp add: provider_for_def PROVIDER_CLASSES_def)
  have s: "pc_send discord_class sample_http [(''webhook_url'', PStr ''https://example.org/a'')] ''t'' ''m'' = Some (Inr send_ok)"
    using sample_discord_send by (simp add: discord_class_def)
  have n: "oc_status (attempt_outcome id 0 default_settings 1 (raised_result (Inr send_ok))) \<noteq> ''queued''"
    by (simp add: attempt_outcome_def raised_result_def send_ok_def)
  show ?thesis
    using retry_budget [OF default_settings_conform p s, of 1 _ id 0] n by auto
qed

text \<open>
  Two consequences worth knowing: a delivery that the hourly limit put back loses its quiet-hours
  reason, after which the queue sends it inside quiet hours too; and an empty list of urgent events
  counts as the default list.
\<close>

lemma requeued_ignores_quiet_hours:
  assumes "dl_queue_reason r = Some ''quiet_hours''"
  shows "\<not> still_quiet cx now settings (requeue_for_capacity now (capacity_reason r) due r)"
  using assms by (simp add: still_quiet_def capacity_reason_def requeue_for_capacity_def)

lemma no_urgent_events_means_default:
  "get settings ''quiet_hours_urgent_events'' = PList [] \<Longrightarrow> urgent_events settings = [PStr ''health_issue'']"
  by (simp add: urgent_events_def por_def DEFAULT_URGENT_EVENTS_def)

end
