(* ===== verification/HandoffPolicy.thy ===== *)
theory HandoffPolicy
  imports Py
begin

text \<open>
  The admission of one new recovery handoff, \<^verbatim>\<open>core/inkdrop_missing_recovery_policy.py\<close>: the
  operator's pause, quiet hours, the health of the worker, staging space, and the caps on handoffs,
  bytes and failures. The policy only reads; it changes no state.

  The environment is a dictionary of strings. A file is a \<open>file_view\<close>: what its \<open>stat\<close> says and what
  reading and parsing it gives. The tables are the lists of the columns the queries use; a database
  that cannot be read is \<open>None\<close>. The local clock and the free space of a path are parameters.
\<close>

section \<open>Environment\<close>

type_synonym env = "(string \<times> string) list"

definition TRUTHY :: "string list" where
  "TRUTHY = [''1'', ''true'', ''on'', ''yes'', ''enabled'']"

definition FAILURE_STATUSES :: "string list" where
  "FAILURE_STATUSES = [''client_unavailable'', ''enqueue_response_ambiguous'', ''failed_download'',
     ''provider_unavailable'', ''provider_wait'']"

text \<open>\<open>env.get(name) or fallback\<close>.\<close>

definition env_or :: "env \<Rightarrow> string \<Rightarrow> string \<Rightarrow> string" where
  "env_or e name fallback = (case dget e name of Some (c # cs) \<Rightarrow> c # cs | _ \<Rightarrow> fallback)"

definition enabled :: "env \<Rightarrow> string \<Rightarrow> bool" where
  "enabled e name = (lower (strip (env_or e name ''0'')) \<in> set TRUTHY)"

definition nonnegative_int :: "env \<Rightarrow> string \<Rightarrow> int \<Rightarrow> int" where
  "nonnegative_int e name fallback =
     (case dget e name of
        None \<Rightarrow> max 0 fallback
      | Some s \<Rightarrow> if s = [] then 0
                  else (case parse_int s of Some i \<Rightarrow> max 0 i | None \<Rightarrow> max 0 fallback))"

section \<open>Files\<close>

record file_view =
  fv_exists :: bool
  fv_symlink :: bool
  fv_regular :: bool
  fv_size :: int
  fv_json :: "py_exn + pyval"

text \<open>\<open>Inl\<close> is an \<open>OSError\<close> while looking at the file.\<close>

type_synonym files = "string \<Rightarrow> unit + file_view"

definition control_path :: "env \<Rightarrow> string" where
  "control_path e =
     (let explicit = strip (env_or e ''INKDROP_MISSING_RECOVERY_CONTROL_FILE'' []) in
      if explicit \<noteq> [] then explicit
      else strip (env_or e ''INKDROP_STATE_DIR'' ''/state'') @ ''/missing-recovery-control.json'')"

definition operator_paused :: "files \<Rightarrow> (string \<Rightarrow> bool) \<Rightarrow> env \<Rightarrow> bool" where
  "operator_paused fs exists e =
     (let path = control_path e in
      if \<not> exists path then False
      else case fs path of
        Inl _ \<Rightarrow> True
      | Inr f \<Rightarrow>
          if fv_symlink f \<or> \<not> fv_regular f \<or> fv_size f > 16 * 1024 then True
          else case fv_json f of
            Inl _ \<Rightarrow> True
          | Inr payload \<Rightarrow> \<not> is_dict payload \<or> get (as_dict payload) ''paused'' = PBool True)"

section \<open>Quiet hours\<close>

text \<open>\<open>text.split(c, 1)\<close> unpacked into two stripped parts.\<close>

definition split_pair :: "char \<Rightarrow> string \<Rightarrow> (string \<times> string) option" where
  "split_pair c s =
     (if c \<in> set s then Some (takeWhile (\<lambda>x. x \<noteq> c) s, drop 1 (dropWhile (\<lambda>x. x \<noteq> c) s)) else None)"

definition clock_minutes :: "string \<Rightarrow> int option" where
  "clock_minutes s =
     (case split_pair CHR '':'' s of
        None \<Rightarrow> None
      | Some (h, m) \<Rightarrow>
          (case (parse_int h, parse_int m) of (Some hh, Some mm) \<Rightarrow> Some (hh * 60 + mm) | _ \<Rightarrow> None))"

definition quiet_window :: "string \<Rightarrow> (int \<times> int) option" where
  "quiet_window s =
     (case split_pair CHR ''-'' s of
        None \<Rightarrow> None
      | Some (a, b) \<Rightarrow>
          (case (clock_minutes (strip a), clock_minutes (strip b)) of
             (Some start, Some stop) \<Rightarrow>
               if 0 \<le> start \<and> start < 1440 \<and> 0 \<le> stop \<and> stop < 1440 then Some (start, stop) else None
           | _ \<Rightarrow> None))"

definition in_quiet_hours :: "string option \<Rightarrow> int \<Rightarrow> bool" where
  "in_quiet_hours value minute =
     (let s = strip (case value of Some v \<Rightarrow> v | None \<Rightarrow> []) in
      if s = [] then False
      else case quiet_window s of
        None \<Rightarrow> True
      | Some (start, stop) \<Rightarrow>
          if start = stop then True
          else if start < stop then start \<le> minute \<and> minute < stop
          else minute \<ge> start \<or> minute < stop)"

section \<open>The health of the worker\<close>

fun is_int :: "pyval \<Rightarrow> bool" where
  "is_int (PInt _) = True"
| "is_int _ = False"

fun is_number :: "pyval \<Rightarrow> bool" where
  "is_number (PInt _) = True"
| "is_number (PFloat _) = True"
| "is_number _ = False"

fun int_value :: "pyval \<Rightarrow> int" where
  "int_value (PInt i) = i"
| "int_value _ = 0"

fun is_bool :: "pyval \<Rightarrow> bool" where
  "is_bool (PBool _) = True"
| "is_bool _ = False"

text \<open>\<open>float(x)\<close> of a number, when it is finite.\<close>

definition finite_number :: "pyval \<Rightarrow> rat option" where
  "finite_number v = (if is_number v then (case float_arg v of Inr (Fin q) \<Rightarrow> Some q | _ \<Rightarrow> None) else None)"

definition job_name :: "pydict \<Rightarrow> string" where
  "job_name row = (case get row ''name'' of PStr s \<Rightarrow> strip s | _ \<Rightarrow> [])"

definition job_readable :: "pydict \<Rightarrow> bool" where
  "job_readable row =
     (job_name row \<noteq> [] \<and> is_bool (get row ''critical'') \<and> is_bool (get row ''active'')
      \<and> is_int (get row ''consecutive_failures'') \<and> int_value (get row ''consecutive_failures'') \<ge> 0
      \<and> (case finite_number (get row ''late_by_seconds'') of Some q \<Rightarrow> q \<ge> 0 | None \<Rightarrow> False))"

definition job_failed :: "pydict \<Rightarrow> bool" where
  "job_failed row = (int_value (get row ''consecutive_failures'') > 0)"

definition job_late :: "pydict \<Rightarrow> bool" where
  "job_late row = (case finite_number (get row ''late_by_seconds'') of Some q \<Rightarrow> q > 0 | None \<Rightarrow> False)"

text \<open>The loop over the rows: every row readable, no name twice; the failed and the late rows.\<close>

fun scan_jobs ::
    "pydict list \<Rightarrow> string list \<Rightarrow> pydict list \<Rightarrow> pydict list \<Rightarrow> (pydict list \<times> pydict list) option" where
  "scan_jobs [] names failed late = Some (failed, late)"
| "scan_jobs (row # rows) names failed late =
     (if \<not> job_readable row \<or> job_name row \<in> set names then None
      else scan_jobs rows (job_name row # names)
             (if job_failed row then failed @ [row] else failed)
             (if job_late row then late @ [row] else late))"

definition status_path :: "env \<Rightarrow> string" where
  "status_path e = strip (env_or e ''INKDROP_WORKER_STATUS_FILE''
     (env_or e ''INKDROP_STATE_DIR'' ''/state'' @ ''/worker-scheduler-status.json''))"

definition payload_healthy :: "int \<Rightarrow> rat \<Rightarrow> pydict \<Rightarrow> bool" where
  "payload_healthy max_age now p =
     (if \<not> (get p ''worker_status_schema_version'' = PInt 1) then False
      else case finite_number (get p ''heartbeat_at'') of
        None \<Rightarrow> False
      | Some heartbeat_at \<Rightarrow>
          if \<not> is_int (get p ''failure_count'') \<or> \<not> is_int (get p ''late_job_count'') then False
          else (let failure_count = int_value (get p ''failure_count'');
                    late_job_count = int_value (get p ''late_job_count'') in
            case get p ''state'' of
              PStr raw_state \<Rightarrow>
                if failure_count < 0 \<or> late_job_count < 0 then False
                else (case get p ''jobs'' of
                  PList jobs \<Rightarrow>
                    if \<not> list_all is_dict jobs then False
                    else (case scan_jobs (map as_dict jobs) [] [] [] of
                      None \<Rightarrow> False
                    | Some (failed, late) \<Rightarrow>
                        (let state = lower (strip raw_state);
                             problems = failed @ filter (\<lambda>r. r \<notin> set failed) late;
                             counts_match = (int (length failed) = failure_count \<and> int (length late) = late_job_count);
                             tolerable = (problems \<noteq> [] \<and> counts_match \<and> failed = [])
                         in get p ''ok'' = PBool True
                            \<and> (state = ''healthy'' \<or> state = ''degraded'')
                            \<and> counts_match
                            \<and> (state = ''healthy'' \<or> tolerable)
                            \<and> (state \<noteq> ''healthy'' \<or> (failure_count = 0 \<and> late_job_count = 0 \<and> problems = []))
                            \<and> max_age > 0
                            \<and> 0 \<le> now - heartbeat_at \<and> now - heartbeat_at \<le> of_int max_age))
                | _ \<Rightarrow> False)
            | _ \<Rightarrow> False))"

definition worker_healthy :: "files \<Rightarrow> env \<Rightarrow> rat \<Rightarrow> bool" where
  "worker_healthy fs e now =
     (case fs (status_path e) of
        Inl _ \<Rightarrow> False
      | Inr f \<Rightarrow>
          if fv_symlink f \<or> \<not> fv_regular f \<or> fv_size f > 1024 * 1024 then False
          else case fv_json f of
            Inl _ \<Rightarrow> False
          | Inr payload \<Rightarrow>
              is_dict payload
              \<and> payload_healthy (nonnegative_int e ''INKDROP_WORKER_HEALTH_MAX_AGE_SECONDS'' 90) now
                  (as_dict payload))"

section \<open>Recent usage\<close>

record source_attempt =
  sa_id :: string
  sa_status :: "string option"
  sa_started_at :: "rat option"
  sa_source_type :: "string option"

record download_task =
  dt_source_attempt_id :: "string option"
  dt_size_bytes :: "int option"

record tables =
  tb_attempts :: "source_attempt list"
  tb_tasks :: "download_task list"

record usage =
  us_handoffs_hour :: int
  us_bytes_hour :: int
  us_bytes_day :: int
  us_failures :: int

definition text_or_empty :: "string option \<Rightarrow> string" where
  "text_or_empty v = (case v of Some s \<Rightarrow> s | None \<Rightarrow> [])"

definition started :: "source_attempt \<Rightarrow> rat" where
  "started a = (case sa_started_at a of Some t \<Rightarrow> t | None \<Rightarrow> 0)"

text \<open>\<open>coalesce(max(case when size_bytes > 0 then size_bytes end), 0)\<close> over the tasks of an attempt.\<close>

definition attempt_size :: "download_task list \<Rightarrow> string \<Rightarrow> int" where
  "attempt_size tasks i = fold max
     (concat (map (\<lambda>d. case dt_size_bytes d of Some n \<Rightarrow> if n > 0 then [n] else [] | None \<Rightarrow> [])
        (filter (\<lambda>d. dt_source_attempt_id d = Some i) tasks))) 0"

definition started_since :: "rat \<Rightarrow> tables \<Rightarrow> source_attempt list" where
  "started_since after tb = filter (\<lambda>a. started a \<ge> after
     \<and> sql_lower (text_or_empty (sa_status a)) = ''download_started'') (tb_attempts tb)"

text \<open>\<open>order by coalesce(started_at, 0) desc, id desc limit 50\<close>.\<close>

definition recent_client_attempts :: "rat \<Rightarrow> tables \<Rightarrow> source_attempt list" where
  "recent_client_attempts after tb =
     take 50 (sort_key (\<lambda>a. - started a) (rev (sort_key sa_id
       (filter (\<lambda>a. started a \<ge> after \<and> sql_lower (text_or_empty (sa_source_type a)) = ''download_client'')
          (tb_attempts tb)))))"

definition leading_failures :: "source_attempt list \<Rightarrow> int" where
  "leading_failures rows =
     int (length (takeWhile (\<lambda>a. sql_lower (text_or_empty (sa_status a)) \<in> set FAILURE_STATUSES) rows))"

definition recent_handoff_usage :: "tables \<Rightarrow> rat \<Rightarrow> usage" where
  "recent_handoff_usage tb now =
     (let rows = started_since (now - 86400) tb;
          hour_rows = filter (\<lambda>a. started a \<ge> now - 3600) rows;
          size = (\<lambda>a. attempt_size (tb_tasks tb) (sa_id a))
      in \<lparr>us_handoffs_hour = int (length hour_rows),
          us_bytes_hour = sum_list (map size hour_rows),
          us_bytes_day = sum_list (map size rows),
          us_failures = leading_failures (recent_client_attempts (now - 86400) tb)\<rparr>)"

section \<open>The decision\<close>

record world =
  wo_env :: env
  wo_files :: files
  wo_exists :: "string \<Rightarrow> bool"
  wo_minute :: "rat \<Rightarrow> int"
  wo_free :: "string \<Rightarrow> int option"
  wo_tables :: "tables option"

record decision =
  dc_allowed :: bool
  dc_active :: bool
  dc_reason :: string
  dc_free_bytes :: "int option"
  dc_usage :: "usage option"

definition decide :: "bool \<Rightarrow> bool \<Rightarrow> string \<Rightarrow> decision" where
  "decide allowed active reason =
     \<lparr>dc_allowed = allowed, dc_active = active, dc_reason = reason, dc_free_bytes = None, dc_usage = None\<rparr>"

definition staging_root :: "env \<Rightarrow> string \<Rightarrow> string" where
  "staging_root e given =
     strip (if given \<noteq> [] then given
            else env_or e ''INKDROP_SOURCE_WORKER_STAGING_ROOT''
              (env_or e ''INKDROP_DOWNLOAD_STAGING_ROOT''
                (env_or e ''INKDROP_STAGING_DIR'' (env_or e ''INKDROP_STAGING_ROOT'' []))))"

definition staging_decision :: "world \<Rightarrow> string \<Rightarrow> int \<Rightarrow> decision option" where
  "staging_decision w given proposed =
     (let minimum_free = nonnegative_int (wo_env w) ''INKDROP_MISSING_RECOVERY_MIN_STAGING_FREE_BYTES'' 0;
          root = staging_root (wo_env w) given in
      if minimum_free = 0 then None
      else if root = [] then Some (decide False True ''staging_space_unknown'')
      else case wo_free w root of
        None \<Rightarrow> Some (decide False True ''staging_space_unknown'')
      | Some free \<Rightarrow>
          if free < minimum_free + max 0 proposed
          then Some ((decide False True ''staging_space_low'')\<lparr>dc_free_bytes := Some free\<rparr>) else None)"

definition limit_checks :: "usage \<Rightarrow> int \<Rightarrow> (string \<times> int \<times> string) list" where
  "limit_checks u proposed =
     [(''INKDROP_MISSING_RECOVERY_MAX_HANDOFFS_PER_HOUR'', us_handoffs_hour u + 1, ''hourly_handoff_limit''),
      (''INKDROP_MISSING_RECOVERY_MAX_BYTES_PER_HOUR'', us_bytes_hour u + proposed, ''hourly_data_cap''),
      (''INKDROP_MISSING_RECOVERY_MAX_BYTES_PER_DAY'', us_bytes_day u + proposed, ''daily_data_cap'')]"

fun first_exceeded :: "env \<Rightarrow> (string \<times> int \<times> string) list \<Rightarrow> string option" where
  "first_exceeded e [] = None"
| "first_exceeded e ((name, projected, reason) # cs) =
     (let limit = nonnegative_int e name 0 in
      if limit \<noteq> 0 \<and> projected > limit then Some reason else first_exceeded e cs)"

definition usage_decision :: "env \<Rightarrow> usage \<Rightarrow> int \<Rightarrow> decision" where
  "usage_decision e u proposed =
     (let failure_limit = nonnegative_int e ''INKDROP_MISSING_RECOVERY_PAUSE_AFTER_FAILURES'' 0 in
      if failure_limit \<noteq> 0 \<and> us_failures u \<ge> failure_limit
      then (decide False True ''repeated_handoff_failures'')\<lparr>dc_usage := Some u\<rparr>
      else case first_exceeded e (limit_checks u (max 0 proposed)) of
        Some reason \<Rightarrow> (decide False True reason)\<lparr>dc_usage := Some u\<rparr>
      | None \<Rightarrow> (decide True True ''within_limits'')\<lparr>dc_usage := Some u\<rparr>)"

definition recovery_active :: "env \<Rightarrow> bool" where
  "recovery_active e = (enabled e ''INKDROP_QUEUE_RUNNER_AUTOPILOT_ENABLED''
     \<and> enabled e ''INKDROP_MISSING_RECOVERY_ENABLED'')"

definition evaluate_new_handoff :: "world \<Rightarrow> int \<Rightarrow> string \<Rightarrow> rat \<Rightarrow> decision" where
  "evaluate_new_handoff w proposed given now =
     (let e = wo_env w in
      if \<not> recovery_active e then decide True False ''recovery_not_active''
      else if operator_paused (wo_files w) (wo_exists w) e then decide False True ''operator_paused''
      else if in_quiet_hours (dget e ''INKDROP_MISSING_RECOVERY_QUIET_HOURS'') (wo_minute w now)
      then decide False True ''quiet_hours''
      else if \<not> worker_healthy (wo_files w) e now then decide False True ''worker_health_degraded''
      else case staging_decision w given proposed of
        Some d \<Rightarrow> d
      | None \<Rightarrow>
          (case wo_tables w of
             None \<Rightarrow> decide False True ''database_health_degraded''
           | Some tb \<Rightarrow> usage_decision e (recent_handoff_usage tb now) proposed))"

section \<open>What an admission means\<close>

lemma nonnegative_int_nonneg: "0 \<le> fallback \<Longrightarrow> 0 \<le> nonnegative_int e name fallback"
  by (auto simp: nonnegative_int_def split: option.splits)

lemma first_exceeded_None:
  "first_exceeded e cs = None \<longleftrightarrow>
   (\<forall>(name, projected, reason) \<in> set cs. nonnegative_int e name 0 = 0 \<or> projected \<le> nonnegative_int e name 0)"
  by (induction e cs rule: first_exceeded.induct) (auto simp: Let_def)

lemma usage_allowed:
  "dc_allowed (usage_decision e u proposed) \<longleftrightarrow>
   (nonnegative_int e ''INKDROP_MISSING_RECOVERY_PAUSE_AFTER_FAILURES'' 0 = 0
     \<or> us_failures u < nonnegative_int e ''INKDROP_MISSING_RECOVERY_PAUSE_AFTER_FAILURES'' 0)
   \<and> first_exceeded e (limit_checks u (max 0 proposed)) = None"
  by (auto simp: usage_decision_def decide_def Let_def split: option.splits)

lemma staging_denies: "staging_decision w given proposed = Some d \<Longrightarrow> \<not> dc_allowed d"
  by (auto simp: staging_decision_def decide_def Let_def split: if_splits option.splits)

text \<open>The exact condition for an admission while recovery is active.\<close>

lemma allowed_iff:
  "recovery_active (wo_env w) \<Longrightarrow>
   dc_allowed (evaluate_new_handoff w proposed given now) \<longleftrightarrow>
     \<not> operator_paused (wo_files w) (wo_exists w) (wo_env w)
     \<and> \<not> in_quiet_hours (dget (wo_env w) ''INKDROP_MISSING_RECOVERY_QUIET_HOURS'') (wo_minute w now)
     \<and> worker_healthy (wo_files w) (wo_env w) now
     \<and> staging_decision w given proposed = None
     \<and> (\<exists>tb. wo_tables w = Some tb \<and> dc_allowed (usage_decision (wo_env w) (recent_handoff_usage tb now) proposed))"
  by (auto simp: evaluate_new_handoff_def decide_def Let_def dest: staging_denies split: option.splits)

lemma scan_jobs_result:
  "scan_jobs rows names failed late = Some (f, l) \<Longrightarrow>
   f = failed @ filter job_failed rows \<and> l = late @ filter job_late rows
   \<and> list_all job_readable rows \<and> distinct (map job_name rows) \<and> set (map job_name rows) \<inter> set names = {}"
  by (induction rows names failed late rule: scan_jobs.induct) (auto split: if_splits)

text \<open>
  A healthy verdict: no job of the report has failed, every row was readable with a name of its own,
  and the heartbeat is no older than the limit and not from the future.
\<close>

lemma healthy_means:
  assumes "payload_healthy max_age now p"
  shows "\<exists>jobs heartbeat. get p ''jobs'' = PList jobs \<and> finite_number (get p ''heartbeat_at'') = Some heartbeat
    \<and> list_all (\<lambda>j. job_readable (as_dict j) \<and> \<not> job_failed (as_dict j)) jobs
    \<and> distinct (map (job_name \<circ> as_dict) jobs)
    \<and> 0 \<le> now - heartbeat \<and> now - heartbeat \<le> of_int max_age \<and> get p ''failure_count'' = PInt 0"
proof -
  obtain jobs heartbeat failed late where j: "get p ''jobs'' = PList jobs"
      "finite_number (get p ''heartbeat_at'') = Some heartbeat"
      "scan_jobs (map as_dict jobs) [] [] [] = Some (failed, late)"
      "0 \<le> now - heartbeat" "now - heartbeat \<le> of_int max_age"
      "int (length failed) = int_value (get p ''failure_count'')" "is_int (get p ''failure_count'')"
      "failed = []"
    using assms
    by (auto simp: payload_healthy_def Let_def split: if_splits option.splits pyval.splits prod.splits)
  have "list_all (\<lambda>j. job_readable (as_dict j) \<and> \<not> job_failed (as_dict j)) jobs"
    "distinct (map (job_name \<circ> as_dict) jobs)"
    using scan_jobs_result [OF j(3)] j(8) by (auto simp: list_all_iff filter_empty_conv dest!: sym [of "[]"])
  moreover have "get p ''failure_count'' = PInt 0"
    using j(6-8) by (cases "get p ''failure_count''") auto
  ultimately show ?thesis using j by blast
qed

section \<open>Recording an admitted handoff\<close>

text \<open>The rows a handoff leaves behind: its attempt and the task of its download.\<close>

definition record_handoff :: "string \<Rightarrow> rat \<Rightarrow> int \<Rightarrow> tables \<Rightarrow> tables" where
  "record_handoff i now bytes tb =
     \<lparr>tb_attempts = tb_attempts tb @ [\<lparr>sa_id = i, sa_status = Some ''download_started'',
        sa_started_at = Some now, sa_source_type = Some ''download_client''\<rparr>],
      tb_tasks = tb_tasks tb @ [\<lparr>dt_source_attempt_id = Some i, dt_size_bytes = Some bytes\<rparr>]\<rparr>"

lemma attempt_size_other: "j \<noteq> i \<Longrightarrow> attempt_size (ts @ [\<lparr>dt_source_attempt_id = Some i, dt_size_bytes = s\<rparr>]) j = attempt_size ts j"
  by (simp add: attempt_size_def)

lemma attempt_size_new:
  "i \<notin> {j. Some j \<in> dt_source_attempt_id ` set ts} \<Longrightarrow>
   attempt_size (ts @ [\<lparr>dt_source_attempt_id = Some i, dt_size_bytes = Some n\<rparr>]) i = max 0 n"
proof -
  assume "i \<notin> {j. Some j \<in> dt_source_attempt_id ` set ts}"
  then have "filter (\<lambda>d. dt_source_attempt_id d = Some i) ts = []"
    by (auto simp: filter_empty_conv image_iff dest: sym)
  then show ?thesis by (simp add: attempt_size_def)
qed

lemma record_handoff_usage:
  assumes "i \<notin> sa_id ` set (tb_attempts tb)" "Some i \<notin> dt_source_attempt_id ` set (tb_tasks tb)"
  shows "us_handoffs_hour (recent_handoff_usage (record_handoff i now n tb) now)
      = us_handoffs_hour (recent_handoff_usage tb now) + 1"
    and "us_bytes_hour (recent_handoff_usage (record_handoff i now n tb) now)
      = us_bytes_hour (recent_handoff_usage tb now) + max 0 n"
    and "us_bytes_day (recent_handoff_usage (record_handoff i now n tb) now)
      = us_bytes_day (recent_handoff_usage tb now) + max 0 n"
proof -
  let ?a = "\<lparr>sa_id = i, sa_status = Some ''download_started'', sa_started_at = Some now,
      sa_source_type = Some ''download_client''\<rparr>"
  have low: "sql_lower ''download_started'' = ''download_started''"
    by (simp add: sql_lower_def ascii_lower_def code_def)
  have s: "started_since (now - 86400) (record_handoff i now n tb) = started_since (now - 86400) tb @ [?a]"
    by (simp add: started_since_def record_handoff_def started_def text_or_empty_def low)
  have old: "attempt_size (tb_tasks (record_handoff i now n tb)) (sa_id a) = attempt_size (tb_tasks tb) (sa_id a)"
    if "a \<in> set (started_since (now - 86400) tb)" for a
    using that assms(1) by (auto simp: record_handoff_def started_since_def intro!: attempt_size_other)
  have new: "attempt_size (tb_tasks (record_handoff i now n tb)) i = max 0 n"
    using assms(2) by (simp add: record_handoff_def attempt_size_new)
  have h: "started ?a \<ge> now - 3600" by (simp add: started_def)
  have m: "map (\<lambda>a. attempt_size (tb_tasks (record_handoff i now n tb)) (sa_id a)) xs
      = map (\<lambda>a. attempt_size (tb_tasks tb) (sa_id a)) xs"
    if "set xs \<subseteq> set (started_since (now - 86400) tb)" for xs
    using that old by (auto intro!: map_cong)
  show "us_handoffs_hour (recent_handoff_usage (record_handoff i now n tb) now)
      = us_handoffs_hour (recent_handoff_usage tb now) + 1"
    using h by (simp add: recent_handoff_usage_def s Let_def)
  show "us_bytes_hour (recent_handoff_usage (record_handoff i now n tb) now)
      = us_bytes_hour (recent_handoff_usage tb now) + max 0 n"
    using h by (simp add: recent_handoff_usage_def s Let_def m new)
  show "us_bytes_day (recent_handoff_usage (record_handoff i now n tb) now)
      = us_bytes_day (recent_handoff_usage tb now) + max 0 n"
    by (simp add: recent_handoff_usage_def s Let_def m new)
qed

section \<open>Properties\<close>


text \<open>
  C38: The policy fails closed. While recovery is active, an unreadable or malformed control file, a
  malformed quiet-hours window, an unreadable worker report, an unknown amount of free space where a
  minimum is set, and a database that cannot be read each refuse the handoff.
\<close>

theorem handoff_fails_closed:
  assumes "recovery_active (wo_env w)"
    and "(wo_exists w (control_path (wo_env w))
            \<and> (case wo_files w (control_path (wo_env w)) of Inl _ \<Rightarrow> True
               | Inr f \<Rightarrow> fv_symlink f \<or> \<not> fv_regular f \<or> fv_size f > 16384
                   \<or> (case fv_json f of Inl _ \<Rightarrow> True | Inr v \<Rightarrow> \<not> is_dict v)))
      \<or> (\<exists>v. dget (wo_env w) ''INKDROP_MISSING_RECOVERY_QUIET_HOURS'' = Some v \<and> strip v \<noteq> []
            \<and> quiet_window (strip v) = None)
      \<or> (case wo_files w (status_path (wo_env w)) of Inl _ \<Rightarrow> True
         | Inr f \<Rightarrow> fv_symlink f \<or> \<not> fv_regular f \<or> fv_size f > 1048576
             \<or> (case fv_json f of Inl _ \<Rightarrow> True | Inr v \<Rightarrow> \<not> is_dict v))
      \<or> (nonnegative_int (wo_env w) ''INKDROP_MISSING_RECOVERY_MIN_STAGING_FREE_BYTES'' 0 > 0
            \<and> (staging_root (wo_env w) given = [] \<or> wo_free w (staging_root (wo_env w) given) = None))
      \<or> wo_tables w = None"
  shows "\<not> dc_allowed (evaluate_new_handoff w bytes given now)"
proof
  assume "dc_allowed (evaluate_new_handoff w bytes given now)"
  then have a: "\<not> operator_paused (wo_files w) (wo_exists w) (wo_env w)"
    "\<not> in_quiet_hours (dget (wo_env w) ''INKDROP_MISSING_RECOVERY_QUIET_HOURS'') (wo_minute w now)"
    "worker_healthy (wo_files w) (wo_env w) now" "staging_decision w given bytes = None" "wo_tables w \<noteq> None"
    unfolding allowed_iff [OF assms(1)] by auto
  from assms(2) show False
  proof (elim disjE)
    assume "wo_exists w (control_path (wo_env w)) \<and> (case wo_files w (control_path (wo_env w)) of Inl _ \<Rightarrow> True
               | Inr f \<Rightarrow> fv_symlink f \<or> \<not> fv_regular f \<or> fv_size f > 16384
                   \<or> (case fv_json f of Inl _ \<Rightarrow> True | Inr v \<Rightarrow> \<not> is_dict v))"
    with a(1) show False by (auto simp: operator_paused_def Let_def split: sum.splits if_splits)
  next
    assume "\<exists>v. dget (wo_env w) ''INKDROP_MISSING_RECOVERY_QUIET_HOURS'' = Some v \<and> strip v \<noteq> []
        \<and> quiet_window (strip v) = None"
    with a(2) show False by (auto simp: in_quiet_hours_def Let_def)
  next
    assume "case wo_files w (status_path (wo_env w)) of Inl _ \<Rightarrow> True
         | Inr f \<Rightarrow> fv_symlink f \<or> \<not> fv_regular f \<or> fv_size f > 1048576
             \<or> (case fv_json f of Inl _ \<Rightarrow> True | Inr v \<Rightarrow> \<not> is_dict v)"
    with a(3) show False by (auto simp: worker_healthy_def split: sum.splits if_splits)
  next
    assume "nonnegative_int (wo_env w) ''INKDROP_MISSING_RECOVERY_MIN_STAGING_FREE_BYTES'' 0 > 0
        \<and> (staging_root (wo_env w) given = [] \<or> wo_free w (staging_root (wo_env w) given) = None)"
    with a(4) show False by (auto simp: staging_decision_def Let_def split: if_splits option.splits)
  next
    assume "wo_tables w = None"
    with a(5) show False by simp
  qed
qed

definition sample_env :: env where
  "sample_env = [(''INKDROP_QUEUE_RUNNER_AUTOPILOT_ENABLED'', ''1''), (''INKDROP_MISSING_RECOVERY_ENABLED'', ''1''),
     (''INKDROP_WORKER_STATUS_FILE'', ''/s''), (''INKDROP_MISSING_RECOVERY_MAX_HANDOFFS_PER_HOUR'', ''1'')]"

definition sample_report :: pydict where
  "sample_report = [(''worker_status_schema_version'', PInt 1), (''heartbeat_at'', PInt 100), (''failure_count'', PInt 0),
     (''late_job_count'', PInt 0), (''state'', PStr ''healthy''), (''jobs'', PList []), (''ok'', PBool True)]"

definition sample_world :: world where
  "sample_world = \<lparr>wo_env = sample_env,
     wo_files = (\<lambda>_. Inr \<lparr>fv_exists = True, fv_symlink = False, fv_regular = True, fv_size = 10,
        fv_json = Inr (PDict sample_report)\<rparr>),
     wo_exists = (\<lambda>_. False), wo_minute = (\<lambda>_. 0), wo_free = (\<lambda>_. None),
     wo_tables = Some \<lparr>tb_attempts = [], tb_tasks = []\<rparr>\<rparr>"

lemma sample_active: "recovery_active (wo_env sample_world)"
  unfolding sample_world_def world.simps by code_simp

lemma sample_healthy: "worker_healthy (wo_files sample_world) (wo_env sample_world) 100"
proof -
  have "finite_number (PInt 100) = Some 100"
  proof -
    have "\<not> double_limit \<le> \<bar>of_int 100\<bar>" by (simp add: double_limit_def)
    then show ?thesis by (simp add: finite_number_def)
  qed
  moreover have "nonnegative_int sample_env ''INKDROP_WORKER_HEALTH_MAX_AGE_SECONDS'' 90 = 90"
    by code_simp
  moreover have "lower (strip ''healthy'') = ''healthy''" by code_simp
  ultimately show ?thesis
    by (simp add: worker_healthy_def sample_world_def payload_healthy_def sample_report_def Let_def)
qed

lemma sample_allowed: "dc_allowed (evaluate_new_handoff sample_world 5 [] 100)"
proof -
  have "staging_decision sample_world [] 5 = None"
    unfolding staging_decision_def sample_world_def world.simps by code_simp
  moreover have "\<not> in_quiet_hours (dget (wo_env sample_world) ''INKDROP_MISSING_RECOVERY_QUIET_HOURS'') (wo_minute sample_world 100)"
    by (simp add: sample_world_def sample_env_def in_quiet_hours_def)
  moreover have "\<not> operator_paused (wo_files sample_world) (wo_exists sample_world) (wo_env sample_world)"
    by (simp add: operator_paused_def sample_world_def Let_def)
  moreover have "recent_handoff_usage \<lparr>tb_attempts = [], tb_tasks = []\<rparr> 100
      = \<lparr>us_handoffs_hour = 0, us_bytes_hour = 0, us_bytes_day = 0, us_failures = 0\<rparr>"
    by (simp add: recent_handoff_usage_def started_since_def recent_client_attempts_def leading_failures_def)
  moreover have "dc_allowed (usage_decision sample_env
      \<lparr>us_handoffs_hour = 0, us_bytes_hour = 0, us_bytes_day = 0, us_failures = 0\<rparr> 5)"
    by code_simp
  ultimately show ?thesis
    unfolding allowed_iff [OF sample_active] using sample_healthy by (simp add: sample_world_def)
qed


lemma handoff_fails_closed_witness:
  "\<not> dc_allowed (evaluate_new_handoff (sample_world\<lparr>wo_tables := None\<rparr>) 5 [] 100)"
  by (rule handoff_fails_closed) (use sample_active in \<open>simp_all add: sample_world_def\<close>)

end
