(* ===== verification/ScanRuns.thy ===== *)
theory ScanRuns
  imports Py
begin

text \<open>
  The durable records of library scans, \<^verbatim>\<open>core/inkdrop_scan_runs.py\<close>: one row per run, the rate
  limit on its progress writes, and the comparison that says whether a stored result is still fresh.

  The state is the table \<open>library_scan_runs\<close>, a JSON column being the value it encodes, and the
  process-local times of the last progress writes. The clock, fresh identifiers and whether the
  database answers are arguments; the phase in a progress report is text or missing, as the callers
  write it. Rows that tie under an \<open>order by\<close> keep the table's order.
\<close>

section \<open>State\<close>

definition KINDS :: "string list" where
  "KINDS = [''archive_conversion_plan'', ''archive_conversion_apply'', ''library_adoption_plan'']"

definition STATE_RUNNING :: string where "STATE_RUNNING = ''running''"
definition STATE_COMPLETED :: string where "STATE_COMPLETED = ''completed''"
definition STATE_INTERRUPTED :: string where "STATE_INTERRUPTED = ''interrupted''"

definition RUNS_KEPT_PER_KIND :: nat where
  "RUNS_KEPT_PER_KIND = 10"

definition PROGRESS_WRITE_INTERVAL_SECONDS :: rat where
  "PROGRESS_WRITE_INTERVAL_SECONDS = 2"

record scan_row =
  sn_id :: string
  sn_kind :: string
  sn_scope_key :: string
  sn_state :: string
  sn_phase :: "string option"
  sn_started_at :: "rat option"
  sn_updated_at :: "rat option"
  sn_finished_at :: "rat option"
  sn_progress :: "pyval option"
  sn_result :: "pyval option"
  sn_error :: "string option"
  sn_fingerprint :: "pyval option"
  sn_options :: "pyval option"

record scans =
  sc_rows :: "scan_row list"
  sc_last_write :: "(string \<times> rat) list"

definition json_dump :: "pyval \<Rightarrow> pyval option" where
  "json_dump v = (if v = PNone then None else Some v)"

definition json_load :: "pyval option \<Rightarrow> pyval" where
  "json_load c = (case c of None \<Rightarrow> PNone | Some v \<Rightarrow> v)"

datatype scan_error = UnknownKind string

definition normalize_kind :: "string \<Rightarrow> scan_error + string" where
  "normalize_kind kind =
     (let k = strip kind in
      if k \<notin> set KINDS then Inl (UnknownKind (''unknown scan run kind: '' @ str_repr kind)) else Inr k)"

section \<open>The life of a run\<close>

definition started_key :: "scan_row \<Rightarrow> rat" where
  "started_key r = (case sn_started_at r of Some t \<Rightarrow> t | None \<Rightarrow> 0)"

definition newest_of_kind :: "string \<Rightarrow> scan_row list \<Rightarrow> scan_row list" where
  "newest_of_kind kind rows = sort_key (\<lambda>r. - started_key r) (filter (\<lambda>r. sn_kind r = kind) rows)"

definition trim_history :: "string \<Rightarrow> scan_row list \<Rightarrow> scan_row list" where
  "trim_history kind rows =
     delete_where (\<lambda>r. sn_kind r = kind
       \<and> sn_id r \<notin> sn_id ` set (take RUNS_KEPT_PER_KIND (newest_of_kind kind rows))) rows"

text \<open>\<open>insert or replace\<close>: a row with the same identifier goes.\<close>

definition insert_or_replace :: "scan_row \<Rightarrow> scan_row list \<Rightarrow> scan_row list" where
  "insert_or_replace r rows = delete_where (\<lambda>q. sn_id q = sn_id r) rows @ [r]"

definition start_run ::
    "rat \<Rightarrow> string \<Rightarrow> string \<Rightarrow> string \<Rightarrow> pydict \<Rightarrow> pydict \<Rightarrow> string \<Rightarrow> scans \<Rightarrow>
     (scan_error + string) \<times> scans" where
  "start_run stamp fresh kind scope_key options progress run_id st =
     (case normalize_kind kind of
        Inl e \<Rightarrow> (Inl e, st)
      | Inr k \<Rightarrow>
          (let i = (if run_id = [] then fresh else run_id);
               row = \<lparr>sn_id = i, sn_kind = k, sn_scope_key = scope_key, sn_state = STATE_RUNNING,
                      sn_phase = (case get progress ''phase'' of PStr s \<Rightarrow> Some s | _ \<Rightarrow> None),
                      sn_started_at = Some stamp, sn_updated_at = Some stamp, sn_finished_at = None,
                      sn_progress = json_dump (PDict progress), sn_result = None, sn_error = None,
                      sn_fingerprint = None, sn_options = json_dump (PDict options)\<rparr>
           in (Inr i, \<lparr>sc_rows = trim_history k (insert_or_replace row (sc_rows st)),
                       sc_last_write = dset i stamp (sc_last_write st)\<rparr>)))"

definition too_soon :: "rat \<Rightarrow> string \<Rightarrow> scans \<Rightarrow> bool" where
  "too_soon stamp run_id st =
     (stamp - (case dget (sc_last_write st) run_id of Some t \<Rightarrow> t | None \<Rightarrow> 0) < PROGRESS_WRITE_INTERVAL_SECONDS)"

definition record_progress ::
    "rat \<Rightarrow> bool \<Rightarrow> string \<Rightarrow> pydict \<Rightarrow> string option \<Rightarrow> bool \<Rightarrow> scans \<Rightarrow> bool \<times> scans" where
  "record_progress stamp db_ok run_id progress phase force st =
     (if run_id = [] then (False, st)
      else if \<not> force \<and> too_soon stamp run_id st then (False, st)
      else
        (let st' = st\<lparr>sc_last_write := dset run_id stamp (sc_last_write st)\<rparr> in
         if \<not> db_ok then (False, st')
         else (True, st'\<lparr>sc_rows := update_where (\<lambda>r. sn_id r = run_id)
                 (\<lambda>r. r\<lparr>sn_progress := json_dump (PDict progress),
                        sn_phase := (case phase of Some p \<Rightarrow> Some p | None \<Rightarrow> sn_phase r),
                        sn_updated_at := Some stamp\<rparr>) (sc_rows st)\<rparr>)))"

definition find_run :: "string \<Rightarrow> scan_row list \<Rightarrow> scan_row option" where
  "find_run i rows = List.find (\<lambda>r. sn_id r = i) rows"

record closing =
  cl_state :: string
  cl_result :: pyval
  cl_error :: "string option"
  cl_fingerprint :: pyval
  cl_progress :: "pydict option"

definition finish_run :: "rat \<Rightarrow> string \<Rightarrow> closing \<Rightarrow> scans \<Rightarrow> bool \<times> scans" where
  "finish_run stamp run_id c st =
     (if run_id = [] then (False, st)
      else
        (let old = (case find_run run_id (sc_rows st) of Some r \<Rightarrow> sn_progress r | None \<Rightarrow> None);
             progress = (case cl_progress c of Some p \<Rightarrow> json_dump (PDict p) | None \<Rightarrow> old)
         in (True, \<lparr>sc_rows = update_where (\<lambda>r. sn_id r = run_id)
                 (\<lambda>r. r\<lparr>sn_state := cl_state c, sn_result := json_dump (cl_result c),
                        sn_error := (case cl_error c of Some (x # xs) \<Rightarrow> Some (take 500 (x # xs)) | _ \<Rightarrow> None),
                        sn_fingerprint := json_dump (cl_fingerprint c), sn_progress := progress,
                        sn_updated_at := Some stamp, sn_finished_at := Some stamp\<rparr>) (sc_rows st),
              sc_last_write = ddel run_id (sc_last_write st)\<rparr>)))"

definition interrupt_orphaned_runs :: "rat \<Rightarrow> bool \<Rightarrow> scans \<Rightarrow> nat \<times> scans" where
  "interrupt_orphaned_runs stamp db_ok st =
     (if \<not> db_ok then (0, st)
      else (count_where (\<lambda>r. sn_state r = STATE_RUNNING) (sc_rows st),
            st\<lparr>sc_rows := update_where (\<lambda>r. sn_state r = STATE_RUNNING)
                 (\<lambda>r. r\<lparr>sn_state := STATE_INTERRUPTED, sn_finished_at := Some stamp,
                        sn_updated_at := Some stamp\<rparr>) (sc_rows st)\<rparr>))"

section \<open>Reading a run\<close>

record run =
  rn_id :: string
  rn_kind :: string
  rn_scope_key :: string
  rn_state :: string
  rn_phase :: "string option"
  rn_started_at :: "rat option"
  rn_updated_at :: "rat option"
  rn_finished_at :: "rat option"
  rn_progress :: pyval
  rn_result :: pyval
  rn_error :: "string option"
  rn_fingerprint :: pyval
  rn_options :: pyval

definition row_to_run :: "scan_row \<Rightarrow> run" where
  "row_to_run r =
     \<lparr>rn_id = sn_id r, rn_kind = sn_kind r, rn_scope_key = sn_scope_key r, rn_state = sn_state r,
      rn_phase = sn_phase r, rn_started_at = sn_started_at r, rn_updated_at = sn_updated_at r,
      rn_finished_at = sn_finished_at r, rn_progress = por (json_load (sn_progress r)) (PDict []),
      rn_result = json_load (sn_result r), rn_error = sn_error r,
      rn_fingerprint = por (json_load (sn_fingerprint r)) (PDict []),
      rn_options = por (json_load (sn_options r)) (PDict [])\<rparr>"

definition get_run :: "bool \<Rightarrow> string \<Rightarrow> scans \<Rightarrow> run option" where
  "get_run db_ok run_id st =
     (if run_id = [] \<or> \<not> db_ok then None else map_option row_to_run (find_run run_id (sc_rows st)))"

definition latest_run ::
    "bool \<Rightarrow> string \<Rightarrow> string option \<Rightarrow> string list \<Rightarrow> scans \<Rightarrow> scan_error + run option" where
  "latest_run db_ok kind scope_key states st =
     mapE (\<lambda>k. if \<not> db_ok then None
       else (case sort_key (\<lambda>r. - started_key r)
                (filter (\<lambda>r. sn_kind r = k \<and> (case scope_key of Some s \<Rightarrow> sn_scope_key r = s | None \<Rightarrow> True)
                             \<and> (states = [] \<or> sn_state r \<in> set states)) (sc_rows st)) of
               [] \<Rightarrow> None | r # _ \<Rightarrow> Some (row_to_run r)))
       (normalize_kind kind)"

section \<open>Freshness\<close>

record staleness =
  sl_stale :: bool
  sl_reasons :: "string list"
  sl_comparable :: bool
  sl_unknown :: "string list"

text \<open>\<open>[str(item) for item in (value or [])]\<close>.\<close>

definition roots_of :: "pyval \<Rightarrow> py_exn + string list" where
  "roots_of v =
     (if \<not> truthy v then Inr []
      else case v of
        PList xs \<Rightarrow> Inr (map py_str xs)
      | PStr s \<Rightarrow> Inr (map (\<lambda>c. [c]) s)
      | PDict m \<Rightarrow> Inr (dkeys m)
      | _ \<Rightarrow> Inl TypeError)"

fun is_count :: "pyval \<Rightarrow> bool" where
  "is_count (PInt _) = True"
| "is_count (PFloat _) = True"
| "is_count (PBool _) = True"
| "is_count _ = False"

text \<open>\<open>f"{n:,}"\<close> of a positive number.\<close>

fun group_rev :: "string \<Rightarrow> string" where
  "group_rev (a # b # c # d # ds) = a # b # c # CHR '','' # group_rev (d # ds)"
| "group_rev ds = ds"

definition grouped :: "int \<Rightarrow> string" where
  "grouped n = rev (group_rev (rev (int_str n)))"

definition count_phrase :: "string \<Rightarrow> bool \<Rightarrow> int \<Rightarrow> string" where
  "count_phrase key added n =
     (if key = ''media_file_count'' then
        grouped n @ '' file'' @ (if n = 1 then [] else ''s'') @ (if added then '' landed'' else '' went away'')
      else if added then grouped n @ '' series '' @ (if n = 1 then ''was'' else ''were'') @ '' added''
      else grouped n @ '' series went away'')"

text \<open>One counted fact: the reasons and the unknown facts it contributes.\<close>

definition compare_count :: "pydict \<Rightarrow> pydict \<Rightarrow> string \<Rightarrow> py_exn + (string list \<times> string list)" where
  "compare_count stored current key =
     (if \<not> is_count (get stored key) \<or> \<not> is_count (get current key) then Inr ([], [key])
      else bindE (int_of (get current key)) (\<lambda>c. bindE (int_of (get stored key)) (\<lambda>s.
        let delta = c - s in
        Inr (if delta > 0 then [count_phrase key True delta]
             else if delta < 0 then [count_phrase key False (- delta)] else [], []))))"

definition compare_roots :: "pydict \<Rightarrow> pydict \<Rightarrow> py_exn + (string list \<times> string list)" where
  "compare_roots stored current =
     bindE (roots_of (get stored ''roots'')) (\<lambda>s. bindE (roots_of (get current ''roots'')) (\<lambda>c.
       Inr (if s = [] \<or> c = [] then ([], [''roots''])
            else if s \<noteq> c then ([''your library folders changed in Settings''], []) else ([], []))))"

definition compare_fingerprints :: "pyval \<Rightarrow> pyval \<Rightarrow> py_exn + staleness" where
  "compare_fingerprints stored current =
     (let s = as_dict stored; c = as_dict current in
      bindE (compare_roots s c) (\<lambda>(r1, u1).
      bindE (compare_count s c ''media_file_count'') (\<lambda>(r2, u2).
      bindE (compare_count s c ''series_count'') (\<lambda>(r3, u3).
        let reasons = r1 @ r2 @ r3; unknown = u1 @ u2 @ u3 in
        Inr \<lparr>sl_stale = (reasons \<noteq> []), sl_reasons = reasons, sl_comparable = (unknown = []),
             sl_unknown = unknown\<rparr>))))"

text \<open>\<open>counts\<close> are what the two queries return: \<open>None\<close> for a query that fails, and with it all
  that follows.\<close>

definition library_fingerprint :: "string list \<Rightarrow> int option \<Rightarrow> int option \<Rightarrow> pydict" where
  "library_fingerprint roots media series =
     (''roots'', PList (map PStr (filter (\<lambda>r. strip r \<noteq> []) roots)))
     # (case media of None \<Rightarrow> []
        | Some m \<Rightarrow> (''media_file_count'', PInt m)
            # (case series of None \<Rightarrow> [] | Some n \<Rightarrow> [(''series_count'', PInt n)]))"

record public_view =
  pv_run :: run
  pv_age_seconds :: "rat option"
  pv_staleness :: staleness

definition not_completed :: staleness where
  "not_completed = \<lparr>sl_stale = False, sl_reasons = [], sl_comparable = False,
     sl_unknown = [''run_not_completed'']\<rparr>"

text \<open>\<open>a or b\<close> on two times: a missing time and 0 are both false.\<close>

definition or_time :: "rat option \<Rightarrow> rat option \<Rightarrow> rat option" where
  "or_time a b = (case a of Some t \<Rightarrow> if t = 0 then b else Some t | None \<Rightarrow> b)"

definition public_run ::
    "rat \<Rightarrow> run option \<Rightarrow> pydict option \<Rightarrow> py_exn + public_view option" where
  "public_run stamp r current =
     (case r of None \<Rightarrow> Inr None
      | Some x \<Rightarrow>
          (let age = (case or_time (rn_finished_at x) (rn_updated_at x) of
                        Some t \<Rightarrow> if t = 0 then None else Some (max 0 (stamp - t)) | None \<Rightarrow> None) in
           mapE (\<lambda>s. Some \<lparr>pv_run = x, pv_age_seconds = age, pv_staleness = s\<rparr>)
             (if rn_state x = STATE_COMPLETED
              then compare_fingerprints (rn_fingerprint x)
                     (PDict (case current of Some c \<Rightarrow> c | None \<Rightarrow> []))
              else Inr not_completed)))"

section \<open>Histories\<close>

datatype scan_op =
    OpStart rat string string string pydict pydict string
  | OpProgress rat bool string pydict "string option" bool
  | OpFinish rat string closing
  | OpInterrupt rat bool

fun scan_exec :: "scan_op \<Rightarrow> scans \<Rightarrow> scans" where
  "scan_exec (OpStart stamp fresh kind scope options progress i) st =
     snd (start_run stamp fresh kind scope options progress i st)"
| "scan_exec (OpProgress stamp ok i progress phase force) st =
     snd (record_progress stamp ok i progress phase force st)"
| "scan_exec (OpFinish stamp i c) st = snd (finish_run stamp i c st)"
| "scan_exec (OpInterrupt stamp ok) st = snd (interrupt_orphaned_runs stamp ok st)"

definition scan_run :: "scan_op list \<Rightarrow> scans" where
  "scan_run ops = fold scan_exec ops \<lparr>sc_rows = [], sc_last_write = []\<rparr>"

definition scans_ok :: "scans \<Rightarrow> bool" where
  "scans_ok st = (distinct (map sn_id (sc_rows st))
     \<and> (\<forall>k. count_where (\<lambda>r. sn_kind r = k) (sc_rows st) \<le> RUNS_KEPT_PER_KIND))"

lemma count_filter: "count_where p rows = length (filter p rows)"
  by (simp add: count_where_def)

lemma scans_ok_update:
  assumes "scans_ok st" "\<And>r. sn_id (f r) = sn_id r" "\<And>r. sn_kind (f r) = sn_kind r"
  shows "scans_ok \<lparr>sc_rows = update_where p f (sc_rows st), sc_last_write = lw\<rparr>"
proof -
  have "map sn_id (update_where p f rows) = map sn_id rows" for rows
    using assms(2) by (simp add: update_where_def)
  moreover have "count_where (\<lambda>r. sn_kind r = k) (update_where p f rows) = count_where (\<lambda>r. sn_kind r = k) rows" for k rows
    using assms(3) by (induction rows) (auto simp: count_where_def update_where_def)
  ultimately show ?thesis using assms(1) by (simp add: scans_ok_def)
qed

lemma distinct_delete: "distinct (map f rows) \<Longrightarrow> distinct (map f (delete_where p rows))"
  by (simp add: delete_where_def distinct_map_filter)

lemma trim_bound:
  assumes "distinct (map sn_id rows)"
  shows "count_where (\<lambda>r. sn_kind r = k) (trim_history k rows) \<le> RUNS_KEPT_PER_KIND"
proof -
  let ?kept = "filter (\<lambda>r. sn_kind r = k) (trim_history k rows)"
  let ?top = "take RUNS_KEPT_PER_KIND (newest_of_kind k rows)"
  have "set (map sn_id ?kept) \<subseteq> set (map sn_id ?top)"
    by (auto simp: trim_history_def delete_where_def)
  moreover have "distinct (map sn_id ?kept)"
    using assms by (simp add: trim_history_def delete_where_def distinct_map_filter)
  ultimately have "length ?kept \<le> length (map sn_id ?top)"
    by (metis card_length card_mono distinct_card finite_set le_trans length_map)
  then show ?thesis by (simp add: count_filter)
qed

lemma scans_ok_start: "scans_ok st \<Longrightarrow> scans_ok (snd (start_run stamp fresh kind scope options progress i st))"
proof (cases "normalize_kind kind")
  case (Inl e)
  then show "scans_ok st \<Longrightarrow> ?thesis" by (simp add: start_run_def)
next
  case (Inr k)
  assume ok: "scans_ok st"
  have d: "distinct (map sn_id (insert_or_replace r (sc_rows st)))" for r
    using ok by (auto simp: insert_or_replace_def scans_ok_def delete_where_def distinct_map_filter)
  have other: "count_where (\<lambda>q. sn_kind q = k') (trim_history k (insert_or_replace r (sc_rows st)))
      \<le> RUNS_KEPT_PER_KIND" if "k' \<noteq> k" "sn_kind r = k" for k' r
  proof -
    have "count_where (\<lambda>q. sn_kind q = k') (trim_history k (insert_or_replace r (sc_rows st)))
        \<le> count_where (\<lambda>q. sn_kind q = k') (insert_or_replace r (sc_rows st))"
      by (simp add: trim_history_def count_where_delete_le)
    also have "\<dots> \<le> count_where (\<lambda>q. sn_kind q = k') (sc_rows st)"
      using that count_where_delete_le by (simp add: insert_or_replace_def)
    also have "\<dots> \<le> RUNS_KEPT_PER_KIND" using ok by (simp add: scans_ok_def)
    finally show ?thesis .
  qed
  have "count_where (\<lambda>q. sn_kind q = k') (trim_history k (insert_or_replace r (sc_rows st))) \<le> RUNS_KEPT_PER_KIND"
    if "sn_kind r = k" for k' r
    using other [OF _ that] trim_bound [OF d] by (cases "k' = k") auto
  moreover have "distinct (map sn_id (trim_history k (insert_or_replace r (sc_rows st))))" for r
    using d by (simp add: trim_history_def distinct_delete)
  ultimately show ?thesis using Inr by (simp add: start_run_def scans_ok_def Let_def)
qed

lemma scans_ok_exec: "scans_ok st \<Longrightarrow> scans_ok (scan_exec op st)"
proof (cases op)
  case (OpProgress stamp ok i progress phase force)
  assume "scans_ok st"
  with OpProgress show ?thesis
    using scans_ok_update [of "st" "\<lambda>r. r\<lparr>sn_progress := json_dump (PDict progress),
        sn_phase := (case phase of Some p \<Rightarrow> Some p | None \<Rightarrow> sn_phase r), sn_updated_at := Some stamp\<rparr>"]
    by (auto simp: record_progress_def Let_def scans_ok_def)
next
  case (OpFinish stamp i c)
  assume "scans_ok st"
  with OpFinish show ?thesis by (auto simp: finish_run_def Let_def intro!: scans_ok_update)
next
  case (OpInterrupt stamp ok)
  assume "scans_ok st"
  with OpInterrupt show ?thesis
    using scans_ok_update [of st "\<lambda>r. r\<lparr>sn_state := STATE_INTERRUPTED, sn_finished_at := Some stamp, sn_updated_at := Some stamp\<rparr>"]
    by (auto simp: interrupt_orphaned_runs_def scans_ok_def)
qed (simp add: scans_ok_start)

section \<open>Properties\<close>

text \<open>
  The table never grows without bound: after any history there are at most ten runs of a kind, and
  no two rows share an identifier.
\<close>

theorem runs_bounded:
  "count_where (\<lambda>r. sn_kind r = k) (sc_rows (scan_run ops)) \<le> 10
   \<and> distinct (map sn_id (sc_rows (scan_run ops)))"
proof -
  have "scans_ok (fold scan_exec ops st)" if "scans_ok st" for st
    using that by (induction ops arbitrary: st) (auto intro: scans_ok_exec)
  from this [of "\<lparr>sc_rows = [], sc_last_write = []\<rparr>"] show ?thesis
    by (simp add: scan_run_def scans_ok_def count_where_def RUNS_KEPT_PER_KIND_def)
qed

text \<open>The operations after which a finished run is read back unchanged: those on other runs, and a
  restart of the process.\<close>

fun leaves_run :: "string \<Rightarrow> string \<Rightarrow> scan_op \<Rightarrow> bool" where
  "leaves_run i kind (OpStart _ fresh k _ _ _ j) = (normalize_kind k \<noteq> Inr kind \<and> (if j = [] then fresh else j) \<noteq> i)"
| "leaves_run i kind (OpProgress _ _ j _ _ _) = (j \<noteq> i)"
| "leaves_run i kind (OpFinish _ j _) = (j \<noteq> i)"
| "leaves_run i kind (OpInterrupt _ _) = True"

lemma find_update_other:
  assumes "find_run i rows = Some r" "\<not> p r" "\<And>r. sn_id (f r) = sn_id r"
  shows "find_run i (update_where p f rows) = Some r"
  using assms by (induction rows) (auto simp: find_run_def update_where_def split: if_splits)

lemma find_delete_other:
  "find_run i rows = Some r \<Longrightarrow> \<not> p r \<Longrightarrow> find_run i (delete_where p rows) = Some r"
  by (induction rows) (auto simp: find_run_def delete_where_def split: if_splits)

lemma find_append: "find_run i rows = Some r \<Longrightarrow> find_run i (rows @ xs) = Some r"
  by (induction rows) (auto simp: find_run_def split: if_splits)

lemma find_run_id: "find_run i rows = Some r \<Longrightarrow> sn_id r = i"
  by (auto simp: find_run_def find_Some_iff)

lemma run_survives:
  assumes "find_run i (sc_rows st) = Some r" "sn_state r \<noteq> STATE_RUNNING" "leaves_run i (sn_kind r) op"
  shows "find_run i (sc_rows (scan_exec op st)) = Some r"
proof (cases op)
  case (OpStart stamp fresh k scope options progress j)
  show ?thesis
  proof (cases "normalize_kind k")
    case (Inl e)
    then show ?thesis using assms OpStart by (simp add: start_run_def)
  next
    case (Inr kk)
    have "sn_kind r \<noteq> kk" "(if j = [] then fresh else j) \<noteq> i" using assms(3) OpStart Inr by auto
    then have "find_run i (trim_history kk (insert_or_replace q (sc_rows st))) = Some r"
      if "sn_id q = (if j = [] then fresh else j)" for q
      using that assms(1) find_run_id [OF assms(1)] unfolding trim_history_def insert_or_replace_def
      by (intro find_delete_other find_append) auto
    then show ?thesis using OpStart Inr by (simp add: start_run_def Let_def)
  qed
next
  case (OpProgress stamp ok j progress phase force)
  then show ?thesis
    using assms find_run_id [OF assms(1)] by (auto simp: record_progress_def Let_def intro!: find_update_other)
next
  case (OpFinish stamp j c)
  then show ?thesis
    using assms find_run_id [OF assms(1)] by (auto simp: finish_run_def Let_def intro!: find_update_other)
next
  case (OpInterrupt stamp ok)
  then show ?thesis
    using assms by (auto simp: interrupt_orphaned_runs_def intro!: find_update_other)
qed

lemma find_update_hit:
  "find_run i rows = Some r \<Longrightarrow> (\<And>r. sn_id (f r) = sn_id r) \<Longrightarrow>
   find_run i (update_where (\<lambda>r. sn_id r = i) f rows) = Some (f r)"
  by (induction rows) (auto simp: find_run_def update_where_def split: if_splits)


definition sample_scans :: scans where
  "sample_scans = snd (start_run 100 ''run-1'' ''library_adoption_plan'' ''all'' [] [] [] \<lparr>sc_rows = [], sc_last_write = []\<rparr>)"

definition sample_closing :: closing where
  "sample_closing = \<lparr>cl_state = STATE_COMPLETED, cl_result = PInt 3, cl_error = None,
     cl_fingerprint = PDict [(''series_count'', PInt 2)], cl_progress = None\<rparr>"


lemma compare_roots_unchanged:
  "compare_roots s c = Inr ([], []) \<longleftrightarrow>
   (\<exists>xs. xs \<noteq> [] \<and> roots_of (get s ''roots'') = Inr xs \<and> roots_of (get c ''roots'') = Inr xs)"
  by (auto simp: compare_roots_def result_simps)

lemma compare_count_unchanged:
  "compare_count s c key = Inr ([], []) \<longleftrightarrow>
   (\<exists>n. is_count (get s key) \<and> is_count (get c key) \<and> int_of (get s key) = Inr n \<and> int_of (get c key) = Inr n)"
  by (auto simp: compare_count_def result_simps Let_def)

text \<open>
  C40: A fresh verdict is never given by default: the comparison says \<open>comparable\<close> and not \<open>stale\<close> exactly
  when the roots were known on both sides and equal and both counts were known and equal.
\<close>

theorem fresh_means_unchanged:
  "(\<exists>v. compare_fingerprints stored current = Inr v \<and> sl_comparable v \<and> \<not> sl_stale v) =
   ((\<exists>xs. xs \<noteq> [] \<and> roots_of (get (as_dict stored) ''roots'') = Inr xs
       \<and> roots_of (get (as_dict current) ''roots'') = Inr xs)
    \<and> list_all (\<lambda>key. \<exists>n. is_count (get (as_dict stored) key) \<and> is_count (get (as_dict current) key)
         \<and> int_of (get (as_dict stored) key) = Inr n \<and> int_of (get (as_dict current) key) = Inr n)
        [''media_file_count'', ''series_count''])"
  (is "?l = ?r")
proof -
  let ?s = "as_dict stored" and ?c = "as_dict current"
  have "?l \<longleftrightarrow> compare_roots ?s ?c = Inr ([], []) \<and> compare_count ?s ?c ''media_file_count'' = Inr ([], [])
      \<and> compare_count ?s ?c ''series_count'' = Inr ([], [])"
    by (auto simp: compare_fingerprints_def result_simps Let_def)
  then show ?thesis
    by (simp add: compare_roots_unchanged compare_count_unchanged)
qed

lemma progress_rate_limit:
  assumes "record_progress stamp ok i p ph f st = (True, st1)"
    and "record_progress stamp' ok' i p' ph' False st1 = (True, st2)"
  shows "stamp + PROGRESS_WRITE_INTERVAL_SECONDS \<le> stamp'"
  using assms by (auto simp: record_progress_def too_soon_def Let_def split: if_splits)

lemma no_run_left_running:
  "sc_rows (snd (interrupt_orphaned_runs stamp True st)) = rows \<Longrightarrow> list_all (\<lambda>r. sn_state r \<noteq> STATE_RUNNING) rows"
  by (auto simp: interrupt_orphaned_runs_def update_where_def list_all_iff STATE_RUNNING_def STATE_INTERRUPTED_def)

end
