(* ===== verification/ImportTables.thy ===== *)
theory ImportTables
  imports Py
begin

text \<open>
  The rows of \<^verbatim>\<open>core/inkdrop_state.py\<close> that an import touches: queue items, download tasks, source
  attempts, wanted items and series, and how a download task is classified for display.

  A table is the list of its rows with the columns the code reads or writes. A column \<open>raw_json\<close> is
  the value that parsing it yields, the empty object where it is null or does not parse; the order of
  the keys of a stored object is not significant. \<open>ad_bad\<close> is the list of the records handed to
  \<open>record_bad_source_candidate_row\<close>, whose own table is not modelled; \<open>ad_sync\<close> is what
  \<open>update_sync_meta\<close> stamps.
\<close>

section \<open>Rows\<close>

record queue_row =
  qr_id :: string
  qr_series_id :: string
  qr_wanted_id :: "string option"
  qr_state :: string
  qr_current_source :: "string option"
  qr_last_event :: "string option"
  qr_active :: int
  qr_outcome :: "string option"
  qr_display_phase :: "string option"
  qr_updated_at :: "rat option"
  qr_raw :: pyval

record task_row =
  tr_id :: string
  tr_queue_id :: "string option"
  tr_source_attempt_id :: "string option"
  tr_source :: "string option"
  tr_provider :: "string option"
  tr_protocol :: "string option"
  tr_download_client :: "string option"
  tr_external_id :: "string option"
  tr_candidate_identity :: "string option"
  tr_lifecycle_phase :: "string option"
  tr_outcome :: "string option"
  tr_display_phase :: "string option"
  tr_failure_reason :: "string option"
  tr_retry_eligible :: "int option"
  tr_title :: "string option"
  tr_status :: "string option"
  tr_state :: string
  tr_local_path :: "string option"
  tr_started_at :: "rat option"
  tr_updated_at :: "rat option"
  tr_completed_at :: "rat option"
  tr_raw :: pyval

record attempt_row =
  ar_id :: string
  ar_queue_id :: "string option"
  ar_status :: "string option"
  ar_lifecycle_phase :: "string option"
  ar_outcome :: "string option"
  ar_display_phase :: "string option"
  ar_failure_reason :: "string option"
  ar_retry_eligible :: "int option"
  ar_completed_at :: "rat option"
  ar_raw :: pyval

record wanted_row =
  wr_id :: string
  wr_status :: string
  wr_updated_at :: "rat option"

record bad_source =
  bs_source :: string
  bs_provider :: "string option"
  bs_protocol :: "string option"
  bs_title :: "string option"
  bs_download_url_hash :: "string option"
  bs_source_path :: "string option"
  bs_reason :: string
  bs_queue_id :: string
  bs_task_id :: string
  bs_attempt_id :: string
  bs_external_id :: "string option"
  bs_seen_at :: rat

record acq_db =
  ad_queue :: "queue_row list"
  ad_tasks :: "task_row list"
  ad_attempts :: "attempt_row list"
  ad_wanted :: "wanted_row list"
  ad_series :: "(string \<times> pyval) list"
  ad_bad :: "bad_source list"
  ad_sync :: "(rat \<times> string) option"

definition find_queue :: "string \<Rightarrow> acq_db \<Rightarrow> queue_row option" where
  "find_queue i d = List.find (\<lambda>q. qr_id q = i) (ad_queue d)"

text \<open>\<open>where id=? and queue_id=?\<close>.\<close>

definition task_key :: "string \<Rightarrow> string \<Rightarrow> task_row \<Rightarrow> bool" where
  "task_key i q t = (tr_id t = i \<and> tr_queue_id t = Some q)"

definition find_task :: "string \<Rightarrow> string \<Rightarrow> acq_db \<Rightarrow> task_row option" where
  "find_task i q d = List.find (task_key i q) (ad_tasks d)"

definition find_attempt :: "string \<Rightarrow> string \<Rightarrow> acq_db \<Rightarrow> attempt_row option" where
  "find_attempt i q d = List.find (\<lambda>a. ar_id a = i \<and> ar_queue_id a = Some q) (ad_attempts d)"

definition update_sync_meta :: "rat \<Rightarrow> string \<Rightarrow> acq_db \<Rightarrow> acq_db" where
  "update_sync_meta now scope d = d\<lparr>ad_sync := Some (now, scope)\<rparr>"

text \<open>A nullable text column as a Python value, and \<open>str(column or "").strip().lower()\<close>.\<close>

definition column :: "string option \<Rightarrow> pyval" where
  "column c = (case c of None \<Rightarrow> PNone | Some s \<Rightarrow> PStr s)"

definition clean :: "string option \<Rightarrow> string" where
  "clean c = (case c of None \<Rightarrow> [] | Some s \<Rightarrow> lower (strip s))"

section \<open>How a download task is shown\<close>

definition DOWNLOAD_TASK_WAITING_STATUSES :: "string list" where
  "DOWNLOAD_TASK_WAITING_STATUSES = [''sent'', ''waiting_for_slot'', ''download_started'',
     ''started_waiting'', ''already_downloading'', ''waiting_for_transfer'',
     ''waiting_for_complete_source'']"

definition DOWNLOAD_TASK_TRANSFERRING_STATUSES :: "string list" where
  "DOWNLOAD_TASK_TRANSFERRING_STATUSES =
     [''downloading'', ''transfer_in_progress'', ''transfer_settling'']"

definition verified_statuses :: "string list" where
  "verified_statuses = [''resolved'', ''already_verified'', ''verified'', ''folder_verified'',
     ''library_visible'', ''kavita_verified'', ''queue_verified'', ''queue_satisfied'']"

definition download_task_outcome :: "string option \<Rightarrow> string option \<Rightarrow> string option \<Rightarrow> string" where
  "download_task_outcome state status lifecycle_phase =
     (let state = clean state; status = clean status; phase = clean lifecycle_phase in
      if state = ''verified'' \<or> phase = ''verified'' \<or> status \<in> set verified_statuses then ''productive''
      else if state \<in> {''failed'', ''blocked''}
              \<or> phase \<in> {''failed_candidate'', ''manual_review'', ''provider_wait''} then ''problem''
      else if contains_any status [''fail'', ''error'', ''blocked'', ''bad'', ''stale'', ''mismatch'']
      then ''problem''
      else if state \<in> {''downloading'', ''import_ready'', ''importing''} then ''productive''
      else if phase \<in> {''downloading'', ''staged_or_importing'', ''verifying''} then ''productive''
      else ''neutral'')"

definition download_task_display_phase ::
    "string option \<Rightarrow> string option \<Rightarrow> string option \<Rightarrow> string option \<Rightarrow> string" where
  "download_task_display_phase state status lifecycle_phase outcome =
     (let state = clean state; status = clean status; phase = clean lifecycle_phase;
          outcome = lower (strip (case outcome of
            Some (c # cs) \<Rightarrow> c # cs
          | _ \<Rightarrow> download_task_outcome (Some state) (Some status) (Some phase))) in
      if state = ''verified'' \<or> phase = ''verified'' \<or> status \<in> set verified_statuses then ''verified''
      else if phase = ''provider_wait'' \<or> status \<in> {''provider_wait'', ''provider_unavailable''}
      then ''provider_wait''
      else if state \<in> {''failed'', ''blocked''} \<or> outcome = ''problem'' then ''problem''
      else if state = ''import_ready''
              \<or> status \<in> {''preview_importable'', ''ready_import'', ''staged_file_ready''}
      then ''import_ready''
      else if state = ''importing'' \<or> phase = ''verifying''
              \<or> status \<in> {''verification_pending'', ''imported_not_resolved''} then ''verifying''
      else if phase = ''staged_or_importing'' \<or> status \<in> {''import_busy'', ''staged_file_settling''}
      then ''importing''
      else if status \<in> set DOWNLOAD_TASK_WAITING_STATUSES then ''source_wait''
      else if status \<in> set DOWNLOAD_TASK_TRANSFERRING_STATUSES then ''transferring''
      else if state = ''downloading'' \<or> phase = ''downloading'' then ''source_wait''
      else if state = ''queued'' then ''queued''
      else ''observed'')"

section \<open>Hashing a file\<close>

text \<open>A path reads as a size and the bytes, if they can be read; \<open>None\<close> if \<open>stat\<close> fails.\<close>

type_synonym file_system = "string \<Rightarrow> (int \<times> string option) option"

datatype file_hash =
    Hashed string
  | Unhashed string

definition media_file_sha256 :: "(string \<Rightarrow> string) \<Rightarrow> file_system \<Rightarrow> string \<Rightarrow> int \<Rightarrow> file_hash" where
  "media_file_sha256 sha fs path max_bytes =
     (let text = strip path; limit = max 1 (if max_bytes = 0 then 512 * 1024 * 1024 else max_bytes) in
      if text = [] then Unhashed ''missing_path''
      else case fs text of
        None \<Rightarrow> Unhashed ''hash_read_failed''
      | Some (n, bytes) \<Rightarrow>
          if n > limit then Unhashed ''file_too_large''
          else case bytes of None \<Rightarrow> Unhashed ''hash_read_failed'' | Some b \<Rightarrow> Hashed (sha b))"

section \<open>Finding rows\<close>

lemma find_update_where:
  "(\<And>r. P (f r) = P r) \<Longrightarrow>
   List.find P (update_where p f rows) = map_option (\<lambda>r. if p r then f r else r) (List.find P rows)"
  by (induction rows) (auto simp: update_where_def)

lemma find_queue_update:
  "(\<And>r. qr_id (f r) = qr_id r) \<Longrightarrow>
   find_queue i (d\<lparr>ad_queue := update_where p f (ad_queue d)\<rparr>)
     = map_option (\<lambda>r. if p r then f r else r) (find_queue i d)"
  by (simp add: find_queue_def find_update_where)

lemma find_task_update:
  "(\<And>r. tr_id (f r) = tr_id r) \<Longrightarrow> (\<And>r. tr_queue_id (f r) = tr_queue_id r) \<Longrightarrow>
   find_task i q (d\<lparr>ad_tasks := update_where p f (ad_tasks d)\<rparr>)
     = map_option (\<lambda>r. if p r then f r else r) (find_task i q d)"
  by (simp add: find_task_def find_update_where task_key_def)

lemma find_queue_id: "find_queue i d = Some r \<Longrightarrow> qr_id r = i \<and> r \<in> set (ad_queue d)"
  by (auto simp: find_queue_def find_Some_iff)

lemma find_task_id: "find_task i q d = Some r \<Longrightarrow> task_key i q r \<and> r \<in> set (ad_tasks d)"
  by (auto simp: find_task_def find_Some_iff)

text \<open>The primary keys.\<close>

definition db_ok :: "acq_db \<Rightarrow> bool" where
  "db_ok d = (distinct (map qr_id (ad_queue d)) \<and> distinct (map tr_id (ad_tasks d)))"

lemma find_unique:
  assumes "distinct (map f xs)" "r \<in> set xs" "P r" "\<And>s. P s \<Longrightarrow> f s = f r"
  shows "List.find P xs = Some r"
proof (cases "List.find P xs")
  case None
  with assms(2,3) show ?thesis by (auto simp: find_None_iff)
next
  case (Some s)
  then have "s \<in> set xs" "P s" by (auto simp: find_Some_iff)
  with assms(1,2,4) Some show ?thesis by (metis distinct_map inj_on_eq_iff)
qed

lemma count_unique:
  assumes "distinct (map f xs)" "r \<in> set xs" "P r" "\<And>s. P s \<Longrightarrow> f s = f r"
  shows "count_where P xs = 1"
proof -
  have inj: "inj_on f (set xs)" using assms(1) by (simp add: distinct_map)
  have "s = r" if "s \<in> set xs" "P s" for s
    by (rule inj_onD [OF inj assms(4) [OF that(2)] that(1) assms(2)])
  then have "set (filter P xs) = {r}" unfolding set_filter using assms(2,3) by blast
  moreover have "distinct (filter P xs)" using assms(1) by (simp add: distinct_map)
  ultimately show ?thesis using distinct_card [of "filter P xs"] by (simp add: count_where_def)
qed

lemma db_ok_queue: "db_ok d \<Longrightarrow> r \<in> set (ad_queue d) \<Longrightarrow> find_queue (qr_id r) d = Some r"
  unfolding db_ok_def find_queue_def by (intro find_unique [where f = qr_id]) auto

lemma db_ok_task: "db_ok d \<Longrightarrow> r \<in> set (ad_tasks d) \<Longrightarrow> tr_queue_id r = Some q \<Longrightarrow> find_task (tr_id r) q d = Some r"
  unfolding db_ok_def find_task_def by (intro find_unique [where f = tr_id]) (auto simp: task_key_def)

end
