(* ===== verification/ImportAuthority.thy ===== *)
theory ImportAuthority
  imports ImportTables "HOL-Library.Product_Lexorder"
begin

text \<open>
  The import authority of \<^verbatim>\<open>core/inkdrop_state.py\<close>: before a worker may place the file of a finished
  download, it claims the queue item for exactly one download task. The claim writes a fresh token
  into the queue row and the task row; every later step presents the token together with the
  identity of the task and is validated against both rows. This theory holds the operations; the
  guarantees are in \<open>ImportOwner\<close>.

  An operation is one transaction. SHA-256, the file system and the text form of a time are the
  fields of \<open>host\<close>; the clock and the fresh token of a claim are arguments. What \<open>sqlite3\<close> raises
  when the database cannot be read or locked is not modelled: the transaction then changes nothing.
\<close>

section \<open>Values\<close>

record host =
  ho_sha256 :: "string \<Rightarrow> string"
  ho_files :: file_system
  ho_stamp :: "rat \<Rightarrow> string"

text \<open>\<open>{"ok": False, "reason": ...}\<close> with further fields, or an exception.\<close>

datatype refusal =
    Refusal string pydict
  | Raised py_exn

definition import_authority_identity :: "pyval \<Rightarrow> string" where
  "import_authority_identity v = strip (str_or_empty v)"

definition import_authority_path :: "pyval \<Rightarrow> string" where
  "import_authority_path v =
     map (\<lambda>c. if c = CHR 0x5C then CHR ''/'' else c) (strip (str_or_empty v))"

definition import_authority_from_raw :: "pyval \<Rightarrow> pydict" where
  "import_authority_from_raw raw = as_dict (get (as_dict raw) ''import_authority'')"

definition authority_field :: "pydict \<Rightarrow> string \<Rightarrow> string" where
  "authority_field authority k = import_authority_identity (get authority k)"

definition IMPORT_CLAIM_CONTENT_HASH_MAX_BYTES :: int where
  "IMPORT_CLAIM_CONTENT_HASH_MAX_BYTES = 8 * 1024 * 1024 * 1024"

definition import_claim_content_identity :: "host \<Rightarrow> string \<Rightarrow> string + string" where
  "import_claim_content_identity h local_path =
     (case media_file_sha256 (ho_sha256 h) (ho_files h) (strip local_path) IMPORT_CLAIM_CONTENT_HASH_MAX_BYTES of
        Hashed digest \<Rightarrow> if digest = [] then Inl ''hash_unavailable'' else Inr digest
      | Unhashed reason \<Rightarrow> Inl reason)"

section \<open>Validating an authority\<close>

text \<open>The identity fields of a task: the name, what the row says.\<close>

definition identity_fields :: "task_row \<Rightarrow> (string \<times> pyval) list" where
  "identity_fields t =
     [(''source_attempt_id'', column (tr_source_attempt_id t)),
      (''external_id'', column (tr_external_id t)),
      (''candidate_identity'', column (tr_candidate_identity t)),
      (''download_client'', PStr (clean (tr_download_client t)))]"

fun first_mismatch :: "pydict \<Rightarrow> pydict \<Rightarrow> (string \<times> pyval) list \<Rightarrow> string option" where
  "first_mismatch authority persisted [] = None"
| "first_mismatch authority persisted ((k, v) # fs) =
     (if authority_field authority k \<noteq> import_authority_identity v
         \<or> authority_field persisted k \<noteq> import_authority_identity v
      then Some k else first_mismatch authority persisted fs)"

definition content_agrees :: "pydict \<Rightarrow> pydict \<Rightarrow> pydict \<Rightarrow> bool" where
  "content_agrees authority task_authority queue_authority =
     (let c = authority_field authority ''content_sha256'' in
      c \<noteq> [] \<and> c = authority_field task_authority ''content_sha256''
      \<and> c = authority_field queue_authority ''content_sha256'')"

text \<open>The anchor of the identity: the client's job, or the content of a file that has none.\<close>

definition anchor_error :: "task_row \<Rightarrow> pydict \<Rightarrow> pydict \<Rightarrow> pydict \<Rightarrow> string option" where
  "anchor_error t authority task_authority queue_authority =
     (case tr_external_id t of
        None \<Rightarrow> if content_agrees authority task_authority queue_authority then None
               else Some ''import_authority_content_identity_mismatch''
      | Some e \<Rightarrow> if import_authority_identity (PStr e) = []
                 then Some ''import_authority_external_id_missing'' else None)"

definition path_error :: "task_row \<Rightarrow> pydict \<Rightarrow> pydict \<Rightarrow> pyval \<Rightarrow> string option" where
  "path_error t authority task_authority source_path =
     (let expected = import_authority_path (get authority ''local_path'');
          callback = import_authority_path source_path in
      if expected = [] \<or> expected \<noteq> import_authority_path (get task_authority ''local_path'')
         \<or> expected \<noteq> import_authority_path (column (tr_local_path t))
      then Some ''import_authority_local_path_mismatch''
      else if callback \<noteq> [] \<and> callback \<noteq> expected
      then Some ''import_authority_callback_path_mismatch'' else None)"

record validated =
  va_authority :: pydict
  va_queue :: queue_row
  va_queue_raw :: pydict
  va_task :: task_row
  va_task_raw :: pydict

text \<open>The checks on the two rows, in their order; \<open>None\<close> when all of them pass.\<close>

definition authority_error :: "queue_row \<Rightarrow> task_row \<Rightarrow> pydict \<Rightarrow> pyval \<Rightarrow> (string \<times> pydict) option" where
  "authority_error q t authority source_path =
     (let qa = import_authority_from_raw (qr_raw q); ta = import_authority_from_raw (tr_raw t);
          token = authority_field authority ''token'';
          state = lower (strip (tr_state t)); status = clean (tr_status t) in
      if authority_field qa ''token'' \<noteq> token then Some (''import_authority_queue_stale'', [])
      else if authority_field ta ''token'' \<noteq> token then Some (''import_authority_task_stale'', [])
      else if state \<noteq> ''importing'' \<or> status \<noteq> ''import_in_progress''
      then Some (''import_authority_task_not_active'', [(''state'', PStr state), (''status'', PStr status)])
      else case first_mismatch authority ta (identity_fields t) of
        Some k \<Rightarrow> Some (''import_authority_'' @ k @ ''_mismatch'', [])
      | None \<Rightarrow>
          if import_authority_identity (column (tr_source_attempt_id t)) = []
          then Some (''import_authority_source_attempt_missing'', [])
          else case anchor_error t authority ta qa of
            Some r \<Rightarrow> Some (r, [])
          | None \<Rightarrow>
              if import_authority_identity (column (tr_candidate_identity t)) = []
              then Some (''import_authority_candidate_identity_missing'', [])
              else case path_error t authority ta source_path of
                Some r \<Rightarrow> Some (r, [])
              | None \<Rightarrow> if lower (strip (qr_state q)) = ''verified''
                       then Some (''queue_already_verified'', []) else None)"

definition validate_import_authority ::
    "acq_db \<Rightarrow> string \<Rightarrow> pydict \<Rightarrow> pyval \<Rightarrow> refusal + validated" where
  "validate_import_authority d queue_id authority source_path =
     (if authority_field authority ''token'' = [] \<or> authority_field authority ''download_task_id'' = []
      then Inl (Refusal ''import_authority_missing'' [])
      else if authority_field authority ''queue_id'' \<noteq> strip queue_id
      then Inl (Refusal ''import_authority_queue_mismatch'' [])
      else case find_queue queue_id d of
        None \<Rightarrow> Inl (Refusal ''queue_item_not_found'' [])
      | Some q \<Rightarrow> (case find_task (authority_field authority ''download_task_id'') queue_id d of
            None \<Rightarrow> Inl (Refusal ''import_authority_task_missing'' [])
          | Some t \<Rightarrow> (case authority_error q t authority source_path of
                Some (reason, extra) \<Rightarrow> Inl (Refusal reason extra)
              | None \<Rightarrow> Inr \<lparr>va_authority = authority, va_queue = q, va_queue_raw = as_dict (qr_raw q),
                          va_task = t, va_task_raw = as_dict (tr_raw t)\<rparr>)))"

definition active_import_authority :: "acq_db \<Rightarrow> string \<Rightarrow> string \<Rightarrow> pyval \<Rightarrow> pydict" where
  "active_import_authority d queue_id task_id source_path =
     (case find_task (strip task_id) (strip queue_id) d of
        None \<Rightarrow> []
      | Some t \<Rightarrow>
          let authority = import_authority_from_raw (tr_raw t) in
          (case validate_import_authority d queue_id authority source_path of
             Inr _ \<Rightarrow> authority | Inl _ \<Rightarrow> []))"

section \<open>Claiming\<close>

record claim =
  cm_source_attempt_id :: "string option"
  cm_external_id :: "string option"
  cm_candidate_identity :: "string option"
  cm_download_client :: "string option"
  cm_local_path :: "string option"

definition ready_statuses :: "string list" where
  "ready_statuses = [''staged_file_ready'', ''ready_import'', ''preview_importable'',
     ''ready_to_import'', ''completed_in_client'']"

definition cell :: "string option \<Rightarrow> string" where
  "cell c = import_authority_identity (column c)"

text \<open>The dictionary \<open>expected\<close>.\<close>

definition expected_identity :: "string \<Rightarrow> string \<Rightarrow> claim \<Rightarrow> string \<Rightarrow> pydict" where
  "expected_identity queue_id task_id c content =
     [(''queue_id'', PStr queue_id), (''download_task_id'', PStr task_id),
      (''source_attempt_id'', PStr (cell (cm_source_attempt_id c))),
      (''external_id'', PStr (cell (cm_external_id c))),
      (''candidate_identity'', PStr (cell (cm_candidate_identity c))),
      (''download_client'', PStr (lower (cell (cm_download_client c)))),
      (''local_path'', PStr (cell (cm_local_path c))),
      (''content_sha256'', PStr content)]"

definition move_pending :: "acq_db \<Rightarrow> string \<Rightarrow> bool" where
  "move_pending d series_id =
     (let raw = (case dget (ad_series d) series_id of Some r \<Rightarrow> r | None \<Rightarrow> PDict []);
          move = get (as_dict raw) ''library_migration'' in
      is_dict move \<and> str_or_empty (get (as_dict move) ''state'') = ''pending'')"

fun first_difference :: "pydict \<Rightarrow> (string \<times> pyval) list \<Rightarrow> string option" where
  "first_difference expected [] = None"
| "first_difference expected ((k, v) # fs) =
     (if authority_field expected k \<noteq> import_authority_identity v then Some k
      else first_difference expected fs)"

definition claim_error :: "acq_db \<Rightarrow> queue_row \<Rightarrow> task_row \<Rightarrow> pydict \<Rightarrow> (string \<times> pydict) option" where
  "claim_error d q t expected =
     (let state = lower (strip (tr_state t)); status = clean (tr_status t);
          path = import_authority_path (get expected ''local_path'') in
      if lower (strip (qr_state q)) = ''verified'' \<or> qr_active q = 0 then Some (''queue_not_active'', [])
      else if move_pending d (qr_series_id q) then Some (''series_move_in_progress'', [])
      else if state \<noteq> ''import_ready'' \<or> status \<notin> set ready_statuses
      then Some (''task_not_import_ready'', [(''state'', PStr state), (''status'', PStr status)])
      else case first_difference expected (identity_fields t) of
        Some k \<Rightarrow> Some (''import_claim_'' @ k @ ''_mismatch'', [])
      | None \<Rightarrow>
          if \<not> truthy (get expected ''source_attempt_id'')
          then Some (''import_claim_source_attempt_missing'', [])
          else if \<not> truthy (get expected ''external_id'') \<and> \<not> truthy (get expected ''content_sha256'')
          then Some (''import_claim_external_id_missing'', [])
          else if \<not> truthy (get expected ''candidate_identity'')
          then Some (''import_claim_candidate_identity_missing'', [])
          else if path = [] \<or> path \<noteq> import_authority_path (column (tr_local_path t))
          then Some (''import_claim_local_path_mismatch'', [])
          else if authority_field (import_authority_from_raw (qr_raw q)) ''token'' \<noteq> []
          then Some (''import_authority_already_claimed'', [])
          else None)"

definition importing_task :: "rat \<Rightarrow> pydict \<Rightarrow> task_row \<Rightarrow> task_row" where
  "importing_task now raw t =
     (let outcome = download_task_outcome (Some ''importing'') (Some ''import_in_progress'') (Some ''importing'') in
      t\<lparr>tr_state := ''importing'', tr_status := Some ''import_in_progress'',
        tr_lifecycle_phase := Some ''importing'', tr_outcome := Some outcome,
        tr_display_phase := Some (download_task_display_phase (Some ''importing'')
          (Some ''import_in_progress'') (Some ''importing'') (Some outcome)),
        tr_retry_eligible := Some 0, tr_failure_reason := None, tr_updated_at := Some now,
        tr_raw := PDict raw\<rparr>)"

definition importing_queue :: "rat \<Rightarrow> string \<Rightarrow> pydict \<Rightarrow> queue_row \<Rightarrow> queue_row" where
  "importing_queue now source raw q =
     q\<lparr>qr_state := ''importing'', qr_current_source := Some source,
       qr_last_event := Some ''Importing completed transfer'', qr_active := 1,
       qr_outcome := Some ''in_progress'', qr_display_phase := Some ''staged_or_importing'',
       qr_updated_at := Some now, qr_raw := PDict raw\<rparr>"

definition set_wanted :: "rat \<Rightarrow> string option \<Rightarrow> (wanted_row \<Rightarrow> bool) \<Rightarrow> string \<Rightarrow> acq_db \<Rightarrow> acq_db" where
  "set_wanted now wanted_id p status d =
     (if wanted_id \<in> {None, Some []} then d
      else d\<lparr>ad_wanted := update_where (\<lambda>w. Some (wr_id w) = wanted_id \<and> p w)
               (\<lambda>w. w\<lparr>wr_status := status, wr_updated_at := Some now\<rparr>) (ad_wanted d)\<rparr>)"

text \<open>The two guarded updates; a count other than one undoes both.\<close>

definition grant ::
    "rat \<Rightarrow> queue_row \<Rightarrow> task_row \<Rightarrow> pydict \<Rightarrow> acq_db \<Rightarrow> (refusal + pydict) \<times> acq_db" where
  "grant now q t authority d =
     (let client = lower (cell (tr_download_client t));
          task_raw = dset ''import_authority'' (PDict authority) (as_dict (tr_raw t));
          queue_raw = dset ''import_authority'' (PDict authority) (as_dict (qr_raw q));
          this_task = (\<lambda>r. tr_id r = tr_id t \<and> tr_queue_id r = Some (qr_id q)
            \<and> tr_state r = ''import_ready'' \<and> tr_status r = tr_status t \<and> tr_status t \<noteq> None);
          this_queue = (\<lambda>r. qr_id r = qr_id q \<and> qr_active r = 1 \<and> qr_state r \<noteq> ''verified'') in
      if count_where this_task (ad_tasks d) \<noteq> 1
      then (Inl (Refusal ''import_claim_task_compare_failed'' []), d)
      else if count_where this_queue (ad_queue d) \<noteq> 1
      then (Inl (Refusal ''import_claim_queue_compare_failed'' []), d)
      else (Inr authority, update_sync_meta now ''import_authority_claimed''
        (set_wanted now (qr_wanted_id q) (\<lambda>_. True) ''in_progress''
          (d\<lparr>ad_tasks := update_where this_task (importing_task now task_raw) (ad_tasks d),
             ad_queue := update_where this_queue
               (importing_queue now (if client = [] then ''download_client'' else client) queue_raw)
               (ad_queue d)\<rparr>))))"

definition claim_content :: "host \<Rightarrow> claim \<Rightarrow> string + string" where
  "claim_content h c =
     (case cm_external_id c of
        None \<Rightarrow> import_claim_content_identity h (cell (cm_local_path c))
      | Some _ \<Rightarrow> Inr [])"

definition claim_import_authority ::
    "host \<Rightarrow> rat \<Rightarrow> string \<Rightarrow> string \<Rightarrow> string \<Rightarrow> claim \<Rightarrow> acq_db \<Rightarrow> (refusal + pydict) \<times> acq_db" where
  "claim_import_authority h now token queue_id download_task_id c d =
     (let queue_id = strip queue_id; task_id = strip download_task_id in
      if queue_id = [] \<or> task_id = [] then (Inl (Refusal ''missing_queue_or_task_id'' []), d)
      else case claim_content h c of
        Inl detail \<Rightarrow>
          (Inl (Refusal ''import_claim_content_identity_unavailable'' [(''detail'', PStr detail)]), d)
      | Inr content \<Rightarrow>
          (let expected = expected_identity queue_id task_id c content in
           case (find_queue queue_id d, find_task task_id queue_id d) of
             (None, _) \<Rightarrow> (Inl (Refusal ''queue_item_not_found'' []), d)
           | (_, None) \<Rightarrow> (Inl (Refusal ''download_task_not_found'' []), d)
           | (Some q, Some t) \<Rightarrow> (case claim_error d q t expected of
                 Some (reason, extra) \<Rightarrow> (Inl (Refusal reason extra), d)
               | None \<Rightarrow> grant now q t (expected @ [(''token'', PStr token),
                     (''claimed_at'', PFloat (Fin now)), (''claimed_at_iso'', PStr (ho_stamp h now))]) d)))"

section \<open>Releasing\<close>

definition is_bad_archive :: "string \<Rightarrow> bool" where
  "is_bad_archive reason =
     contains_any (lower reason) [''bad_archive'', ''bad_zip_member'', ''cbr_extract_failed'', ''skip_bad_comic_archive'']"

definition reason_or_default :: "string \<Rightarrow> string" where
  "reason_or_default reason = (if reason = [] then ''import_failed'' else reason)"

definition released_raw :: "host \<Rightarrow> rat \<Rightarrow> string \<Rightarrow> bool \<Rightarrow> pydict \<Rightarrow> pydict" where
  "released_raw h now reason blocked raw =
     dupdate (dupdate (ddel ''import_authority'' raw)
       [(''import_authority_released_at'', PFloat (Fin now)),
        (''import_authority_released_at_iso'', PStr (ho_stamp h now)),
        (''import_authority_release_reason'', PStr (reason_or_default reason))])
       (if \<not> blocked then [] else
         [(''artifact_retry_blocked'', PBool True), (''artifact_retry_blocked_at'', PFloat (Fin now)),
          (''artifact_retry_blocked_at_iso'', PStr (ho_stamp h now)),
          (''artifact_retry_blocked_reason'', PStr (strip (reason_or_default reason)))])"

record task_end =
  te_state :: string
  te_status :: string
  te_phase :: string
  te_retry :: int

definition task_end_of :: "bool \<Rightarrow> bool \<Rightarrow> string \<Rightarrow> task_end" where
  "task_end_of retry_staged blocked reason =
     (if retry_staged then
        \<lparr>te_state = ''import_ready'', te_status = ''staged_file_ready'', te_phase = ''import_ready'', te_retry = 0\<rparr>
      else
        \<lparr>te_state = ''failed'', te_status = (if is_bad_archive reason then ''bad_archive'' else ''failed_import''),
          te_phase = ''failed_candidate'', te_retry = (if blocked then 0 else 1)\<rparr>)"

definition or_now :: "rat \<Rightarrow> rat option \<Rightarrow> rat option" where
  "or_now now t = (case t of None \<Rightarrow> Some now | Some _ \<Rightarrow> t)"

definition released_task :: "rat \<Rightarrow> task_end \<Rightarrow> string \<Rightarrow> pydict \<Rightarrow> task_row \<Rightarrow> task_row" where
  "released_task now e reason raw t =
     t\<lparr>tr_state := te_state e, tr_status := Some (te_status e), tr_lifecycle_phase := Some (te_phase e),
       tr_failure_reason := Some reason, tr_retry_eligible := Some (te_retry e),
       tr_updated_at := Some now, tr_completed_at := or_now now (tr_completed_at t), tr_raw := PDict raw\<rparr>"

definition released_attempt :: "rat \<Rightarrow> string \<Rightarrow> string \<Rightarrow> string \<Rightarrow> pydict \<Rightarrow> attempt_row \<Rightarrow> attempt_row" where
  "released_attempt now status reason task_id raw a =
     a\<lparr>ar_status := Some status, ar_lifecycle_phase := Some ''failed_candidate'', ar_outcome := Some ''failed'',
       ar_display_phase := Some ''retry_later'', ar_failure_reason := Some reason, ar_retry_eligible := Some 1,
       ar_completed_at := or_now now (ar_completed_at a),
       ar_raw := PDict (dupdate raw [(''import_authority_released_at'', PFloat (Fin now)),
         (''import_authority_release_reason'', PStr reason), (''download_task_id'', PStr task_id)])\<rparr>"

definition release_attempt ::
    "rat \<Rightarrow> string \<Rightarrow> string \<Rightarrow> string \<Rightarrow> string \<Rightarrow> string \<Rightarrow> acq_db \<Rightarrow> acq_db" where
  "release_attempt now status reason task_id attempt_id queue_id d =
     (if attempt_id = [] then d
      else case find_attempt attempt_id queue_id d of
        None \<Rightarrow> d
      | Some a \<Rightarrow> d\<lparr>ad_attempts := update_where (\<lambda>r. ar_id r = attempt_id \<and> ar_queue_id r = Some queue_id)
          (released_attempt now status reason task_id (as_dict (ar_raw a))) (ad_attempts d)\<rparr>)"

definition first_text :: "string option list \<Rightarrow> string \<Rightarrow> string" where
  "first_text cs fallback =
     (case filter (\<lambda>c. c \<notin> {None, Some []}) cs of Some s # _ \<Rightarrow> s | _ \<Rightarrow> fallback)"

definition note_bad_archive :: "rat \<Rightarrow> string \<Rightarrow> string \<Rightarrow> string \<Rightarrow> string \<Rightarrow> task_row \<Rightarrow> acq_db \<Rightarrow> acq_db" where
  "note_bad_archive now reason queue_id task_id attempt_id t d =
     d\<lparr>ad_bad := ad_bad d @ [\<lparr>
        bs_source = first_text [tr_source t, tr_download_client t] ''download_client'',
        bs_provider = tr_provider t, bs_protocol = tr_protocol t, bs_title = tr_title t,
        bs_download_url_hash = tr_candidate_identity t, bs_source_path = tr_local_path t,
        bs_reason = reason, bs_queue_id = queue_id, bs_task_id = task_id, bs_attempt_id = attempt_id,
        bs_external_id = tr_external_id t, bs_seen_at = now\<rparr>]\<rparr>"

text \<open>The most recent other task of the queue item that is still on its way.\<close>

definition on_its_way :: "string \<Rightarrow> string \<Rightarrow> task_row \<Rightarrow> bool" where
  "on_its_way queue_id task_id r =
     (tr_queue_id r = Some queue_id \<and> tr_id r \<noteq> task_id
      \<and> sql_lower (tr_state r) \<in> {''queued'', ''downloading'', ''import_ready'', ''importing''}
      \<and> sql_lower (case tr_status r of Some s \<Rightarrow> s | None \<Rightarrow> [])
          \<notin> {''failed'', ''error'', ''known_bad'', ''wrong_unit'', ''wrong_series''})"

definition task_recency :: "task_row \<Rightarrow> rat" where
  "task_recency r = (case tr_updated_at r of Some t \<Rightarrow> t
     | None \<Rightarrow> (case tr_started_at r of Some t \<Rightarrow> t | None \<Rightarrow> 0))"

definition active_sibling :: "string \<Rightarrow> string \<Rightarrow> acq_db \<Rightarrow> task_row option" where
  "active_sibling queue_id task_id d =
     (case sort_key (\<lambda>r. - task_recency r) (filter (on_its_way queue_id task_id) (ad_tasks d)) of
        [] \<Rightarrow> None | r # _ \<Rightarrow> Some r)"

record queue_end =
  qe_state :: string
  qe_source :: "string option"
  qe_event :: string
  qe_wanted :: string

definition queue_end_of :: "bool \<Rightarrow> string \<Rightarrow> pydict \<Rightarrow> queue_row \<Rightarrow> task_row option \<Rightarrow> queue_end" where
  "queue_end_of retry_staged reason authority q sibling =
     (if retry_staged then
        (let client = authority_field authority ''download_client'' in
         \<lparr>qe_state = ''importing'', qe_source = Some (if client = [] then ''download_client'' else client),
          qe_event = ''Completed transfer is ready for another import attempt'', qe_wanted = ''in_progress''\<rparr>)
      else case sibling of
        Some r \<Rightarrow>
          (let downloading = lower (strip (tr_state r)) \<in> {''queued'', ''downloading''};
               client = clean (tr_download_client r) in
           \<lparr>qe_state = (if downloading then ''downloading'' else ''importing''),
            qe_source = (if client = [] then qr_current_source q else Some client),
            qe_event = ''Another active download remains in progress'',
            qe_wanted = (if downloading then ''downloading'' else ''in_progress'')\<rparr>)
      | None \<Rightarrow>
          \<lparr>qe_state = ''queued'', qe_source = None,
           qe_event = (if is_bad_archive reason
             then ''The downloaded archive is invalid; Automatic Search will try another result''
             else ''Import failed; Automatic Search will retry''),
           qe_wanted = ''wanted''\<rparr>)"

definition released_queue :: "rat \<Rightarrow> queue_end \<Rightarrow> bool \<Rightarrow> bool \<Rightarrow> pydict \<Rightarrow> queue_row \<Rightarrow> queue_row" where
  "released_queue now e retry_staged sibling raw q =
     q\<lparr>qr_state := qe_state e, qr_current_source := qe_source e, qr_last_event := Some (qe_event e),
       qr_active := 1, qr_outcome := Some (if sibling \<or> retry_staged then ''in_progress'' else ''retryable''),
       qr_display_phase := Some (if retry_staged then ''staged_or_importing''
         else if sibling then ''downloading'' else ''retry_later''),
       qr_updated_at := Some now, qr_raw := PDict raw\<rparr>"

record released =
  rl_task_state :: string
  rl_queue_state :: string
  rl_sibling_preserved :: bool

definition release_import_authority ::
    "host \<Rightarrow> rat \<Rightarrow> pydict \<Rightarrow> string \<Rightarrow> bool \<Rightarrow> bool \<Rightarrow> acq_db \<Rightarrow> (refusal + released) \<times> acq_db" where
  "release_import_authority h now authority reason retry_staged blocked d =
     (let queue_id = authority_field authority ''queue_id'';
          task_id = authority_field authority ''download_task_id'';
          attempt_id = authority_field authority ''source_attempt_id'' in
      case validate_import_authority d queue_id authority PNone of
        Inl e \<Rightarrow> (Inl e, d)
      | Inr v \<Rightarrow>
          (let text = strip (reason_or_default reason);
               te = task_end_of retry_staged blocked text;
               d1 = d\<lparr>ad_tasks := update_where (task_key task_id queue_id)
                        (released_task now te text (released_raw h now reason blocked (va_task_raw v)))
                        (ad_tasks d)\<rparr>;
               d2 = release_attempt now (te_status te) text task_id attempt_id queue_id d1;
               d3 = (if is_bad_archive text
                     then note_bad_archive now text queue_id task_id attempt_id (va_task v) d2 else d2);
               sibling = active_sibling queue_id task_id d3;
               q = va_queue v;
               qe = queue_end_of retry_staged text authority q sibling;
               d4 = d3\<lparr>ad_queue := update_where (\<lambda>r. qr_id r = queue_id \<and> qr_state r \<noteq> ''verified'')
                        (released_queue now qe retry_staged (sibling \<noteq> None)
                          (ddel ''import_authority'' (va_queue_raw v))) (ad_queue d3)\<rparr>
           in (Inr \<lparr>rl_task_state = te_state te, rl_queue_state = qe_state qe,
                    rl_sibling_preserved = (sibling \<noteq> None)\<rparr>,
               update_sync_meta now ''import_authority_released''
                 (set_wanted now (qr_wanted_id q) (\<lambda>w. wr_status w \<noteq> ''satisfied'') (qe_wanted qe) d4))))"

section \<open>Recovery\<close>

text \<open>
  \<open>raw_json like '%"import_authority"%'\<close> on the text of a value: the underscore of a pattern stands
  for any character and letters match in either case, so a key or string matches when it is the
  pattern's word, or ends with it behind a quotation mark.
\<close>

definition like_word :: "string \<Rightarrow> bool" where
  "like_word s = (length s = 16 \<and> sql_lower (take 6 s) = ''import'' \<and> sql_lower (drop 7 s) = ''authority'')"

definition like_text :: "string \<Rightarrow> bool" where
  "like_text s =
     (like_word s \<or> (length s > 16 \<and> s ! (length s - 17) = CHR 0x22 \<and> like_word (drop (length s - 16) s)))"

fun mentions :: "pyval \<Rightarrow> bool"
  and mentions_list :: "pyval list \<Rightarrow> bool"
  and mentions_dict :: "(string \<times> pyval) list \<Rightarrow> bool" where
  "mentions (PStr s) = like_text s"
| "mentions (PList xs) = mentions_list xs"
| "mentions (PDict m) = mentions_dict m"
| "mentions _ = False"
| "mentions_list [] = False"
| "mentions_list (v # vs) = (mentions v \<or> mentions_list vs)"
| "mentions_dict [] = False"
| "mentions_dict ((k, v) # m) = (like_text k \<or> mentions v \<or> mentions_dict m)"

record authority_ref =
  af_queue_id :: string
  af_task_id :: string
  af_fingerprint :: string

definition authority_ref_of :: "host \<Rightarrow> pydict \<Rightarrow> authority_ref" where
  "authority_ref_of h authority =
     (let token = authority_field authority ''token'' in
      \<lparr>af_queue_id = authority_field authority ''queue_id'',
       af_task_id = authority_field authority ''download_task_id'',
       af_fingerprint = (if token = [] then [] else take 16 (ho_sha256 h token))\<rparr>)"

text \<open>The authorities of both tables, one per token: the last one found, at the place of the first.\<close>

definition persisted_authorities :: "acq_db \<Rightarrow> pydict list" where
  "persisted_authorities d =
     (let raws = filter mentions (map tr_raw (ad_tasks d)) @ filter mentions (map qr_raw (ad_queue d));
          found = filter (\<lambda>a. authority_field a ''token'' \<noteq> []) (map import_authority_from_raw raws)
      in map snd (fold (\<lambda>a m. dset (authority_field a ''token'') a m) found []))"

fun release_all ::
    "host \<Rightarrow> rat \<Rightarrow> string \<Rightarrow> pydict list \<Rightarrow> acq_db \<Rightarrow> (pydict \<times> refusal) list \<times> acq_db" where
  "release_all h now reason [] d = ([], d)"
| "release_all h now reason (a # as) d =
     (case release_import_authority h now a reason True False d of
        (Inl e, d') \<Rightarrow> (case release_all h now reason as d' of (fs, d'') \<Rightarrow> ((a, e) # fs, d''))
      | (Inr _, d') \<Rightarrow> release_all h now reason as d')"

record recovery =
  rv_found :: nat
  rv_recovered :: nat
  rv_failures :: "(authority_ref \<times> refusal) list"
  rv_remaining :: "authority_ref list"

definition recovery_ok :: "recovery \<Rightarrow> bool" where
  "recovery_ok r = (rv_failures r = [] \<and> rv_remaining r = [])"

definition recover_active_import_authorities ::
    "host \<Rightarrow> rat \<Rightarrow> string \<Rightarrow> acq_db \<Rightarrow> recovery \<times> acq_db" where
  "recover_active_import_authorities h now reason d =
     (let as = persisted_authorities d in
      case release_all h now reason as d of
        (failures, d') \<Rightarrow>
          (\<lparr>rv_found = length as, rv_recovered = length as - length failures,
            rv_failures = map (\<lambda>(a, e). (authority_ref_of h a, e)) failures,
            rv_remaining = map (authority_ref_of h) (persisted_authorities d')\<rparr>, d'))"

text \<open>\<open>safe_float(value, None)\<close>: what \<open>float\<close> refuses is \<open>None\<close>, an overflow is not caught.\<close>

definition safe_float_or_none :: "pyval \<Rightarrow> py_exn + flt option" where
  "safe_float_or_none v =
     (case float_arg v of
        Inr x \<Rightarrow> Inr (Some x)
      | Inl e \<Rightarrow> if e = TypeError \<or> e = ValueError then Inr None else Inl e)"

fun sweep_rows :: "host \<Rightarrow> rat \<Rightarrow> rat \<Rightarrow> pydict list \<Rightarrow> nat \<Rightarrow> acq_db \<Rightarrow> (py_exn + nat) \<times> acq_db" where
  "sweep_rows h now cutoff [] released d = (Inr released, d)"
| "sweep_rows h now cutoff (authority # as) released d =
     (case safe_float_or_none (get authority ''claimed_at'') of
        Inl e \<Rightarrow> (Inl e, d)
      | Inr None \<Rightarrow> sweep_rows h now cutoff as released d
      | Inr (Some claimed_at) \<Rightarrow>
          if flt_lt (Fin cutoff) claimed_at then sweep_rows h now cutoff as released d
          else (case release_import_authority h now authority ''import_authority_ttl_expired'' True False d of
              (Inr _, d') \<Rightarrow> sweep_rows h now cutoff as (released + 1) d'
            | (Inl _, d') \<Rightarrow> sweep_rows h now cutoff as released d'))"

text \<open>\<open>order by updated_at asc\<close> puts a null first.\<close>

definition updated_before :: "task_row \<Rightarrow> bool \<times> rat" where
  "updated_before r = (case tr_updated_at r of None \<Rightarrow> (False, 0) | Some t \<Rightarrow> (True, t))"

definition sweep_candidates :: "int \<Rightarrow> acq_db \<Rightarrow> task_row list" where
  "sweep_candidates n d =
     (let rows = sort_key updated_before
        (filter (\<lambda>r. tr_state r = ''importing'' \<and> mentions (tr_raw r)) (ad_tasks d))
      in if n < 0 then rows else take (nat n) rows)"

definition sweep_expired_import_authorities ::
    "host \<Rightarrow> rat \<Rightarrow> rat \<Rightarrow> int \<Rightarrow> acq_db \<Rightarrow> (py_exn + nat) \<times> acq_db" where
  "sweep_expired_import_authorities h now ttl_seconds n d =
     (if ttl_seconds \<le> 0 then (Inr 0, d)
      else sweep_rows h now (now - ttl_seconds)
             (map (\<lambda>r. import_authority_from_raw (tr_raw r)) (sweep_candidates n d)) 0 d)"

section \<open>Retiring and repairing\<close>

definition retire_ready_task_for_completed_unit ::
    "host \<Rightarrow> rat \<Rightarrow> string \<Rightarrow> string \<Rightarrow> string \<Rightarrow> string \<Rightarrow> acq_db \<Rightarrow> (refusal + string) \<times> acq_db" where
  "retire_ready_task_for_completed_unit h now queue_id download_task_id reason dest_path d =
     (let queue_id = strip queue_id; task_id = strip download_task_id in
      if queue_id = [] \<or> task_id = [] then (Inl (Refusal ''retire_identity_missing'' []), d)
      else case find_task task_id queue_id d of
        None \<Rightarrow> (Inl (Refusal ''retire_task_not_found'' []), d)
      | Some t \<Rightarrow>
          (let state = lower (strip (tr_state t)) in
           if state = ''importing'' then (Inl (Refusal ''retire_task_importing'' []), d)
           else if \<not> is_dict (tr_raw t) then (Inl (Raised AttributeError), d)
           else if truthy (get (as_dict (tr_raw t)) ''import_authority'')
           then (Inl (Refusal ''retire_task_authority_held'' []), d)
           else if state \<notin> {''import_ready'', ''completed'', ''verified''}
           then (Inl (Refusal (''retire_task_state_'' @ (if state = [] then ''unknown'' else state)) []), d)
           else
             (let raw = dupdate (dupdate (as_dict (tr_raw t))
                    [(''suppressed_completed_retired_at'', PFloat (Fin now)),
                     (''suppressed_completed_retired_at_iso'', PStr (ho_stamp h now)),
                     (''suppressed_completed_retire_reason'',
                        PStr (if reason = [] then ''suppressed_completed'' else reason))])
                    (if dest_path = [] then [] else [(''suppressed_completed_existing_path'', PStr dest_path)])
              in (Inr state, d\<lparr>ad_tasks := update_where (task_key task_id queue_id)
                    (\<lambda>r. r\<lparr>tr_state := ''retired'', tr_status := Some ''suppressed_completed'',
                       tr_lifecycle_phase := Some ''suppressed_completed'', tr_retry_eligible := Some 0,
                       tr_updated_at := Some now, tr_completed_at := or_now now (tr_completed_at r),
                       tr_raw := PDict raw\<rparr>) (ad_tasks d)\<rparr>))))"

definition clear_orphaned_import_authority ::
    "host \<Rightarrow> rat \<Rightarrow> string \<Rightarrow> string \<Rightarrow> acq_db \<Rightarrow> (refusal + unit) \<times> acq_db" where
  "clear_orphaned_import_authority h now queue_id download_task_id d =
     (let queue_id = strip queue_id; task_id = strip download_task_id in
      if queue_id = [] \<or> task_id = [] then (Inl (Refusal ''orphan_clear_identity_missing'' []), d)
      else case find_queue queue_id d of
        None \<Rightarrow> (Inl (Refusal ''orphan_clear_queue_missing'' []), d)
      | Some q \<Rightarrow> (case find_task task_id queue_id d of
            None \<Rightarrow> (Inl (Refusal ''orphan_clear_task_missing'' []), d)
          | Some t \<Rightarrow>
              if \<not> is_dict (qr_raw q) then (Inl (Raised AttributeError), d)
              else if \<not> truthy (get (as_dict (qr_raw q)) ''import_authority'')
              then (Inl (Refusal ''orphan_clear_no_queue_authority'' []), d)
              else if \<not> is_dict (tr_raw t) then (Inl (Raised AttributeError), d)
              else if truthy (get (as_dict (tr_raw t)) ''import_authority'')
              then (Inl (Refusal ''orphan_clear_task_authority_present'' []), d)
              else if lower (strip (tr_state t)) = ''importing''
              then (Inl (Refusal ''orphan_clear_task_importing'' []), d)
              else (Inr (), d\<lparr>ad_queue := update_where (\<lambda>r. qr_id r = queue_id)
                     (\<lambda>r. r\<lparr>qr_updated_at := Some now,
                        qr_raw := PDict (dupdate (ddel ''import_authority'' (as_dict (qr_raw q)))
                          [(''import_authority_orphan_cleared_at'', PFloat (Fin now)),
                           (''import_authority_orphan_cleared_at_iso'', PStr (ho_stamp h now))])\<rparr>)
                     (ad_queue d)\<rparr>)))"

section \<open>The gate of a result\<close>

text \<open>
  The part of \<open>record_direct_import_result\<close> that decides whether a result may be written: a result
  that names a task, an item that is claimed, or an item with a task that is ready or importing
  needs a valid authority.
\<close>

definition task_backed :: "string \<Rightarrow> task_row \<Rightarrow> bool" where
  "task_backed queue_id r =
     (tr_queue_id r = Some queue_id
      \<and> (sql_lower (tr_state r) \<in> {''import_ready'', ''importing''}
         \<or> sql_lower (case tr_status r of Some s \<Rightarrow> s | None \<Rightarrow> [])
             \<in> {''staged_file_ready'', ''ready_import'', ''preview_importable'', ''ready_to_import'',
                ''completed_in_client'', ''import_in_progress''}))"

definition requires_authority :: "acq_db \<Rightarrow> queue_row \<Rightarrow> pydict \<Rightarrow> bool" where
  "requires_authority d q raw =
     (truthy (get raw ''import_ready_bridge'') \<or> truthy (get raw ''import_ready_reconciliation_replay'')
      \<or> truthy (get raw ''download_task_id'') \<or> truthy (get raw ''source_attempt_id'')
      \<or> truthy (get raw ''external_id'')
      \<or> authority_field (import_authority_from_raw (qr_raw q)) ''token'' \<noteq> []
      \<or> list_ex (task_backed (qr_id q)) (ad_tasks d))"

definition named_raw :: "pydict \<Rightarrow> pydict option \<Rightarrow> pydict" where
  "named_raw raw authority =
     (case authority of
        None \<Rightarrow> raw
      | Some a \<Rightarrow> dset ''external_id'' (PStr (authority_field a ''external_id''))
          (dset ''source_attempt_id'' (PStr (authority_field a ''source_attempt_id''))
          (dset ''download_task_id'' (PStr (authority_field a ''download_task_id''))
          (dset ''import_authority'' (PDict a) raw))))"

definition result_gate ::
    "acq_db \<Rightarrow> string \<Rightarrow> pydict \<Rightarrow> pydict option \<Rightarrow> string \<Rightarrow> refusal + queue_row" where
  "result_gate d queue_id raw authority source_path =
     (case find_queue queue_id d of
        None \<Rightarrow> Inl (Refusal ''queue_item_not_found'' [])
      | Some q \<Rightarrow>
          if requires_authority d q (named_raw raw authority) \<or> authority \<noteq> None
          then mapE va_queue (validate_import_authority d (qr_id q)
                 (case authority of Some a \<Rightarrow> a | None \<Rightarrow> []) (PStr source_path))
          else Inr q)"

end
