(* ===== verification/ImportOwner.thy ===== *)
theory ImportOwner
  imports ImportAuthority
begin

text \<open>
  What the import authority of \<^verbatim>\<open>core/inkdrop_state.py\<close> guarantees: whoever claims a queue item has
  it alone, in every history of the operations, until the claim is given up or has outlived its
  time; a token that was given up is dead; an item that was given up can be claimed again; and no
  result passes without a valid authority where one is needed.
\<close>

section \<open>Histories\<close>

datatype import_op =
    OpClaim rat string string string claim
  | OpRelease rat pydict string bool bool
  | OpSweep rat rat int
  | OpRecover rat string
  | OpRetire rat string string string string
  | OpClear rat string string

fun import_exec :: "host \<Rightarrow> import_op \<Rightarrow> acq_db \<Rightarrow> acq_db" where
  "import_exec h (OpClaim now token q k c) d = snd (claim_import_authority h now token q k c d)"
| "import_exec h (OpRelease now a reason staged blocked) d =
     snd (release_import_authority h now a reason staged blocked d)"
| "import_exec h (OpSweep now ttl n) d = snd (sweep_expired_import_authorities h now ttl n d)"
| "import_exec h (OpRecover now reason) d = snd (recover_active_import_authorities h now reason d)"
| "import_exec h (OpRetire now q k reason dest) d =
     snd (retire_ready_task_for_completed_unit h now q k reason dest d)"
| "import_exec h (OpClear now q k) d = snd (clear_orphaned_import_authority h now q k d)"

definition token_of :: "pyval \<Rightarrow> string" where
  "token_of raw = authority_field (import_authority_from_raw raw) ''token''"

definition queue_token :: "string \<Rightarrow> acq_db \<Rightarrow> string" where
  "queue_token q d = (case find_queue q d of Some r \<Rightarrow> token_of (qr_raw r) | None \<Rightarrow> [])"

section \<open>What one transaction writes\<close>

named_theorems frame_simps \<open>which tables the auxiliary writes leave alone\<close>

lemma update_sync_frame [frame_simps]:
  "ad_queue (update_sync_meta now scope d) = ad_queue d" "ad_tasks (update_sync_meta now scope d) = ad_tasks d"
  "ad_series (update_sync_meta now scope d) = ad_series d"
  by (simp_all add: update_sync_meta_def)

lemma set_wanted_frame [frame_simps]:
  "ad_queue (set_wanted now w p s d) = ad_queue d" "ad_tasks (set_wanted now w p s d) = ad_tasks d"
  "ad_series (set_wanted now w p s d) = ad_series d"
  by (simp_all add: set_wanted_def)

lemma release_attempt_frame [frame_simps]:
  "ad_queue (release_attempt now s r k a q d) = ad_queue d" "ad_tasks (release_attempt now s r k a q d) = ad_tasks d"
  "ad_series (release_attempt now s r k a q d) = ad_series d"
  by (simp_all add: release_attempt_def split: option.split)

lemma note_bad_frame [frame_simps]:
  "ad_queue (note_bad_archive now r q k a t d) = ad_queue d" "ad_tasks (note_bad_archive now r q k a t d) = ad_tasks d"
  "ad_series (note_bad_archive now r q k a t d) = ad_series d"
  by (simp_all add: note_bad_archive_def)

lemma strip_identity [simp]: "strip (import_authority_identity v) = import_authority_identity v"
  by (simp add: import_authority_identity_def)

lemma strip_field [simp]: "strip (authority_field a k) = authority_field a k"
  by (simp add: authority_field_def)

lemma str_or_empty_PStr [simp]: "str_or_empty (PStr s) = s"
  by (cases s) (simp_all add: str_or_empty_def)

lemma identity_PStr [simp]: "import_authority_identity (PStr s) = strip s"
  by (simp add: import_authority_identity_def)

lemma identity_PNone [simp]: "import_authority_identity PNone = []"
  by (simp add: import_authority_identity_def)

lemma token_of_popped [simp]: "token_of (PDict (ddel ''import_authority'' raw)) = []"
  by (simp add: token_of_def import_authority_from_raw_def authority_field_def)

lemma get_dupdate: "k \<notin> fst ` set n \<Longrightarrow> get (dupdate m n) k = get m k"
  by (simp add: get_def dupdate_frame dkeys_def)

lemma token_of_released: "token_of (PDict (released_raw h now reason blocked raw)) = []"
  by (simp add: token_of_def import_authority_from_raw_def released_raw_def get_dupdate authority_field_def)

lemma token_of_put [simp]: "token_of (PDict (dset ''import_authority'' (PDict a) raw)) = authority_field a ''token''"
  by (simp add: token_of_def import_authority_from_raw_def)

text \<open>A transaction that succeeds rewrites one task and one queue row; a refused one writes nothing.\<close>

lemma release_writes:
  assumes "release_import_authority h now a reason staged blocked d = (res, d')"
  shows "(\<exists>e. res = Inl e \<and> d' = d) \<or>
    (\<exists>r v f g. res = Inr r \<and> validate_import_authority d (authority_field a ''queue_id'') a PNone = Inr v
      \<and> ad_tasks d' = update_where (task_key (authority_field a ''download_task_id'') (authority_field a ''queue_id'')) f (ad_tasks d)
      \<and> ad_queue d' = update_where (\<lambda>q. qr_id q = authority_field a ''queue_id'' \<and> qr_state q \<noteq> ''verified'') g (ad_queue d)
      \<and> ad_series d' = ad_series d \<and> (staged \<longrightarrow> rl_queue_state r = ''importing'')
      \<and> (\<forall>t. tr_id (f t) = tr_id t \<and> tr_queue_id (f t) = tr_queue_id t \<and> token_of (tr_raw (f t)) = []
           \<and> tr_state (f t) = te_state (task_end_of staged blocked (strip (reason_or_default reason)))
           \<and> tr_status (f t) = Some (te_status (task_end_of staged blocked (strip (reason_or_default reason))))
           \<and> identity_fields (f t) = identity_fields t \<and> tr_local_path (f t) = tr_local_path t)
      \<and> (\<forall>q. qr_id (g q) = qr_id q \<and> token_of (qr_raw (g q)) = [] \<and> qr_active (g q) = 1
           \<and> qr_series_id (g q) = qr_series_id q \<and> qr_state (g q) = rl_queue_state r))"
proof (cases "validate_import_authority d (authority_field a ''queue_id'') a PNone")
  case (Inl e)
  with assms show ?thesis by (auto simp: release_import_authority_def)
next
  case (Inr v)
  let ?q = "authority_field a ''queue_id''" and ?k = "authority_field a ''download_task_id''"
  define why where "why = strip (reason_or_default reason)"
  define te where "te = task_end_of staged blocked why"
  define f where "f = released_task now te why (released_raw h now reason blocked (va_task_raw v))"
  define d2 where "d2 = release_attempt now (te_status te) why ?k (authority_field a ''source_attempt_id'') ?q
      (d\<lparr>ad_tasks := update_where (task_key ?k ?q) f (ad_tasks d)\<rparr>)"
  define d3 where "d3 = (if is_bad_archive why
      then note_bad_archive now why ?q ?k (authority_field a ''source_attempt_id'') (va_task v) d2 else d2)"
  define sibling where "sibling = active_sibling ?q ?k d3"
  define qe where "qe = queue_end_of staged why a (va_queue v) sibling"
  define g where "g = released_queue now qe staged (sibling \<noteq> None) (ddel ''import_authority'' (va_queue_raw v))"
  have d3: "ad_tasks d3 = update_where (task_key ?k ?q) f (ad_tasks d)" "ad_queue d3 = ad_queue d"
    "ad_series d3 = ad_series d"
    by (simp_all add: d3_def d2_def frame_simps)
  have "release_import_authority h now a reason staged blocked d =
      (Inr \<lparr>rl_task_state = te_state te, rl_queue_state = qe_state qe, rl_sibling_preserved = (sibling \<noteq> None)\<rparr>,
       update_sync_meta now ''import_authority_released''
         (set_wanted now (qr_wanted_id (va_queue v)) (\<lambda>w. wr_status w \<noteq> ''satisfied'') (qe_wanted qe)
           (d3\<lparr>ad_queue := update_where (\<lambda>r. qr_id r = ?q \<and> qr_state r \<noteq> ''verified'') g (ad_queue d3)\<rparr>)))"
    unfolding release_import_authority_def Let_def Inr sum.case
      why_def te_def f_def d2_def d3_def sibling_def qe_def g_def ..
  then have "res = Inr \<lparr>rl_task_state = te_state te, rl_queue_state = qe_state qe, rl_sibling_preserved = (sibling \<noteq> None)\<rparr>"
    "ad_tasks d' = update_where (task_key ?k ?q) f (ad_tasks d)"
    "ad_queue d' = update_where (\<lambda>r. qr_id r = ?q \<and> qr_state r \<noteq> ''verified'') g (ad_queue d)"
    "ad_series d' = ad_series d"
    using assms by (auto simp: frame_simps d3)
  moreover have "staged \<longrightarrow> qe_state qe = ''importing''"
    by (simp add: qe_def queue_end_of_def Let_def)
  moreover have "tr_id (f t) = tr_id t \<and> tr_queue_id (f t) = tr_queue_id t \<and> token_of (tr_raw (f t)) = []
      \<and> tr_state (f t) = te_state te \<and> tr_status (f t) = Some (te_status te)
      \<and> identity_fields (f t) = identity_fields t \<and> tr_local_path (f t) = tr_local_path t" for t
    by (simp add: f_def released_task_def token_of_released identity_fields_def)
  moreover have "qr_id (g q) = qr_id q \<and> token_of (qr_raw (g q)) = [] \<and> qr_active (g q) = 1
      \<and> qr_series_id (g q) = qr_series_id q \<and> qr_state (g q) = qe_state qe" for q
    by (simp add: g_def released_queue_def)
  ultimately show ?thesis
    using Inr unfolding te_def why_def 
    by (intro disjI2) (rule exI [of _ "\<lparr>rl_task_state = te_state te, rl_queue_state = qe_state qe,
          rl_sibling_preserved = (sibling \<noteq> None)\<rparr>"], rule exI [of _ v], rule exI [of _ f],
        rule exI [of _ g], simp add: te_def why_def)
qed

definition granted_authority :: "host \<Rightarrow> rat \<Rightarrow> string \<Rightarrow> string \<Rightarrow> string \<Rightarrow> claim \<Rightarrow> string \<Rightarrow> pydict" where
  "granted_authority h now token q k c content = expected_identity q k c content
     @ [(''token'', PStr token), (''claimed_at'', PFloat (Fin now)), (''claimed_at_iso'', PStr (ho_stamp h now))]"

definition claimed_task :: "rat \<Rightarrow> pydict \<Rightarrow> task_row \<Rightarrow> task_row" where
  "claimed_task now a t = importing_task now (dset ''import_authority'' (PDict a) (as_dict (tr_raw t))) t"

definition takes_task :: "queue_row \<Rightarrow> task_row \<Rightarrow> task_row \<Rightarrow> bool" where
  "takes_task q t r = (tr_id r = tr_id t \<and> tr_queue_id r = Some (qr_id q)
     \<and> tr_state r = ''import_ready'' \<and> tr_status r = tr_status t \<and> tr_status t \<noteq> None)"

definition takes_queue :: "queue_row \<Rightarrow> queue_row \<Rightarrow> bool" where
  "takes_queue q r = (qr_id r = qr_id q \<and> qr_active r = 1 \<and> qr_state r \<noteq> ''verified'')"

text \<open>What a claim did when it was granted.\<close>

definition granted :: "host \<Rightarrow> rat \<Rightarrow> string \<Rightarrow> string \<Rightarrow> string \<Rightarrow> claim \<Rightarrow> acq_db \<Rightarrow> pydict \<Rightarrow> acq_db \<Rightarrow> bool" where
  "granted h now token q k c d a d' =
     (\<exists>content qr tr source. q \<noteq> [] \<and> k \<noteq> [] \<and> claim_content h c = Inr content
        \<and> find_queue q d = Some qr \<and> find_task k q d = Some tr
        \<and> claim_error d qr tr (expected_identity q k c content) = None
        \<and> count_where (takes_task qr tr) (ad_tasks d) = 1 \<and> count_where (takes_queue qr) (ad_queue d) = 1
        \<and> a = granted_authority h now token q k c content
        \<and> ad_tasks d' = update_where (takes_task qr tr)
             (importing_task now (dset ''import_authority'' (PDict a) (as_dict (tr_raw tr)))) (ad_tasks d)
        \<and> ad_queue d' = update_where (takes_queue qr)
             (importing_queue now source (dset ''import_authority'' (PDict a) (as_dict (qr_raw qr)))) (ad_queue d))"

lemma claim_writes:
  assumes "claim_import_authority h now token q k c d = (res, d')"
  shows "(\<exists>e. res = Inl e \<and> d' = d) \<or> (\<exists>a. res = Inr a \<and> granted h now token (strip q) (strip k) c d a d')"
proof (cases "\<exists>e. res = Inl e")
  case True
  then show ?thesis using assms
    by (auto simp: claim_import_authority_def grant_def Let_def split: if_splits sum.splits option.splits)
next
  case False
  then obtain a where a: "res = Inr a" by (cases res) auto
  let ?q = "strip q" and ?k = "strip k"
  have qk: "?q \<noteq> []" "?k \<noteq> []"
    using assms a by (auto simp: claim_import_authority_def Let_def split: if_splits)
  obtain content where content: "claim_content h c = Inr content"
    using assms a qk by (auto simp: claim_import_authority_def Let_def split: sum.splits)
  obtain qr tr where rows: "find_queue ?q d = Some qr" "find_task ?k ?q d = Some tr"
    using assms a qk content by (auto simp: claim_import_authority_def Let_def split: option.splits)
  have fine: "claim_error d qr tr (expected_identity ?q ?k c content) = None"
    using assms a qk content rows by (auto simp: claim_import_authority_def Let_def split: option.splits)
  have "grant now qr tr (granted_authority h now token ?q ?k c content) d = (Inr a, d')"
    using assms a qk content rows fine
    by (simp add: claim_import_authority_def granted_authority_def)
  then have "a = granted_authority h now token ?q ?k c content
    \<and> count_where (takes_task qr tr) (ad_tasks d) = 1 \<and> count_where (takes_queue qr) (ad_queue d) = 1
    \<and> (\<exists>source. ad_tasks d' = update_where (takes_task qr tr)
             (importing_task now (dset ''import_authority'' (PDict a) (as_dict (tr_raw tr)))) (ad_tasks d)
        \<and> ad_queue d' = update_where (takes_queue qr)
             (importing_queue now source (dset ''import_authority'' (PDict a) (as_dict (qr_raw qr)))) (ad_queue d))"
    unfolding grant_def Let_def takes_task_def [abs_def] takes_queue_def [abs_def]
    by (auto simp: frame_simps split: if_splits)
  with a qk content rows fine show ?thesis unfolding granted_def by blast
qed

lemma released_gone: "validate_import_authority d q a p = Inr v \<Longrightarrow>
   queue_token q d = authority_field a ''token'' \<and> authority_field a ''token'' \<noteq> []
   \<and> (\<exists>t. find_task (authority_field a ''download_task_id'') q d = Some t \<and> token_of (tr_raw t) = authority_field a ''token'')
   \<and> authority_field a ''queue_id'' = strip q"
  by (auto simp: validate_import_authority_def authority_error_def queue_token_def token_of_def Let_def
      split: if_splits option.splits)

section \<open>A claim is exclusive\<close>

text \<open>
  Two rows hold a claim: the queue row and one task row carry the same authority, the task is
  importing, and no other task row carries the token.
\<close>

definition holds :: "string \<Rightarrow> string \<Rightarrow> queue_row \<Rightarrow> task_row \<Rightarrow> acq_db \<Rightarrow> bool" where
  "holds q k qr tr d = (db_ok d \<and> find_queue q d = Some qr \<and> find_task k q d = Some tr
     \<and> token_of (qr_raw qr) = token_of (tr_raw tr) \<and> token_of (tr_raw tr) \<noteq> []
     \<and> lower (strip (tr_state tr)) = ''importing''
     \<and> (\<forall>r \<in> set (ad_tasks d). token_of (tr_raw r) = token_of (tr_raw tr) \<longrightarrow> tr_id r = k))"

lemma holds_frame:
  assumes "holds q k qr tr d" "ad_tasks d' = update_where p f (ad_tasks d)"
    and "ad_queue d' = update_where p' g (ad_queue d)"
    and "\<And>t. tr_id (f t) = tr_id t" "\<And>t. tr_queue_id (f t) = tr_queue_id t" "\<And>r. qr_id (g r) = qr_id r"
    and "\<not> p tr" "\<not> p' qr" "\<And>t. t \<in> set (ad_tasks d) \<Longrightarrow> p t \<Longrightarrow> token_of (tr_raw (f t)) \<noteq> token_of (tr_raw tr)"
  shows "holds q k qr tr d'"
proof -
  have "db_ok d'"
    using assms(1-6) by (simp add: holds_def db_ok_def map_key_update_where)
  moreover have "find_queue q d' = Some qr"
    using assms(1,3,6,8) by (simp add: holds_def find_queue_def find_update_where)
  moreover have "find_task k q d' = Some tr"
    using assms(1,2,4,5,7) by (simp add: holds_def find_task_def find_update_where task_key_def)
  moreover have "tr_id r = k" if "r \<in> set (ad_tasks d')" "token_of (tr_raw r) = token_of (tr_raw tr)" for r
    using that assms(1,2,9) by (auto simp: set_update_where holds_def)
  ultimately show ?thesis using assms(1) by (simp add: holds_def)
qed

lemma holds_rows: "holds q k qr tr d \<Longrightarrow> qr_id qr = q \<and> tr_id tr = k \<and> tr_queue_id tr = Some q \<and> tr \<in> set (ad_tasks d)"
  using find_queue_id find_task_id by (auto simp: holds_def task_key_def)

text \<open>The operations that leave a claim alone: whatever does not present its token, expire it or
  repair its queue item under the name of another task.\<close>

fun leaves_claim :: "string \<Rightarrow> string \<Rightarrow> string \<Rightarrow> rat \<Rightarrow> import_op \<Rightarrow> bool" where
  "leaves_claim q k token claimed (OpClaim now t i j c) = (strip t \<noteq> token)"
| "leaves_claim q k token claimed (OpRelease now a reason staged blocked) = (authority_field a ''token'' \<noteq> token)"
| "leaves_claim q k token claimed (OpSweep now ttl n) = (now - ttl < claimed)"
| "leaves_claim q k token claimed (OpRecover now reason) = False"
| "leaves_claim q k token claimed (OpRetire now i j reason dest) = True"
| "leaves_claim q k token claimed (OpClear now i j) = (strip i \<noteq> q \<or> strip j = k)"

lemma holds_release:
  assumes "holds q k qr tr d" "authority_field a ''token'' \<noteq> token_of (tr_raw tr)"
  shows "holds q k qr tr (snd (release_import_authority h now a reason staged blocked d))"
proof -
  obtain res d' where r: "release_import_authority h now a reason staged blocked d = (res, d')" by force
  consider "d' = d" | v f g where
      "validate_import_authority d (authority_field a ''queue_id'') a PNone = Inr v"
      "ad_tasks d' = update_where (task_key (authority_field a ''download_task_id'') (authority_field a ''queue_id'')) f (ad_tasks d)"
      "ad_queue d' = update_where (\<lambda>q. qr_id q = authority_field a ''queue_id'' \<and> qr_state q \<noteq> ''verified'') g (ad_queue d)"
      "\<And>t. tr_id (f t) = tr_id t \<and> tr_queue_id (f t) = tr_queue_id t \<and> token_of (tr_raw (f t)) = []"
      "\<And>q. qr_id (g q) = qr_id q"
    using release_writes [OF r] by blast
  then show ?thesis
  proof cases
    case 1
    with assms(1) r show ?thesis by simp
  next
    case 2
    have "queue_token q d = token_of (tr_raw tr)" using assms(1) by (simp add: holds_def queue_token_def)
    then have other: "authority_field a ''queue_id'' \<noteq> q"
      using released_gone [OF 2(1)] assms(2) by auto
    have "token_of (tr_raw tr) \<noteq> []" using assms(1) by (simp add: holds_def)
    then have "holds q k qr tr d'"
      using holds_rows [OF assms(1)] other 2(4,5)
      by (intro holds_frame [OF assms(1) 2(2,3)]) (auto simp: task_key_def)
    with r show ?thesis by simp
  qed
qed

lemma holds_claim:
  assumes "holds q k qr tr d" "strip token \<noteq> token_of (tr_raw tr)"
  shows "holds q k qr tr (snd (claim_import_authority h now token i j c d))"
proof -
  obtain res d' where r: "claim_import_authority h now token i j c d = (res, d')" by force
  show ?thesis
  proof (cases "d' = d")
    case False
    then obtain a where g: "granted h now token (strip i) (strip j) c d a d'"
      using claim_writes [OF r] by auto
    then obtain content qr' tr' source where g:
      "find_queue (strip i) d = Some qr'" "find_task (strip j) (strip i) d = Some tr'"
      "claim_error d qr' tr' (expected_identity (strip i) (strip j) c content) = None"
      "a = granted_authority h now token (strip i) (strip j) c content"
      "ad_tasks d' = update_where (takes_task qr' tr')
             (importing_task now (dset ''import_authority'' (PDict a) (as_dict (tr_raw tr')))) (ad_tasks d)"
      "ad_queue d' = update_where (takes_queue qr')
             (importing_queue now source (dset ''import_authority'' (PDict a) (as_dict (qr_raw qr')))) (ad_queue d)"
      by (auto simp: granted_def)
    have "token_of (qr_raw qr') = []"
      using g(3) by (auto simp: claim_error_def Let_def token_of_def split: if_splits option.splits)
    then have other: "strip i \<noteq> q"
      using g(1) assms(1) by (auto simp: holds_def)
    have "authority_field a ''token'' = strip token"
      by (simp add: g(4) granted_authority_def expected_identity_def authority_field_def)
    then have "holds q k qr tr d'"
      using holds_rows [OF assms(1)] other find_queue_id [OF g(1)] assms(2)
      by (intro holds_frame [OF assms(1) g(5,6)])
         (auto simp: takes_task_def takes_queue_def importing_task_def importing_queue_def Let_def)
    with r show ?thesis by simp
  qed (use assms(1) r in simp)
qed

lemma holds_sweep_rows:
  assumes "holds q k qr tr d" "\<And>a. a \<in> set as \<Longrightarrow> authority_field a ''token'' = token_of (tr_raw tr) \<Longrightarrow>
      get a ''claimed_at'' = PFloat (Fin claimed)" "cutoff < claimed"
  shows "holds q k qr tr (snd (sweep_rows h now cutoff as m d))"
  using assms
proof (induction as arbitrary: m d)
  case (Cons a as)
  have rest: "holds q k qr tr (snd (sweep_rows h now cutoff as m' d'))" if "holds q k qr tr d'" for m' d'
    using Cons.IH [OF that] Cons.prems(2,3) by simp
  show ?case
  proof (cases "authority_field a ''token'' = token_of (tr_raw tr)")
    case True
    then have "get a ''claimed_at'' = PFloat (Fin claimed)" using Cons.prems(2) by simp
    then have "safe_float_or_none (get a ''claimed_at'') = Inr (Some (Fin claimed))"
      by (simp add: safe_float_or_none_def)
    with rest Cons.prems show ?thesis by simp
  next
    case False
    have "holds q k qr tr (snd (release_import_authority h now a ''import_authority_ttl_expired'' True False d))"
      using holds_release [OF Cons.prems(1) False] .
    with rest Cons.prems(1) show ?thesis by (auto split: sum.split prod.split option.split)
  qed
qed simp

lemma holds_sweep:
  assumes "holds q k qr tr d" "get (import_authority_from_raw (tr_raw tr)) ''claimed_at'' = PFloat (Fin claimed)"
    and "now - ttl < claimed"
  shows "holds q k qr tr (snd (sweep_expired_import_authorities h now ttl n d))"
proof (cases "ttl \<le> 0")
  case False
  have "set (sweep_candidates n d) \<subseteq> set (ad_tasks d)"
    by (auto simp: sweep_candidates_def Let_def dest: in_set_takeD split: if_splits)
  then have "r = tr" if "r \<in> set (sweep_candidates n d)" "token_of (tr_raw r) = token_of (tr_raw tr)" for r
    using that assms(1) holds_rows [OF assms(1)]
    by (metis (no_types, lifting) db_ok_def distinct_map holds_def inj_onD subset_iff)
  then have "holds q k qr tr (snd (sweep_rows h now (now - ttl)
      (map (\<lambda>r. import_authority_from_raw (tr_raw r)) (sweep_candidates n d)) 0 d))"
    using assms(2,3) by (intro holds_sweep_rows [OF assms(1)]) (auto simp: token_of_def)
  with False show ?thesis by (simp add: sweep_expired_import_authorities_def)
qed (use assms(1) in \<open>simp add: sweep_expired_import_authorities_def\<close>)

lemma as_dict_falsy: "\<not> truthy v \<Longrightarrow> as_dict v = []"
  by (cases v) auto

lemma token_nonempty_truthy: "token_of raw \<noteq> [] \<Longrightarrow> truthy (get (as_dict raw) ''import_authority'')"
  using as_dict_falsy by (fastforce simp: token_of_def import_authority_from_raw_def authority_field_def)

lemma token_dupdate_falsy:
  "\<not> truthy (get raw ''import_authority'') \<Longrightarrow> ''import_authority'' \<notin> fst ` set n \<Longrightarrow> token_of (PDict (dupdate raw n)) = []"
  by (simp add: token_of_def import_authority_from_raw_def get_dupdate as_dict_falsy authority_field_def)

lemma holds_retire:
  assumes "holds q k qr tr d"
  shows "holds q k qr tr (snd (retire_ready_task_for_completed_unit h now i j reason dest d))"
proof -
  obtain res d' where r: "retire_ready_task_for_completed_unit h now i j reason dest d = (res, d')" by force
  show ?thesis
  proof (cases "d' = d")
    case False
    then obtain t where t: "find_task (strip j) (strip i) d = Some t"
      "lower (strip (tr_state t)) \<noteq> ''importing''" "\<not> truthy (get (as_dict (tr_raw t)) ''import_authority'')"
      using r by (auto simp: retire_ready_task_for_completed_unit_def Let_def split: if_splits option.splits)
    define n where "n = [(''suppressed_completed_retired_at'', PFloat (Fin now)),
        (''suppressed_completed_retired_at_iso'', PStr (ho_stamp h now)),
        (''suppressed_completed_retire_reason'', PStr (if reason = [] then ''suppressed_completed'' else reason))]"
    define m where "m = (if dest = [] then [] else [(''suppressed_completed_existing_path'', PStr dest)])"
    define f :: "task_row \<Rightarrow> task_row" where "f = (\<lambda>r. r\<lparr>tr_state := ''retired'', tr_status := Some ''suppressed_completed'',
        tr_lifecycle_phase := Some ''suppressed_completed'', tr_retry_eligible := Some 0, tr_updated_at := Some now,
        tr_completed_at := or_now now (tr_completed_at r),
        tr_raw := PDict (dupdate (dupdate (as_dict (tr_raw t)) n) m)\<rparr>)"
    have "d' = d\<lparr>ad_tasks := update_where (task_key (strip j) (strip i)) f (ad_tasks d)\<rparr>"
      using r False unfolding f_def n_def m_def
      by (auto simp: retire_ready_task_for_completed_unit_def Let_def t(1) split: if_splits)
    then have d': "ad_tasks d' = update_where (task_key (strip j) (strip i)) f (ad_tasks d)"
      "ad_queue d' = update_where (\<lambda>_. False) (\<lambda>r. r) (ad_queue d)"
      by (simp_all add: update_where_def)
    have "get (dupdate (as_dict (tr_raw t)) n) ''import_authority'' = get (as_dict (tr_raw t)) ''import_authority''"
      by (simp add: get_dupdate n_def)
    then have "token_of (PDict (dupdate (dupdate (as_dict (tr_raw t)) n) m)) = []"
      using t(3) by (intro token_dupdate_falsy) (simp_all add: m_def)
    moreover have "token_of (tr_raw tr) \<noteq> []" using assms by (simp add: holds_def)
    moreover have "\<not> task_key (strip j) (strip i) tr"
      using t(1,2) assms holds_rows [OF assms] by (auto simp: task_key_def holds_def)
    ultimately have "holds q k qr tr d'"
      by (intro holds_frame [OF assms d']) (simp_all add: f_def)
    with r show ?thesis by simp
  qed (use assms r in simp)
qed

lemma holds_clear:
  assumes "holds q k qr tr d" "strip i \<noteq> q \<or> strip j = k"
  shows "holds q k qr tr (snd (clear_orphaned_import_authority h now i j d))"
proof (cases "strip i = q")
  case True
  have "find_queue q d = Some qr" "find_task k q d = Some tr" "lower (strip (tr_state tr)) = ''importing''"
    using assms(1) by (simp_all add: holds_def)
  with True assms show ?thesis
    by (auto simp: clear_orphaned_import_authority_def Let_def)
next
  case False
  obtain res d' where r: "clear_orphaned_import_authority h now i j d = (res, d')" by force
  show ?thesis
  proof (cases "d' = d")
    case False
    then obtain g where "d' = d\<lparr>ad_queue := update_where (\<lambda>r. qr_id r = strip i) g (ad_queue d)\<rparr>"
      and g: "\<And>r. qr_id (g r) = qr_id r"
      using r by (force simp: clear_orphaned_import_authority_def Let_def split: if_splits option.splits)
    then have d': "ad_tasks d' = update_where (\<lambda>_. False) (\<lambda>t. t) (ad_tasks d)"
      "ad_queue d' = update_where (\<lambda>r. qr_id r = strip i) g (ad_queue d)"
      by (simp_all add: update_where_def)
    have "holds q k qr tr d'"
      using holds_rows [OF assms(1)] \<open>strip i \<noteq> q\<close> g by (intro holds_frame [OF assms(1) d']) auto
    with r show ?thesis by simp
  qed (use assms(1) r in simp)
qed

lemma holds_exec:
  assumes "holds q k qr tr d" "get (import_authority_from_raw (tr_raw tr)) ''claimed_at'' = PFloat (Fin claimed)"
    and "leaves_claim q k (token_of (tr_raw tr)) claimed op"
  shows "holds q k qr tr (import_exec h op d)"
  using assms by (cases op) (simp_all add: holds_claim holds_release holds_sweep holds_retire holds_clear)

lemma holds_history:
  assumes "holds q k qr tr d" "get (import_authority_from_raw (tr_raw tr)) ''claimed_at'' = PFloat (Fin claimed)"
    and "list_all (leaves_claim q k (token_of (tr_raw tr)) claimed) ops"
  shows "holds q k qr tr (fold (import_exec h) ops d)"
  using assms by (induction ops arbitrary: d) (simp_all add: holds_exec)

section \<open>A granted claim is valid\<close>

text \<open>What is used of SHA-256: its hexadecimal text is not blank.\<close>

definition digests_ok :: "host \<Rightarrow> bool" where
  "digests_ok h = (\<forall>b. strip (ho_sha256 h b) \<noteq> [])"

lemma content_not_blank:
  "digests_ok h \<Longrightarrow> import_claim_content_identity h p = Inr content \<Longrightarrow> strip content \<noteq> []"
  by (auto simp: import_claim_content_identity_def media_file_sha256_def digests_ok_def Let_def
      split: file_hash.splits if_splits option.splits)

lemma granted_fields [simp]:
  "get (granted_authority h now token q k c content) ''queue_id'' = PStr q"
  "get (granted_authority h now token q k c content) ''download_task_id'' = PStr k"
  "get (granted_authority h now token q k c content) ''token'' = PStr token"
  "get (granted_authority h now token q k c content) ''claimed_at'' = PFloat (Fin now)"
  "get (granted_authority h now token q k c content) ''content_sha256'' = PStr content"
  "get (granted_authority h now token q k c content) ''local_path'' = PStr (cell (cm_local_path c))"
  by (simp_all add: granted_authority_def expected_identity_def)

lemma expected_fields [simp]:
  "get (expected_identity q k c content) ''source_attempt_id'' = PStr (cell (cm_source_attempt_id c))"
  "get (expected_identity q k c content) ''external_id'' = PStr (cell (cm_external_id c))"
  "get (expected_identity q k c content) ''candidate_identity'' = PStr (cell (cm_candidate_identity c))"
  "get (expected_identity q k c content) ''local_path'' = PStr (cell (cm_local_path c))"
  "get (expected_identity q k c content) ''content_sha256'' = PStr content"
  by (simp_all add: expected_identity_def)

lemma granted_expected:
  "k' \<notin> {''token'', ''claimed_at'', ''claimed_at_iso''} \<Longrightarrow>
   get (granted_authority h now token q k c content) k' = get (expected_identity q k c content) k'"
  by (auto simp: granted_authority_def expected_identity_def)

lemma state_words [simp]:
  "lower (strip ''importing'') = ''importing''" "clean (Some ''import_in_progress'') = ''import_in_progress''"
  "lower (strip ''import_ready'') = ''import_ready''" "clean (Some ''staged_file_ready'') = ''staged_file_ready''"
  by code_simp+

lemma path_PNone [simp]: "import_authority_path PNone = []"
  by (simp add: import_authority_path_def)

lemma first_difference_None: "first_difference e fs = None \<longleftrightarrow> list_all (\<lambda>(k, v). authority_field e k = import_authority_identity v) fs"
  by (induction fs) (auto split: if_splits)

lemma first_mismatch_None: "first_mismatch a b fs = None \<longleftrightarrow>
   list_all (\<lambda>(k, v). authority_field a k = import_authority_identity v \<and> authority_field b k = import_authority_identity v) fs"
  by (induction fs) (auto split: if_splits)

lemma first_mismatch_same: "first_mismatch a a fs = None \<longleftrightarrow> first_difference a fs = None"
  by (simp add: first_mismatch_None first_difference_None)

lemma claim_error_None:
  assumes "claim_error d qr tr (expected_identity q k c content) = None"
  shows "first_difference (expected_identity q k c content) (identity_fields tr) = None"
    and "cell (tr_source_attempt_id tr) \<noteq> []" "cell (tr_candidate_identity tr) \<noteq> []"
    and "cell (cm_external_id c) \<noteq> [] \<or> content \<noteq> []" "cell (cm_external_id c) = cell (tr_external_id tr)"
    and "import_authority_path (PStr (cell (cm_local_path c))) \<noteq> []"
    and "import_authority_path (PStr (cell (cm_local_path c))) = import_authority_path (column (tr_local_path tr))"
    and "token_of (qr_raw qr) = []"
proof -
  have d: "first_difference (expected_identity q k c content) (identity_fields tr) = None"
    using assms by (auto simp: claim_error_def Let_def split: if_splits option.splits)
  show "first_difference (expected_identity q k c content) (identity_fields tr) = None" by (rule d)
  have eqs: "cell (cm_source_attempt_id c) = cell (tr_source_attempt_id tr)"
    "cell (cm_external_id c) = cell (tr_external_id tr)"
    "cell (cm_candidate_identity c) = cell (tr_candidate_identity tr)"
    using d unfolding first_difference_None
    by (simp_all add: identity_fields_def authority_field_def cell_def)
  show "cell (cm_external_id c) = cell (tr_external_id tr)" by (rule eqs)
  show "cell (tr_source_attempt_id tr) \<noteq> []" "cell (tr_candidate_identity tr) \<noteq> []"
    "cell (cm_external_id c) \<noteq> [] \<or> content \<noteq> []"
    "import_authority_path (PStr (cell (cm_local_path c))) \<noteq> []"
    "import_authority_path (PStr (cell (cm_local_path c))) = import_authority_path (column (tr_local_path tr))"
    "token_of (qr_raw qr) = []"
    using assms d eqs by (auto simp: claim_error_def token_of_def Let_def split: if_splits)
qed

lemma claimed_row_valid:
  assumes e: "claim_error d qr tr (expected_identity q k c content) = None"
    and content: "claim_content h c = Inr content" and sha: "digests_ok h"
    and anchor: "cm_external_id c = None \<longleftrightarrow> tr_external_id tr = None"
    and a: "a = granted_authority h now token q k c content"
  shows "authority_error (importing_queue now source (dset ''import_authority'' (PDict a) qraw) qr)
    (importing_task now (dset ''import_authority'' (PDict a) traw) tr) a PNone = None"
proof -
  let ?t = "importing_task now (dset ''import_authority'' (PDict a) traw) tr"
  note ok = claim_error_None [OF e]
  have fields: "identity_fields ?t = identity_fields tr"
    by (simp add: identity_fields_def importing_task_def Let_def)
  have "first_difference a (identity_fields tr) = first_difference (expected_identity q k c content) (identity_fields tr)"
    by (simp add: a identity_fields_def authority_field_def granted_expected)
  then have "first_mismatch a a (identity_fields ?t) = None"
    using ok(1) fields by (simp add: first_mismatch_same)
  moreover have "anchor_error ?t a a a = None"
  proof (cases "tr_external_id tr")
    case None
    then have "strip content \<noteq> []"
      using anchor content sha content_not_blank by (simp add: claim_content_def)
    with None show ?thesis
      by (simp add: anchor_error_def importing_task_def Let_def content_agrees_def authority_field_def a)
  next
    case (Some x)
    then have "content = []" using anchor content by (auto simp: claim_content_def)
    then have "cell (tr_external_id tr) \<noteq> []" using ok(4,5) by simp
    with Some show ?thesis
      by (simp add: anchor_error_def importing_task_def Let_def cell_def column_def)
  qed
  moreover have "path_error ?t a a PNone = None"
    using ok(6,7) by (simp add: path_error_def importing_task_def Let_def a)
  ultimately show ?thesis
    using ok(2,3)
    by (simp add: authority_error_def Let_def importing_queue_def importing_task_def cell_def
        import_authority_from_raw_def)
qed

lemma claim_valid:
  assumes g: "granted h now token q k c d a d'" and ok: "db_ok d" "digests_ok h"
    and "strip q = q" "strip k = k" "strip token \<noteq> []"
    and fresh: "list_all (\<lambda>r. token_of (tr_raw r) \<noteq> strip token) (ad_tasks d)"
    and anchor: "\<And>t. find_task k q d = Some t \<Longrightarrow> (cm_external_id c = None \<longleftrightarrow> tr_external_id t = None)"
  shows "\<exists>qr tr v. holds q k qr tr d' \<and> import_authority_from_raw (tr_raw tr) = a
    \<and> token_of (tr_raw tr) = strip token
    \<and> validate_import_authority d' q a PNone = Inr v \<and> get a ''claimed_at'' = PFloat (Fin now)"
proof -
  obtain content qr tr source where w: "claim_content h c = Inr content"
    "find_queue q d = Some qr" "find_task k q d = Some tr"
    "claim_error d qr tr (expected_identity q k c content) = None"
    "count_where (takes_task qr tr) (ad_tasks d) = 1" "count_where (takes_queue qr) (ad_queue d) = 1"
    "a = granted_authority h now token q k c content"
    "ad_tasks d' = update_where (takes_task qr tr)
       (importing_task now (dset ''import_authority'' (PDict a) (as_dict (tr_raw tr)))) (ad_tasks d)"
    "ad_queue d' = update_where (takes_queue qr)
       (importing_queue now source (dset ''import_authority'' (PDict a) (as_dict (qr_raw qr)))) (ad_queue d)"
    using g by (auto simp: granted_def)
  note ids = find_queue_id [OF w(2)] find_task_id [OF w(3)]
  have uniq: "r = s" if "r \<in> set (ad_tasks d)" "s \<in> set (ad_tasks d)" "tr_id r = tr_id s" for r s
    using ok(1) that by (metis db_ok_def distinct_map inj_onD)
  have uniqq: "r = s" if "r \<in> set (ad_queue d)" "s \<in> set (ad_queue d)" "qr_id r = qr_id s" for r s
    using ok(1) that by (metis db_ok_def distinct_map inj_onD)
  obtain s where s: "s \<in> set (ad_tasks d)" "takes_task qr tr s"
    using w(5) by (metis count_where_zero zero_neq_one)
  then have tk: "takes_task qr tr tr" using uniq [of s tr] ids by (simp add: takes_task_def)
  obtain s where s: "s \<in> set (ad_queue d)" "takes_queue qr s"
    using w(6) by (metis count_where_zero zero_neq_one)
  then have tq: "takes_queue qr qr" using uniqq [of s qr] ids by (simp add: takes_queue_def)
  let ?qr = "importing_queue now source (dset ''import_authority'' (PDict a) (as_dict (qr_raw qr))) qr"
  let ?tr = "importing_task now (dset ''import_authority'' (PDict a) (as_dict (tr_raw tr))) tr"
  have raws: "import_authority_from_raw (tr_raw ?tr) = a" "import_authority_from_raw (qr_raw ?qr) = a"
    by (simp_all add: importing_task_def importing_queue_def Let_def import_authority_from_raw_def)
  have tok: "authority_field a ''token'' = strip token" by (simp add: w(7) authority_field_def)
  have fq: "find_queue q d' = Some ?qr"
    using w(2,9) tq by (simp add: find_queue_def find_update_where importing_queue_def)
  have ft: "find_task k q d' = Some ?tr"
    using w(3,8) tk by (simp add: find_task_def find_update_where task_key_def importing_task_def Let_def)
  have "holds q k ?qr ?tr d'"
  proof -
    have "db_ok d'"
      using ok(1) w(8,9) by (simp add: db_ok_def map_key_update_where importing_task_def importing_queue_def Let_def)
    moreover have "tr_id r = k" if "r \<in> set (ad_tasks d')" "token_of (tr_raw r) = strip token" for r
      using that fresh ids unfolding w(8)
      by (auto simp: set_update_where list_all_iff takes_task_def importing_task_def Let_def task_key_def)
    ultimately show ?thesis
      using fq ft raws tok \<open>strip token \<noteq> []\<close>
      by (simp add: holds_def token_of_def importing_task_def Let_def)
  qed
  moreover have "validate_import_authority d' q a PNone = Inr \<lparr>va_authority = a, va_queue = ?qr,
      va_queue_raw = as_dict (qr_raw ?qr), va_task = ?tr, va_task_raw = as_dict (tr_raw ?tr)\<rparr>"
  proof -
    have "authority_field a ''download_task_id'' = k" "authority_field a ''queue_id'' = q"
      using assms(4,5) by (simp_all add: w(7) authority_field_def)
    moreover have "k \<noteq> []" using g by (simp add: granted_def)
    ultimately show ?thesis
      using tok \<open>strip token \<noteq> []\<close> fq ft assms(4)
        claimed_row_valid [OF w(4,1) ok(2) anchor [OF w(3)] w(7)]
      by (simp add: validate_import_authority_def)
  qed
  ultimately show ?thesis
    using raws tok w(7) by (intro exI [of _ ?qr] exI [of _ ?tr]) (auto simp: token_of_def)
qed

section \<open>Tokens that were given up\<close>

fun draws_token :: "string \<Rightarrow> import_op \<Rightarrow> bool" where
  "draws_token token (OpClaim now t i j c) = (strip t = token)"
| "draws_token token _ = False"

lemma queue_token_update:
  assumes "ad_queue d' = update_where p g (ad_queue d)" "\<And>r. qr_id (g r) = qr_id r"
  shows "queue_token q d' = (case find_queue q d of None \<Rightarrow> []
    | Some r \<Rightarrow> if p r then token_of (qr_raw (g r)) else token_of (qr_raw r))"
  using assms by (auto simp: queue_token_def find_queue_def find_update_where split: option.split)

lemma token_update:
  assumes "ad_queue d' = update_where p g (ad_queue d)"
    and "\<And>r. qr_id (g r) = qr_id r \<and> token_of (qr_raw (g r)) \<noteq> token" "queue_token q d \<noteq> token"
  shows "queue_token q d' \<noteq> token"
proof (cases "find_queue q d")
  case None
  then show ?thesis using assms queue_token_update [OF assms(1)] by (simp add: queue_token_def)
next
  case (Some r)
  then show ?thesis using assms queue_token_update [OF assms(1), of q] by (simp add: queue_token_def)
qed

text \<open>What every release keeps, the passes that release keep.\<close>

lemma sweep_rows_keeps:
  assumes "P d" "\<And>a d. P d \<Longrightarrow> P (snd (release_import_authority h now a ''import_authority_ttl_expired'' True False d))"
  shows "P (snd (sweep_rows h now cutoff as m d))"
  using assms(1)
proof (induction as arbitrary: m d)
  case (Cons a as)
  have "P (snd (release_import_authority h now a ''import_authority_ttl_expired'' True False d))"
    using assms(2) Cons.prems .
  with Cons show ?case by (auto split: sum.split prod.split option.split)
qed simp

lemma release_all_keeps:
  assumes "P d" "\<And>a d. P d \<Longrightarrow> P (snd (release_import_authority h now a reason True False d))"
  shows "P (snd (release_all h now reason as d))"
  using assms(1)
proof (induction as arbitrary: d)
  case (Cons a as)
  have r: "P (snd (release_import_authority h now a reason True False d))"
    using assms(2) Cons.prems .
  obtain res d' where e: "release_import_authority h now a reason True False d = (res, d')" by force
  with Cons.IH [of d'] r show ?case by (auto split: sum.split prod.split)
qed simp

lemma token_release:
  assumes "token \<noteq> []" "queue_token q d \<noteq> token"
  shows "queue_token q (snd (release_import_authority h now a reason staged blocked d)) \<noteq> token"
proof -
  obtain res d' where r: "release_import_authority h now a reason staged blocked d = (res, d')" by force
  consider "d' = d" | g where
      "ad_queue d' = update_where (\<lambda>q. qr_id q = authority_field a ''queue_id'' \<and> qr_state q \<noteq> ''verified'') g (ad_queue d)"
      "\<And>q. qr_id (g q) = qr_id q \<and> token_of (qr_raw (g q)) = []"
    using release_writes [OF r] by blast
  then have "queue_token q d' \<noteq> token"
    by cases (use assms token_update in \<open>auto\<close>)
  with r show ?thesis by simp
qed

lemma token_claim:
  assumes "strip t \<noteq> token" "queue_token q d \<noteq> token"
  shows "queue_token q (snd (claim_import_authority h now t i j c d)) \<noteq> token"
proof -
  obtain res d' where r: "claim_import_authority h now t i j c d = (res, d')" by force
  consider "d' = d" | a qr source raw where
      "ad_queue d' = update_where (takes_queue qr) (importing_queue now source (dset ''import_authority'' (PDict a) raw)) (ad_queue d)"
      "authority_field a ''token'' = strip t"
    using claim_writes [OF r] by (fastforce simp: granted_def authority_field_def)
  then have "queue_token q d' \<noteq> token"
  proof cases
    case (2 a qr source raw)
    show ?thesis
      by (rule token_update [OF 2(1)]) (use assms 2(2) in \<open>simp_all add: importing_queue_def\<close>)
  qed (use assms in simp)
  with r show ?thesis by simp
qed

lemma token_exec:
  assumes "token \<noteq> []" "queue_token q d \<noteq> token" "\<not> draws_token token op"
  shows "queue_token q (import_exec h op d) \<noteq> token"
proof (cases op)
  case (OpSweep now ttl n)
  then show ?thesis
    using sweep_rows_keeps [where P = "\<lambda>d. queue_token q d \<noteq> token", OF assms(2) token_release [OF assms(1)]] assms(2)
    by (simp add: sweep_expired_import_authorities_def)
next
  case (OpRecover now reason)
  then show ?thesis
    using release_all_keeps [where P = "\<lambda>d. queue_token q d \<noteq> token", OF assms(2) token_release [OF assms(1)]]
    by (simp add: recover_active_import_authorities_def Let_def case_prod_unfold)
next
  case (OpRetire now i j reason dest)
  have "ad_queue (import_exec h op d) = ad_queue d"
    by (auto simp: OpRetire retire_ready_task_for_completed_unit_def Let_def split: option.split)
  then show ?thesis using assms(2) by (simp add: queue_token_def find_queue_def)
next
  case (OpClear now i j)
  obtain res d' where r: "clear_orphaned_import_authority h now i j d = (res, d')" by force
  show ?thesis
  proof (cases "d' = d")
    case False
    then obtain g where "d' = d\<lparr>ad_queue := update_where (\<lambda>r. qr_id r = strip i) g (ad_queue d)\<rparr>"
      and g: "\<And>r. qr_id (g r) = qr_id r \<and> token_of (qr_raw (g r)) = []"
      using r by (force simp: clear_orphaned_import_authority_def Let_def token_of_def
          import_authority_from_raw_def get_dupdate authority_field_def split: if_splits option.splits)
    then have "queue_token q d' \<noteq> token"
      using assms(1,2) token_update [of d' "\<lambda>r. qr_id r = strip i" g d token q] by simp
    with OpClear r show ?thesis by simp
  qed (use OpClear r assms in simp)
qed (use assms in \<open>auto simp: token_claim token_release\<close>)

lemma token_history:
  "token \<noteq> [] \<Longrightarrow> queue_token q d \<noteq> token \<Longrightarrow> list_all (\<lambda>op. \<not> draws_token token op) ops \<Longrightarrow>
   queue_token q (fold (import_exec h) ops d) \<noteq> token"
  by (induction ops arbitrary: d) (simp_all add: token_exec)

lemma release_frees_queue:
  assumes "release_import_authority h now a reason staged blocked d = (Inr r, d')"
  shows "queue_token (authority_field a ''queue_id'') d' = []" "authority_field a ''token'' \<noteq> []"
proof -
  obtain v g where w: "validate_import_authority d (authority_field a ''queue_id'') a PNone = Inr v"
    "ad_queue d' = update_where (\<lambda>q. qr_id q = authority_field a ''queue_id'' \<and> qr_state q \<noteq> ''verified'') g (ad_queue d)"
    "\<And>q. qr_id (g q) = qr_id q \<and> token_of (qr_raw (g q)) = []"
    using release_writes [OF assms] by blast
  have "qr_state q \<noteq> ''verified''" if "find_queue (authority_field a ''queue_id'') d = Some q" for q
  proof
    assume "qr_state q = ''verified''"
    moreover have "lower (strip ''verified'') = ''verified''" by code_simp
    ultimately show False
      using w(1) that by (auto simp: validate_import_authority_def authority_error_def Let_def split: if_splits option.splits)
  qed
  then show "queue_token (authority_field a ''queue_id'') d' = []"
    using w(3) find_queue_id queue_token_update [OF w(2), of "authority_field a ''queue_id''"]
    by (auto split: option.splits)
  show "authority_field a ''token'' \<noteq> []" using released_gone [OF w(1)] by simp
qed

section \<open>Properties\<close>

lemma validate_cong:
  "find_queue q d = find_queue q d' \<Longrightarrow>
   find_task (authority_field a ''download_task_id'') q d = find_task (authority_field a ''download_task_id'') q d' \<Longrightarrow>
   validate_import_authority d q a p = validate_import_authority d' q a p"
  by (simp only: validate_import_authority_def)


text \<open>
  C13: A token that was given up is dead. After a successful release, in every later history in which no
  claim draws the same token again, no result is accepted under it, and releasing it once more is
  refused and changes nothing.
\<close>

theorem released_token_is_dead:
  assumes "release_import_authority h now a reason staged blocked d = (Inr r, d1)"
    and "list_all (\<lambda>op. \<not> draws_token (authority_field a ''token'') op) ops"
  shows "(\<exists>e. result_gate (fold (import_exec h) ops d1) (authority_field a ''queue_id'') raw (Some a) path = Inl e)
    \<and> (\<exists>e. release_import_authority h' now' a reason' staged' blocked' (fold (import_exec h) ops d1)
             = (Inl e, fold (import_exec h) ops d1))"
proof -
  let ?d2 = "fold (import_exec h) ops d1" and ?q = "authority_field a ''queue_id''"
  have "queue_token ?q ?d2 \<noteq> authority_field a ''token''"
    using release_frees_queue [OF assms(1)] assms(2) by (intro token_history) auto
  then have "\<nexists>v. validate_import_authority ?d2 ?q a p = Inr v" for p
    using released_gone by blast
  then have v: "\<exists>e. validate_import_authority ?d2 ?q a p = Inl e" for p
    by (metis obj_sumE)
  have "\<exists>e. result_gate ?d2 ?q raw (Some a) path = Inl e"
  proof (cases "find_queue ?q ?d2")
    case (Some qr)
    then have "qr_id qr = ?q" using find_queue_id by blast
    with v [of "PStr path"] Some show ?thesis by (auto simp: result_gate_def)
  qed (simp add: result_gate_def)
  moreover have "\<exists>e. release_import_authority h' now' a reason' staged' blocked' ?d2 = (Inl e, ?d2)"
    using v [of PNone] by (auto simp: release_import_authority_def Let_def)
  ultimately show ?thesis by blast
qed

text \<open>
  C12: A result is written only under a valid authority or where none is needed: if the gate lets a result
  pass, either no task of the queue item is ready or importing and nobody holds it, or the caller's
  token is the one that the queue row and the task row carry and the task is importing.
\<close>

theorem result_gate_closed:
  assumes "result_gate d q raw authority path = Inr row"
  shows "(authority = None \<and> queue_token q d = [] \<and> list_all (\<lambda>r. \<not> task_backed q r) (ad_tasks d))
    \<or> (\<exists>a t. authority = Some a \<and> queue_token q d = authority_field a ''token'' \<and> queue_token q d \<noteq> []
          \<and> find_task (authority_field a ''download_task_id'') q d = Some t
          \<and> token_of (tr_raw t) = authority_field a ''token'' \<and> lower (strip (tr_state t)) = ''importing'')"
proof -
  obtain qr where qr: "find_queue q d = Some qr" "qr_id qr = q"
    using assms find_queue_id by (auto simp: result_gate_def split: option.splits)
  show ?thesis
  proof (cases authority)
    case None
    then have "\<not> requires_authority d qr (named_raw raw None)"
      using assms qr by (auto simp: result_gate_def validate_import_authority_def authority_field_def split: if_splits)
    then show ?thesis
      using None qr by (simp add: requires_authority_def queue_token_def token_of_def list_ex_iff list_all_iff)
  next
    case (Some a)
    then obtain v where v: "validate_import_authority d q a (PStr path) = Inr v"
      using assms qr by (cases "validate_import_authority d q a (PStr path)") (auto simp: result_gate_def)
    then have "\<exists>t. find_task (authority_field a ''download_task_id'') q d = Some t
        \<and> token_of (tr_raw t) = authority_field a ''token'' \<and> lower (strip (tr_state t)) = ''importing''"
      by (auto simp: validate_import_authority_def authority_error_def token_of_def Let_def
          split: if_splits option.splits)
    then show ?thesis using Some released_gone [OF v] by auto
  qed
qed

section \<open>Given up and taken again\<close>

text \<open>The claim a worker makes for a row: its own columns.\<close>

definition claim_of :: "task_row \<Rightarrow> claim" where
  "claim_of t = \<lparr>cm_source_attempt_id = tr_source_attempt_id t, cm_external_id = tr_external_id t,
     cm_candidate_identity = tr_candidate_identity t, cm_download_client = tr_download_client t,
     cm_local_path = tr_local_path t\<rparr>"

lemma cell_clean: "strip (lower (cell c)) = strip (clean c)"
  by (cases c) (simp_all add: cell_def column_def clean_def strip_lower)

lemma path_cell: "import_authority_path (PStr (cell c)) = import_authority_path (column c)"
  by (simp add: import_authority_path_def cell_def import_authority_identity_def)

lemma claim_of_matches: "first_difference (expected_identity q k (claim_of t) content) (identity_fields t) = None"
  unfolding first_difference_None
  by (simp add: identity_fields_def expected_identity_def claim_of_def authority_field_def cell_def
      cell_clean [unfolded cell_def])

lemma valid_row:
  assumes "validate_import_authority d q a p = Inr v" "find_task (authority_field a ''download_task_id'') q d = Some t"
  shows "cell (tr_source_attempt_id t) \<noteq> []" "cell (tr_candidate_identity t) \<noteq> []"
    and "tr_external_id t \<noteq> None \<Longrightarrow> cell (tr_external_id t) \<noteq> []"
    and "import_authority_path (column (tr_local_path t)) \<noteq> []"
proof -
  obtain qr where "authority_error qr t a p = None"
    using assms by (auto simp: validate_import_authority_def split: if_splits option.splits)
  then show "cell (tr_source_attempt_id t) \<noteq> []" "cell (tr_candidate_identity t) \<noteq> []"
    "tr_external_id t \<noteq> None \<Longrightarrow> cell (tr_external_id t) \<noteq> []"
    "import_authority_path (column (tr_local_path t)) \<noteq> []"
    by (auto simp: authority_error_def Let_def cell_def anchor_error_def path_error_def column_def
        split: if_splits option.splits)
qed

text \<open>
  Nothing is lost when an import is given up for another attempt: after a release that keeps the staged
  file, a worker that claims the same task again, with a file that is still readable and while the
  series is not being moved, gets a new authority.
\<close>

theorem released_can_be_reclaimed:
  assumes "db_ok d" "release_import_authority h now a reason True blocked d = (Inr r, d1)"
    and "find_queue (authority_field a ''queue_id'') d = Some qr" "\<not> move_pending d (qr_series_id qr)"
    and "find_task (authority_field a ''download_task_id'') (authority_field a ''queue_id'') d = Some t"
    and "claim_content h' (claim_of t) = Inr content" "authority_field a ''queue_id'' \<noteq> []"
  shows "\<exists>a' d2. claim_import_authority h' now' token' (authority_field a ''queue_id'')
      (authority_field a ''download_task_id'') (claim_of t) d1 = (Inr a', d2)"
proof -
  let ?q = "authority_field a ''queue_id''" and ?k = "authority_field a ''download_task_id''"
  obtain v f g where w: "validate_import_authority d ?q a PNone = Inr v"
    "ad_tasks d1 = update_where (task_key ?k ?q) f (ad_tasks d)"
    "ad_queue d1 = update_where (\<lambda>q. qr_id q = ?q \<and> qr_state q \<noteq> ''verified'') g (ad_queue d)"
    "ad_series d1 = ad_series d"
    "\<And>t. tr_id (f t) = tr_id t" "\<And>t. tr_queue_id (f t) = tr_queue_id t"
    "\<And>t. tr_state (f t) = ''import_ready'' \<and> tr_status (f t) = Some ''staged_file_ready''
       \<and> identity_fields (f t) = identity_fields t \<and> tr_local_path (f t) = tr_local_path t"
    "\<And>q. qr_id (g q) = qr_id q" "\<And>q. token_of (qr_raw (g q)) = []"
    "\<And>q. qr_active (g q) = 1 \<and> qr_series_id (g q) = qr_series_id q \<and> qr_state (g q) = ''importing''"
    using release_writes [OF assms(2)] by (force simp: task_end_of_def)
  have live: "qr_state qr \<noteq> ''verified''"
  proof
    assume "qr_state qr = ''verified''"
    moreover have "lower (strip ''verified'') = ''verified''" by code_simp
    ultimately show False
      using w(1) assms(3) by (auto simp: validate_import_authority_def authority_error_def Let_def split: if_splits option.splits)
  qed
  note ids = find_queue_id [OF assms(3)] find_task_id [OF assms(5)]
  have fq: "find_queue ?q d1 = Some (g qr)"
    using assms(3) w(3,8) live ids by (simp add: find_queue_def find_update_where)
  have ft: "find_task ?k ?q d1 = Some (f t)"
    using assms(5) w(2,5,6) ids by (simp add: find_task_def find_update_where task_key_def)
  have ok1: "db_ok d1"
    using assms(1) w(2,3,5,8) by (simp add: db_ok_def map_key_update_where)
  let ?e = "expected_identity ?q ?k (claim_of t) content"
  have "claim_error d1 (g qr) (f t) ?e = None"
  proof -
    have "first_difference ?e (identity_fields (f t)) = None"
      using claim_of_matches w(7) by simp
    moreover have "cell (tr_external_id t) \<noteq> [] \<or> content \<noteq> []"
      using assms(6) valid_row(3) [OF w(1) assms(5)]
      by (cases "tr_external_id t") (auto simp: claim_content_def claim_of_def import_claim_content_identity_def
          split: file_hash.splits if_splits)
    moreover have "authority_field (import_authority_from_raw (qr_raw (g qr))) ''token'' = []"
      using w(9) by (simp add: token_of_def)
    moreover have "\<not> move_pending d1 (qr_series_id (g qr))"
      using assms(4) w(4,10) by (simp add: move_pending_def)
    moreover have "''importing'' \<noteq> ''verified''" by simp
    ultimately show ?thesis
      using w(7,10) valid_row(1,2,4) [OF w(1) assms(5)]
      by (simp add: claim_error_def Let_def ready_statuses_def claim_of_def path_cell)
  qed
  moreover have "count_where (takes_task (g qr) (f t)) (ad_tasks d1) = 1"
    using ok1 find_task_id [OF ft] w(7) find_queue_id [OF fq] unfolding db_ok_def
    by (intro count_unique [where f = tr_id and r = "f t"]) (auto simp: takes_task_def task_key_def)
  moreover have "count_where (takes_queue (g qr)) (ad_queue d1) = 1"
    using ok1 find_queue_id [OF fq] w(10) unfolding db_ok_def
    by (intro count_unique [where f = qr_id and r = "g qr"]) (auto simp: takes_queue_def)
  moreover have "?q \<noteq> []" "?k \<noteq> []"
    using w(1) assms(7) by (auto simp: validate_import_authority_def split: if_splits)
  ultimately show ?thesis
    using fq ft assms(6)
    by (simp add: claim_import_authority_def grant_def Let_def takes_task_def [abs_def] takes_queue_def [abs_def])
qed

section \<open>Abandoned claims\<close>

lemma claim_mentioned: "token_of raw \<noteq> [] \<Longrightarrow> mentions raw"
proof -
  have "like_text ''import_authority''" by code_simp
  then have "dget m ''import_authority'' \<noteq> None \<Longrightarrow> mentions_dict m" for m
    by (induction m) (auto split: if_splits)
  then show "token_of raw \<noteq> [] \<Longrightarrow> mentions raw"
    by (cases raw) (force simp: token_of_def import_authority_from_raw_def authority_field_def get_def split: option.splits)+
qed

lemma sweep_rows_frees:
  assumes "holds q k qr tr d" "validate_import_authority d q a PNone = Inr v" "authority_field a ''queue_id'' = q"
    and "authority_field a ''download_task_id'' = k" "token_of (tr_raw tr) = authority_field a ''token''"
    and "get a ''claimed_at'' = PFloat (Fin claimed)" "claimed \<le> cutoff"
    and "\<And>b. b \<in> set as \<Longrightarrow> authority_field b ''token'' = token_of (tr_raw tr) \<Longrightarrow> b = a" "a \<in> set as"
    and "fst (sweep_rows h now cutoff as m d) = Inr n"
  shows "queue_token q (snd (sweep_rows h now cutoff as m d)) = []"
  using assms
proof (induction as arbitrary: d m)
  case (Cons b as)
  note release = holds_release [OF Cons.prems(1)]
  show ?case
  proof (cases "b = a")
    case True
    obtain res d' where r: "release_import_authority h now a ''import_authority_ttl_expired'' True False d = (res, d')"
      by force
    then obtain x where x: "res = Inr x"
      using Cons.prems(2,3) by (auto simp: release_import_authority_def Let_def)
    have keep: "queue_token q (snd (release_import_authority h now c ''import_authority_ttl_expired'' True False d)) = []"
      if "queue_token q d = []" for c d
      using token_release [of "queue_token q (snd (release_import_authority h now c ''import_authority_ttl_expired'' True False d))" q d] that
      by metis
    have "queue_token q d' = []"
      using release_frees_queue(1) [of h now a _ True False d x d'] r x Cons.prems(3) by simp
    then have "queue_token q (snd (sweep_rows h now cutoff as (m + 1) d')) = []"
      by (rule sweep_rows_keeps [where P = "\<lambda>d. queue_token q d = []"]) (rule keep)
    moreover have "safe_float_or_none (get a ''claimed_at'') = Inr (Some (Fin claimed))"
      using Cons.prems(6) by (simp add: safe_float_or_none_def)
    ultimately show ?thesis using True r x Cons.prems(7) by simp
  next
    case False
    then have other: "authority_field b ''token'' \<noteq> token_of (tr_raw tr)" "a \<in> set as"
      using Cons.prems(8,9) by auto
    have rest: "queue_token q (snd (sweep_rows h now cutoff as m' d')) = []"
      if "holds q k qr tr d'" "fst (sweep_rows h now cutoff as m' d') = Inr n" for m' d'
    proof (rule Cons.IH)
      show "validate_import_authority d' q a PNone = Inr v"
        using validate_cong [of q d d' a PNone] Cons.prems(1,2,4) that(1) by (simp add: holds_def)
    qed (use that Cons.prems(3-8) other in auto)
    have "holds q k qr tr (snd (release_import_authority h now b ''import_authority_ttl_expired'' True False d))"
      using release [OF other(1)] .
    with rest Cons.prems(1,10) show ?thesis
      by (auto split: sum.splits prod.splits option.splits if_splits)
  qed
qed simp


section \<open>Examples\<close>

definition sample_host :: host where
  "sample_host = \<lparr>ho_sha256 = (\<lambda>_. ''ab''), ho_files = (\<lambda>_. Some (1, Some ''x'')), ho_stamp = (\<lambda>_. ''now'')\<rparr>"

definition sample_task :: "string \<Rightarrow> string \<Rightarrow> string \<Rightarrow> task_row" where
  "sample_task i state status =
     \<lparr>tr_id = i, tr_queue_id = Some ''q1'', tr_source_attempt_id = Some ''s1'', tr_source = None,
      tr_provider = None, tr_protocol = None, tr_download_client = Some ''SABnzbd'',
      tr_external_id = Some ''job'', tr_candidate_identity = Some ''c1'', tr_lifecycle_phase = None,
      tr_outcome = None, tr_display_phase = None, tr_failure_reason = None, tr_retry_eligible = None,
      tr_title = None, tr_status = Some status, tr_state = state, tr_local_path = Some ''/staging/a.cbz'',
      tr_started_at = None, tr_updated_at = None, tr_completed_at = None, tr_raw = PDict []\<rparr>"

definition sample_queue :: queue_row where
  "sample_queue = \<lparr>qr_id = ''q1'', qr_series_id = ''series'', qr_wanted_id = None, qr_state = ''importing'',
     qr_current_source = None, qr_last_event = None, qr_active = 1, qr_outcome = None,
     qr_display_phase = None, qr_updated_at = None, qr_raw = PDict []\<rparr>"

text \<open>One item with a finished download and another one on its way.\<close>

definition sample_db :: acq_db where
  "sample_db = \<lparr>ad_queue = [sample_queue],
     ad_tasks = [sample_task ''t1'' ''import_ready'' ''staged_file_ready'', sample_task ''t2'' ''downloading'' ''downloading''],
     ad_attempts = [], ad_wanted = [], ad_series = [], ad_bad = [], ad_sync = None\<rparr>"

definition sample_claim :: claim where
  "sample_claim = claim_of (sample_task ''t1'' ''import_ready'' ''staged_file_ready'')"

definition sample_authority :: pydict where
  "sample_authority = granted_authority sample_host 100 ''tok'' ''q1'' ''t1'' sample_claim []"

definition claimed_db :: acq_db where
  "claimed_db = snd (claim_import_authority sample_host 100 ''tok'' ''q1'' ''t1'' sample_claim sample_db)"

lemmas sample_simps = sample_host_def sample_task_def sample_queue_def sample_db_def sample_claim_def
  sample_authority_def claimed_db_def claim_of_def

lemma sample_claimed: "claim_import_authority sample_host 100 ''tok'' ''q1'' ''t1'' sample_claim sample_db
    = (Inr sample_authority, claimed_db)"
proof -
  have "(case fst (claim_import_authority sample_host 100 ''tok'' ''q1'' ''t1'' sample_claim sample_db) of
      Inl e \<Rightarrow> False | Inr a \<Rightarrow> a = sample_authority)"
    by code_simp
  then show ?thesis by (simp add: claimed_db_def prod_eq_iff split: sum.splits)
qed

lemma sample_ok: "db_ok sample_db" "digests_ok sample_host"
proof -
  show "db_ok sample_db" by (simp add: db_ok_def sample_simps)
  have "strip ''ab'' \<noteq> []" by code_simp
  then show "digests_ok sample_host" by (simp add: digests_ok_def sample_host_def)
qed

lemma sample_words [simp]: "strip ''q1'' = ''q1''" "strip ''t1'' = ''t1''" "strip ''t2'' = ''t2''"
  "strip ''tok'' = ''tok''" "strip ''tok2'' = ''tok2''"
  by code_simp+

lemma sample_fields [simp]:
  "authority_field sample_authority ''queue_id'' = ''q1''"
  "authority_field sample_authority ''download_task_id'' = ''t1''"
  "authority_field sample_authority ''token'' = ''tok''"
  by (simp_all add: sample_authority_def authority_field_def)

lemma sample_find: "find_task ''t1'' ''q1'' sample_db = Some (sample_task ''t1'' ''import_ready'' ''staged_file_ready'')"
  by (simp add: find_task_def task_key_def sample_simps)

lemma sample_fresh: "list_all (\<lambda>r. token_of (tr_raw r) \<noteq> strip ''tok'') (ad_tasks sample_db)"
  by (simp add: sample_db_def sample_task_def token_of_def import_authority_from_raw_def authority_field_def)


lemma sample_release:
  "\<exists>r d1. release_import_authority sample_host 300 sample_authority ''import_failed'' True False claimed_db = (Inr r, d1)"
proof -
  have "isInr (fst (release_import_authority sample_host 300 sample_authority ''import_failed'' True False claimed_db))"
    by code_simp
  then show ?thesis by (auto simp: isInr_iff prod_eq_iff)
qed

lemma released_token_is_dead_witness:
  "\<exists>d1 e. snd (release_import_authority sample_host 300 sample_authority ''import_failed'' True False claimed_db) = d1
     \<and> release_import_authority sample_host 500 sample_authority ''import_failed'' False False
         (fold (import_exec sample_host) [OpClaim 400 ''tok2'' ''q1'' ''t1'' sample_claim] d1)
       = (Inl e, fold (import_exec sample_host) [OpClaim 400 ''tok2'' ''q1'' ''t1'' sample_claim] d1)"
proof -
  obtain r d1 where r: "release_import_authority sample_host 300 sample_authority ''import_failed'' True False claimed_db = (Inr r, d1)"
    using sample_release by blast
  have "list_all (\<lambda>op. \<not> draws_token (authority_field sample_authority ''token'') op)
      [OpClaim 400 ''tok2'' ''q1'' ''t1'' sample_claim]" by simp
  from released_token_is_dead [OF r this] r show ?thesis by auto
qed

lemma released_can_be_reclaimed_witness:
  "\<exists>a'. fst (claim_import_authority sample_host 400 ''tok2'' ''q1'' ''t1'' sample_claim
      (snd (release_import_authority sample_host 300 sample_authority ''import_failed'' True False claimed_db))) = Inr a'"
proof -
  obtain r d1 where r: "release_import_authority sample_host 300 sample_authority ''import_failed'' True False claimed_db = (Inr r, d1)"
    using sample_release by blast
  have "(case find_queue ''q1'' claimed_db of None \<Rightarrow> False | Some q \<Rightarrow> \<not> move_pending claimed_db (qr_series_id q))"
    by code_simp
  then obtain qr where q: "find_queue ''q1'' claimed_db = Some qr" "\<not> move_pending claimed_db (qr_series_id qr)"
    by (auto split: option.splits)
  have "(case find_task ''t1'' ''q1'' claimed_db of None \<Rightarrow> False | Some t \<Rightarrow> claim_of t = sample_claim)"
    by code_simp
  then obtain t where t: "find_task ''t1'' ''q1'' claimed_db = Some t" "claim_of t = sample_claim"
    by (auto split: option.splits)
  have c: "claim_content sample_host (claim_of t) = Inr []"
    unfolding t(2) by (simp add: claim_content_def sample_claim_def claim_of_def sample_task_def)
  have "db_ok claimed_db" by code_simp
  from released_can_be_reclaimed [OF this r, unfolded sample_fields, OF q t(1) c] r show ?thesis
    unfolding t(2) by (metis fst_conv list.distinct(1) snd_conv)
qed

lemma result_gate_closed_witness:
  "isInr (result_gate claimed_db ''q1'' [] (Some sample_authority) ''/staging/a.cbz'') \<and> queue_token ''q1'' claimed_db = ''tok''"
proof -
  have i: "isInr (result_gate claimed_db ''q1'' [] (Some sample_authority) ''/staging/a.cbz'')"
    by code_simp
  then obtain row where "result_gate claimed_db ''q1'' [] (Some sample_authority) ''/staging/a.cbz'' = Inr row"
    by (auto simp: isInr_iff)
  from result_gate_closed [OF this] i show ?thesis by auto
qed


text \<open>
  The repair of a torn claim does not look at whose claim it clears: called for another task of the
  queue item, it takes the queue row's token away from an import that is running.
\<close>

lemma orphan_clear_interrupts_sibling:
  "active_import_authority claimed_db ''q1'' ''t1'' PNone = sample_authority"
  "fst (clear_orphaned_import_authority sample_host 200 ''q1'' ''t2'' claimed_db) = Inr ()"
  "active_import_authority (snd (clear_orphaned_import_authority sample_host 200 ''q1'' ''t2'' claimed_db)) ''q1'' ''t1'' PNone = []"
  "map_option tr_state (find_task ''t1'' ''q1''
     (snd (clear_orphaned_import_authority sample_host 200 ''q1'' ''t2'' claimed_db))) = Some ''importing''"
  by code_simp+

end
