(* ===== verification/DeferredSync.thy ===== *)
theory DeferredSync
  imports Py
begin

text \<open>
  Deferred queue syncs: when a search run cannot take the lock of the queue, it stores a snapshot of
  its outcome, and with it the source attempts it could not record. The worker replays snapshots
  while they are younger than a window; a maintenance pass classifies the ones that are left,
  replays what has outlived the window and retires what nobody needs.

  The table and its operations are those of \<^verbatim>\<open>core/inkdrop_state.py\<close>, the classifier and the
  reconciler \<^verbatim>\<open>core/inkdrop_deferred_sync.py\<close>, the worker's side is in
  \<^verbatim>\<open>core/inkdrop_series_autopilot.py\<close>. A payload column is the value that parsing it yields, \<open>None\<close> if
  it does not parse. Recording a source attempt is a parameter, as it is in the source: a function on
  the rest of the database, answering a value or raising. The clock and the fallback identifier are
  arguments; the retries of \<open>with_db_lock_retry\<close> repeat a transaction that wrote nothing.
\<close>

section \<open>Evaluating decimals\<close>

text \<open>The text of an integer by division of integers, which evaluates large ones.\<close>

function digits_str :: "int \<Rightarrow> string" where
  "digits_str i = (if i < 10 then [digit_char (nat i)] else digits_str (i div 10) @ [digit_char (nat (i mod 10))])"
  by auto
termination by (relation "measure nat") auto

declare digits_str.simps [simp del]

lemma nat_str_by_digits: "nat_str n = digits_str (int n)"
proof (induction n rule: nat_str.induct)
  case (1 n)
  then show ?case
    by (subst nat_str.simps, subst digits_str.simps) (auto simp: zdiv_int nat_mod_as_int)
qed

lemma int_str_code [code]: "int_str i = (if i < 0 then CHR ''-'' # digits_str (- i) else digits_str i)"
  by (simp add: int_str_def nat_str_by_digits)

section \<open>The table\<close>

record sync_row =
  ds_id :: string
  ds_source :: string
  ds_reason :: "string option"
  ds_status :: string
  ds_created_at :: rat
  ds_applied_at :: "rat option"
  ds_acked_at :: "rat option"
  ds_row_count :: "int option"
  ds_payload :: "pyval option"

text \<open>The table, what \<open>update_sync_meta\<close> stamps, and the keys of the events written to the history.\<close>

record sync_db =
  sd_rows :: "sync_row list"
  sd_sync :: "(rat \<times> string) option"
  sd_events :: "string list"

definition stamp_sync :: "rat \<Rightarrow> sync_db \<Rightarrow> sync_db" where
  "stamp_sync now d = d\<lparr>sd_sync := Some (now, ''deferred_queue_sync'')\<rparr>"

record sync_request =
  sq_id :: string
  sq_source :: string
  sq_reason :: string
  sq_created_at :: "rat option"
  sq_row_count :: int
  sq_payload :: pydict

definition or_text :: "string \<Rightarrow> string \<Rightarrow> string" where
  "or_text s fallback = (let t = strip (if s = [] then fallback else s) in if t = [] then fallback else t)"

definition deferred_queue_sync_payload :: "rat \<Rightarrow> string \<Rightarrow> sync_request \<Rightarrow> sync_row" where
  "deferred_queue_sync_payload clock fresh q =
     (let now = (case sq_created_at q of None \<Rightarrow> clock | Some t \<Rightarrow> if t = 0 then clock else t) in
      \<lparr>ds_id = strip (if sq_id q = [] then fresh else sq_id q),
       ds_source = or_text (sq_source q) ''manual_source_autoresolve'',
       ds_reason = Some (or_text (sq_reason q) ''series_autopilot_lock_unavailable''),
       ds_status = ''pending'', ds_created_at = now, ds_applied_at = None, ds_acked_at = None,
       ds_row_count = Some (sq_row_count q), ds_payload = Some (PDict (sq_payload q))\<rparr>)"

text \<open>\<open>on conflict(id) do update\<close>: a snapshot that is applied or acknowledged keeps its status.\<close>

definition merge_sync :: "sync_row \<Rightarrow> sync_row \<Rightarrow> sync_row" where
  "merge_sync new old =
     old\<lparr>ds_source := ds_source new, ds_reason := ds_reason new,
         ds_status := (if ds_status old \<in> {''acked'', ''applied''} then ds_status old else ds_status new),
         ds_row_count := ds_row_count new, ds_payload := ds_payload new\<rparr>"

definition record_deferred_queue_sync :: "rat \<Rightarrow> string \<Rightarrow> sync_request \<Rightarrow> sync_db \<Rightarrow> string \<times> sync_db" where
  "record_deferred_queue_sync clock fresh q d =
     (let new = deferred_queue_sync_payload clock fresh q;
          rows = (if ds_id new \<in> ds_id ` set (sd_rows d)
                  then update_where (\<lambda>r. ds_id r = ds_id new) (merge_sync new) (sd_rows d)
                  else sd_rows d @ [new])
      in (ds_id new, stamp_sync clock (d\<lparr>sd_rows := rows\<rparr>)))"

definition outstanding :: "sync_row \<Rightarrow> bool" where
  "outstanding r = (ds_status r \<in> {''pending'', ''applied''})"

definition sql_take :: "int \<Rightarrow> 'a list \<Rightarrow> 'a list" where
  "sql_take n xs = (if n < 0 then xs else take (nat n) xs)"

definition pending_deferred_queue_sync_rows :: "rat \<Rightarrow> string \<Rightarrow> rat \<Rightarrow> int \<Rightarrow> sync_db \<Rightarrow> sync_row list" where
  "pending_deferred_queue_sync_rows now source ttl n d =
     (let cutoff = (if ttl = 0 then 0 else now - ttl); key = strip source in
      sql_take (if n = 0 then 80 else n) (sort_key ds_created_at
        (filter (\<lambda>r. outstanding r \<and> (cutoff > 0 \<longrightarrow> ds_created_at r \<ge> cutoff)
           \<and> (key \<noteq> [] \<longrightarrow> ds_source r = key)) (sd_rows d))))"

definition mark_deferred_queue_sync_applied :: "rat \<Rightarrow> string \<Rightarrow> sync_db \<Rightarrow> nat option \<times> sync_db" where
  "mark_deferred_queue_sync_applied now sync_id d =
     (let i = strip sync_id; this = (\<lambda>r. ds_id r = i \<and> outstanding r) in
      if i = [] then (None, d)
      else (Some (count_where this (sd_rows d)),
        stamp_sync now (d\<lparr>sd_rows := update_where this
          (\<lambda>r. r\<lparr>ds_status := ''applied'', ds_applied_at := Some now\<rparr>) (sd_rows d)\<rparr>)))"

definition acknowledge :: "rat \<Rightarrow> sync_row \<Rightarrow> sync_row" where
  "acknowledge now r = r\<lparr>ds_status := ''acked'', ds_acked_at := Some now\<rparr>"

definition ack_deferred_queue_syncs :: "rat \<Rightarrow> string list \<Rightarrow> sync_db \<Rightarrow> nat \<times> sync_db" where
  "ack_deferred_queue_syncs now sync_ids d =
     (let ids = filter (\<lambda>i. i \<noteq> []) (map strip sync_ids); these = (\<lambda>r. ds_id r \<in> set ids \<and> outstanding r) in
      if ids = [] then (0, d)
      else (count_where these (sd_rows d),
        stamp_sync now (d\<lparr>sd_rows := update_where these (acknowledge now) (sd_rows d)\<rparr>)))"

definition applied_marker :: "sync_row \<Rightarrow> rat" where
  "applied_marker r = (case ds_applied_at r of Some t \<Rightarrow> t | None \<Rightarrow> ds_created_at r)"

definition applied_ids :: "rat \<Rightarrow> string \<Rightarrow> rat \<Rightarrow> int \<Rightarrow> sync_db \<Rightarrow> string list" where
  "applied_ids now source older_than n d =
     (let cutoff = now - max 0 older_than; key = strip source;
          row_limit = nat (max 1 (min (if n = 0 then 200 else n) 1000))
      in filter (\<lambda>i. i \<noteq> []) (map ds_id (take row_limit
            (sort_key applied_marker (sort_key ds_created_at
              (filter (\<lambda>r. ds_status r = ''applied'' \<and> applied_marker r \<le> cutoff
                 \<and> (key \<noteq> [] \<longrightarrow> ds_source r = key)) (sd_rows d)))))))"

definition ack_applied_deferred_queue_syncs ::
    "rat \<Rightarrow> string \<Rightarrow> rat \<Rightarrow> int \<Rightarrow> sync_db \<Rightarrow> string list \<times> sync_db" where
  "ack_applied_deferred_queue_syncs now source older_than n d =
     (let ids = applied_ids now source older_than n d in
      if ids = [] then ([], d)
      else (ids, stamp_sync now (d\<lparr>sd_rows := update_where
        (\<lambda>r. ds_id r \<in> set ids \<and> ds_status r = ''applied'') (acknowledge now) (sd_rows d)\<rparr>)))"

section \<open>Reading a payload\<close>

definition payload_of :: "pyval option \<Rightarrow> pydict option" where
  "payload_of v = (case v of Some (PDict m) \<Rightarrow> Some m | _ \<Rightarrow> None)"

definition records_of :: "pydict option \<Rightarrow> py_exn + pydict list" where
  "records_of payload =
     (case payload of
        None \<Rightarrow> Inr []
      | Some m \<Rightarrow> bindE (dict_rows (get m ''processed'')) (\<lambda>ps.
          mapE (\<lambda>ss. ps @ ss) (dict_rows (get m ''skipped''))))"

definition queue_key :: "pydict \<Rightarrow> string" where
  "queue_key r = strip (str_or_empty (por (get r ''autopilot_queue_key'') (get r ''queue_id'')))"

definition queue_keys :: "pydict list \<Rightarrow> string list" where
  "queue_keys rs = sort (remdups (filter (\<lambda>k. k \<noteq> []) (map queue_key rs)))"

definition record_statuses :: "pydict list \<Rightarrow> string list" where
  "record_statuses rs =
     sort (remdups (map (\<lambda>r. lower (str_or_empty (get r ''status''))) (filter (\<lambda>r. truthy (get r ''status'')) rs)))"

text \<open>\<open>float(value)\<close>, skipping what is empty or not a number; an overflow is not caught.\<close>

definition retry_time :: "pyval \<Rightarrow> py_exn + flt list" where
  "retry_time v =
     (if none_or_empty v then Inr []
      else case float_arg v of
        Inr x \<Rightarrow> Inr [x]
      | Inl e \<Rightarrow> if e \<in> {TypeError, ValueError} then Inr [] else Inl e)"

definition record_retry_times :: "pydict list \<Rightarrow> py_exn + flt list" where
  "record_retry_times rs =
     mapE (\<lambda>xss. filter (flt_lt (Fin 0)) (concat xss))
       (traverseE (\<lambda>v. retry_time v)
         (concat (map (\<lambda>r. map (get r) [''next_retry_after'', ''retry_after'', ''next_attempt_at'']) rs)))"

record replay_entry =
  re_queue_id :: string
  re_attempt :: pydict
  re_attempt_id :: pyval
  re_started_at :: pyval
  re_completed_at :: pyval

definition replay_entry_of :: "pydict \<Rightarrow> replay_entry" where
  "replay_entry_of row =
     \<lparr>re_queue_id = strip (str_or_empty (get row ''queue_id'')), re_attempt = as_dict (get row ''attempt''),
      re_attempt_id = get row ''attempt_id'', re_started_at = get row ''started_at'',
      re_completed_at = get row ''completed_at''\<rparr>"

definition replay_rows :: "pydict option \<Rightarrow> replay_entry list" where
  "replay_rows payload =
     (case payload of
        None \<Rightarrow> []
      | Some m \<Rightarrow> map replay_entry_of
          (filter (\<lambda>row. strip (str_or_empty (get row ''queue_id'')) \<noteq> [] \<and> is_dict (get row ''attempt''))
            (map as_dict (filter is_dict (as_list (get m ''native_attempt_replay''))))))"

section \<open>Classifying\<close>

definition PERMANENT_CLASSES :: "string list" where
  "PERMANENT_CLASSES = [''already_applied'', ''superseded'', ''target_row_removed'',
     ''malformed_stale_record'', ''duplicate'']"

definition ELIGIBLE_CLASSES :: "string list" where
  "ELIGIBLE_CLASSES = [''still_required_eligible'', ''lock_deferral'']"

definition REPLAY_TTL_SECONDS :: rat where
  "REPLAY_TTL_SECONDS = 48 * 3600"

definition EXPIRED_REPLAY_CLASS :: string where
  "EXPIRED_REPLAY_CLASS = ''replay_window_expired''"

type_synonym fingerprint = "string \<times> string option \<times> string list \<times> string list"

text \<open>What the classifier knows of a row besides the row.\<close>

record facts =
  fc_payload :: "pydict option"
  fc_keys :: "string list"
  fc_statuses :: "string list"
  fc_retry_times :: "flt list"

definition facts_of :: "sync_row \<Rightarrow> py_exn + facts" where
  "facts_of r =
     (let payload = payload_of (ds_payload r) in
      bindE (records_of payload) (\<lambda>rs.
      mapE (\<lambda>ts. \<lparr>fc_payload = payload, fc_keys = queue_keys rs, fc_statuses = record_statuses rs,
                  fc_retry_times = ts\<rparr>)
        (record_retry_times rs)))"

definition fingerprint_of :: "sync_row \<Rightarrow> facts \<Rightarrow> fingerprint" where
  "fingerprint_of r f = (ds_source r, ds_reason r, fc_keys f, fc_statuses f)"

definition age_of :: "rat \<Rightarrow> sync_row \<Rightarrow> rat" where
  "age_of now r = max 0 (now - (if ds_created_at r = 0 then now else ds_created_at r))"

definition future_times :: "rat \<Rightarrow> facts \<Rightarrow> flt list" where
  "future_times now f = filter (flt_lt (Fin now)) (fc_retry_times f)"

definition overdue_times :: "rat \<Rightarrow> facts \<Rightarrow> flt list" where
  "overdue_times now f = filter (\<lambda>t. flt_le t (Fin now)) (fc_retry_times f)"

definition classification ::
    "rat \<Rightarrow> rat \<Rightarrow> rat \<Rightarrow> string list \<Rightarrow> fingerprint list \<Rightarrow> sync_row \<Rightarrow> facts \<Rightarrow> string" where
  "classification now stale_after replay_ttl queue_ids seen r f =
     (let age = age_of now r; busy = (ds_reason r = Some ''series_autopilot_lock_busy'') in
      if ds_status r \<in> {''acked'', ''applied''} then ''already_applied''
      else if fc_payload f = None
      then (if age \<ge> stale_after then ''malformed_stale_record'' else ''malformed_pending'')
      else if fingerprint_of r f \<in> set seen then ''duplicate''
      else if fc_keys f \<noteq> [] \<and> \<not> list_ex (\<lambda>k. k \<in> set queue_ids) (fc_keys f) then ''target_row_removed''
      else if age \<ge> stale_after \<and> busy then ''superseded''
      else if age \<ge> replay_ttl then EXPIRED_REPLAY_CLASS
      else if future_times now f \<noteq> [] then ''retry_scheduled''
      else if list_ex (\<lambda>s. contains_any s [''provider'', ''transfer'']) (fc_statuses f)
      then ''provider_client_wait''
      else if busy then ''lock_deferral''
      else ''still_required_eligible'')"

fun least :: "flt list \<Rightarrow> flt option" where
  "least [] = None"
| "least (t # ts) = Some (fold (\<lambda>u m. flt_min m u) ts t)"

record sync_item =
  it_row :: sync_row
  it_class :: string
  it_age :: rat
  it_queue_keys :: "string list"
  it_statuses :: "string list"
  it_permanently_stale :: bool
  it_eligible_now :: bool
  it_replay_expired :: bool
  it_unreplayed :: nat
  it_next_attempt :: "flt option"
  it_due_now :: bool
  it_overdue :: bool
  it_overdue_seconds :: int

definition overdue_seconds_of :: "rat \<Rightarrow> flt list \<Rightarrow> int" where
  "overdue_seconds_of now ts = (case least ts of Some (Fin t) \<Rightarrow> trunc (now - t) | _ \<Rightarrow> 0)"

definition item_of :: "rat \<Rightarrow> string \<Rightarrow> sync_row \<Rightarrow> facts \<Rightarrow> sync_item" where
  "item_of now c r f =
     (let future = future_times now f; overdue = overdue_times now f in
      \<lparr>it_row = r, it_class = c, it_age = age_of now r, it_queue_keys = fc_keys f,
       it_statuses = fc_statuses f, it_permanently_stale = (c \<in> set PERMANENT_CLASSES),
       it_eligible_now = (c \<in> set ELIGIBLE_CLASSES), it_replay_expired = (c = EXPIRED_REPLAY_CLASS),
       it_unreplayed = length (replay_rows (fc_payload f)), it_next_attempt = least future,
       it_due_now = (c \<in> set ELIGIBLE_CLASSES \<or> overdue \<noteq> []),
       it_overdue = (overdue \<noteq> [] \<and> future = []),
       it_overdue_seconds = (if overdue \<noteq> [] \<and> future = [] then overdue_seconds_of now overdue else 0)\<rparr>)"

fun classify_rows ::
    "rat \<Rightarrow> rat \<Rightarrow> rat \<Rightarrow> string list \<Rightarrow> fingerprint list \<Rightarrow> sync_row list \<Rightarrow> py_exn + sync_item list" where
  "classify_rows now stale_after replay_ttl queue_ids seen [] = Inr []"
| "classify_rows now stale_after replay_ttl queue_ids seen (r # rs) =
     bindE (facts_of r) (\<lambda>f.
       mapE (\<lambda>items. item_of now (classification now stale_after replay_ttl queue_ids seen r f) r f # items)
         (classify_rows now stale_after replay_ttl queue_ids (fingerprint_of r f # seen) rs))"

record audit =
  au_count :: nat
  au_status_counts :: "(string \<times> nat) list"
  au_classified_count :: nat
  au_truncated :: bool
  au_count_by_reason :: "(string \<times> nat) list"
  au_oldest_age :: rat
  au_eligible_now :: nat
  au_permanently_stale :: nat
  au_replay_expired :: nat
  au_unreplayed_attempts :: nat
  au_not_actionable_now :: nat
  au_last_successful_sync :: "rat option"
  au_next_attempt :: "flt option"
  au_due_now :: bool
  au_overdue :: bool
  au_overdue_seconds :: int
  au_stale_signal :: bool
  au_rows :: "sync_item list"

definition pending :: "sync_row \<Rightarrow> bool" where
  "pending r = (ds_status r = ''pending'')"

definition pending_window :: "int \<Rightarrow> sync_db \<Rightarrow> sync_row list" where
  "pending_window n d =
     take (nat (max 1 (min n 5000))) (sort_key (\<lambda>r. - ds_created_at r) (filter pending (sd_rows d)))"

definition last_applied :: "sync_db \<Rightarrow> rat option" where
  "last_applied d =
     (let ts = concat (map (\<lambda>r. case ds_applied_at r of Some t \<Rightarrow> [t] | None \<Rightarrow> [])
        (filter (\<lambda>r. ds_status r \<in> {''acked'', ''applied''}) (sd_rows d)))
      in if ts = [] \<or> foldr max ts (hd ts) = 0 then None else Some (foldr max ts (hd ts)))"

definition sorted_counts :: "string list \<Rightarrow> (string \<times> nat) list" where
  "sorted_counts ks = map (\<lambda>k. (k, count_list ks k)) (sort (remdups ks))"

definition not_actionable :: "sync_item \<Rightarrow> bool" where
  "not_actionable i = (\<not> it_permanently_stale i \<and> \<not> it_eligible_now i \<and> \<not> it_replay_expired i
     \<and> it_next_attempt i = None)"

definition audit_of :: "rat \<Rightarrow> rat \<Rightarrow> sync_item list \<Rightarrow> sync_db \<Rightarrow> audit" where
  "audit_of now stale_after items d =
     (let n = count_where pending (sd_rows d) in
      \<lparr>au_count = n,
       au_status_counts = sorted_counts (map (\<lambda>r. if ds_status r = [] then ''unknown'' else ds_status r) (sd_rows d)),
       au_classified_count = length items, au_truncated = (n > length items),
       au_count_by_reason = sorted_counts (map it_class items),
       au_oldest_age = foldr max (map it_age items) 0,
       au_eligible_now = count_where it_eligible_now items,
       au_permanently_stale = count_where it_permanently_stale items,
       au_replay_expired = count_where it_replay_expired items,
       au_unreplayed_attempts = sum_list (map it_unreplayed items),
       au_not_actionable_now = count_where not_actionable items,
       au_last_successful_sync = last_applied d,
       au_next_attempt = least (concat (map (\<lambda>i. case it_next_attempt i of Some t \<Rightarrow> [t] | None \<Rightarrow> []) items)),
       au_due_now = list_ex it_due_now items, au_overdue = list_ex it_overdue items,
       au_overdue_seconds = foldr max (map it_overdue_seconds items) 0,
       au_stale_signal = (n \<ge> 50 \<or> list_ex (\<lambda>i. it_age i \<ge> stale_after) items),
       au_rows = items\<rparr>)"

definition classify_deferred_syncs ::
    "rat \<Rightarrow> rat \<Rightarrow> rat option \<Rightarrow> int \<Rightarrow> string list \<Rightarrow> sync_db \<Rightarrow> py_exn + audit" where
  "classify_deferred_syncs now stale_after replay_ttl n queue_ids d =
     mapE (\<lambda>items. audit_of now stale_after items d)
       (classify_rows now stale_after (case replay_ttl of None \<Rightarrow> REPLAY_TTL_SECONDS | Some t \<Rightarrow> t) queue_ids []
         (pending_window n d))"

section \<open>Replaying and retiring\<close>

text \<open>\<open>record_queue_source_attempt\<close>: an entry, the rest of the database; a value or the name of an exception.\<close>

type_synonym 's recorder = "replay_entry \<Rightarrow> 's \<Rightarrow> (string + pyval) \<times> 's"

datatype attempt_end =
    Landed
  | Gone string
  | Failed string

text \<open>A target that is gone can never take the write; every other refusal is a failure.\<close>

definition attempt_end_of :: "string + pyval \<Rightarrow> attempt_end" where
  "attempt_end_of answer =
     (case answer of
        Inl e \<Rightarrow> Failed (''replay_raised:'' @ e)
      | Inr v \<Rightarrow>
          if is_dict v \<and> \<not> truthy (get (as_dict v) ''ok'')
          then (let reason = str_or_empty (get (as_dict v) ''reason'') in
                if reason \<in> {''queue_item_not_found'', ''series_removed_by_user''} then Gone reason
                else Failed (''replay_failed:'' @ (if reason = [] then ''unknown'' else reason)))
          else Landed)"

record replayed =
  rp_failed :: bool
  rp_landed :: nat
  rp_notes :: "string list"

fun replay_entries ::
    "'s recorder \<Rightarrow> string \<Rightarrow> replay_entry list \<Rightarrow> nat \<Rightarrow> string list \<Rightarrow> 's \<Rightarrow> replayed \<times> 's" where
  "replay_entries rec i [] landed notes s = (\<lparr>rp_failed = False, rp_landed = landed, rp_notes = notes\<rparr>, s)"
| "replay_entries rec i (e # es) landed notes s =
     (case rec e s of (answer, s') \<Rightarrow>
        (case attempt_end_of answer of
           Landed \<Rightarrow> replay_entries rec i es (landed + 1) notes s'
         | Gone reason \<Rightarrow> replay_entries rec i es landed (notes @ [i @ '':dropped:'' @ reason]) s'
         | Failed note \<Rightarrow> (\<lparr>rp_failed = True, rp_landed = landed, rp_notes = notes @ [i @ '':'' @ note]\<rparr>, s')))"

record reclaim =
  rc_reclaimed :: "string list"
  rc_failed :: "string list"
  rc_replayed :: nat
  rc_notes :: "string list"

text \<open>The payloads are read again, from the table as it is then.\<close>

definition load_payload :: "sync_db \<Rightarrow> string \<Rightarrow> pydict option" where
  "load_payload d i = (case List.find (\<lambda>r. ds_id r = i) (sd_rows d) of None \<Rightarrow> None | Some r \<Rightarrow> payload_of (ds_payload r))"

fun reclaim_expired_replays :: "'s recorder \<Rightarrow> sync_db \<Rightarrow> string list \<Rightarrow> reclaim \<Rightarrow> 's \<Rightarrow> reclaim \<times> 's" where
  "reclaim_expired_replays rec d [] acc s = (acc, s)"
| "reclaim_expired_replays rec d (i # is) acc s =
     (case replay_entries rec i (replay_rows (load_payload d i)) 0 (rc_notes acc) s of
        (p, s') \<Rightarrow> reclaim_expired_replays rec d is
          (if rp_failed p then acc\<lparr>rc_failed := rc_failed acc @ [i], rc_notes := rp_notes p\<rparr>
           else acc\<lparr>rc_reclaimed := rc_reclaimed acc @ [i], rc_replayed := rc_replayed acc + rp_landed p,
                    rc_notes := rp_notes p\<rparr>) s')"

definition no_reclaim :: reclaim where
  "no_reclaim = \<lparr>rc_reclaimed = [], rc_failed = [], rc_replayed = 0, rc_notes = []\<rparr>"

record reconciled =
  rn_audit :: audit
  rn_reconciled :: nat
  rn_stale :: nat
  rn_reclaim :: reclaim
  rn_event :: "string option"
  rn_selected :: "string list"

datatype reconcile_error =
    Classifier py_exn
  | IntegrityError string

definition event_id :: "rat \<Rightarrow> string" where
  "event_id now = ''deferred-sync-reconcile:'' @ int_str (trunc (now * 1000))"

text \<open>One transaction: the rows that are still pending, and the event that records them.\<close>

definition retire :: "rat \<Rightarrow> string list \<Rightarrow> sync_db \<Rightarrow> (reconcile_error + nat) \<times> sync_db" where
  "retire now ids d =
     (let these = (\<lambda>r. ds_id r \<in> set ids \<and> pending r) in
      if event_id now \<in> set (sd_events d) then (Inl (IntegrityError (event_id now)), d)
      else (Inr (count_where these (sd_rows d)),
        d\<lparr>sd_rows := update_where these (acknowledge now) (sd_rows d), sd_events := sd_events d @ [event_id now]\<rparr>))"

definition batch_limit_of :: "int \<Rightarrow> nat" where
  "batch_limit_of batch_size = nat (max 1 (min batch_size 100))"

definition item_id :: "sync_item \<Rightarrow> string" where
  "item_id i = ds_id (it_row i)"

text \<open>
  A pass reads the table three times: to classify, to load payloads, to retire. \<open>seen\<close>, \<open>loaded\<close> and
  \<open>d\<close> are the table at these three moments.
\<close>

definition reconcile_deferred_syncs ::
    "'s recorder \<Rightarrow> rat \<Rightarrow> int \<Rightarrow> rat \<Rightarrow> string list \<Rightarrow> sync_db \<Rightarrow> sync_db \<Rightarrow> sync_db \<Rightarrow> 's \<Rightarrow>
     (reconcile_error + reconciled) \<times> sync_db \<times> 's" where
  "reconcile_deferred_syncs rec now batch_size stale_after queue_ids seen loaded d s =
     (case classify_deferred_syncs now stale_after None 1000 queue_ids seen of
        Inl e \<Rightarrow> (Inl (Classifier e), d, s)
      | Inr audit \<Rightarrow>
          (let stale = map item_id (filter it_permanently_stale (au_rows audit));
               expired = take (batch_limit_of batch_size - length stale)
                 (map item_id (filter it_replay_expired (au_rows audit)))
           in case reclaim_expired_replays rec loaded expired no_reclaim s of
                (rc, s') \<Rightarrow>
                  (let selected = take (batch_limit_of batch_size)
                         (stale @ filter (\<lambda>i. i \<in> set (rc_reclaimed rc)) expired);
                       done = (\<lambda>n e. \<lparr>rn_audit = audit, rn_reconciled = n, rn_stale = au_permanently_stale audit,
                         rn_reclaim = (if e = None then rc\<lparr>rc_reclaimed := [], rc_replayed := 0\<rparr> else rc),
                         rn_event = e, rn_selected = selected\<rparr>)
                   in if selected = [] then (Inr (done 0 None), d, s')
                      else (case retire now selected d of
                          (Inl e, d') \<Rightarrow> (Inl e, d', s')
                        | (Inr n, d') \<Rightarrow> (Inr (done n (Some (event_id now))), d', s')))))"

section \<open>The worker\<close>

definition DEFERRED_MANUAL_SOURCE_QUEUE_SYNC_MAX_ITEMS :: int where
  "DEFERRED_MANUAL_SOURCE_QUEUE_SYNC_MAX_ITEMS = 80"

text \<open>An entry carries the stripped text of its identifier, empty if it has none.\<close>

record sync_entry =
  se_id :: string
  se_created_at :: rat
  se_result :: pydict

definition is_list :: "pyval \<Rightarrow> bool" where
  "is_list v = (case v of PList _ \<Rightarrow> True | _ \<Rightarrow> False)"

text \<open>\<open>add_entry\<close>: not too old, with rows to project, one entry per identifier.\<close>

definition wanted_entry :: "rat \<Rightarrow> string list \<Rightarrow> sync_entry \<Rightarrow> bool" where
  "wanted_entry now seen e =
     (\<not> (se_created_at e \<noteq> 0 \<and> now - se_created_at e > REPLAY_TTL_SECONDS)
      \<and> (is_list (get (se_result e) ''processed'') \<or> is_list (get (se_result e) ''skipped''))
      \<and> (se_id e = [] \<or> se_id e \<notin> set seen))"

fun add_entries :: "rat \<Rightarrow> string list \<Rightarrow> sync_entry list \<Rightarrow> sync_entry list" where
  "add_entries now seen [] = []"
| "add_entries now seen (e # es) =
     (if wanted_entry now seen e then e # add_entries now (if se_id e = [] then seen else se_id e # seen) es
      else add_entries now seen es)"

definition entry_of_row :: "sync_row \<Rightarrow> sync_entry" where
  "entry_of_row r = \<lparr>se_id = strip (ds_id r), se_created_at = ds_created_at r,
     se_result = (case payload_of (ds_payload r) of None \<Rightarrow> [] | Some m \<Rightarrow> m)\<rparr>"

text \<open>The rows of the table, then the entries of the file that the database could not take.\<close>

definition deferred_manual_source_queue_sync_entries ::
    "rat \<Rightarrow> rat \<Rightarrow> sync_entry list \<Rightarrow> sync_db \<Rightarrow> sync_entry list" where
  "deferred_manual_source_queue_sync_entries now query_time file_entries d =
     add_entries now [] (map entry_of_row (pending_deferred_queue_sync_rows query_time ''manual_source_autoresolve''
       REPLAY_TTL_SECONDS DEFERRED_MANUAL_SOURCE_QUEUE_SYNC_MAX_ITEMS d) @ file_entries)"

text \<open>
  The worker's replay: every refusal ends it, also that of a target that is gone. The queue identifier
  is passed on as its text, not stripped.
\<close>

definition worker_entries :: "pydict \<Rightarrow> pydict list" where
  "worker_entries snapshot =
     filter (\<lambda>row. truthy (get row ''queue_id'') \<and> is_dict (get row ''attempt''))
       (map as_dict (filter is_dict (as_list (get snapshot ''native_attempt_replay''))))"

fun worker_replay :: "'s recorder \<Rightarrow> pydict list \<Rightarrow> nat \<Rightarrow> 's \<Rightarrow> (bool \<times> nat) \<times> 's" where
  "worker_replay rec [] recorded s = ((True, recorded), s)"
| "worker_replay rec (row # rows) recorded s =
     (case rec ((replay_entry_of row)\<lparr>re_queue_id := str_or_empty (get row ''queue_id'')\<rparr>) s of
        (Inl e, s') \<Rightarrow> ((False, recorded), s')
      | (Inr v, s') \<Rightarrow>
          if \<not> is_dict v \<or> \<not> truthy (get (as_dict v) ''ok'') then ((False, recorded), s')
          else worker_replay rec rows (recorded + 1) s')"

definition replay_deferred_native_autoresolve_attempts :: "'s recorder \<Rightarrow> pydict \<Rightarrow> 's \<Rightarrow> (bool \<times> nat) \<times> 's" where
  "replay_deferred_native_autoresolve_attempts rec snapshot s = worker_replay rec (worker_entries snapshot) 0 s"

text \<open>
  One snapshot of the worker's loop: replayed, and, when the replay and the projection of its rows
  (\<open>projected\<close>) are complete, marked applied and noted for the acknowledgement. A mark that the
  database refuses (\<open>db_ok\<close>) is still noted.
\<close>

definition worker_snapshot ::
    "'s recorder \<Rightarrow> rat \<Rightarrow> bool \<Rightarrow> bool \<Rightarrow> sync_entry \<Rightarrow> string list \<Rightarrow> sync_db \<Rightarrow> 's \<Rightarrow>
     string list \<times> sync_db \<times> 's" where
  "worker_snapshot rec now projected db_ok e acks d s =
     (case replay_deferred_native_autoresolve_attempts rec (se_result e) s of
        ((ok, _), s') \<Rightarrow>
          if ok \<and> projected \<and> strip (se_id e) \<noteq> []
          then (List.insert (strip (se_id e)) acks,
                if db_ok then snd (mark_deferred_queue_sync_applied now (se_id e) d) else d, s')
          else (acks, d, s'))"

text \<open>The acknowledgement at the end of a run; each of its two transactions may fail on its own.\<close>

definition ack_deferred_manual_source_queue_syncs ::
    "rat \<Rightarrow> bool \<Rightarrow> bool \<Rightarrow> string list \<Rightarrow> sync_db \<Rightarrow> sync_db" where
  "ack_deferred_manual_source_queue_syncs now ack_ok applied_ok acks d =
     (let d1 = (if ack_ok then snd (ack_deferred_queue_syncs now acks d) else d) in
      if applied_ok then snd (ack_applied_deferred_queue_syncs now ''manual_source_autoresolve'' 60 200 d1) else d1)"

end
