(* ===== verification/DeferredReplay.thy ===== *)
theory DeferredReplay
  imports DeferredSync
begin

text \<open>
  What the deferred queue syncs guarantee: a snapshot that is applied or acknowledged had each write it
  carries answered first, unless the classifier found it permanently stale; every snapshot is at any
  time within the reach of the worker or of the maintenance pass; and enough passes retire every
  snapshot that has outlived its window.
\<close>

section \<open>The calls that were made\<close>

type_synonym call_log = "(replay_entry \<times> attempt_end) list"

definition logged :: "'s recorder \<Rightarrow> ('s \<times> call_log) recorder" where
  "logged rec e sl = (case rec e (fst sl) of (answer, s') \<Rightarrow> (answer, (s', snd sl @ [(e, attempt_end_of answer)])))"

definition answered :: "replay_entry \<Rightarrow> call_log \<Rightarrow> bool" where
  "answered e l = (\<exists>en. (e, en) \<in> set l \<and> (\<forall>n. en \<noteq> Failed n))"

text \<open>A write is carried out when it was answered, for a queue identifier that differs by blanks at most.\<close>

definition carried :: "replay_entry \<Rightarrow> call_log \<Rightarrow> bool" where
  "carried e l = (\<exists>e'. answered e' l \<and> e'\<lparr>re_queue_id := strip (re_queue_id e')\<rparr> = e)"

definition settled :: "pydict option \<Rightarrow> call_log \<Rightarrow> bool" where
  "settled payload l = (\<forall>e \<in> set (replay_rows payload). carried e l)"

lemma answered_append: "answered e l \<Longrightarrow> answered e (l @ x)"
  by (auto simp: answered_def)

lemma carried_append: "carried e l \<Longrightarrow> carried e (l @ x)"
  unfolding carried_def using answered_append by blast

lemma settled_append: "settled p l \<Longrightarrow> settled p (l @ x)"
  unfolding settled_def using carried_append by blast

lemma replay_rows_stripped: "e \<in> set (replay_rows p) \<Longrightarrow> strip (re_queue_id e) = re_queue_id e"
  by (auto simp: replay_rows_def replay_entry_of_def split: option.splits)

lemma answered_carried: "e \<in> set (replay_rows p) \<Longrightarrow> answered e l \<Longrightarrow> carried e l"
  unfolding carried_def using replay_rows_stripped [of e p] by (intro exI [of _ e]) simp

lemma replay_entries_logged:
  "replay_entries (logged rec) i es n ns sl = (p, sl') \<Longrightarrow>
   \<exists>x. snd sl' = snd sl @ x \<and> (\<not> rp_failed p \<longrightarrow> (\<forall>e \<in> set es. answered e (snd sl')))"
proof (induction es arbitrary: n ns sl)
  case Nil
  then show ?case by auto
next
  case (Cons e es)
  obtain answer s1 where r: "rec e (fst sl) = (answer, s1)" by force
  let ?sl1 = "(s1, snd sl @ [(e, attempt_end_of answer)])"
  have log: "logged rec e sl = (answer, ?sl1)" using r by (simp add: logged_def)
  show ?case
  proof (cases "attempt_end_of answer")
    case (Failed why)
    then have "p = \<lparr>rp_failed = True, rp_landed = n, rp_notes = ns @ [i @ '':'' @ why]\<rparr>" "sl' = ?sl1"
      using Cons.prems log by auto
    then show ?thesis by auto
  next
    case Landed
    then have "replay_entries (logged rec) i es (n + 1) ns ?sl1 = (p, sl')" using Cons.prems log by simp
    from Cons.IH [OF this] obtain x where x: "snd sl' = snd ?sl1 @ x"
      "\<not> rp_failed p \<Longrightarrow> \<forall>e \<in> set es. answered e (snd sl')" by auto
    moreover have "answered e (snd ?sl1)" using Landed by (auto simp: answered_def)
    ultimately show ?thesis using answered_append [of e "snd ?sl1" x] by auto
  next
    case (Gone reason)
    then have "replay_entries (logged rec) i es n (ns @ [i @ '':dropped:'' @ reason]) ?sl1 = (p, sl')"
      using Cons.prems log by simp
    from Cons.IH [OF this] obtain x where x: "snd sl' = snd ?sl1 @ x"
      "\<not> rp_failed p \<Longrightarrow> \<forall>e \<in> set es. answered e (snd sl')" by auto
    moreover have "answered e (snd ?sl1)" using Gone by (auto simp: answered_def)
    ultimately show ?thesis using answered_append [of e "snd ?sl1" x] by auto
  qed
qed

lemma reclaim_logged:
  "reclaim_expired_replays (logged rec) d is acc sl = (rc, sl') \<Longrightarrow>
   \<exists>x. snd sl' = snd sl @ x
     \<and> (\<forall>i \<in> set (rc_reclaimed rc). i \<in> set (rc_reclaimed acc) \<or> settled (load_payload d i) (snd sl'))"
proof (induction "is" arbitrary: acc sl)
  case Nil
  then show ?case by auto
next
  case (Cons i "is")
  obtain p sl1 where p: "replay_entries (logged rec) i (replay_rows (load_payload d i)) 0 (rc_notes acc) sl = (p, sl1)"
    by (rule prod.exhaust)
  from replay_entries_logged [OF p] obtain x where x: "snd sl1 = snd sl @ x"
    "\<not> rp_failed p \<longrightarrow> (\<forall>e \<in> set (replay_rows (load_payload d i)). answered e (snd sl1))" by blast
  let ?acc = "if rp_failed p then acc\<lparr>rc_failed := rc_failed acc @ [i], rc_notes := rp_notes p\<rparr>
    else acc\<lparr>rc_reclaimed := rc_reclaimed acc @ [i], rc_replayed := rc_replayed acc + rp_landed p, rc_notes := rp_notes p\<rparr>"
  have rest: "reclaim_expired_replays (logged rec) d is ?acc sl1 = (rc, sl')" using Cons.prems p by simp
  from Cons.IH [OF rest] obtain y where y: "snd sl' = snd sl1 @ y"
    "\<forall>i \<in> set (rc_reclaimed rc). i \<in> set (rc_reclaimed ?acc) \<or> settled (load_payload d i) (snd sl')" by blast
  have "settled (load_payload d i) (snd sl')" if "\<not> rp_failed p"
    unfolding y(1) by (rule settled_append) (use x(2) that answered_carried in \<open>auto simp: settled_def\<close>)
  then show ?case using x(1) y by (auto split: if_splits)
qed

lemma worker_replay_logged:
  "worker_replay (logged rec) rows n sl = ((ok, m), sl') \<Longrightarrow>
   \<exists>x. snd sl' = snd sl @ x \<and> (ok \<longrightarrow> (\<forall>row \<in> set rows.
      answered ((replay_entry_of row)\<lparr>re_queue_id := str_or_empty (get row ''queue_id'')\<rparr>) (snd sl')))"
proof (induction rows arbitrary: n sl)
  case Nil
  then show ?case by auto
next
  case (Cons row rows)
  let ?e = "(replay_entry_of row)\<lparr>re_queue_id := str_or_empty (get row ''queue_id'')\<rparr>"
  obtain answer s1 where r: "rec ?e (fst sl) = (answer, s1)" by force
  let ?sl1 = "(s1, snd sl @ [(?e, attempt_end_of answer)])"
  have log: "logged rec ?e sl = (answer, ?sl1)" using r by (simp add: logged_def)
  show ?case
  proof (cases "\<exists>v. answer = Inr v \<and> is_dict v \<and> truthy (get (as_dict v) ''ok'')")
    case True
    then have rest: "worker_replay (logged rec) rows (n + 1) ?sl1 = ((ok, m), sl')"
      using Cons.prems log by auto
    from Cons.IH [OF this] obtain x where x: "snd sl' = snd ?sl1 @ x"
      "ok \<Longrightarrow> \<forall>row \<in> set rows. answered ((replay_entry_of row)\<lparr>re_queue_id := str_or_empty (get row ''queue_id'')\<rparr>) (snd sl')"
      by auto
    moreover have "answered ?e (snd ?sl1)" using True by (auto simp: answered_def attempt_end_of_def)
    ultimately show ?thesis using answered_append [of ?e "snd ?sl1" x] by auto
  next
    case False
    then have "\<not> ok \<and> sl' = ?sl1" using Cons.prems log by (auto split: sum.splits if_splits)
    then show ?thesis by auto
  qed
qed

lemma worker_settled:
  assumes "replay_deferred_native_autoresolve_attempts (logged rec) m sl = ((True, n), sl')"
  shows "settled (Some m) (snd sl')"
  unfolding settled_def
proof
  fix e assume "e \<in> set (replay_rows (Some m))"
  then obtain row where row: "e = replay_entry_of row" "row \<in> set (worker_entries m)"
    by (auto simp: replay_rows_def worker_entries_def str_or_empty_def split: if_splits)
  let ?e = "(replay_entry_of row)\<lparr>re_queue_id := str_or_empty (get row ''queue_id'')\<rparr>"
  have "answered ?e (snd sl')"
    using worker_replay_logged [of rec "worker_entries m" 0 sl True n sl'] assms row(2)
    by (auto simp: replay_deferred_native_autoresolve_attempts_def)
  moreover have "?e\<lparr>re_queue_id := strip (re_queue_id ?e)\<rparr> = e" by (simp add: row(1) replay_entry_of_def)
  ultimately show "carried e (snd sl')" unfolding carried_def by blast
qed

section \<open>What an operation does to the table\<close>

text \<open>
  A row keeps its identifier and payload; its status changes only from outstanding to applied or
  acknowledged, and from pending only for a row of \<open>S\<close>. An acknowledged row does not change.
\<close>

definition settles :: "string set \<Rightarrow> sync_row \<Rightarrow> sync_row \<Rightarrow> bool" where
  "settles S r r' = (ds_id r' = ds_id r \<and> ds_payload r' = ds_payload r \<and> ds_created_at r' = ds_created_at r
     \<and> (r' = r \<or> outstanding r \<and> ds_status r' \<in> {''applied'', ''acked''} \<and> (pending r \<longrightarrow> ds_id r \<in> S)))"

definition table_settles :: "string set \<Rightarrow> sync_db \<Rightarrow> sync_db \<Rightarrow> bool" where
  "table_settles S d d' = list_all2 (settles S) (sd_rows d) (sd_rows d')"

lemma settles_refl [simp]: "settles S r r"
  by (simp add: settles_def)

lemma settles_trans: "settles S r r' \<Longrightarrow> settles S r' r'' \<Longrightarrow> settles S r r''"
  by (auto simp: settles_def pending_def outstanding_def)

lemma table_settles_refl [simp]: "table_settles S d d"
  by (simp add: table_settles_def list.rel_refl)

lemma table_settles_trans: "table_settles S d d' \<Longrightarrow> table_settles S d' d'' \<Longrightarrow> table_settles S d d''"
  unfolding table_settles_def by (rule list_all2_trans [where ?P1.0 = "settles S" and ?P2.0 = "settles S"]) (auto intro: settles_trans)

lemma table_settles_mono: "S \<subseteq> T \<Longrightarrow> table_settles S d d' \<Longrightarrow> table_settles T d d'"
  unfolding table_settles_def by (erule list_all2_mono) (auto simp: settles_def)

lemma settles_update_where:
  "(\<And>r. p r \<Longrightarrow> settles S r (f r)) \<Longrightarrow> list_all2 (settles S) rows (update_where p f rows)"
  by (simp add: update_where_def list_all2_conv_all_nth)

lemma table_ids: "table_settles S d d' \<Longrightarrow> map ds_id (sd_rows d') = map ds_id (sd_rows d)"
  unfolding table_settles_def by (induction rule: list_all2_induct) (auto simp: settles_def)

lemma table_row:
  assumes "table_settles S d d'" "r' \<in> set (sd_rows d')"
  obtains r where "r \<in> set (sd_rows d)" "settles S r r'"
  using assms unfolding table_settles_def by (metis list_all2_conv_all_nth in_set_conv_nth)

lemma table_row_forward:
  assumes "table_settles S d d'" "r \<in> set (sd_rows d)"
  obtains r' where "r' \<in> set (sd_rows d')" "settles S r r'"
  using assms unfolding table_settles_def by (metis list_all2_conv_all_nth in_set_conv_nth)

lemma acknowledge_settles: "outstanding r \<Longrightarrow> (pending r \<Longrightarrow> ds_id r \<in> S) \<Longrightarrow> settles S r (acknowledge now r)"
  by (simp add: settles_def acknowledge_def)

lemma table_update:
  "(\<And>r. p r \<Longrightarrow> settles S r (f r)) \<Longrightarrow> sd_rows e = update_where p f (sd_rows d) \<Longrightarrow> table_settles S d e"
  by (simp add: table_settles_def settles_update_where)

lemma stamp_rows [simp]: "sd_rows (stamp_sync now d) = sd_rows d"
  by (simp add: stamp_sync_def)

lemma mark_settles: "table_settles {strip i} d (snd (mark_deferred_queue_sync_applied now i d))"
proof (cases "strip i = []")
  case False
  then show ?thesis unfolding mark_deferred_queue_sync_applied_def Let_def
    by (intro table_update [where p = "\<lambda>r. ds_id r = strip i \<and> outstanding r"
          and f = "\<lambda>r. r\<lparr>ds_status := ''applied'', ds_applied_at := Some now\<rparr>"]) (auto simp: settles_def)
qed (simp add: mark_deferred_queue_sync_applied_def)

lemma ack_settles: "table_settles (strip ` set is) d (snd (ack_deferred_queue_syncs now is d))"
proof (cases "filter (\<lambda>i. i \<noteq> []) (map strip is) = []")
  case False
  then show ?thesis unfolding ack_deferred_queue_syncs_def Let_def if_not_P [OF False]
    by (intro table_update [where f = "acknowledge now"
          and p = "\<lambda>r. ds_id r \<in> set (filter (\<lambda>i. i \<noteq> []) (map strip is)) \<and> outstanding r"])
      (auto intro: acknowledge_settles)
qed (simp add: ack_deferred_queue_syncs_def)

lemma ack_applied_settles: "table_settles {} d (snd (ack_applied_deferred_queue_syncs now source older n d))"
proof (cases "applied_ids now source older n d = []")
  case False
  then show ?thesis unfolding ack_applied_deferred_queue_syncs_def Let_def if_not_P [OF False]
    by (intro table_update [where f = "acknowledge now"
          and p = "\<lambda>r. ds_id r \<in> set (applied_ids now source older n d) \<and> ds_status r = ''applied''"])
      (auto intro!: acknowledge_settles simp: outstanding_def pending_def)
qed (simp add: ack_applied_deferred_queue_syncs_def)

lemma retire_settles: "retire now is d = (res, d') \<Longrightarrow>
    table_settles (case res of Inl _ \<Rightarrow> {} | Inr _ \<Rightarrow> set is) d d'"
  unfolding retire_def Let_def
  by (auto split: if_splits intro!: table_update [where f = "acknowledge now"
          and p = "\<lambda>r. ds_id r \<in> set is \<and> pending r"] acknowledge_settles simp: outstanding_def pending_def)

lemma worker_ack_settles:
  "table_settles (strip ` set acks) d (ack_deferred_manual_source_queue_syncs now a b acks d)"
proof -
  let ?S = "strip ` set acks" and ?d1 = "if a then snd (ack_deferred_queue_syncs now acks d) else d"
  let ?d2 = "snd (ack_applied_deferred_queue_syncs now ''manual_source_autoresolve'' 60 200 ?d1)"
  have 1: "table_settles ?S d ?d1" using ack_settles by simp
  have "table_settles ?S ?d1 ?d2" by (rule table_settles_mono [OF empty_subsetI ack_applied_settles])
  then have 2: "table_settles ?S d ?d2" by (rule table_settles_trans [OF 1])
  show ?thesis unfolding ack_deferred_manual_source_queue_syncs_def Let_def
    by (cases b) (simp_all only: if_True if_False 1 2)
qed

text \<open>What a pass that ran to its end did.\<close>

definition stale_ids :: "audit \<Rightarrow> string list" where
  "stale_ids a = map item_id (filter it_permanently_stale (au_rows a))"

definition expired_ids :: "int \<Rightarrow> audit \<Rightarrow> string list" where
  "expired_ids batch a = take (batch_limit_of batch - length (stale_ids a))
     (map item_id (filter it_replay_expired (au_rows a)))"

definition selected_ids :: "int \<Rightarrow> audit \<Rightarrow> reclaim \<Rightarrow> string list" where
  "selected_ids batch a rc = take (batch_limit_of batch)
     (stale_ids a @ filter (\<lambda>i. i \<in> set (rc_reclaimed rc)) (expired_ids batch a))"

lemma reconcile_cases:
  assumes "reconcile_deferred_syncs rec now batch stale qids seen loaded d s = (res, d', s')"
  obtains (classifier) e where "classify_deferred_syncs now stale None 1000 qids seen = Inl e"
      "res = Inl (Classifier e)" "d' = d" "s' = s"
    | (nothing) a rc r where "classify_deferred_syncs now stale None 1000 qids seen = Inr a"
      "reclaim_expired_replays rec loaded (expired_ids batch a) no_reclaim s = (rc, s')"
      "selected_ids batch a rc = []" "res = Inr r" "rn_selected r = []" "d' = d"
    | (clash) a rc e where "classify_deferred_syncs now stale None 1000 qids seen = Inr a"
      "reclaim_expired_replays rec loaded (expired_ids batch a) no_reclaim s = (rc, s')"
      "res = Inl e" "d' = d" "event_id now \<in> set (sd_events d)"
    | (retired) a rc r n where "classify_deferred_syncs now stale None 1000 qids seen = Inr a"
      "reclaim_expired_replays rec loaded (expired_ids batch a) no_reclaim s = (rc, s')"
      "selected_ids batch a rc \<noteq> []" "res = Inr r" "rn_selected r = selected_ids batch a rc"
      "rn_audit r = a" "rn_reclaim r = rc" "retire now (selected_ids batch a rc) d = (Inr n, d')"
proof (cases "classify_deferred_syncs now stale None 1000 qids seen")
  case (Inl e)
  then show ?thesis using assms by (intro that(1)) (auto simp: reconcile_deferred_syncs_def)
next
  case (Inr a)
  obtain rc s1 where rc: "reclaim_expired_replays rec loaded (expired_ids batch a) no_reclaim s = (rc, s1)"
    by (rule prod.exhaust)
  let ?run = "reconcile_deferred_syncs rec now batch stale qids seen loaded d s"
  have "s' = s1" and sel: "selected_ids batch a rc = [] \<Longrightarrow> \<exists>r. res = Inr r \<and> rn_selected r = [] \<and> d' = d"
    and ret: "selected_ids batch a rc \<noteq> [] \<Longrightarrow> (case retire now (selected_ids batch a rc) d of
       (Inl e, d1) \<Rightarrow> res = Inl e \<and> d' = d1
     | (Inr n, d1) \<Rightarrow> (\<exists>r. res = Inr r \<and> rn_selected r = selected_ids batch a rc \<and> rn_audit r = a \<and> rn_reclaim r = rc) \<and> d' = d1)"
    using assms rc unfolding reconcile_deferred_syncs_def Inr sum.case Let_def
      stale_ids_def [symmetric] expired_ids_def [symmetric] rc prod.case selected_ids_def [symmetric]
    by (auto split: sum.splits prod.splits if_splits)
  show ?thesis
  proof (cases "selected_ids batch a rc = []")
    case True
    then obtain r where "res = Inr r" "rn_selected r = []" "d' = d" using sel by auto
    then show ?thesis using True Inr rc \<open>s' = s1\<close> by (intro that(2) [of a rc r]) simp_all
  next
    case False
    show ?thesis
    proof (cases "event_id now \<in> set (sd_events d)")
      case True
      then have "res = Inl (IntegrityError (event_id now))" "d' = d" using ret [OF False] by (simp_all add: retire_def)
      then show ?thesis using True Inr rc \<open>s' = s1\<close> by (intro that(3) [of a rc]) simp_all
    next
      case ok: False
      then obtain n d1 where "retire now (selected_ids batch a rc) d = (Inr n, d1)" by (simp add: retire_def Let_def)
      moreover obtain r where "res = Inr r" "rn_selected r = selected_ids batch a rc" "rn_audit r = a" "rn_reclaim r = rc" "d' = d1"
        using ret [OF False] calculation by auto
      ultimately show ?thesis using Inr rc False \<open>s' = s1\<close> by (intro that(4) [of a rc r n]) simp_all
    qed
  qed
qed

lemma reconcile_settles:
  assumes "reconcile_deferred_syncs rec now batch stale qids seen loaded d s = (res, d', s')"
  shows "table_settles (case res of Inl _ \<Rightarrow> {} | Inr r \<Rightarrow> set (rn_selected r)) d d'"
  using assms by (cases rule: reconcile_cases) (use retire_settles in fastforce)+

section \<open>Worker, maintenance and the table\<close>

text \<open>
  The state of a run: the table with the states it went through, the entries the worker read, the
  identifiers it will acknowledge, the rest of the database, the log of the calls, and the
  identifiers that passes retired as permanently stale.
\<close>

record 's sync_sys =
  sy_db :: sync_db
  sy_past :: "sync_db list"
  sy_entries :: "sync_entry list"
  sy_acks :: "string list"
  sy_rest :: 's
  sy_log :: call_log
  sy_dropped :: "string list"

definition moved :: "sync_db \<Rightarrow> 's sync_sys \<Rightarrow> 's sync_sys" where
  "moved d y = y\<lparr>sy_db := d, sy_past := sy_past y @ [d]\<rparr>"

definition dropped_by :: "reconcile_error + reconciled \<Rightarrow> string list" where
  "dropped_by res = (case res of Inl _ \<Rightarrow> []
     | Inr r \<Rightarrow> filter (\<lambda>i. i \<in> set (stale_ids (rn_audit r))) (rn_selected r))"

text \<open>
  \<open>content\<close> is what a snapshot carries: an identifier names one snapshot. The worker may be stopped at
  any time; a maintenance pass classifies and loads from states the table has gone through.
\<close>

inductive sync_step :: "'s recorder \<Rightarrow> (string \<Rightarrow> pydict) \<Rightarrow> 's sync_sys \<Rightarrow> 's sync_sys \<Rightarrow> bool"
  for rec content where
  step_record:
    "record_deferred_queue_sync now fresh q (sy_db y) = (i, d) \<Longrightarrow> sq_payload q = content i \<Longrightarrow>
     sync_step rec content y (moved d y)"
| step_read:
    "list_all (\<lambda>e. strip (se_id e) = se_id e \<and> se_result e = content (se_id e)) file \<Longrightarrow>
     sync_step rec content y (y\<lparr>sy_entries := deferred_manual_source_queue_sync_entries now query_time file (sy_db y)\<rparr>)"
| step_snapshot:
    "e \<in> set (sy_entries y) \<Longrightarrow>
     worker_snapshot (logged rec) now projected db_ok e (sy_acks y) (sy_db y) (sy_rest y, sy_log y) = (acks, d, (s, l)) \<Longrightarrow>
     sync_step rec content y ((moved d y)\<lparr>sy_acks := acks, sy_rest := s, sy_log := l\<rparr>)"
| step_ack:
    "acks \<in> {[], sy_acks y} \<Longrightarrow>
     d = ack_deferred_manual_source_queue_syncs now ack_ok applied_ok (sy_acks y) (sy_db y) \<Longrightarrow>
     sync_step rec content y ((moved d y)\<lparr>sy_acks := acks\<rparr>)"
| step_stop: "sync_step rec content y (y\<lparr>sy_entries := [], sy_acks := []\<rparr>)"
| step_maintain:
    "sy_past y = before @ seen # later \<Longrightarrow> loaded \<in> set (seen # later) \<Longrightarrow>
     reconcile_deferred_syncs (logged rec) now batch stale_after queue_ids seen loaded (sy_db y)
       (sy_rest y, sy_log y) = (res, d, (s, l)) \<Longrightarrow>
     sync_step rec content y
       ((moved d y)\<lparr>sy_rest := s, sy_log := l, sy_dropped := sy_dropped y @ dropped_by res\<rparr>)"

text \<open>A start: snapshots may be waiting, none has been applied.\<close>

definition sync_start :: "(string \<Rightarrow> pydict) \<Rightarrow> 's sync_sys \<Rightarrow> bool" where
  "sync_start content y =
     (list_all (\<lambda>r. pending r \<and> strip (ds_id r) = ds_id r \<and> ds_payload r = Some (PDict (content (ds_id r))))
        (sd_rows (sy_db y))
      \<and> sy_past y = [sy_db y] \<and> sy_entries y = [] \<and> sy_acks y = [] \<and> sy_log y = [] \<and> sy_dropped y = [])"

definition ids_of :: "sync_db \<Rightarrow> string set" where
  "ids_of d = ds_id ` set (sd_rows d)"

definition retired :: "sync_row \<Rightarrow> bool" where
  "retired r = (ds_status r \<in> {''applied'', ''acked''})"

definition content_ok :: "(string \<Rightarrow> pydict) \<Rightarrow> sync_db \<Rightarrow> bool" where
  "content_ok content d = list_all (\<lambda>r. strip (ds_id r) = ds_id r \<and> ds_payload r = Some (PDict (content (ds_id r)))) (sd_rows d)"

definition rows_settled :: "(string \<Rightarrow> pydict) \<Rightarrow> call_log \<Rightarrow> string list \<Rightarrow> sync_db \<Rightarrow> bool" where
  "rows_settled content l dropped d =
     list_all (\<lambda>r. retired r \<longrightarrow> ds_id r \<in> set dropped \<or> settled (Some (content (ds_id r))) l) (sd_rows d)"

definition sync_inv :: "(string \<Rightarrow> pydict) \<Rightarrow> 's sync_sys \<Rightarrow> bool" where
  "sync_inv content y =
     (sy_past y \<noteq> [] \<and> sy_db y = last (sy_past y) \<and> list_all (content_ok content) (sy_past y)
      \<and> sorted_wrt (\<lambda>a b. ids_of a \<subseteq> ids_of b) (sy_past y)
      \<and> list_all (\<lambda>e. strip (se_id e) = se_id e \<and> se_result e = content (se_id e)) (sy_entries y)
      \<and> list_all (\<lambda>i. strip i = i \<and> settled (Some (content i)) (sy_log y)) (sy_acks y)
      \<and> rows_settled content (sy_log y) (sy_dropped y) (sy_db y))"

lemma sync_start_inv: "sync_start content y \<Longrightarrow> sync_inv content y"
  by (auto simp: sync_start_def sync_inv_def content_ok_def rows_settled_def list_all_iff retired_def pending_def)

lemma content_settles: "table_settles S d d' \<Longrightarrow> content_ok content d \<Longrightarrow> content_ok content d'"
  by (auto simp: content_ok_def list_all_iff settles_def elim!: table_row)

lemma rows_settled_step:
  assumes "rows_settled content l dropped d" "table_settles S d d'"
    and "\<And>i. i \<in> S \<Longrightarrow> i \<in> set dropped' \<or> settled (Some (content i)) l'"
    and "set dropped \<subseteq> set dropped'" "\<And>p. settled p l \<Longrightarrow> settled p l'"
  shows "rows_settled content l' dropped' d'"
  unfolding rows_settled_def list_all_iff
proof (intro ballI impI)
  fix r' assume "r' \<in> set (sd_rows d')" "retired r'"
  then obtain r where r: "r \<in> set (sd_rows d)" "settles S r r'" using table_row [OF assms(2)] by blast
  show "ds_id r' \<in> set dropped' \<or> settled (Some (content (ds_id r'))) l'"
  proof (cases "retired r")
    case True
    then show ?thesis using assms(1,4,5) r by (auto simp: rows_settled_def list_all_iff settles_def)
  next
    case False
    then have "ds_id r \<in> S" using r(2) \<open>retired r'\<close> by (auto simp: settles_def retired_def outstanding_def pending_def)
    then show ?thesis using assms(3) r(2) by (simp add: settles_def)
  qed
qed

text \<open>The part of the invariant that is about the table, after an operation.\<close>

lemma table_inv:
  assumes "sync_inv content y" "content_ok content d" "ids_of (sy_db y) \<subseteq> ids_of d"
  shows "list_all (content_ok content) (sy_past y @ [d])
    \<and> sorted_wrt (\<lambda>a b. ids_of a \<subseteq> ids_of b) (sy_past y @ [d])"
proof -
  have last: "sy_db y \<in> set (sy_past y)" "sy_db y = last (sy_past y)"
    using assms(1) by (auto simp: sync_inv_def)
  have sorted: "sorted_wrt (\<lambda>a b. ids_of a \<subseteq> ids_of b) (sy_past y)" using assms(1) by (simp add: sync_inv_def)
  have "ids_of a \<subseteq> ids_of d" if a: "a \<in> set (sy_past y)" for a
  proof -
    obtain xs where xs: "sy_past y = xs @ [sy_db y]"
      using last by (metis append_butlast_last_id empty_iff list.set(1))
    then show ?thesis using a sorted assms(3) by (auto simp: sorted_wrt_append)
  qed
  then show ?thesis using sorted assms(1,2) by (simp add: sorted_wrt_append sync_inv_def)
qed

lemma settles_inv:
  assumes "sync_inv content y" "table_settles S (sy_db y) d"
  shows "list_all (content_ok content) (sy_past y @ [d])
    \<and> sorted_wrt (\<lambda>a b. ids_of a \<subseteq> ids_of b) (sy_past y @ [d])"
proof (rule table_inv [OF assms(1)])
  have "content_ok content (sy_db y)" using assms(1) by (auto simp: sync_inv_def list_all_iff)
  then show "content_ok content d" by (rule content_settles [OF assms(2)])
  show "ids_of (sy_db y) \<subseteq> ids_of d" using table_ids [OF assms(2)] unfolding ids_of_def by (metis image_set subset_refl)
qed

text \<open>Storing a snapshot adds a pending row or rewrites a row that keeps its status.\<close>

lemma strip_or_text [simp]: "strip (if c then strip a else strip b) = (if c then strip a else strip b)"
  by simp

lemma record_rows:
  assumes "record_deferred_queue_sync now fresh q d = (i, d')" "r' \<in> set (sd_rows d')"
  shows "(r' \<in> set (sd_rows d))
    \<or> (ds_id r' = i \<and> strip i = i \<and> ds_payload r' = Some (PDict (sq_payload q))
        \<and> (retired r' \<longrightarrow> (\<exists>r \<in> set (sd_rows d). ds_id r = i \<and> retired r)))"
proof -
  let ?new = "deferred_queue_sync_payload now fresh q"
  have i: "i = ds_id ?new" "strip i = i" using assms(1)
    by (auto simp: record_deferred_queue_sync_def Let_def deferred_queue_sync_payload_def)
  have new: "ds_payload ?new = Some (PDict (sq_payload q))" "\<not> retired ?new"
    by (simp_all add: deferred_queue_sync_payload_def Let_def retired_def)
  have rows: "sd_rows d' = (if i \<in> ds_id ` set (sd_rows d)
      then update_where (\<lambda>r. ds_id r = i) (merge_sync ?new) (sd_rows d) else sd_rows d @ [?new])"
    using assms(1) i(1) by (auto simp: record_deferred_queue_sync_def Let_def)
  have merged: "ds_payload (merge_sync ?new r) = Some (PDict (sq_payload q)) \<and> ds_id (merge_sync ?new r) = ds_id r
      \<and> (retired (merge_sync ?new r) \<longrightarrow> retired r)" for r
    using new by (auto simp: merge_sync_def retired_def)
  show ?thesis
  proof (cases "i \<in> ds_id ` set (sd_rows d)")
    case True
    then obtain r where "r \<in> set (sd_rows d)" "r' = (if ds_id r = i then merge_sync ?new r else r)"
      using assms(2) by (auto simp: rows update_where_def)
    then show ?thesis using merged [of r] i(2) by (auto split: if_splits)
  next
    case False
    then show ?thesis using assms(2) i new by (auto simp: rows)
  qed
qed

lemma record_ids:
  assumes "record_deferred_queue_sync now fresh q d = (i, d')"
  shows "ids_of d \<subseteq> ids_of d'"
proof -
  let ?new = "deferred_queue_sync_payload now fresh q"
  have "map ds_id (update_where (\<lambda>r. ds_id r = ds_id ?new) (merge_sync ?new) (sd_rows d)) = map ds_id (sd_rows d)"
    by (rule map_key_update_where) (simp add: merge_sync_def)
  then have "ids_of d = ds_id ` set (update_where (\<lambda>r. ds_id r = ds_id ?new) (merge_sync ?new) (sd_rows d))"
    unfolding ids_of_def by (metis image_set)
  then show ?thesis using assms by (auto simp: record_deferred_queue_sync_def Let_def ids_of_def split: if_splits)
qed

lemma payload_content: "content_ok content d \<Longrightarrow> i \<in> ids_of d \<Longrightarrow> load_payload d i = Some (content i)"
proof -
  assume ok: "content_ok content d" and i: "i \<in> ids_of d"
  then obtain r where r: "List.find (\<lambda>r. ds_id r = i) (sd_rows d) = Some r"
    by (cases "List.find (\<lambda>r. ds_id r = i) (sd_rows d)") (auto simp: ids_of_def find_None_iff)
  then have "r \<in> set (sd_rows d)" "ds_id r = i" by (auto simp: find_Some_iff)
  then show ?thesis using ok r by (simp add: load_payload_def content_ok_def list_all_iff payload_of_def)
qed

text \<open>What the worker reads is what was stored.\<close>

lemma set_add_entries: "set (add_entries now seen es) \<subseteq> set es"
  by (induction es arbitrary: seen) auto

lemma set_pending_rows: "set (pending_deferred_queue_sync_rows now source ttl n d) \<subseteq> set (sd_rows d)"
  by (auto simp: pending_deferred_queue_sync_rows_def Let_def sql_take_def split: if_splits dest: in_set_takeD)

lemma read_entries:
  assumes "content_ok content d" "e \<in> set (deferred_manual_source_queue_sync_entries now qt file d)"
  shows "e \<in> set file \<or> (strip (se_id e) = se_id e \<and> se_result e = content (se_id e))"
proof -
  let ?rows = "pending_deferred_queue_sync_rows qt ''manual_source_autoresolve'' REPLAY_TTL_SECONDS
    DEFERRED_MANUAL_SOURCE_QUEUE_SYNC_MAX_ITEMS d"
  have "e \<in> set (map entry_of_row ?rows @ file)"
    using assms(2) set_add_entries unfolding deferred_manual_source_queue_sync_entries_def by (rule rev_subsetD)
  then consider "e \<in> set file" | r where "r \<in> set ?rows" "e = entry_of_row r" by auto
  then show ?thesis
  proof cases
    case 2
    then have "r \<in> set (sd_rows d)" using set_pending_rows by blast
    then show ?thesis using assms(1) 2(2) by (simp add: content_ok_def list_all_iff entry_of_row_def payload_of_def)
  qed simp
qed

section \<open>What the classifier selects\<close>

lemma classify_rows_items:
  "classify_rows now stale ttl qids seen rs = Inr items \<Longrightarrow>
   map it_row items = rs \<and> (\<forall>i \<in> set items. \<exists>sn f. facts_of (it_row i) = Inr f
     \<and> i = item_of now (classification now stale ttl qids sn (it_row i) f) (it_row i) f)"
proof (induction rs arbitrary: seen items)
  case (Cons r rs)
  then obtain f js where f: "facts_of r = Inr f"
    "classify_rows now stale ttl qids (fingerprint_of r f # seen) rs = Inr js"
    "items = item_of now (classification now stale ttl qids seen r f) r f # js"
    by (auto simp: result_simps mapE_def)
  have "it_row (item_of now c r f) = r" for c by (simp add: item_of_def Let_def)
  then show ?case using Cons.IH [OF f(2)] f by auto
qed simp

lemma classify_items:
  assumes "classify_deferred_syncs now stale ttl n qids d = Inr a"
  shows "map it_row (au_rows a) = pending_window n d"
    "i \<in> set (au_rows a) \<Longrightarrow> \<exists>sn f. facts_of (it_row i) = Inr f
       \<and> i = item_of now (classification now stale (case ttl of None \<Rightarrow> REPLAY_TTL_SECONDS | Some t \<Rightarrow> t) qids sn (it_row i) f) (it_row i) f"
proof -
  obtain items where items: "classify_rows now stale (case ttl of None \<Rightarrow> REPLAY_TTL_SECONDS | Some t \<Rightarrow> t)
      qids [] (pending_window n d) = Inr items" "a = audit_of now stale items d"
    using assms by (auto simp: classify_deferred_syncs_def mapE_def result_simps)
  have "au_rows a = items" by (simp add: items(2) audit_of_def Let_def)
  then show "map it_row (au_rows a) = pending_window n d"
    "i \<in> set (au_rows a) \<Longrightarrow> \<exists>sn f. facts_of (it_row i) = Inr f
       \<and> i = item_of now (classification now stale (case ttl of None \<Rightarrow> REPLAY_TTL_SECONDS | Some t \<Rightarrow> t) qids sn (it_row i) f) (it_row i) f"
    using classify_rows_items [OF items(1)] by auto
qed

lemma set_pending_window: "set (pending_window n d) \<subseteq> set (filter pending (sd_rows d))"
  unfolding pending_window_def by (metis set_sort set_take_subset)

lemma selected_in_table:
  assumes "classify_deferred_syncs now stale ttl n qids d = Inr a" "i \<in> set (selected_ids batch a rc)"
  shows "i \<in> ids_of d"
proof -
  have "i \<in> item_id ` set (au_rows a)"
    using assms(2) by (auto simp: selected_ids_def stale_ids_def expired_ids_def dest!: in_set_takeD)
  then have "i \<in> ds_id ` set (map it_row (au_rows a))" by (auto simp: item_id_def)
  then show ?thesis using set_pending_window [of n d] unfolding classify_items(1) [OF assms(1)] ids_of_def by auto
qed

section \<open>The invariant\<close>

text \<open>An operation that moves the table by \<open>table_settles\<close> and extends the log keeps the invariant.\<close>

lemma inv_moved:
  assumes "sync_inv content y" "table_settles S (sy_db y) d"
    and "\<And>i. i \<in> S \<Longrightarrow> i \<in> set dropped \<or> settled (Some (content i)) (sy_log y @ x)"
    and "list_all (\<lambda>i. strip i = i \<and> settled (Some (content i)) (sy_log y @ x)) acks"
    and "set (sy_dropped y) \<subseteq> set dropped"
  shows "sync_inv content ((moved d y)\<lparr>sy_acks := acks, sy_rest := s, sy_log := sy_log y @ x, sy_dropped := dropped\<rparr>)"
proof -
  have "rows_settled content (sy_log y) (sy_dropped y) (sy_db y)" using assms(1) unfolding sync_inv_def by blast
  then have "rows_settled content (sy_log y @ x) dropped d"
    using rows_settled_step [OF _ assms(2) assms(3) assms(5) settled_append] by blast
  then show ?thesis using settles_inv [OF assms(1,2)] assms(1,4) by (simp add: sync_inv_def moved_def)
qed

lemma acks_settled:
  "sync_inv content y \<Longrightarrow> list_all (\<lambda>i. strip i = i \<and> settled (Some (content i)) (sy_log y @ x)) (sy_acks y)"
  by (auto simp: sync_inv_def list_all_iff intro: settled_append)

lemma inv_record:
  assumes "sync_inv content y" "record_deferred_queue_sync now fresh q (sy_db y) = (i, d)" "sq_payload q = content i"
  shows "sync_inv content (moved d y)"
proof -
  have ok: "content_ok content (sy_db y)" and rows: "rows_settled content (sy_log y) (sy_dropped y) (sy_db y)"
    using assms(1) by (auto simp: sync_inv_def list_all_iff)
  have "content_ok content d" unfolding content_ok_def list_all_iff
    using record_rows [OF assms(2)] assms(3) ok by (auto simp: content_ok_def list_all_iff)
  moreover have "rows_settled content (sy_log y) (sy_dropped y) d" unfolding rows_settled_def list_all_iff
    using record_rows [OF assms(2)] rows by (fastforce simp: rows_settled_def list_all_iff)
  ultimately show ?thesis
    using table_inv [OF assms(1) _ record_ids [OF assms(2)]] assms(1) by (simp add: sync_inv_def moved_def)
qed

lemma inv_snapshot:
  assumes "sync_inv content y" "e \<in> set (sy_entries y)"
    and "worker_snapshot (logged rec) now projected db_ok e (sy_acks y) (sy_db y) (sy_rest y, sy_log y) = (acks, d, (s, l))"
  shows "sync_inv content ((moved d y)\<lparr>sy_acks := acks, sy_rest := s, sy_log := l\<rparr>)"
proof -
  obtain ok n sl where r: "replay_deferred_native_autoresolve_attempts (logged rec) (se_result e) (sy_rest y, sy_log y) = ((ok, n), sl)"
    by (metis prod.exhaust)
  then have sl: "sl = (s, l)" using assms(3) by (auto simp: worker_snapshot_def split: if_splits)
  then obtain x where x: "l = sy_log y @ x"
    using worker_replay_logged r by (fastforce simp: replay_deferred_native_autoresolve_attempts_def)
  have e: "strip (se_id e) = se_id e" "se_result e = content (se_id e)"
    using assms(1,2) by (auto simp: sync_inv_def list_all_iff)
  show ?thesis
  proof (cases "ok \<and> projected \<and> strip (se_id e) \<noteq> []")
    case True
    then have "settled (Some (content (se_id e))) l" using worker_settled [of rec] r sl e(2) by fastforce
    then have kept: "settled (Some (content (se_id e))) (sy_log y @ x)" by (simp add: x)
    have a: "acks = List.insert (se_id e) (sy_acks y)"
      and d: "d = (if db_ok then snd (mark_deferred_queue_sync_applied now (se_id e) (sy_db y)) else sy_db y)"
      using assms(3) r sl True e(1) by (auto simp: worker_snapshot_def)
    have t: "table_settles {se_id e} (sy_db y) d" using mark_settles [of "se_id e" "sy_db y" now] e(1) d by simp
    have "list_all (\<lambda>i. strip i = i \<and> settled (Some (content i)) (sy_log y @ x)) acks"
      using acks_settled [OF assms(1), of x] kept e(1) by (auto simp: a list_all_iff)
    then show ?thesis
      using inv_moved [OF assms(1) t, of "sy_dropped y" x acks s] kept x by (simp add: moved_def)
  next
    case False
    then have "acks = sy_acks y" "d = sy_db y" using assms(3) r sl by (auto simp: worker_snapshot_def)
    then show ?thesis
      using inv_moved [OF assms(1), of "{}" d "sy_dropped y" x acks s] acks_settled [OF assms(1), of x] x
      by (simp add: moved_def)
  qed
qed

lemma inv_ack:
  assumes "sync_inv content y" "acks \<in> {[], sy_acks y}"
    and "d = ack_deferred_manual_source_queue_syncs now a b (sy_acks y) (sy_db y)"
  shows "sync_inv content ((moved d y)\<lparr>sy_acks := acks\<rparr>)"
proof -
  have acks: "list_all (\<lambda>i. strip i = i \<and> settled (Some (content i)) (sy_log y)) (sy_acks y)"
    using assms(1) by (simp add: sync_inv_def)
  then have ids: "i \<in> strip ` set (sy_acks y) \<Longrightarrow> settled (Some (content i)) (sy_log y @ [])" for i
    by (auto simp: list_all_iff)
  have t: "table_settles (strip ` set (sy_acks y)) (sy_db y) d" unfolding assms(3) by (rule worker_ack_settles)
  have "list_all (\<lambda>i. strip i = i \<and> settled (Some (content i)) (sy_log y @ [])) acks"
    using acks assms(2) by auto
  from inv_moved [OF assms(1) t _ this, of "sy_dropped y" "sy_rest y"] ids show ?thesis by (simp add: moved_def)
qed

lemma inv_maintain:
  assumes "sync_inv content y" "sy_past y = before @ seen # later" "loaded \<in> set (seen # later)"
    and "reconcile_deferred_syncs (logged rec) now batch stale qids seen loaded (sy_db y) (sy_rest y, sy_log y) = (res, d, (s, l))"
  shows "sync_inv content ((moved d y)\<lparr>sy_rest := s, sy_log := l, sy_dropped := sy_dropped y @ dropped_by res\<rparr>)"
proof -
  have ok: "content_ok content loaded" and sub: "ids_of seen \<subseteq> ids_of loaded"
    using assms(1-3) by (auto simp: sync_inv_def sorted_wrt_append list_all_iff)
  have t: "table_settles (case res of Inl _ \<Rightarrow> {} | Inr r \<Rightarrow> set (rn_selected r)) (sy_db y) d"
    by (rule reconcile_settles [OF assms(4)])
  have "\<exists>x. l = sy_log y @ x \<and> (\<forall>r i. res = Inr r \<longrightarrow> i \<in> set (rn_selected r) \<longrightarrow>
      i \<in> set (dropped_by res) \<or> settled (Some (content i)) l)"
    using assms(4)
  proof (cases rule: reconcile_cases)
    case (retired a rc r n)
    from reclaim_logged [OF retired(2)] obtain x where x: "l = sy_log y @ x"
      "\<And>i. i \<in> set (rc_reclaimed rc) \<Longrightarrow> settled (load_payload loaded i) l" by (auto simp: no_reclaim_def)
    have "i \<in> set (dropped_by res) \<or> settled (Some (content i)) l" if i: "i \<in> set (rn_selected r)" for i
    proof (cases "i \<in> set (stale_ids a)")
      case True
      then show ?thesis using i retired(4,6) by (simp add: dropped_by_def)
    next
      case False
      then have "i \<in> set (rc_reclaimed rc)"
        using i by (auto simp: retired(5) selected_ids_def dest!: in_set_takeD)
      moreover have "i \<in> ids_of seen" using i retired(1,5) selected_in_table by metis
      ultimately show ?thesis using x(2) [of i] payload_content [OF ok, of i] sub by auto
    qed
    then show ?thesis using x(1) retired(4) by auto
  qed (use reclaim_logged in \<open>fastforce+\<close>)
  then obtain x where x: "l = sy_log y @ x" "\<And>r i. res = Inr r \<Longrightarrow> i \<in> set (rn_selected r) \<Longrightarrow>
      i \<in> set (dropped_by res) \<or> settled (Some (content i)) l" by blast
  show ?thesis
    using inv_moved [OF assms(1) t _ acks_settled [OF assms(1), of x], of "sy_dropped y @ dropped_by res" s] x
    by (fastforce simp: moved_def split: sum.splits)
qed

lemma inv_step:
  assumes "sync_step rec content y z" "sync_inv content y"
  shows "sync_inv content z"
  using assms(1)
proof cases
  case (step_read stored now query_time)
  have "content_ok content (sy_db y)" using assms(2) by (auto simp: sync_inv_def list_all_iff)
  then show ?thesis using read_entries [of content "sy_db y"] step_read assms(2)
    by (fastforce simp: sync_inv_def list_all_iff)
next
  case step_stop
  then show ?thesis using assms(2) by (auto simp: sync_inv_def)
next
  case (step_record now fresh q i d)
  show ?thesis unfolding step_record(1) by (rule inv_record [OF assms(2) step_record(2,3)])
next
  case (step_snapshot e now projected db_ok acks d s l)
  show ?thesis unfolding step_snapshot(1) by (rule inv_snapshot [OF assms(2) step_snapshot(2,3)])
next
  case (step_ack acks d now ack_ok applied_ok)
  show ?thesis unfolding step_ack(1) by (rule inv_ack [OF assms(2) step_ack(2,3)])
next
  case (step_maintain before seen later loaded now batch stale_after queue_ids res d s l)
  show ?thesis unfolding step_maintain(1) by (rule inv_maintain [OF assms(2) step_maintain(2-4)])
qed

lemma inv_reachable: "(sync_step rec content)\<^sup>*\<^sup>* y z \<Longrightarrow> sync_inv content y \<Longrightarrow> sync_inv content z"
  by (induction rule: rtranclp_induct) (auto intro: inv_step)

section \<open>Reach and progress\<close>

lemma aged_class:
  assumes "pending r" "stale \<le> ttl" "ttl \<le> age_of now r"
  shows "classification now stale ttl qids sn r f \<in> set PERMANENT_CLASSES
    \<or> classification now stale ttl qids sn r f = EXPIRED_REPLAY_CLASS"
  using assms by (auto simp: classification_def Let_def PERMANENT_CLASSES_def pending_def)

lemma item_actionable:
  assumes "classify_deferred_syncs now stale None n qids d = Inr a" "stale \<le> REPLAY_TTL_SECONDS"
    and "r \<in> set (pending_window n d)" "REPLAY_TTL_SECONDS \<le> age_of now r"
  shows "\<exists>i \<in> set (au_rows a). it_row i = r \<and> (it_permanently_stale i \<or> it_replay_expired i)"
proof -
  have "r \<in> it_row ` set (au_rows a)" using assms(3) classify_items(1) [OF assms(1)] by (metis image_set)
  then obtain i where i: "i \<in> set (au_rows a)" "it_row i = r" by blast
  from classify_items(2) [OF assms(1) i(1)] obtain sn f where
    "i = item_of now (classification now stale REPLAY_TTL_SECONDS qids sn r f) r f" by (auto simp: i(2))
  moreover have "pending r" using assms(3) set_pending_window by fastforce
  ultimately show ?thesis using aged_class [OF _ assms(2,4), of qids sn f] i
    by (auto simp: item_of_def Let_def intro!: bexI [of _ i])
qed

lemma in_pending_window:
  "r \<in> set (sd_rows d) \<Longrightarrow> pending r \<Longrightarrow> count_where pending (sd_rows d) \<le> 1000 \<Longrightarrow> r \<in> set (pending_window 1000 d)"
  by (simp add: pending_window_def count_where_def)

lemma count_where_update_less:
  assumes "r \<in> set rows" "p r" "q r" "\<And>x. p x \<Longrightarrow> \<not> q (f x)"
  shows "count_where q (update_where p f rows) < count_where q rows"
proof -
  have le: "count_where q (update_where p f xs) \<le> count_where q xs" for xs
    using assms(4) by (induction xs) (auto simp: update_where_def)
  show ?thesis using assms(1)
  proof (induction rows)
    case (Cons x xs)
    then show ?case using assms(2-4) le [of xs] by (auto simp: update_where_def)
  qed simp
qed

definition answers :: "'s recorder \<Rightarrow> bool" where
  "answers rec = (\<forall>e s n. attempt_end_of (fst (rec e s)) \<noteq> Failed n)"

lemma replay_answers: "answers rec \<Longrightarrow> \<not> rp_failed (fst (replay_entries rec i es n ns s))"
proof (induction es arbitrary: n ns s)
  case (Cons e es)
  obtain v s1 where v: "rec e s = (v, s1)" by (rule prod.exhaust)
  then have "attempt_end_of v \<noteq> Failed w" for w using Cons.prems unfolding answers_def by (metis fst_conv)
  then show ?case using Cons v by (cases "attempt_end_of v") auto
qed simp

lemma reclaim_answers:
  assumes "answers rec"
  shows "rc_reclaimed (fst (reclaim_expired_replays rec d is acc s)) = rc_reclaimed acc @ is"
proof (induction "is" arbitrary: acc s)
  case (Cons i "is")
  obtain p s1 where p: "replay_entries rec i (replay_rows (load_payload d i)) 0 (rc_notes acc) s = (p, s1)"
    by (rule prod.exhaust)
  then have "\<not> rp_failed p"
    using replay_answers [OF assms, of i "replay_rows (load_payload d i)" 0 "rc_notes acc" s] by simp
  then show ?case using Cons.IH p by simp
qed simp

lemma classify_total:
  "list_all (\<lambda>r. isInr (facts_of r)) rs \<Longrightarrow> \<exists>items. classify_rows now stale ttl qids seen rs = Inr items"
proof (induction rs arbitrary: seen)
  case (Cons r rs)
  then obtain f where f: "facts_of r = Inr f" by (auto simp: isInr_iff)
  obtain items where "classify_rows now stale ttl qids (fingerprint_of r f # seen) rs = Inr items"
    using Cons by auto
  then show ?case using f by simp
qed simp

lemma classify_returns:
  assumes "list_all (\<lambda>r. isInr (facts_of r)) (sd_rows d)"
  obtains a where "classify_deferred_syncs now stale ttl n qids d = Inr a"
proof -
  have "list_all (\<lambda>r. isInr (facts_of r)) (pending_window n d)"
    using assms set_pending_window [of n d] by (auto simp: list_all_iff)
  from classify_total [OF this, of now stale "case ttl of None \<Rightarrow> REPLAY_TTL_SECONDS | Some t \<Rightarrow> t" qids "[]"]
  show ?thesis using that by (auto simp: classify_deferred_syncs_def)
qed

lemma facts_settles: "settles S r r' \<Longrightarrow> facts_of r' = facts_of r"
  by (simp add: facts_of_def settles_def)

lemma pass_progress:
  assumes rec: "answers rec"
    and facts: "list_all (\<lambda>r. isInr (facts_of r)) (sd_rows d)"
    and ok: "stale \<le> REPLAY_TTL_SECONDS" "count_where pending (sd_rows d) \<le> 1000" "event_id t \<notin> set (sd_events d)"
    and r: "r \<in> set (sd_rows d)" "pending r" "REPLAY_TTL_SECONDS \<le> age_of t r"
    and run: "reconcile_deferred_syncs rec t batch stale qids d d d s = (res, d', s')"
  shows "count_where pending (sd_rows d') < count_where pending (sd_rows d) \<and> sd_events d' = sd_events d @ [event_id t]"
proof -
  obtain a where a: "classify_deferred_syncs t stale None 1000 qids d = Inr a"
    using classify_returns [OF facts] by blast
  obtain i where i: "i \<in> set (au_rows a)" "it_permanently_stale i \<or> it_replay_expired i"
    using item_actionable [OF a ok(1) in_pending_window [OF r(1,2) ok(2)] r(3)] by blast
  have batch: "0 < batch_limit_of batch" by (simp add: batch_limit_of_def)
  have some: "selected_ids batch a rc \<noteq> []"
    if "reclaim_expired_replays rec d (expired_ids batch a) no_reclaim s = (rc, s1)" for rc s1
  proof (cases "stale_ids a = []")
    case True
    then have "expired_ids batch a \<noteq> []" using i batch by (auto simp: expired_ids_def stale_ids_def filter_empty_conv)
    moreover have "rc_reclaimed rc = expired_ids batch a"
      using reclaim_answers [OF rec, of d "expired_ids batch a" no_reclaim s] unfolding that by (simp add: no_reclaim_def)
    ultimately show ?thesis using True batch by (simp add: selected_ids_def)
  qed (use batch in \<open>simp add: selected_ids_def\<close>)
  from run show ?thesis
  proof (cases rule: reconcile_cases)
    case (retired b rc r n)
    let ?ids = "selected_ids batch b rc"
    have "hd ?ids \<in> set ?ids" using retired(3) by simp
    then have "hd ?ids \<in> item_id ` set (au_rows b)"
      by (auto simp: selected_ids_def stale_ids_def expired_ids_def dest!: in_set_takeD)
    then have "hd ?ids \<in> ds_id ` set (map it_row (au_rows b))" by (auto simp: item_id_def)
    then obtain q where q: "q \<in> set (sd_rows d)" "pending q" "ds_id q = hd ?ids"
      using set_pending_window [of 1000 d] unfolding classify_items(1) [OF retired(1)] by auto
    have rows: "sd_rows d' = update_where (\<lambda>r. ds_id r \<in> set ?ids \<and> pending r) (acknowledge t) (sd_rows d)"
      "sd_events d' = sd_events d @ [event_id t]"
      using retired(8) by (auto simp: retire_def Let_def split: if_splits)
    have "count_where pending (sd_rows d') < count_where pending (sd_rows d)" unfolding rows
      by (rule count_where_update_less [OF q(1)]) (use q \<open>hd ?ids \<in> set ?ids\<close> in \<open>auto simp: acknowledge_def pending_def\<close>)
    then show ?thesis using rows(2) by simp
  qed (use a ok(3) some in auto)
qed

fun maintenance_passes ::
    "'s recorder \<Rightarrow> int \<Rightarrow> rat \<Rightarrow> string list \<Rightarrow> rat list \<Rightarrow> sync_db \<Rightarrow> 's \<Rightarrow> sync_db \<times> 's" where
  "maintenance_passes rec batch stale qids [] d s = (d, s)"
| "maintenance_passes rec batch stale qids (t # ts) d s =
     (case reconcile_deferred_syncs rec t batch stale qids d d d s of
        (_, d', s') \<Rightarrow> maintenance_passes rec batch stale qids ts d' s')"

lemma passes_settle: "table_settles UNIV d (fst (maintenance_passes rec batch stale qids ts d s))"
proof (induction ts arbitrary: d s)
  case (Cons t ts)
  obtain res d' s' where run: "reconcile_deferred_syncs rec t batch stale qids d d d s = (res, d', s')"
    by (metis prod.exhaust)
  have "table_settles UNIV d d'" by (rule table_settles_mono [OF subset_UNIV reconcile_settles [OF run]])
  then show ?case using table_settles_trans [OF _ Cons.IH] run by simp
qed simp

lemma still_pending: "settles S r r' \<Longrightarrow> pending r' \<Longrightarrow> r' = r"
  by (auto simp: settles_def pending_def)

section \<open>Properties\<close>

text \<open>
  C15: No write is lost silently. However the worker, its restarts and any number of maintenance passes
  interleave: when a snapshot is applied or acknowledged, each source attempt it carries was handed to
  the recorder and answered, by success or because its target is gone, or the snapshot was retired
  as permanently stale.
\<close>

theorem lost_writes_carried:
  assumes "sync_start content y" "(sync_step rec content)\<^sup>*\<^sup>* y z"
    and "r \<in> set (sd_rows (sy_db z))" "ds_status r \<in> {''applied'', ''acked''}"
    and "e \<in> set (replay_rows (payload_of (ds_payload r)))"
  shows "ds_id r \<in> set (sy_dropped z) \<or> carried e (sy_log z)"
proof -
  have inv: "sync_inv content z" by (rule inv_reachable [OF assms(2) sync_start_inv [OF assms(1)]])
  then have "sy_db z \<in> set (sy_past z)" by (simp add: sync_inv_def)
  then have "content_ok content (sy_db z)" using inv by (auto simp: sync_inv_def list_all_iff)
  then have "payload_of (ds_payload r) = Some (content (ds_id r))"
    using assms(3) by (auto simp: content_ok_def list_all_iff payload_of_def)
  moreover have "rows_settled content (sy_log z) (sy_dropped z) (sy_db z)" using inv unfolding sync_inv_def by blast
  ultimately show ?thesis using assms(3-5) by (auto simp: rows_settled_def list_all_iff retired_def settled_def)
qed

text \<open>
  C16: No snapshot is out of everybody's reach. While the backlog fits the limits of the two readers, a
  snapshot of the worker that is pending is either classified as something the maintenance pass acts
  on, or among the rows the worker reads: the two windows meet.
\<close>

theorem no_snapshot_stranded:
  assumes "classify_deferred_syncs now stale_after None 1000 queue_ids d = Inr a" "stale_after \<le> REPLAY_TTL_SECONDS"
    and "count_where pending (sd_rows d) \<le> 1000"
    and "count_where outstanding (sd_rows d) \<le> nat DEFERRED_MANUAL_SOURCE_QUEUE_SYNC_MAX_ITEMS"
    and "r \<in> set (sd_rows d)" "pending r" "ds_source r = ''manual_source_autoresolve''" "ds_created_at r \<noteq> 0"
  shows "(\<exists>i \<in> set (au_rows a). it_row i = r \<and> (it_permanently_stale i \<or> it_replay_expired i))
    \<or> r \<in> set (pending_deferred_queue_sync_rows now ''manual_source_autoresolve'' REPLAY_TTL_SECONDS
          DEFERRED_MANUAL_SOURCE_QUEUE_SYNC_MAX_ITEMS d)"
proof (cases "REPLAY_TTL_SECONDS \<le> age_of now r")
  case True
  then show ?thesis using item_actionable [OF assms(1,2) in_pending_window [OF assms(5,6,3)]] by blast
next
  case False
  then have young: "now - REPLAY_TTL_SECONDS \<le> ds_created_at r" using assms(8) by (simp add: age_of_def)
  let ?p = "\<lambda>r. outstanding r \<and> (now - REPLAY_TTL_SECONDS > 0 \<longrightarrow> ds_created_at r \<ge> now - REPLAY_TTL_SECONDS)
    \<and> ds_source r = ''manual_source_autoresolve''"
  have "count_where ?p (sd_rows d) \<le> 80"
    using count_where_mono [of "sd_rows d" ?p outstanding] assms(4)
    by (simp add: DEFERRED_MANUAL_SOURCE_QUEUE_SYNC_MAX_ITEMS_def)
  moreover have "?p r" using assms(6,7) young by (simp add: outstanding_def pending_def)
  moreover have "strip ''manual_source_autoresolve'' = ''manual_source_autoresolve''" by code_simp
  ultimately have "r \<in> set (pending_deferred_queue_sync_rows now ''manual_source_autoresolve'' REPLAY_TTL_SECONDS
          DEFERRED_MANUAL_SOURCE_QUEUE_SYNC_MAX_ITEMS d)"
    using assms(5) by (simp add: pending_deferred_queue_sync_rows_def sql_take_def count_where_def
        DEFERRED_MANUAL_SOURCE_QUEUE_SYNC_MAX_ITEMS_def REPLAY_TTL_SECONDS_def)
  then show ?thesis by blast
qed


section \<open>Witnesses\<close>

definition sample_entry :: replay_entry where
  "sample_entry = \<lparr>re_queue_id = ''q1'', re_attempt = [(''status'', PStr ''sent'')], re_attempt_id = PStr ''a1'',
     re_started_at = PNone, re_completed_at = PNone\<rparr>"

definition sample_content :: "string \<Rightarrow> pydict" where
  "sample_content i =
     [(''processed'', PList [PDict [(''queue_id'', PStr ''q1''), (''status'', PStr ''sent'')]]), (''skipped'', PList []),
      (''native_attempt_replay'', PList [PDict [(''queue_id'', PStr '' q1 ''),
         (''attempt'', PDict [(''status'', PStr ''sent'')]), (''attempt_id'', PStr ''a1'')]])]"

definition sample_row :: "string \<Rightarrow> rat \<Rightarrow> sync_row" where
  "sample_row reason created = \<lparr>ds_id = ''s1'', ds_source = ''manual_source_autoresolve'',
     ds_reason = Some reason, ds_status = ''pending'', ds_created_at = created, ds_applied_at = None,
     ds_acked_at = None, ds_row_count = Some 1, ds_payload = Some (PDict (sample_content ''s1''))\<rparr>"

definition sample_table :: "string \<Rightarrow> sync_db" where
  "sample_table reason = \<lparr>sd_rows = [sample_row reason 1000], sd_sync = None, sd_events = []\<rparr>"

definition sample_rec :: "nat recorder" where
  "sample_rec e n = (Inr (PDict [(''ok'', PBool True)]), n + 1)"

definition sample_sys :: "nat sync_sys" where
  "sample_sys = (let d = sample_table ''series_autopilot_lock_unavailable'' in
     \<lparr>sy_db = d, sy_past = [d], sy_entries = [], sy_acks = [], sy_rest = 0, sy_log = [], sy_dropped = []\<rparr>)"

definition sample_pass :: "(reconcile_error + reconciled) \<times> sync_db \<times> (nat \<times> call_log)" where
  "sample_pass = (let d = sample_table ''series_autopilot_lock_unavailable'' in
     reconcile_deferred_syncs (logged sample_rec) 300000 25 86400 [''q1''] d d d (0, []))"

definition sample_end :: "nat sync_sys" where
  "sample_end = (case sample_pass of (res, d, (s, l)) \<Rightarrow>
     (moved d sample_sys)\<lparr>sy_rest := s, sy_log := l, sy_dropped := sy_dropped sample_sys @ dropped_by res\<rparr>)"

lemma sample_start: "sync_start sample_content sample_sys"
  by code_simp

lemma sample_replayed:
  "map ds_status (sd_rows (sy_db sample_end)) = [''acked'']" "sy_dropped sample_end = []"
  "replay_rows (payload_of (ds_payload (hd (sd_rows (sy_db sample_end))))) = [sample_entry]"
  by code_simp+

lemma sample_reached: "(sync_step sample_rec sample_content)\<^sup>*\<^sup>* sample_sys sample_end"
proof -
  obtain res d s l where pass: "sample_pass = (res, d, (s, l))" by (metis prod.exhaust)
  have "sync_step sample_rec sample_content sample_sys
     ((moved d sample_sys)\<lparr>sy_rest := s, sy_log := l, sy_dropped := sy_dropped sample_sys @ dropped_by res\<rparr>)"
    by (rule step_maintain [where before = "[]" and later = "[]"])
      (use pass in \<open>auto simp: sample_pass_def sample_sys_def Let_def\<close>)
  then show ?thesis by (simp add: sample_end_def pass)
qed

lemma lost_writes_carried_witness:
  "\<exists>r \<in> set (sd_rows (sy_db sample_end)). ds_status r = ''acked'' \<and> carried sample_entry (sy_log sample_end)"
proof -
  obtain r rs where r: "sd_rows (sy_db sample_end) = r # rs" "ds_status r = ''acked''"
    using sample_replayed(1) by (cases "sd_rows (sy_db sample_end)") auto
  then have "sample_entry \<in> set (replay_rows (payload_of (ds_payload r)))" using sample_replayed(3) by simp
  then have "carried sample_entry (sy_log sample_end)"
    using lost_writes_carried [OF sample_start sample_reached, of r sample_entry] r sample_replayed(2) by simp
  then show ?thesis using r by auto
qed

lemma no_snapshot_stranded_witness:
  "\<exists>a. classify_deferred_syncs 300000 86400 None 1000 [''q1''] (sample_table ''busy'') = Inr a
     \<and> ((\<exists>i \<in> set (au_rows a). it_row i = sample_row ''busy'' 1000 \<and> (it_permanently_stale i \<or> it_replay_expired i))
        \<or> sample_row ''busy'' 1000 \<in> set (pending_deferred_queue_sync_rows 300000 ''manual_source_autoresolve''
             REPLAY_TTL_SECONDS DEFERRED_MANUAL_SOURCE_QUEUE_SYNC_MAX_ITEMS (sample_table ''busy'')))"
proof -
  have "isInr (classify_deferred_syncs 300000 86400 None 1000 [''q1''] (sample_table ''busy''))" by code_simp
  then obtain a where a: "classify_deferred_syncs 300000 86400 None 1000 [''q1''] (sample_table ''busy'') = Inr a"
    by (auto simp: isInr_iff)
  show ?thesis using a no_snapshot_stranded [OF a, of "sample_row ''busy'' 1000"]
    by (simp add: sample_table_def sample_row_def pending_def outstanding_def REPLAY_TTL_SECONDS_def
        DEFERRED_MANUAL_SOURCE_QUEUE_SYNC_MAX_ITEMS_def)
qed


text \<open>
  A snapshot whose reason is the busy lock is retired after a day as superseded, a day before the worker
  stops replaying it: the write it carries was never handed to the recorder.
\<close>

lemma superseded_drops_writes:
  "case reconcile_deferred_syncs (logged sample_rec) 90000 25 86400 [''q1''] (sample_table ''series_autopilot_lock_busy'')
       (sample_table ''series_autopilot_lock_busy'') (sample_table ''series_autopilot_lock_busy'') (0, []) of
     (res, d, (_, l)) \<Rightarrow> map ds_status (sd_rows d) = [''acked''] \<and> l = []
       \<and> replay_rows (load_payload d ''s1'') = [sample_entry]"
  by code_simp

end
