(* ===== verification/TransferStatus.thy ===== *)
theory TransferStatus
  imports Records
begin

text \<open>
  \<^verbatim>\<open>core/inkdrop_transfer.py\<close>: the rows of eight download clients, normalized into one transfer
  status. The readers of numbers, times, sizes and rates come first, then the verdict on the
  post-processing of an NZBGet row, then \<open>normalize_transfer_status\<close> in the parts it has.

  \<open>parse_iso\<close> stands for \<open>datetime.fromisoformat(text).timestamp()\<close>, \<open>None\<close> where it raises
  \<open>ValueError\<close>. An exception of a reader is \<open>OverflowError\<close>, of a number too large for a float or of an
  infinity turned into an integer; \<open>TypeError\<close> comes from a list of script results that is none.
\<close>

section \<open>Readers\<close>

definition number :: "pyval \<Rightarrow> py_exn + flt option" where
  "number v =
     (if none_or_empty v then Inr None
      else case float_arg v of
        Inr x \<Rightarrow> Inr (Some x)
      | Inl e \<Rightarrow> if e = TypeError \<or> e = ValueError then Inr None else Inl e)"

definition non_negative :: "flt \<Rightarrow> bool" where
  "non_negative x = flt_le (Fin 0) x"

definition integer :: "pyval \<Rightarrow> py_exn + int option" where
  "integer v = bindE (number v) (\<lambda>n. case n of
      None \<Rightarrow> Inr None
    | Some x \<Rightarrow> if non_negative x then mapE Some (flt_int x) else Inr None)"

definition timestamp :: "(string \<Rightarrow> flt option) \<Rightarrow> pyval \<Rightarrow> py_exn + flt option" where
  "timestamp parse_iso v = bindE (number v) (\<lambda>n. case n of
      Some x \<Rightarrow> Inr (if flt_lt (Fin 0) x then Some x else None)
    | None \<Rightarrow> (let text = strip (str_or_empty v) in
        Inr (if text = [] then None else parse_iso (replace_char CHR ''Z'' ''+00:00'' text))))"

definition digits :: "string \<Rightarrow> bool" where
  "digits s = (s \<noteq> [] \<and> list_all is_digit s)"

definition digits_value :: "string \<Rightarrow> int" where
  "digits_value s = (case int_digits False 0 s of Some n \<Rightarrow> int n | None \<Rightarrow> 0)"

text \<open>The match of \<open>(?:(\d+):)?(\d{1,2}):(\d{1,2})\<close> with the whole text.\<close>

definition clock_text :: "string \<Rightarrow> int option" where
  "clock_text s =
     (let short = (\<lambda>t. digits t \<and> length t \<le> 2) in
      case split_on CHR '':'' s of
        [m, sec] \<Rightarrow> if short m \<and> short sec then Some (digits_value m * 60 + digits_value sec) else None
      | [h, m, sec] \<Rightarrow> if digits h \<and> short m \<and> short sec
          then Some (digits_value h * 3600 + digits_value m * 60 + digits_value sec) else None
      | _ \<Rightarrow> None)"

definition duration_seconds :: "pyval \<Rightarrow> py_exn + int option" where
  "duration_seconds v = bindE (number v) (\<lambda>n. case n of
      Some x \<Rightarrow> if non_negative x \<and> flt_lt x (Fin 31536000) then mapE Some (flt_int x) else Inr None
    | None \<Rightarrow> (let text = strip (str_or_empty v) in
        Inr (if text = [] \<or> lower text \<in> {''unknown'', ''n/a'', ''-''} then None else clock_text text)))"

definition bytes_from_mib :: "pyval \<Rightarrow> py_exn + int option" where
  "bytes_from_mib v = bindE (number v) (\<lambda>n. case n of
      None \<Rightarrow> Inr None
    | Some x \<Rightarrow> if non_negative x then mapE Some (flt_int (to_double (flt_scale (1024 * 1024) x))) else Inr None)"

fun drop_per_second :: "string \<Rightarrow> string" where
  "drop_per_second (a # b # s) =
     (if a = CHR ''/'' \<and> b = CHR ''s'' then drop_per_second s else a # drop_per_second (b # s))"
| "drop_per_second s = s"

text \<open>
  The pattern \<open>([0-9]+(?:\.[0-9]+)?)\s*([kmgt]?i?b)\<close>, letters in either case: the match at the start of
  a text, then the first one anywhere.
\<close>

definition unit_at :: "string \<Rightarrow> string option" where
  "unit_at s =
     (let prefix = (case s of c # _ \<Rightarrow> if lower [c] \<in> {''k'', ''m'', ''g'', ''t''} then [c] else [] | [] \<Rightarrow> []);
          s1 = drop (length prefix) s;
          i = (case s1 of c # _ \<Rightarrow> if lower [c] = ''i'' then [c] else [] | [] \<Rightarrow> []);
          s2 = drop (length i) s1
      in case s2 of c # _ \<Rightarrow> if lower [c] = ''b'' then Some (lower (prefix @ i @ [c])) else None | [] \<Rightarrow> None)"

definition rate_at :: "string \<Rightarrow> (string \<times> string) option" where
  "rate_at s =
     (let whole = takeWhile is_digit s; rest = dropWhile is_digit s;
          frac = (case rest of c # t \<Rightarrow>
              if c = CHR ''.'' \<and> takeWhile is_digit t \<noteq> [] then c # takeWhile is_digit t else []
            | [] \<Rightarrow> []);
          tail = dropWhile is_space (drop (length frac) rest)
      in if whole = [] then None else map_option (\<lambda>u. (whole @ frac, u)) (unit_at tail))"

fun rate_search :: "string \<Rightarrow> (string \<times> string) option" where
  "rate_search [] = None"
| "rate_search (c # s) = (case rate_at (c # s) of Some m \<Rightarrow> Some m | None \<Rightarrow> rate_search s)"

definition unit_powers :: "(string \<times> nat) list" where
  "unit_powers = [(''b'', 0), (''kb'', 1), (''kib'', 1), (''mb'', 2), (''mib'', 2), (''gb'', 3), (''gib'', 3),
     (''tb'', 4), (''tib'', 4)]"

definition rate_bytes :: "pyval \<Rightarrow> py_exn + int option" where
  "rate_bytes v = bindE (number v) (\<lambda>n. case n of
      Some x \<Rightarrow> if non_negative x then mapE Some (flt_int x) else Inr None
    | None \<Rightarrow>
        (case rate_search (drop_per_second (strip (str_or_empty v))) of
           None \<Rightarrow> Inr None
         | Some (amount, unit) \<Rightarrow>
             bindE (float_arg (PStr amount)) (\<lambda>x.
               let power = (case dget unit_powers unit of Some p \<Rightarrow> p | None \<Rightarrow> 0) in
               mapE Some (flt_int (to_double (flt_scale (1024 ^ power) x))))))"

definition client_name :: "pydict \<Rightarrow> pydict \<Rightarrow> string" where
  "client_name task raw =
     (let c = coerce_client_id (first_truthy [get task ''download_client'', get task ''client'', get raw ''client'',
          get task ''protocol'', get task ''source''])
      in if c = [] then ''unknown'' else c)"

text \<open>The snapshots nested in a row, each over the ones before.\<close>

definition nested_raw :: "pydict \<Rightarrow> pydict" where
  "nested_raw raw =
     fold (\<lambda>k merged.
         case get raw k of
           PDict m \<Rightarrow> dupdate (dupdate merged m) (as_dict (get m ''raw''))
         | _ \<Rightarrow> merged)
       [''download_client_snapshot'', ''client_snapshot'', ''transfer'', ''raw''] raw"

section \<open>The verdict on an NZBGet row\<close>

definition NZBGET_CLEAN :: "string list" where
  "NZBGET_CLEAN = [''NONE'', ''SUCCESS'']"

definition NZBGET_CLEAN_HISTORY_STATUS :: "string list" where
  "NZBGET_CLEAN_HISTORY_STATUS = [''SUCCESS/ALL'', ''SUCCESS/UNPACK'', ''SUCCESS/PAR'', ''SUCCESS/HEALTH'']"

definition NZBGET_FULL_HEALTH :: int where
  "NZBGET_FULL_HEALTH = 1000"

definition is_ascii_upper :: "char \<Rightarrow> bool" where
  "is_ascii_upper c = (65 \<le> code c \<and> code c \<le> 90)"

definition nzbget_snake :: "string \<Rightarrow> string" where
  "nzbget_snake key =
     lower (case key of [] \<Rightarrow> [] | c # s \<Rightarrow>
       c # concat (map (\<lambda>d. if is_ascii_upper d then [CHR ''_'', d] else [d]) s))"

fun first_field :: "pydict \<Rightarrow> string list \<Rightarrow> string" where
  "first_field row [] = []"
| "first_field row (k # ks) =
     (if none_or_empty (get row k) then first_field row ks else upper (strip (py_str (get row k))))"

definition nzbget_field :: "pydict \<Rightarrow> string \<Rightarrow> string" where
  "nzbget_field row key = first_field row [key, lower key, nzbget_snake key]"

text \<open>A scalar outcome outside the allowed ones.\<close>

definition unclean :: "string list \<Rightarrow> string \<Rightarrow> bool" where
  "unclean allowed s = (s \<noteq> [] \<and> s \<notin> set allowed)"

datatype health_verdict = Verdict (vd_verdict: string) (vd_reason: string)

abbreviation damaged :: "string \<Rightarrow> health_verdict" where
  "damaged \<equiv> Verdict ''damaged''"

definition script_verdict :: "string \<Rightarrow> string \<Rightarrow> health_verdict option" where
  "script_verdict failure s =
     (if s = ''FAILURE'' then Some (damaged failure)
      else if unclean NZBGET_CLEAN s then Some (Verdict ''unknown'' (''NZBGet script status is '' @ s))
      else None)"

fun script_entries :: "pydict list \<Rightarrow> health_verdict option" where
  "script_entries [] = None"
| "script_entries (e # es) =
     (let name = strip (str_or_empty (first_truthy [get e ''Name'', get e ''name'', PStr ''post-processing''])) in
      case script_verdict (''NZBGet script '' @ name @ '' failed'') (nzbget_field e ''Status'') of
        Some v \<Rightarrow> Some v
      | None \<Rightarrow> script_entries es)"

text \<open>What the health and the lost articles say; a successful repair excuses both.\<close>

definition health_problem :: "bool \<Rightarrow> int option \<Rightarrow> int option \<Rightarrow> health_verdict option" where
  "health_problem repaired health critical =
     (case health of
        None \<Rightarrow> None
      | Some h \<Rightarrow>
          if (case critical of None \<Rightarrow> False | Some c \<Rightarrow> c > 0 \<and> h < c)
          then Some (damaged (''NZBGet health '' @ int_str h @ '' is below critical '' @ int_str (the critical)))
          else if h < NZBGET_FULL_HEALTH \<and> \<not> repaired
          then Some (damaged (''NZBGet health is '' @ int_str h @ ''/'' @ int_str NZBGET_FULL_HEALTH
                 @ '' with no successful repair''))
          else None)"

definition articles_problem :: "bool \<Rightarrow> int option \<Rightarrow> health_verdict option" where
  "articles_problem repaired failed =
     (case failed of
        None \<Rightarrow> None
      | Some n \<Rightarrow> if n \<noteq> 0 \<and> \<not> repaired
          then Some (damaged (''NZBGet lost '' @ int_str n @ '' article(s) with no successful repair'')) else None)"

definition status_verdict :: "string \<Rightarrow> health_verdict" where
  "status_verdict s =
     (if s = [] then Verdict ''unknown'' ''NZBGet history row has no Status''
      else if starts_with s ''SUCCESS''
      then (if s \<in> set NZBGET_CLEAN_HISTORY_STATUS then Verdict ''clean'' []
            else damaged (''NZBGet reported '' @ s))
      else if starts_with s ''DELETED'' \<or> starts_with s ''FAILURE'' \<or> starts_with s ''WARNING''
      then damaged (''NZBGet reported '' @ s)
      else Verdict ''unknown'' (''NZBGet reported an unrecognized status ('' @ s @ '')''))"

definition nzbget_health_verdict :: "pydict \<Rightarrow> py_exn + health_verdict" where
  "nzbget_health_verdict row =
     (let par = nzbget_field row ''ParStatus''; unpack = nzbget_field row ''UnpackStatus'';
          move = nzbget_field row ''MoveStatus''; script = nzbget_field row ''ScriptStatus'';
          mark = nzbget_field row ''MarkStatus''; deleted = nzbget_field row ''DeleteStatus'' in
      if unclean NZBGET_CLEAN par then Inr (damaged (''NZBGet par check reported '' @ par))
      else if unclean NZBGET_CLEAN unpack then Inr (damaged (''NZBGet unpack reported '' @ unpack))
      else if unclean NZBGET_CLEAN move then Inr (damaged (''NZBGet move reported '' @ move))
      else case script_verdict ''NZBGet post-processing script failed'' script of
        Some v \<Rightarrow> Inr v
      | None \<Rightarrow>
          bindE (dict_rows (por (get row ''ScriptStatuses'') (get row ''script_statuses''))) (\<lambda>entries.
          case script_entries entries of
            Some v \<Rightarrow> Inr v
          | None \<Rightarrow>
              if unclean [''NONE''] mark then Inr (damaged (''NZBGet item was force-marked '' @ mark))
              else bindE (integer (PStr (nzbget_field row ''Health''))) (\<lambda>health.
                   bindE (integer (PStr (nzbget_field row ''CriticalHealth''))) (\<lambda>critical.
                   case health_problem (par = ''SUCCESS'') health critical of
                     Some v \<Rightarrow> Inr v
                   | None \<Rightarrow>
                       bindE (integer (PStr (nzbget_field row ''FailedArticles''))) (\<lambda>failed.
                       case articles_problem (par = ''SUCCESS'') failed of
                         Some v \<Rightarrow> Inr v
                       | None \<Rightarrow>
                           if unclean [''NONE''] deleted
                           then Inr (damaged (''NZBGet deleted the item ('' @ deleted @ '')''))
                           else Inr (status_verdict (nzbget_field row ''Status'')))))))"

section \<open>Sizes and progress\<close>

definition or_else :: "int option \<Rightarrow> py_exn + int option \<Rightarrow> py_exn + int option" where
  "or_else n other = (if n \<in> {None, Some 0} then other else Inr n)"

text \<open>\<open>max(0, total - left)\<close> where only the total is known so far.\<close>

definition less_left :: "int option \<Rightarrow> int option \<Rightarrow> int option \<Rightarrow> int option" where
  "less_left completed tot rest =
     (case (completed, tot, rest) of (None, Some t, Some l) \<Rightarrow> Some (max 0 (t - l)) | _ \<Rightarrow> completed)"

definition client_sizes :: "string \<Rightarrow> pydict \<Rightarrow> int option \<Rightarrow> int option \<Rightarrow> py_exn + int option \<times> int option" where
  "client_sizes client raw tot completed =
     (if client = ''sabnzbd'' then
        bindE (or_else tot (bytes_from_mib (get raw ''mb''))) (\<lambda>t.
        mapE (\<lambda>l. (t, less_left completed t l)) (bytes_from_mib (get raw ''mbleft'')))
      else if client = ''transmission'' then
        mapE (\<lambda>l. (tot, less_left completed tot l)) (integer (get raw ''leftUntilDone''))
      else if client = ''deluge'' then
        bindE (or_else tot (integer (get raw ''total_size''))) (\<lambda>t.
        mapE (\<lambda>c. (t, c)) (if completed \<noteq> None then Inr completed else integer (get raw ''total_done'')))
      else if client = ''nzbget'' then
        bindE (or_else tot (bytes_from_mib (get raw ''FileSizeMB''))) (\<lambda>t.
        bindE (bytes_from_mib (get raw ''RemainingSizeMB'')) (\<lambda>l.
        mapE (\<lambda>d. (t, if d \<noteq> None then d else less_left completed t l))
          (bytes_from_mib (get raw ''DownloadedSizeMB''))))
      else Inr (tot, completed))"

definition sizes :: "string \<Rightarrow> pydict \<Rightarrow> pydict \<Rightarrow> py_exn + int option \<times> int option" where
  "sizes client task raw =
     bindE (integer (first_truthy [get raw ''bytes_total'', get raw ''total_size'', get raw ''size_bytes'',
        get raw ''size'', get task ''size_bytes''])) (\<lambda>tot.
     bindE (integer (first_truthy [get raw ''bytes_completed'', get raw ''downloaded_bytes'', get raw ''downloaded'']))
        (client_sizes client raw tot))"

text \<open>A declared percentage, a declared fraction, the undeclared \<open>progress\<close>, or the sizes.\<close>

definition declared_percent :: "pydict \<Rightarrow> pydict \<Rightarrow> py_exn + flt option" where
  "declared_percent task raw =
     bindE (number (get raw ''percent_complete'')) (\<lambda>p.
       if p \<noteq> None then Inr p
       else bindE (number (get raw ''progress_fraction'')) (\<lambda>f.
         bindE (if f \<noteq> None then Inr f else number (get task ''progress_fraction'')) (\<lambda>f.
           Inr (map_option (flt_scale 100) f))))"

definition guessed_percent :: "pydict \<Rightarrow> pydict \<Rightarrow> py_exn + flt option" where
  "guessed_percent task raw =
     mapE (map_option (\<lambda>x. if flt_le (Fin 0) x \<and> flt_le x (Fin 1) then flt_scale 100 x else x))
       (number (if none_or_empty (get raw ''progress'') then get task ''progress'' else get raw ''progress''))"

definition percent_of_sizes :: "int option \<Rightarrow> int option \<Rightarrow> flt option" where
  "percent_of_sizes completed tot =
     (case (completed, tot) of
        (Some c, Some t) \<Rightarrow> if t = 0 then None else Some (Fin (of_int c * 100 / of_int t))
      | _ \<Rightarrow> None)"

definition percent_complete :: "pydict \<Rightarrow> pydict \<Rightarrow> int option \<Rightarrow> int option \<Rightarrow> py_exn + flt option" where
  "percent_complete task raw completed tot =
     bindE (declared_percent task raw) (\<lambda>p.
     bindE (if p \<noteq> None then Inr p else guessed_percent task raw) (\<lambda>p.
       Inr (map_option (\<lambda>x. flt_round 2 (clamp_percent x))
         (if p \<noteq> None then p else percent_of_sizes completed tot))))"

section \<open>The state of a transfer\<close>

text \<open>What the decision looks at.\<close>

record signals =
  sg_client :: string
  sg_status :: string
  sg_task_state :: string
  sg_upstream :: string
  sg_history :: bool
  sg_complete :: bool
  sg_stalled :: bool
  sg_active :: bool

definition nzbget_terminal :: "signals \<Rightarrow> bool" where
  "nzbget_terminal g =
     (sg_client g = ''nzbget''
      \<and> (sg_history g \<or> list_ex (starts_with (sg_status g)) [''success'', ''deleted'', ''failure'', ''warning'']))"

text \<open>The branches after the verdict of the client, in their order; the second part is the import stage.\<close>

definition heuristic_state :: "signals \<Rightarrow> string \<times> string" where
  "heuristic_state g =
     (let client = sg_client g; status = sg_status g in
      if client = ''deluge'' \<and> status \<in> {''error'', ''failed''} then (''failed'', [])
      else if contains status ''import'' \<or> sg_task_state g = ''importing''
      then (''completed'', if status = [] then ''importing'' else status)
      else if contains_any status [''failed'', ''error'', ''cancel''] then (''failed'', [])
      else if client = ''transmission'' \<and> status = ''seeding'' then (''seeding'', [])
      else if client = ''deluge'' \<and> status = ''seeding'' then (''seeding'', [])
      else if status = ''unknown'' then (''unknown'', [])
      else if sg_complete g then (''completed'', [])
      else if sg_stalled g then (''stalled'', [])
      else if client = ''transmission'' \<and> status = ''paused'' then (''paused'', [])
      else if client = ''deluge'' \<and> status = ''paused'' then (''paused'', [])
      else if client = ''deluge'' \<and> status \<in> {''queued'', ''checking''} then (''queued'', [])
      else if client = ''deluge'' \<and> status \<in> {''downloading'', ''allocating'', ''moving''} then (''downloading'', [])
      else if client = ''nzbget'' \<and> status = ''paused'' then (''paused'', [])
      else if client = ''nzbget'' \<and> status \<in> {''queued'', ''pp-queued''} then (''queued'', [])
      else if client = ''nzbget'' \<and> status \<in> {''downloading'', ''fetching'', ''post-processing'', ''moving'', ''repairing''}
      then (''downloading'', [])
      else if client \<in> {''utorrent'', ''rtorrent''} \<and> status = ''seeding'' then (''seeding'', [])
      else if client \<in> {''utorrent'', ''rtorrent''} \<and> status = ''paused'' then (''paused'', [])
      else if client \<in> {''utorrent'', ''rtorrent''} \<and> status = ''active'' then (''downloading'', [])
      else if client \<in> {''qbittorrent'', ''sabnzbd''} \<and> status = ''paused'' then (''paused'', [])
      else if contains status ''queue'' \<or> contains status ''wait'' then (''queued'', [])
      else if sg_active g then (''downloading'', [])
      else (''unknown'', []))"

text \<open>The state, the import stage and the error; \<open>error\<close> is what the row itself reports.\<close>

definition transfer_state_of :: "signals \<Rightarrow> pydict \<Rightarrow> pyval \<Rightarrow> py_exn + string \<times> string \<times> pyval" where
  "transfer_state_of g raw error =
     (if sg_upstream g \<noteq> []
      then Inr (sg_upstream g, [],
        if sg_upstream g = ''failed'' \<and> \<not> truthy error
        then por (get raw ''health_reason'') (get raw ''client_error'') else error)
      else if nzbget_terminal g
      then mapE (\<lambda>v.
          (if starts_with (sg_status g) ''deleted'' then ''removed''
           else if vd_verdict v = ''clean'' then ''completed'' else ''failed'', [],
           if vd_verdict v \<noteq> ''clean'' \<and> \<not> truthy error then PStr (vd_reason v) else error))
        (nzbget_health_verdict raw)
      else Inr (fst (heuristic_state g), snd (heuristic_state g), error))"

definition status_text :: "pydict \<Rightarrow> pydict \<Rightarrow> string" where
  "status_text task raw = lower_text (first_truthy [get task ''status'', get raw ''client_state'', get raw ''status''])"

definition native_state_text :: "pydict \<Rightarrow> pydict \<Rightarrow> string" where
  "native_state_text task raw =
     strip (py_str (first_truthy [get raw ''state'', get raw ''client_state'', get task ''state'', PStr (status_text task raw)]))"

definition is_complete :: "flt option \<Rightarrow> string \<Rightarrow> bool" where
  "is_complete percent status =
     ((case percent of None \<Rightarrow> False | Some x \<Rightarrow> flt_le (Fin 100) x)
      \<or> contains_any status [''completed'', ''staged'', ''ready'', ''verified''])"

definition signals_of :: "string \<Rightarrow> pydict \<Rightarrow> pydict \<Rightarrow> flt option \<Rightarrow> signals" where
  "signals_of client task raw percent =
     (let status = status_text task raw; native = native_state_text task raw;
          terminal = contains_any status [''complete'', ''verified'', ''failed'', ''cancel'', ''removed''];
          complete = is_complete percent status;
          declared = lower_text (get raw ''transfer_state'')
      in \<lparr>sg_client = client, sg_status = status, sg_task_state = lower (str_or_empty (get task ''state'')),
          sg_upstream = (if declared \<in> set TRANSFER_STATES
            then coerce_transfer_state ''unknown'' (get raw ''transfer_state'') else []),
          sg_history = (lower_text (get raw ''_inkdrop_section'') = ''history''),
          sg_complete = complete,
          sg_stalled = (\<not> complete \<and> (contains (lower native) ''stall'' \<or> contains status ''stale''
            \<or> client = ''transmission'' \<and> get raw ''isStalled'' = PBool True)),
          sg_active = (contains_any status [''download'', ''transfer'', ''queued'', ''waiting'', ''started'', ''import'']
            \<and> \<not> terminal)\<rparr>)"

section \<open>The status record\<close>

definition lift :: "py_exn + 'a \<Rightarrow> record_error + 'a" where
  "lift r = (case r of Inl e \<Rightarrow> Inl (Raised e) | Inr x \<Rightarrow> Inr x)"

record times =
  tm_started :: "flt option"
  tm_updated :: "flt option"
  tm_completed :: "flt option"

definition times_of :: "(string \<Rightarrow> flt option) \<Rightarrow> pydict \<Rightarrow> pydict \<Rightarrow> py_exn + times" where
  "times_of parse_iso task raw =
     bindE (timestamp parse_iso (first_truthy [get raw ''started_at'', get raw ''added_on'', get task ''started_at''])) (\<lambda>s.
     bindE (timestamp parse_iso (first_truthy [get raw ''last_updated_at'', get raw ''last_activity'', get task ''updated_at''])) (\<lambda>u.
     mapE (\<lambda>c. \<lparr>tm_started = s, tm_updated = u, tm_completed = c\<rparr>)
       (timestamp parse_iso (first_truthy [get raw ''completed_at'', get raw ''completion_on'', get task ''completed_at'']))))"

definition elapsed_seconds :: "rat \<Rightarrow> flt option \<Rightarrow> py_exn + int option" where
  "elapsed_seconds now started =
     (case started of None \<Rightarrow> Inr None | Some s \<Rightarrow> mapE Some (flt_int (flt_max (Fin 0) (flt_sub (Fin now) s))))"

definition transfer_identity :: "string \<Rightarrow> pydict \<Rightarrow> pydict \<Rightarrow> download_identity" where
  "transfer_identity client task raw =
     (let i = identity_from_mapping (Some (PStr client)) None None (PDict task) in
      if identity_resolved i then i else identity_from_mapping (Some (PStr client)) None None (PDict raw))"

definition text_or :: "pyval list \<Rightarrow> string" where
  "text_or vs = (let v = first_truthy (vs @ [PStr []]) in text_of v)"

definition normalize_transfer_status ::
    "(string \<Rightarrow> flt option) \<Rightarrow> rat \<Rightarrow> pyval \<Rightarrow> pyval \<Rightarrow> record_error + pydict" where
  "normalize_transfer_status parse_iso now task0 raw0 =
     (let task = as_dict task0; raw = nested_raw (as_dict raw0); client = client_name task raw;
          status = status_text task raw; native = native_state_text task raw in
      bindE (lift (sizes client task raw)) (\<lambda>(tot, completed).
      bindE (lift (percent_complete task raw completed tot)) (\<lambda>percent.
      let completed = opt_min completed tot; g = signals_of client task raw percent in
      bindE (lift (times_of parse_iso task raw)) (\<lambda>tm.
      bindE (lift (transfer_state_of g raw (first_truthy [get task ''failure_reason'', get raw ''failure_reason'',
          get raw ''error'', get raw ''fail_message'']))) (\<lambda>(state, stage, error).
      bindE (lift (rate_bytes (first_truthy [get raw ''download_rate_bytes_per_second'', get raw ''download_speed'',
          get raw ''dlspeed'', get raw ''speed'']))) (\<lambda>rate.
      bindE (lift (duration_seconds (first_truthy [get raw ''eta_seconds'', get raw ''eta'', get raw ''timeleft'']))) (\<lambda>eta.
      bindE (lift (elapsed_seconds now (tm_started tm))) (\<lambda>elapsed.
      bindE (progress_from_percent (of_flt percent) (of_int_opt completed) (of_int_opt tot)) (\<lambda>progress.
      bindE (lift (rate_bytes (first_truthy [get raw ''upload_rate_bytes_per_second'', get raw ''upload_speed'',
          get raw ''upspeed'']))) (\<lambda>upload.
      bindE (status_post_init \<lparr>ts_identity = transfer_identity client task raw, ts_state = state,
          ts_native_state = native, ts_progress = progress, ts_download_rate = rate, ts_upload_rate = upload,
          ts_eta_seconds = (if sg_complete g then None else eta), ts_elapsed_seconds = elapsed,
          ts_started_at = tm_started tm, ts_last_updated_at = tm_updated tm, ts_completed_at = tm_completed tm,
          ts_stalled_reason = (if sg_stalled g then (if native = [] then status else native) else []),
          ts_client_error = (if truthy error then py_str error else []), ts_import_stage = stage,
          ts_health_verdict = lower_text (get raw ''health_verdict''),
          ts_health_reason = text_or [get raw ''health_reason''],
          ts_output_path = text_or [get raw ''completed_output_path''],
          ts_display_title = text_or [get task ''title'', get raw ''title'', get raw ''name''],
          ts_source = text_or [get task ''source'', get raw ''source''],
          ts_provider = text_or [get task ''provider'', get raw ''provider'']\<rparr>)
        status_to_dict))))))))))"

section \<open>Properties\<close>

text \<open>What it takes for an NZBGet row to have been verified by NZBGet itself, without regard to the order of the checks.\<close>

definition nzbget_verified :: "pydict \<Rightarrow> bool" where
  "nzbget_verified row =
     (let repaired = (nzbget_field row ''ParStatus'' = ''SUCCESS'') in
      case (dict_rows (por (get row ''ScriptStatuses'') (get row ''script_statuses'')),
            integer (PStr (nzbget_field row ''Health'')), integer (PStr (nzbget_field row ''CriticalHealth'')),
            integer (PStr (nzbget_field row ''FailedArticles''))) of
        (Inr entries, Inr health, Inr critical, Inr failed) \<Rightarrow>
          nzbget_field row ''Status'' \<in> set NZBGET_CLEAN_HISTORY_STATUS
          \<and> (\<forall>k \<in> {''ParStatus'', ''UnpackStatus'', ''MoveStatus'', ''ScriptStatus''}.
                nzbget_field row k \<in> {[], ''NONE'', ''SUCCESS''})
          \<and> (\<forall>e \<in> set entries. nzbget_field e ''Status'' \<in> {[], ''NONE'', ''SUCCESS''})
          \<and> (\<forall>k \<in> {''MarkStatus'', ''DeleteStatus''}. nzbget_field row k \<in> {[], ''NONE''})
          \<and> (\<forall>h. health = Some h \<longrightarrow> (repaired \<or> h \<ge> NZBGET_FULL_HEALTH)
                \<and> (\<forall>c. critical = Some c \<longrightarrow> c > 0 \<longrightarrow> h \<ge> c))
          \<and> (\<forall>n. failed = Some n \<longrightarrow> repaired \<or> n = 0)
      | _ \<Rightarrow> False)"

lemma unclean_iff: "\<not> unclean allowed s \<longleftrightarrow> s \<in> insert [] (set allowed)"
  by (auto simp: unclean_def)

lemma script_verdict_None: "script_verdict f s = None \<longleftrightarrow> s \<in> {[], ''NONE'', ''SUCCESS''}"
  by (auto simp: script_verdict_def unclean_def NZBGET_CLEAN_def)

lemma script_verdict_not_clean: "script_verdict f s = Some v \<Longrightarrow> vd_verdict v \<noteq> ''clean''"
  by (auto simp: script_verdict_def split: if_splits)

lemma first_verdict:
  "(case x of Some v \<Rightarrow> Some v | None \<Rightarrow> y) = None \<longleftrightarrow> x = None \<and> y = None"
  "(case x of Some v \<Rightarrow> Some v | None \<Rightarrow> y) = Some w \<longleftrightarrow> x = Some w \<or> x = None \<and> y = Some w"
  by (cases x; auto)+

lemma script_entries_None:
  "script_entries es = None \<longleftrightarrow> (\<forall>e \<in> set es. nzbget_field e ''Status'' \<in> {[], ''NONE'', ''SUCCESS''})"
  by (induction es) (simp_all add: Let_def first_verdict script_verdict_None)

lemma script_entries_not_clean: "script_entries es = Some v \<Longrightarrow> vd_verdict v \<noteq> ''clean''"
proof (induction es)
  case (Cons e es)
  then show ?case by (simp only: script_entries.simps Let_def first_verdict) (blast dest: script_verdict_not_clean)
qed simp

lemma health_problem_None:
  "health_problem repaired health critical = None \<longleftrightarrow>
     (\<forall>h. health = Some h \<longrightarrow> (repaired \<or> h \<ge> NZBGET_FULL_HEALTH) \<and> (\<forall>c. critical = Some c \<longrightarrow> c > 0 \<longrightarrow> h \<ge> c))"
  by (auto simp: health_problem_def split: option.splits)

lemma articles_problem_None: "articles_problem repaired failed = None \<longleftrightarrow> (\<forall>n. failed = Some n \<longrightarrow> repaired \<or> n = 0)"
  by (auto simp: articles_problem_def split: option.splits)

lemma problems_not_clean:
  "health_problem r h c = Some v \<Longrightarrow> vd_verdict v \<noteq> ''clean''" "articles_problem r f = Some v \<Longrightarrow> vd_verdict v \<noteq> ''clean''"
  by (auto simp: health_problem_def articles_problem_def split: option.splits if_splits)

lemma status_verdict_clean: "vd_verdict (status_verdict s) = ''clean'' \<longleftrightarrow> s \<in> set NZBGET_CLEAN_HISTORY_STATUS"
proof (cases "s \<in> set NZBGET_CLEAN_HISTORY_STATUS")
  case True
  then have "s \<noteq> [] \<and> starts_with s ''SUCCESS''" by (auto simp: NZBGET_CLEAN_HISTORY_STATUS_def)
  then show ?thesis using True by (simp add: status_verdict_def)
next
  case False
  then show ?thesis by (simp add: status_verdict_def)
qed

lemma clean_steps:
  "(case r of None \<Rightarrow> x | Some v \<Rightarrow> Inr v) = Inr w \<longleftrightarrow> (r = None \<and> x = Inr w) \<or> r = Some w"
  by (cases r) auto

lemma clean_if: "(if c then Inr (damaged s) else x) = Inr w \<Longrightarrow> vd_verdict w = ''clean'' \<Longrightarrow> \<not> c \<and> x = Inr w"
  by (auto split: if_splits)

lemma verified_if_clean:
  assumes v: "nzbget_health_verdict row = Inr v" "vd_verdict v = ''clean''"
  shows "nzbget_verified row"
proof -
  note 1 = clean_if [OF v(1) [unfolded nzbget_health_verdict_def Let_def] v(2)]
  note 2 = clean_if [OF conjunct2 [OF 1] v(2)]
  note 3 = clean_if [OF conjunct2 [OF 2] v(2)]
  have 4: "script_verdict ''NZBGet post-processing script failed'' (nzbget_field row ''ScriptStatus'') = None"
    using conjunct2 [OF 3] v(2) script_verdict_not_clean by (auto simp: clean_steps)
  then obtain entries where 5: "dict_rows (por (get row ''ScriptStatuses'') (get row ''script_statuses'')) = Inr entries"
    "script_entries entries = None"
    using conjunct2 [OF 3] v(2) script_entries_not_clean by (auto simp: clean_steps result_simps)
  then have 6: "\<not> unclean [''NONE''] (nzbget_field row ''MarkStatus'')"
    using conjunct2 [OF 3] v(2) 4 by (auto simp: clean_steps result_simps split: if_splits)
  then obtain health critical failed where 7: "integer (PStr (nzbget_field row ''Health'')) = Inr health"
    "integer (PStr (nzbget_field row ''CriticalHealth'')) = Inr critical"
    "health_problem (nzbget_field row ''ParStatus'' = ''SUCCESS'') health critical = None"
    "integer (PStr (nzbget_field row ''FailedArticles'')) = Inr failed"
    "articles_problem (nzbget_field row ''ParStatus'' = ''SUCCESS'') failed = None"
    "\<not> unclean [''NONE''] (nzbget_field row ''DeleteStatus'')" "v = status_verdict (nzbget_field row ''Status'')"
    using conjunct2 [OF 3] v(2) 4 5 problems_not_clean by (auto simp: clean_steps result_simps split: if_splits)
  have "nzbget_field row ''Status'' \<in> set NZBGET_CLEAN_HISTORY_STATUS"
    using v(2) 7(7) by (simp add: status_verdict_clean)
  then show ?thesis
    using 1 2 3 4 5 6 7 unfolding nzbget_verified_def health_problem_None articles_problem_None
      script_verdict_None script_entries_None unclean_iff
    by (simp add: Let_def NZBGET_CLEAN_def)
qed

lemma clean_if_verified:
  assumes a: "nzbget_verified row"
  shows "\<exists>v. nzbget_health_verdict row = Inr v \<and> vd_verdict v = ''clean''"
proof -
  obtain entries health critical failed where d: "dict_rows (por (get row ''ScriptStatuses'') (get row ''script_statuses'')) = Inr entries"
    "integer (PStr (nzbget_field row ''Health'')) = Inr health" "integer (PStr (nzbget_field row ''CriticalHealth'')) = Inr critical"
    "integer (PStr (nzbget_field row ''FailedArticles'')) = Inr failed"
    using a by (auto simp: nzbget_verified_def Let_def split: sum.splits)
  let ?rep = "nzbget_field row ''ParStatus'' = ''SUCCESS''"
  have "script_verdict ''NZBGet post-processing script failed'' (nzbget_field row ''ScriptStatus'') = None"
    "script_entries entries = None" "health_problem ?rep health critical = None" "articles_problem ?rep failed = None"
    using a d unfolding script_verdict_None script_entries_None health_problem_None articles_problem_None
    by (simp_all add: nzbget_verified_def Let_def)
  moreover have "\<not> unclean NZBGET_CLEAN (nzbget_field row ''ParStatus'')" "\<not> unclean NZBGET_CLEAN (nzbget_field row ''UnpackStatus'')"
    "\<not> unclean NZBGET_CLEAN (nzbget_field row ''MoveStatus'')" "\<not> unclean [''NONE''] (nzbget_field row ''MarkStatus'')"
    "\<not> unclean [''NONE''] (nzbget_field row ''DeleteStatus'')"
    using a d by (simp_all add: nzbget_verified_def Let_def unclean_iff NZBGET_CLEAN_def)
  ultimately have "nzbget_health_verdict row = Inr (status_verdict (nzbget_field row ''Status''))"
    using d by (simp add: nzbget_health_verdict_def Let_def)
  moreover have "nzbget_field row ''Status'' \<in> set NZBGET_CLEAN_HISTORY_STATUS"
    using a d by (simp add: nzbget_verified_def Let_def)
  ultimately show ?thesis
    by (simp add: status_verdict_clean)
qed


lemma lift_Inr [simp]: "lift r = Inr x \<longleftrightarrow> r = Inr x"
  by (cases r) (simp_all add: lift_def)

text \<open>What a normalized status consists of.\<close>

lemma normalize_cases:
  assumes "normalize_transfer_status parse_iso now task0 raw0 = Inr out"
  obtains percent state stage error progress s t v c tot where
    "transfer_state_of (signals_of (client_name (as_dict task0) (nested_raw (as_dict raw0))) (as_dict task0)
        (nested_raw (as_dict raw0)) percent) (nested_raw (as_dict raw0)) v = Inr (state, stage, error)"
    "progress_from_percent (of_flt percent) c tot = Inr progress"
    "status_post_init s = Inr t" "ts_state s = state" "ts_progress s = progress" "status_to_dict t = Inr out"
  using assms unfolding normalize_transfer_status_def Let_def
  by (fastforce simp: result_simps split: prod.splits)

lemma post_init_progress: "status_post_init s = Inr t \<Longrightarrow> ts_progress t = ts_progress s"
  by (auto simp: status_post_init_def result_simps Let_def split: if_splits)

lemma post_init_state: "status_post_init s = Inr t \<Longrightarrow> ts_state t = lower (strip (ts_state s))"
  by (auto simp: status_post_init_def result_simps Let_def require_transfer_state_def split: if_splits)

lemma to_dict_fields:
  assumes "status_to_dict t = Inr out"
  shows "get out ''transfer_state'' = PStr (ts_state t)" "get out ''percent_complete'' = of_flt (tp_percent (ts_progress t))"
    "get out ''bytes_completed'' = of_int_opt (tp_completed (ts_progress t))"
    "get out ''bytes_total'' = of_int_opt (tp_total (ts_progress t))"
    "get out ''stalled'' = PBool (ts_state t = ''stalled'')" "get out ''seeding'' = PBool (ts_state t = ''seeding'')"
  using assms by (auto simp: status_to_dict_def result_simps get_def status_stalled_def status_seeding_def)

text \<open>
  C20: What comes out is canonical: the state is one of the nine, the two flags agree with it, the percentage is
  between 0 and 100, and the bytes completed do not exceed the size.
\<close>

theorem normalized_status_canonical:
  assumes "normalize_transfer_status parse_iso now task raw = Inr out"
  shows "\<exists>s p. get out ''transfer_state'' = PStr s \<and> s \<in> set TRANSFER_STATES
    \<and> get out ''stalled'' = PBool (s = ''stalled'') \<and> get out ''seeding'' = PBool (s = ''seeding'')
    \<and> progress_ok p \<and> get out ''percent_complete'' = of_flt (tp_percent p)
    \<and> get out ''bytes_completed'' = of_int_opt (tp_completed p) \<and> get out ''bytes_total'' = of_int_opt (tp_total p)"
  using assms
proof (rule normalize_cases)
  fix percent progress s t c tot
  assume "progress_from_percent (of_flt percent) c tot = Inr progress" "status_post_init s = Inr t"
    "ts_progress s = progress" "status_to_dict t = Inr out"
  then have "progress_ok (ts_progress t)" "ts_state t \<in> set TRANSFER_STATES"
    using progress_invariant post_init_progress status_post_init_state by metis+
  then show ?thesis using to_dict_fields [OF \<open>status_to_dict t = Inr out\<close>] by blast
qed

text \<open>
  C19: What NZBGet has not verified is never reported as completed: a row of its history comes out as
  completed only if NZBGet verified it, unless an InkDrop status builder had declared the state itself.
\<close>

theorem unverified_never_completed:
  assumes "normalize_transfer_status parse_iso now task raw = Inr out"
    and "client_name (as_dict task) (nested_raw (as_dict raw)) = ''nzbget''"
    and "lower_text (get (nested_raw (as_dict raw)) ''_inkdrop_section'') = ''history''"
    and "lower_text (get (nested_raw (as_dict raw)) ''transfer_state'') \<notin> set TRANSFER_STATES"
    and "get out ''transfer_state'' = PStr ''completed''"
  shows "nzbget_verified (nested_raw (as_dict raw))"
  using assms(1)
proof (rule normalize_cases)
  fix percent state stage error s t v
  let ?raw = "nested_raw (as_dict raw)" and ?task = "as_dict task"
  let ?g = "signals_of (client_name ?task ?raw) ?task ?raw percent"
  assume st: "transfer_state_of ?g ?raw v = Inr (state, stage, error)"
    and t: "status_post_init s = Inr t" "ts_state s = state" "status_to_dict t = Inr out"
  have g: "sg_client ?g = ''nzbget''" "sg_history ?g" "sg_upstream ?g = []"
    using assms(2-4) by (simp_all add: signals_of_def Let_def)
  have "ts_state t = ''completed''" using assms(5) to_dict_fields(1) [OF t(3)] by simp
  then have fin: "lower (strip state) = ''completed''" using post_init_state [OF t(1)] t(2) by simp
  obtain w where w: "nzbget_health_verdict ?raw = Inr w"
    "state = (if starts_with (sg_status ?g) ''deleted'' then ''removed'' else if vd_verdict w = ''clean'' then ''completed'' else ''failed'')"
    using st g by (auto simp: transfer_state_of_def nzbget_terminal_def mapE_def result_simps)
  have "lower (strip ''removed'') = ''removed''" "lower (strip ''failed'') = ''failed''" by code_simp+
  then have "vd_verdict w = ''clean''" using w(2) fin by (auto split: if_splits)
  then show ?thesis using w(1) verified_if_clean by blast
qed

section \<open>Witnesses\<close>

definition sample_task :: pyval where
  "sample_task = PDict [(''download_client'', PStr ''NZBGet''), (''status'', PStr ''SUCCESS'')]"

definition sample_history :: "string \<Rightarrow> pyval" where
  "sample_history par = PDict [(''_inkdrop_section'', PStr ''history''), (''Status'', PStr ''SUCCESS/ALL''),
     (''ParStatus'', PStr par), (''UnpackStatus'', PStr ''SUCCESS'')]"

definition sample_out :: "string \<Rightarrow> record_error + pydict" where
  "sample_out par = normalize_transfer_status (\<lambda>_. None) 1000 sample_task (sample_history par)"

lemma sample_state: "mapE (\<lambda>out. get out ''transfer_state'') (sample_out ''SUCCESS'') = Inr (PStr ''completed'')"
  by code_simp

lemma sample_completed: obtains out where "sample_out ''SUCCESS'' = Inr out" "get out ''transfer_state'' = PStr ''completed''"
  using sample_state by (auto simp: mapE_def result_simps)

lemma normalized_status_canonical_witness:
  "\<exists>out s. sample_out ''SUCCESS'' = Inr out \<and> get out ''transfer_state'' = PStr s \<and> s \<in> set TRANSFER_STATES"
proof -
  obtain out where out: "sample_out ''SUCCESS'' = Inr out" by (rule sample_completed)
  show ?thesis using normalized_status_canonical [OF out [unfolded sample_out_def]] out by blast
qed

lemma unverified_never_completed_witness:
  "nzbget_verified (nested_raw (as_dict (sample_history ''SUCCESS'')))"
proof -
  obtain out where out: "sample_out ''SUCCESS'' = Inr out" "get out ''transfer_state'' = PStr ''completed''"
    by (rule sample_completed)
  have "client_name (as_dict sample_task) (nested_raw (as_dict (sample_history ''SUCCESS''))) = ''nzbget''"
    "lower_text (get (nested_raw (as_dict (sample_history ''SUCCESS''))) ''_inkdrop_section'') = ''history''"
    "lower_text (get (nested_raw (as_dict (sample_history ''SUCCESS''))) ''transfer_state'') \<notin> set TRANSFER_STATES"
    by code_simp+
  then show ?thesis by (rule unverified_never_completed [OF out(1) [unfolded sample_out_def] _ _ _ out(2)])
qed

section \<open>Observations\<close>

text \<open>A percentage that is not a number reads as a finished transfer.\<close>

lemma nan_percent_completes:
  "mapE (\<lambda>out. (get out ''transfer_state'', get out ''percent_complete''))
     (normalize_transfer_status (\<lambda>_. None) 1000 (PDict [(''status'', PStr ''downloading'')])
        (PDict [(''percent_complete'', PStr ''nan'')]))
   = Inr (PStr ''completed'', PFloat (Fin 100))"
  by code_simp

text \<open>A health verdict outside the three words raises in the normalization.\<close>

lemma foreign_verdict_raises:
  "normalize_transfer_status (\<lambda>_. None) 1000 (PDict [(''status'', PStr ''downloading'')])
     (PDict [(''health_verdict'', PStr ''warning'')]) = Inl ShapeError"
  by code_simp

end
